(* ===== verification/A2A_Prelude.thy ===== *)
theory A2A_Prelude
  imports Main "HOL-Library.AList" "HOL-Library.Char_ord" "HOL-Library.List_Lexorder"
    "HOL-Library.Product_Lexorder"
begin

text \<open>
  Shared material of the development: the outcome of a fallible Rust function (a value, an error,
  or a panic), the state-passing composition that models \<^verbatim>\<open>?\<close> and early return inside one critical
  section, checked integer arithmetic at the widths the sources use, and the executable
  representations of \<^verbatim>\<open>HashMap\<close>, \<^verbatim>\<open>HashSet\<close> and \<^verbatim>\<open>BinaryHeap<Reverse<_>>\<close> with the lemmas the
  component theories rely on.

  A \<^verbatim>\<open>HashMap\<close> is an association list with distinct keys.  The order of the list stands for the
  iteration order of the map, which Rust leaves unspecified; no invariant of the development
  mentions it.  A \<^verbatim>\<open>HashSet\<close> is a list read through \<^const>\<open>set\<close>.  A min-heap of deadlines is
  the sorted list of its elements.
\<close>

section \<open>Collections of proof rules\<close>

named_theorems hm_simps \<open>lookup in updated hash maps\<close>
named_theorems op_defs \<open>definitions of the state-passing combinators\<close>

section \<open>Outcomes of fallible code\<close>

datatype ('e, 'a) res = Ok 'a | Err 'e | Panic

fun res_bind :: "('e, 'a) res \<Rightarrow> ('a \<Rightarrow> ('e, 'b) res) \<Rightarrow> ('e, 'b) res" where
  "res_bind (Ok a) f = f a"
| "res_bind (Err e) f = Err e"
| "res_bind Panic f = Panic"

definition ok_or :: "'a option \<Rightarrow> 'e \<Rightarrow> ('e, 'a) res" where
  "ok_or x e = (case x of None \<Rightarrow> Err e | Some a \<Rightarrow> Ok a)"

definition expect :: "'a option \<Rightarrow> ('e, 'a) res" where
  "expect x = (case x of None \<Rightarrow> Panic | Some a \<Rightarrow> Ok a)"

fun map_err :: "'f \<Rightarrow> ('e, 'a) res \<Rightarrow> ('f, 'a) res" where
  "map_err f (Ok a) = Ok a"
| "map_err f (Err e) = Err f"
| "map_err f Panic = Panic"

text \<open>\<^verbatim>\<open>iter().map(f).collect::<Result<Vec<_>, _>>()\<close>: the first failure wins.\<close>

fun collect_res :: "('a \<Rightarrow> ('e, 'b) res) \<Rightarrow> 'a list \<Rightarrow> ('e, 'b list) res" where
  "collect_res f [] = Ok []"
| "collect_res f (x # xs) =
     res_bind (f x) (\<lambda>y. res_bind (collect_res f xs) (\<lambda>ys. Ok (y # ys)))"

lemma res_bind_eq_Ok: "res_bind r f = Ok b \<longleftrightarrow> (\<exists>a. r = Ok a \<and> f a = Ok b)"
  by (cases r) auto

lemma res_bind_eq_Panic: "res_bind r f = Panic \<longleftrightarrow> r = Panic \<or> (\<exists>a. r = Ok a \<and> f a = Panic)"
  by (cases r) auto

lemma ok_or_eq_Ok [simp]: "ok_or x e = Ok a \<longleftrightarrow> x = Some a"
  by (cases x) (auto simp: ok_or_def)

lemma ok_or_not_Panic [simp]: "ok_or x e \<noteq> Panic"
  by (cases x) (auto simp: ok_or_def)

lemma ok_or_simps [simp]: "ok_or None e = Err e" "ok_or (Some a) e = Ok a"
  by (auto simp: ok_or_def)

lemma expect_simps [simp]: "expect None = Panic" "expect (Some a) = Ok a"
  by (auto simp: expect_def)

lemma expect_eq_Ok [simp]: "expect x = Ok a \<longleftrightarrow> x = Some a"
  by (cases x) (auto simp: expect_def)

lemma map_err_eq_Ok [simp]: "map_err e r = Ok a \<longleftrightarrow> r = Ok a"
  by (cases r) auto

lemma map_err_eq_Panic [simp]: "map_err e r = Panic \<longleftrightarrow> r = Panic"
  by (cases r) auto

lemma collect_res_Ok:
  "collect_res f xs = Ok ys \<longleftrightarrow> list_all2 (\<lambda>x y. f x = Ok y) xs ys"
  by (induction xs arbitrary: ys) (auto simp: res_bind_eq_Ok list_all2_Cons1)

lemma collect_res_not_Panic:
  "(\<And>x. x \<in> set xs \<Longrightarrow> f x \<noteq> Panic) \<Longrightarrow> collect_res f xs \<noteq> Panic"
  by (induction xs) (auto simp: res_bind_eq_Panic)

section \<open>State-passing operations\<close>

text \<open>
  An operation maps a state to an outcome and the state it leaves behind.  Unlike a transaction,
  a Rust function that returns early with \<^verbatim>\<open>?\<close> keeps the mutations made so far, so the state is
  returned with errors and panics as well.
\<close>

type_synonym ('s, 'e, 'a) op = "'s \<Rightarrow> ('e, 'a) res \<times> 's"

definition ret :: "'a \<Rightarrow> ('s, 'e, 'a) op" where
  "ret a s = (Ok a, s)"

definition lift_res :: "('e, 'a) res \<Rightarrow> ('s, 'e, 'a) op" where
  "lift_res r s = (r, s)"

definition throw :: "'e \<Rightarrow> ('s, 'e, 'a) op" where
  "throw e s = (Err e, s)"

definition gets :: "('s \<Rightarrow> 'a) \<Rightarrow> ('s, 'e, 'a) op" where
  "gets f s = (Ok (f s), s)"

definition modify :: "('s \<Rightarrow> 's) \<Rightarrow> ('s, 'e, unit) op" where
  "modify f s = (Ok (), f s)"

definition bindM :: "('s, 'e, 'a) op \<Rightarrow> ('a \<Rightarrow> ('s, 'e, 'b) op) \<Rightarrow> ('s, 'e, 'b) op" where
  "bindM m k s = (case m s of
       (Ok a, s') \<Rightarrow> k a s'
     | (Err e, s') \<Rightarrow> (Err e, s')
     | (Panic, s') \<Rightarrow> (Panic, s'))"

definition whenM :: "bool \<Rightarrow> ('s, 'e, unit) op \<Rightarrow> ('s, 'e, unit) op" where
  "whenM b m = (if b then m else ret ())"

fun forM :: "'a list \<Rightarrow> ('a \<Rightarrow> ('s, 'e, unit) op) \<Rightarrow> ('s, 'e, unit) op" where
  "forM [] f = ret ()"
| "forM (x # xs) f = bindM (f x) (\<lambda>_. forM xs f)"

declare ret_def [op_defs] lift_res_def [op_defs] throw_def [op_defs] gets_def [op_defs]
  modify_def [op_defs]

lemma ret_app [simp]: "ret a s = (r, s') \<longleftrightarrow> r = Ok a \<and> s' = s"
  by (auto simp: ret_def)

lemma throw_app [simp]: "throw e s = (r, s') \<longleftrightarrow> r = Err e \<and> s' = s"
  by (auto simp: throw_def)

lemma lift_res_app [simp]: "lift_res x s = (r, s') \<longleftrightarrow> r = x \<and> s' = s"
  by (auto simp: lift_res_def)

lemma gets_app [simp]: "gets f s = (r, s') \<longleftrightarrow> r = Ok (f s) \<and> s' = s"
  by (auto simp: gets_def)

lemma modify_app [simp]: "modify f s = (r, s') \<longleftrightarrow> r = Ok () \<and> s' = f s"
  by (auto simp: modify_def)

lemma bindM_cases:
  assumes "bindM m k s = (r, s')"
  obtains (ok) a t where "m s = (Ok a, t)" "k a t = (r, s')"
    | (err) e where "m s = (Err e, s')" "r = Err e"
    | (panic) "m s = (Panic, s')" "r = Panic"
  using assms by (auto simp: bindM_def split: prod.splits res.splits)

lemma bindM_simps [simp]:
  "m s = (Ok a, t) \<Longrightarrow> bindM m k s = k a t"
  "m s = (Err e, t) \<Longrightarrow> bindM m k s = (Err e, t)"
  "m s = (Panic, t) \<Longrightarrow> bindM m k s = (Panic, t)"
  by (simp_all add: bindM_def)

lemma bindM_primitive [simp]:
  "bindM (ret a) k s = k a s"
  "bindM (throw e) k s = (Err e, s)"
  "bindM (gets f) k s = k (f s) s"
  "bindM (modify f) k s = k () (f s)"
  by (simp_all add: bindM_def op_defs)

lemma bindM_lift_res:
  "bindM (lift_res x) k s = (case x of Ok a \<Rightarrow> k a s | Err e \<Rightarrow> (Err e, s) | Panic \<Rightarrow> (Panic, s))"
  by (simp add: bindM_def lift_res_def)

text \<open>
  Weakest preconditions: from \<open>s\<close> the operation does not panic, a normal return satisfies \<open>Q\<close>
  and an early return with an error satisfies \<open>E\<close>.
\<close>

definition wp ::
    "('s, 'e, 'a) op \<Rightarrow> ('e \<Rightarrow> 's \<Rightarrow> bool) \<Rightarrow> ('a \<Rightarrow> 's \<Rightarrow> bool) \<Rightarrow> 's \<Rightarrow> bool" where
  "wp m E Q s = (case m s of (Ok a, s') \<Rightarrow> Q a s' | (Err e, s') \<Rightarrow> E e s' | (Panic, s') \<Rightarrow> False)"

lemma wp_bindM [simp]: "wp (bindM m k) E Q s = wp m E (\<lambda>a. wp (k a) E Q) s"
  by (simp add: wp_def bindM_def split: prod.splits res.splits)

lemma wp_primitive [simp]:
  "wp (ret a) E Q s = Q a s"
  "wp (throw e) E Q s = E e s"
  "wp (gets f) E Q s = Q (f s) s"
  "wp (modify g) E R s = R () (g s)"
  by (simp_all add: wp_def op_defs)

text \<open>The same, for an operation whose state is not applied.\<close>

lemma wp_bindM_ret: "wp (bindM m (\<lambda>_. ret a)) E Q = wp m E (\<lambda>_. Q a)"
  by (rule ext) (simp add: wp_def bindM_def op_defs split: prod.splits res.splits)

lemma wp_lift_res: "wp (lift_res x) E Q s = (x \<noteq> Panic \<and> (\<forall>a. x = Ok a \<longrightarrow> Q a s) \<and> (\<forall>e. x = Err e \<longrightarrow> E e s))"
  by (cases x) (simp_all add: wp_def op_defs)

lemma wp_lift_values [simp]:
  "wp (lift_res (Ok a)) E Q s = Q a s"
  "wp (lift_res (Err e)) E Q s = E e s"
  "wp (lift_res Panic) E Q s = False"
  by (simp_all add: wp_def op_defs)

lemma wp_lift_ok_or [simp]:
  "wp (lift_res (ok_or x e)) E Q s = (case x of None \<Rightarrow> E e s | Some a \<Rightarrow> Q a s)"
  by (cases x) (simp_all add: wp_def op_defs)

lemma wp_lift_expect [simp]:
  "wp (lift_res (expect x)) E Q s = (case x of None \<Rightarrow> False | Some a \<Rightarrow> Q a s)"
  by (cases x) (simp_all add: wp_def op_defs)

lemma wp_whenM [simp]: "wp (whenM b m) E Q s = (if b then wp m E Q s else Q () s)"
  by (simp add: whenM_def)

lemma wp_conseq:
  assumes "wp m E Q s"
    and "\<And>a t. Q a t \<Longrightarrow> Q' a t" and "\<And>e t. E e t \<Longrightarrow> E' e t"
  shows "wp m E' Q' s"
  using assms by (auto simp: wp_def split: prod.splits res.splits)

lemma wp_conj:
  "wp m E Q s \<Longrightarrow> wp m E' Q' s \<Longrightarrow> wp m (\<lambda>e t. E e t \<and> E' e t) (\<lambda>a t. Q a t \<and> Q' a t) s"
  by (auto simp: wp_def split: prod.splits res.splits)

lemma wp_result:
  assumes "wp m E Q s" and "m s = (r, t)"
  shows "r \<noteq> Panic" and "r = Ok a \<Longrightarrow> Q a t" and "r = Err e \<Longrightarrow> E e t"
  using assms by (auto simp: wp_def split: res.splits)

lemma wp_run: "wp m E (\<lambda>a t. t = snd (m s) \<longrightarrow> Q a t) s \<Longrightarrow> wp m E Q s"
  by (auto simp: wp_def split: prod.splits res.splits)

lemma wp_total: "m s = (Ok a, t) \<Longrightarrow> wp m E Q s = Q a t"
  by (simp add: wp_def)

lemma wp_forM:
  assumes "\<And>x t. x \<in> set xs \<Longrightarrow> I t \<Longrightarrow> wp (f x) E (\<lambda>_. I) t" and "I s"
  shows "wp (forM xs f) E (\<lambda>_. I) s"
  using assms
proof (induction xs arbitrary: s)
  case (Cons x xs)
  have "wp (f x) E (\<lambda>_. I) s" using Cons.prems by simp
  then show ?case
    by (simp) (rule wp_conseq, assumption, use Cons in auto)
qed simp

section \<open>Checked arithmetic\<close>

type_synonym i64 = int
type_synonym u64 = nat
type_synonym u32 = nat

definition i64_min :: int where "i64_min = - (2 ^ 63)"
definition i64_max :: int where "i64_max = 2 ^ 63 - 1"
definition u64_max :: nat where "u64_max = 2 ^ 64 - 1"
definition u32_max :: nat where "u32_max = 2 ^ 32 - 1"

definition i64_range :: "int \<Rightarrow> bool" where
  "i64_range x \<longleftrightarrow> i64_min \<le> x \<and> x \<le> i64_max"

definition checked_add_i64 :: "i64 \<Rightarrow> i64 \<Rightarrow> i64 option" where
  "checked_add_i64 a b = (if i64_range (a + b) then Some (a + b) else None)"

definition checked_sub_i64 :: "i64 \<Rightarrow> i64 \<Rightarrow> i64 option" where
  "checked_sub_i64 a b = (if i64_range (a - b) then Some (a - b) else None)"

definition checked_add_u64 :: "u64 \<Rightarrow> u64 \<Rightarrow> u64 option" where
  "checked_add_u64 a b = (if a + b \<le> u64_max then Some (a + b) else None)"

definition checked_add_u32 :: "u32 \<Rightarrow> u32 \<Rightarrow> u32 option" where
  "checked_add_u32 a b = (if a + b \<le> u32_max then Some (a + b) else None)"

lemma checked_add_i64_Some:
  "checked_add_i64 a b = Some c \<longleftrightarrow> c = a + b \<and> i64_range (a + b)"
  by (auto simp: checked_add_i64_def)

lemma checked_sub_i64_Some:
  "checked_sub_i64 a b = Some c \<longleftrightarrow> c = a - b \<and> i64_range (a - b)"
  by (auto simp: checked_sub_i64_def)

lemma checked_add_u64_Some:
  "checked_add_u64 a b = Some c \<longleftrightarrow> c = a + b \<and> a + b \<le> u64_max"
  by (auto simp: checked_add_u64_def)

lemma checked_add_u32_Some:
  "checked_add_u32 a b = Some c \<longleftrightarrow> c = a + b \<and> a + b \<le> u32_max"
  by (auto simp: checked_add_u32_def)

lemmas checked_Some = checked_add_i64_Some checked_sub_i64_Some checked_add_u64_Some
  checked_add_u32_Some

lemma i64_range_mono: "i64_range a \<Longrightarrow> i64_range c \<Longrightarrow> a \<le> b \<Longrightarrow> b \<le> c \<Longrightarrow> i64_range b"
  by (auto simp: i64_range_def)

section \<open>Hash maps\<close>

type_synonym ('k, 'v) hash_map = "('k \<times> 'v) list"

abbreviation hm_get :: "('k, 'v) hash_map \<Rightarrow> 'k \<Rightarrow> 'v option" where
  "hm_get \<equiv> map_of"

abbreviation hm_insert :: "'k \<Rightarrow> 'v \<Rightarrow> ('k, 'v) hash_map \<Rightarrow> ('k, 'v) hash_map" where
  "hm_insert \<equiv> AList.update"

abbreviation hm_remove :: "'k \<Rightarrow> ('k, 'v) hash_map \<Rightarrow> ('k, 'v) hash_map" where
  "hm_remove \<equiv> AList.delete"

abbreviation hm_keys :: "('k, 'v) hash_map \<Rightarrow> 'k list" where
  "hm_keys m \<equiv> map fst m"

abbreviation hm_wf :: "('k, 'v) hash_map \<Rightarrow> bool" where
  "hm_wf m \<equiv> distinct (map fst m)"

text \<open>\<^verbatim>\<open>get_mut(k)\<close> followed by a mutation, and a mutation of all \<^verbatim>\<open>values_mut()\<close>.\<close>

definition hm_modify :: "'k \<Rightarrow> ('v \<Rightarrow> 'v) \<Rightarrow> ('k, 'v) hash_map \<Rightarrow> ('k, 'v) hash_map" where
  "hm_modify k f m = map (\<lambda>(k', v). (k', if k' = k then f v else v)) m"

definition hm_map_values :: "('v \<Rightarrow> 'w) \<Rightarrow> ('k, 'v) hash_map \<Rightarrow> ('k, 'w) hash_map" where
  "hm_map_values f m = map (\<lambda>(k, v). (k, f v)) m"

text \<open>Lookups are kept as lookups: the library would turn them into membership of pairs.\<close>

declare map_of_eq_Some_iff [simp del] Some_eq_map_of_iff [simp del]

lemma hm_get_insert [hm_simps, simp]: "hm_get (hm_insert k v m) = (hm_get m)(k \<mapsto> v)"
  by (rule update_conv')

lemma hm_get_remove [hm_simps, simp]: "hm_get (hm_remove k m) = (hm_get m)(k := None)"
  by (rule delete_conv')

lemma hm_get_modify [hm_simps, simp]:
  "hm_get (hm_modify k f m) = (hm_get m)(k := map_option f (hm_get m k))"
  by (induction m) (auto simp: hm_modify_def fun_eq_iff)

lemma hm_get_map_values [hm_simps, simp]:
  "hm_get (hm_map_values f m) = (\<lambda>k. map_option f (hm_get m k))"
  by (induction m) (auto simp: hm_map_values_def fun_eq_iff)

lemma hm_keys_modify [simp]: "hm_keys (hm_modify k f m) = hm_keys m"
  by (induction m) (auto simp: hm_modify_def)

lemma hm_keys_map_values [simp]: "hm_keys (hm_map_values f m) = hm_keys m"
  by (induction m) (auto simp: hm_map_values_def)

lemma hm_wf_insert [simp]: "hm_wf m \<Longrightarrow> hm_wf (hm_insert k v m)"
  by (rule distinct_update)

lemma hm_wf_remove [simp]: "hm_wf m \<Longrightarrow> hm_wf (hm_remove k m)"
  by (rule distinct_delete)

lemma hm_get_iff_mem: "hm_wf m \<Longrightarrow> hm_get m k = Some v \<longleftrightarrow> (k, v) \<in> set m"
  by (rule map_of_eq_Some_iff)

lemma length_hm_insert_new: "hm_get m k = None \<Longrightarrow> length (hm_insert k v m) = Suc (length m)"
  by (induction m) (auto split: if_splits)

lemma length_hm_remove: "length (hm_remove k m) \<le> length m"
  by (rule length_delete_le)

lemma length_hm_modify [simp]: "length (hm_modify k f m) = length m"
  by (simp add: hm_modify_def)

lemma length_hm_map_values [simp]: "length (hm_map_values f m) = length m"
  by (simp add: hm_map_values_def)

lemma hm_get_None_keys: "hm_get m k = None \<longleftrightarrow> k \<notin> set (hm_keys m)"
  by (simp add: map_of_eq_None_iff)

section \<open>Indexes from a key to a set of identifiers\<close>

text \<open>
  \<^verbatim>\<open>HashMap<K, HashSet<V>>\<close> used as a multi-map: \<^verbatim>\<open>entry(k).or_default().insert(v)\<close>, and a removal
  that drops the entry once its set is empty.
\<close>

type_synonym ('k, 'v) index = "('k, 'v list) hash_map"

definition bucket :: "('k, 'v) index \<Rightarrow> 'k \<Rightarrow> 'v list" where
  "bucket m k = (case hm_get m k of None \<Rightarrow> [] | Some vs \<Rightarrow> vs)"

definition bucket_insert :: "'k \<Rightarrow> 'v \<Rightarrow> ('k, 'v) index \<Rightarrow> ('k, 'v) index" where
  "bucket_insert k v m = hm_insert k (List.insert v (bucket m k)) m"

definition bucket_remove :: "'k \<Rightarrow> 'v \<Rightarrow> ('k, 'v) index \<Rightarrow> ('k, 'v) index" where
  "bucket_remove k v m =
     (case hm_get m k of
        None \<Rightarrow> m
      | Some vs \<Rightarrow>
          let vs' = removeAll v vs
          in if vs' = [] then hm_remove k m else hm_insert k vs' m)"

definition index_wf :: "('k, 'v) index \<Rightarrow> bool" where
  "index_wf m \<longleftrightarrow> hm_wf m \<and> (\<forall>k vs. hm_get m k = Some vs \<longrightarrow> vs \<noteq> [] \<and> distinct vs)"

lemma index_wf_empty [simp]: "index_wf []"
  by (simp add: index_wf_def)

lemma bucket_empty [simp]: "bucket [] k = []"
  by (simp add: bucket_def)

lemma bucket_insert_set [simp]:
  "set (bucket (bucket_insert k v m) k') =
     (if k' = k then insert v (set (bucket m k')) else set (bucket m k'))"
  by (auto simp: bucket_insert_def bucket_def)

lemma bucket_remove_set [simp]:
  "set (bucket (bucket_remove k v m) k') =
     (if k' = k then set (bucket m k') - {v} else set (bucket m k'))"
proof (cases "hm_get m k")
  case (Some vs)
  show ?thesis
  proof (cases "removeAll v vs = []")
    case True
    then have "set vs - {v} = {}"
      by (metis empty_set set_removeAll)
    with Some True show ?thesis
      by (auto simp: bucket_remove_def bucket_def)
  next
    case False
    with Some show ?thesis
      by (auto simp: bucket_remove_def bucket_def Let_def)
  qed
qed (auto simp: bucket_remove_def bucket_def)

lemma index_wf_bucket_distinct: "index_wf m \<Longrightarrow> distinct (bucket m k)"
  by (auto simp: index_wf_def bucket_def split: option.splits)

lemma index_wf_insert [simp]: "index_wf m \<Longrightarrow> index_wf (bucket_insert k v m)"
  using index_wf_bucket_distinct [of m k]
  by (auto simp: index_wf_def bucket_insert_def List.insert_def)

lemma index_wf_remove [simp]: "index_wf m \<Longrightarrow> index_wf (bucket_remove k v m)"
  by (auto simp: index_wf_def bucket_remove_def Let_def distinct_removeAll split: option.splits)

section \<open>Deadline heaps\<close>

text \<open>
  \<^verbatim>\<open>BinaryHeap<Reverse<(i64, String)>>\<close> pops its least element first, so the heap is modelled by the
  sorted list of its elements: \<^verbatim>\<open>peek\<close> and \<^verbatim>\<open>pop\<close> look at the head.
\<close>

type_synonym deadline_heap = "(i64 \<times> string) list"

definition heap_push :: "i64 \<times> string \<Rightarrow> deadline_heap \<Rightarrow> deadline_heap" where
  "heap_push x h = insort x h"

lemma set_heap_push [simp]: "set (heap_push x h) = insert x (set h)"
  by (simp add: heap_push_def set_insort_key)

lemma sorted_heap_push [simp]: "sorted (heap_push x h) \<longleftrightarrow> sorted h"
  by (simp add: heap_push_def sorted_insort)

lemma sorted_deadline_prefix:
  assumes "sorted (x # h)" and "y \<in> set h"
  shows "fst x \<le> fst (y :: i64 \<times> string)"
  using assms by (cases x; cases y) (auto simp: less_eq_prod_def)

end
