(* ===== verification/A2A_Model.thy ===== *)
theory A2A_Model
  imports A2A_Prelude
begin

text \<open>
  The data model of \<^verbatim>\<open>herdr-a2a-core/src/model.rs\<close> and the error type of
  \<^verbatim>\<open>herdr-a2a-core/src/validation.rs\<close>: agents, registrations, deliveries and payloads, together
  with the parsers of task identifiers, agent names and registration epochs.

  A Rust \<^verbatim>\<open>String\<close> is the \<^typ>\<open>string\<close> of its UTF-8 bytes, so \<^const>\<open>length\<close> is \<^verbatim>\<open>len()\<close>.  The newtypes
  over \<^verbatim>\<open>String\<close> and \<^verbatim>\<open>u64\<close> (\<^verbatim>\<open>AgentName\<close>, \<^verbatim>\<open>RoleLabel\<close>, \<^verbatim>\<open>RegistrationId\<close>, \<^verbatim>\<open>DeliveryId\<close>,
  \<^verbatim>\<open>RegistrationEpoch\<close>) are type synonyms.  A \<^verbatim>\<open>serde_json::Value\<close> keeps the distinctions the
  sources make: null, string, array, object, and every other value with its text.
\<close>

section \<open>Errors\<close>

datatype DomainError =
    InvalidAgentName
  | InvalidRoleLabel
  | InvalidRegistrationId
  | InvalidDeliveryId
  | InvalidTaskId
  | TextTooLarge
  | MetadataTooLarge
  | MetadataTooDeep
  | TooManyMetadataEntries
  | TooManyFileReferences
  | PathTooLong
  | FileLabelTooLong
  | FileNotFound string
  | WorkspaceNotFound string
  | FileOutsideWorkspace string string
  | RegistrationNotFound
  | RegistrationExpired
  | AgentNotRegistered
  | SenderMismatch
  | WaitAlreadyActive
  | WaitTimedOut
  | DeliveryNotFound
  | DeliveryNotOwned
  | TaskNotFound
  | TaskNotOwned
  | DuplicateTask
  | ReplyWaitAlreadyActive
  | ReplyAlreadySubmitted
  | TaskCanceled
  | TaskExpired
  | TaskFailed
  | TaskRejected
  | TaskAlreadyCompleted
  | TooManyActiveTasks
  | TooManyRetainedTasks
  | PersistenceUnavailable

type_synonym 'a dres = "(DomainError, 'a) res"

section \<open>Records\<close>

type_synonym TaskId = string
type_synonym AgentName = string
type_synonym RoleLabel = string
type_synonym RegistrationId = string
type_synonym RegistrationEpoch = u64
type_synonym DeliveryId = string
type_synonym PathBuf = string

datatype json = JNull | JScalar string | JString string | JArray "json list" | JObject "(string \<times> json) list"

record VerifiedPane =
  vpane_pane_id :: string
  vpane_workspace_id :: string
  vpane_role :: RoleLabel
  vpane_harness :: string
  vpane_workspace_path :: PathBuf

record AgentIdentity =
  ai_canonical_name :: AgentName
  ai_original_role_slug :: string
  ai_current_role :: RoleLabel
  ai_pane_id :: string
  ai_harness :: string
  ai_harness_session_id :: string
  ai_workspace_id :: string

record VerifiedAgent =
  va_name :: AgentName
  va_pane_id :: string
  va_harness :: string
  va_workspace :: PathBuf

record RegistrationCredentials =
  cr_id :: RegistrationId
  cr_epoch :: RegistrationEpoch

record Registration =
  rg_id :: RegistrationId
  rg_epoch :: RegistrationEpoch
  rg_agent :: VerifiedAgent
  rg_harness_session_id :: string
  rg_expires_unix_ms :: i64

definition credentials :: "Registration \<Rightarrow> RegistrationCredentials" where
  "credentials r = \<lparr>cr_id = rg_id r, cr_epoch = rg_epoch r\<rparr>"

record FileReference =
  fr_path :: PathBuf
  fr_media_type :: "string option"
  fr_label :: "string option"

record MessagePayload =
  mp_text :: string
  mp_metadata :: json
  mp_file_refs :: "FileReference list"

record ValidatedPayload =
  vp_text :: string
  vp_metadata :: json
  vp_file_refs :: "FileReference list"

record ReplyPayload =
  rp_text :: string
  rp_metadata :: json
  rp_file_refs :: "FileReference list"

record QueuedDelivery =
  qd_task_id :: TaskId
  qd_context_id :: string
  qd_sender :: AgentName
  qd_recipient :: AgentName
  qd_payload :: ValidatedPayload
  qd_created_unix_ms :: i64
  qd_attempt :: u32

record DeliveredMessage =
  dm_delivery_id :: DeliveryId
  dm_task_id :: TaskId
  dm_context_id :: string
  dm_sender :: AgentName
  dm_recipient :: AgentName
  dm_payload :: ValidatedPayload
  dm_leased_until_unix_ms :: i64
  dm_attempt :: u32

section \<open>ASCII classes\<close>

definition byte :: "char \<Rightarrow> nat" where
  "byte c = of_char c"

definition is_ascii_digit :: "char \<Rightarrow> bool" where
  "is_ascii_digit c \<longleftrightarrow> 48 \<le> byte c \<and> byte c \<le> 57"

definition is_ascii_lowercase :: "char \<Rightarrow> bool" where
  "is_ascii_lowercase c \<longleftrightarrow> 97 \<le> byte c \<and> byte c \<le> 122"

definition is_ascii_uppercase :: "char \<Rightarrow> bool" where
  "is_ascii_uppercase c \<longleftrightarrow> 65 \<le> byte c \<and> byte c \<le> 90"

definition is_ascii_alphanumeric :: "char \<Rightarrow> bool" where
  "is_ascii_alphanumeric c \<longleftrightarrow> is_ascii_digit c \<or> is_ascii_lowercase c \<or> is_ascii_uppercase c"

lemmas ascii_defs = byte_def is_ascii_digit_def is_ascii_lowercase_def is_ascii_uppercase_def
  is_ascii_alphanumeric_def

section \<open>Task identifiers, agent names, epochs\<close>

definition MAX_TASK_ID_BYTES :: nat where "MAX_TASK_ID_BYTES = 256"
definition MAX_ROLE_LABEL_BYTES :: nat where "MAX_ROLE_LABEL_BYTES = 256"

definition validate_task_id :: "string \<Rightarrow> unit dres" where
  "validate_task_id task_id =
     (if \<not> (1 \<le> length task_id \<and> length task_id \<le> MAX_TASK_ID_BYTES)
         \<or> \<not> list_all (\<lambda>b. is_ascii_alphanumeric b \<or> b = CHR ''_'' \<or> b = CHR ''-'') task_id
      then Err InvalidTaskId else Ok ())"

definition AgentName_parse :: "string \<Rightarrow> AgentName dres" where
  "AgentName_parse v =
     (if \<not> (1 \<le> length v \<and> length v \<le> 32)
         \<or> \<not> is_ascii_lowercase (hd v)
         \<or> \<not> list_all (\<lambda>b. is_ascii_lowercase b \<or> is_ascii_digit b \<or> b = CHR ''_'' \<or> b = CHR ''-'')
              (tl v)
      then Err InvalidAgentName else Ok v)"

text \<open>\<^verbatim>\<open>str::parse::<u64>\<close> on a non-empty string of ASCII digits.\<close>

fun decimal_value :: "nat \<Rightarrow> string \<Rightarrow> nat" where
  "decimal_value acc [] = acc"
| "decimal_value acc (c # cs) = decimal_value (10 * acc + (byte c - 48)) cs"

definition parse_u64 :: "string \<Rightarrow> u64 option" where
  "parse_u64 v = (let n = decimal_value 0 v in if n \<le> u64_max then Some n else None)"

definition canonical_decimal :: "string \<Rightarrow> bool" where
  "canonical_decimal v \<longleftrightarrow>
     \<not> (v = [] \<or> \<not> list_all is_ascii_digit v \<or> (length v > 1 \<and> hd v = CHR ''0''))"

definition RegistrationEpoch_parse :: "string \<Rightarrow> RegistrationEpoch option" where
  "RegistrationEpoch_parse v =
     (if \<not> canonical_decimal v then None
      else case parse_u64 v of
             None \<Rightarrow> None
           | Some n \<Rightarrow> if n > 0 then Some n else None)"

lemma validate_task_id_cases: "validate_task_id t = Ok () \<or> validate_task_id t = Err InvalidTaskId"
  by (simp add: validate_task_id_def)

lemma AgentName_parse_cases: "AgentName_parse v = Ok v \<or> AgentName_parse v = Err InvalidAgentName"
  by (simp add: AgentName_parse_def)

lemma AgentName_parse_Ok: "AgentName_parse v = Ok w \<Longrightarrow> w = v"
  by (simp add: AgentName_parse_def split: if_splits)

lemma AgentName_parse_not_Panic [simp]: "AgentName_parse v \<noteq> Panic"
  by (simp add: AgentName_parse_def)

lemma validate_task_id_not_Panic [simp]: "validate_task_id v \<noteq> Panic"
  by (simp add: validate_task_id_def)

end
