(* ===== verification/A2A_Validation.thy ===== *)
theory A2A_Validation
  imports A2A_Model "HOL-Library.Sublist"
begin

text \<open>
  \<^verbatim>\<open>herdr-a2a-core/src/validation.rs\<close>: role labels, identifiers, payload and metadata limits.

  Code outside the repository enters as parameters: \<open>json_len\<close> is the length of
  \<^verbatim>\<open>serde_json::to_vec\<close>, \<open>canonicalize\<close> is the file system's answer to \<^verbatim>\<open>Path::canonicalize\<close>, and
  \<open>parse_uuid\<close> is \<^verbatim>\<open>uuid::Uuid::parse_str\<close>, giving the version number, whether the variant is
  RFC 4122, and the canonical text.
\<close>

definition MAX_TEXT_BYTES :: nat where "MAX_TEXT_BYTES = 64 * 1024"
definition MAX_METADATA_BYTES :: nat where "MAX_METADATA_BYTES = 32 * 1024"
definition MAX_METADATA_DEPTH :: nat where "MAX_METADATA_DEPTH = 8"
definition MAX_METADATA_ENTRIES :: nat where "MAX_METADATA_ENTRIES = 256"
definition MAX_FILE_REFS :: nat where "MAX_FILE_REFS = 32"
definition MAX_PATH_BYTES :: nat where "MAX_PATH_BYTES = 4 * 1024"
definition MAX_FILE_LABEL_BYTES :: nat where "MAX_FILE_LABEL_BYTES = 256"

lemmas payload_limits = MAX_TEXT_BYTES_def MAX_METADATA_BYTES_def MAX_METADATA_DEPTH_def
  MAX_METADATA_ENTRIES_def MAX_FILE_REFS_def MAX_PATH_BYTES_def MAX_FILE_LABEL_BYTES_def

section \<open>UTF-8\<close>

text \<open>
  One step of a UTF-8 scan, as \<^verbatim>\<open>core::str::lossy\<close> performs it: either a well-formed sequence (its
  code point and length) or a maximal ill-formed prefix (its length).
\<close>

datatype utf8_step = Good nat nat | Bad nat

definition cont :: "nat \<Rightarrow> bool" where
  "cont b \<longleftrightarrow> 128 \<le> b \<and> b \<le> 191"

definition nth_byte :: "string \<Rightarrow> nat \<Rightarrow> nat" where
  "nth_byte s i = (if i < length s then byte (s ! i) else 0)"

definition utf8_step :: "string \<Rightarrow> utf8_step" where
  "utf8_step s =
     (let b = nth_byte s 0; c = nth_byte s 1; d = nth_byte s 2; e = nth_byte s 3
      in if b < 128 then Good b 1
         else if 194 \<le> b \<and> b \<le> 223 then
           (if cont c then Good ((b - 192) * 64 + (c - 128)) 2 else Bad 1)
         else if 224 \<le> b \<and> b \<le> 239 then
           (if (b = 224 \<and> 160 \<le> c \<and> c \<le> 191) \<or> (b = 237 \<and> 128 \<le> c \<and> c \<le> 159)
               \<or> (b \<noteq> 224 \<and> b \<noteq> 237 \<and> cont c)
            then (if cont d then Good ((b - 224) * 4096 + (c - 128) * 64 + (d - 128)) 3 else Bad 2)
            else Bad 1)
         else if 240 \<le> b \<and> b \<le> 244 then
           (if (b = 240 \<and> 144 \<le> c \<and> c \<le> 191) \<or> (b = 244 \<and> 128 \<le> c \<and> c \<le> 143)
               \<or> (b \<noteq> 240 \<and> b \<noteq> 244 \<and> cont c)
            then (if cont d
                  then (if cont e
                        then Good ((b - 240) * 262144 + (c - 128) * 4096 + (d - 128) * 64 + (e - 128)) 4
                        else Bad 3)
                  else Bad 2)
            else Bad 1)
         else Bad 1)"

definition step_len :: "utf8_step \<Rightarrow> nat" where
  "step_len st = (case st of Good _ n \<Rightarrow> n | Bad n \<Rightarrow> n)"

lemma step_len_pos [simp]: "0 < step_len (utf8_step s)"
  by (simp add: step_len_def utf8_step_def Let_def)

text \<open>\<^verbatim>\<open>str::chars\<close>: the code points of a (well-formed) string.\<close>

function chars :: "string \<Rightarrow> nat list" where
  "chars s =
     (if s = [] then []
      else (case utf8_step s of
              Good cp n \<Rightarrow> cp # chars (drop n s)
            | Bad n \<Rightarrow> 65533 # chars (drop n s)))"
  by pat_completeness auto
termination
proof (relation "measure length", goal_cases)
  case (2 s cp n)
  with step_len_pos [of s] show ?case by (auto simp: step_len_def)
next
  case (3 s n)
  with step_len_pos [of s] show ?case by (auto simp: step_len_def)
qed simp

text \<open>\<^verbatim>\<open>String::from_utf8(..).is_ok()\<close>, which every Rust \<^verbatim>\<open>str\<close> satisfies.\<close>

function utf8_valid :: "string \<Rightarrow> bool" where
  "utf8_valid s =
     (if s = [] then True
      else (case utf8_step s of Good cp n \<Rightarrow> utf8_valid (drop n s) | Bad n \<Rightarrow> False))"
  by pat_completeness auto
termination
proof (relation "measure length", goal_cases)
  case (2 s cp n)
  with step_len_pos [of s] show ?case by (auto simp: step_len_def)
qed simp

text \<open>\<^verbatim>\<open>OsStr::to_string_lossy\<close>: each maximal ill-formed prefix becomes U+FFFD (three bytes).\<close>

definition replacement :: string where
  "replacement = [char_of (239::nat), char_of (191::nat), char_of (189::nat)]"

function to_string_lossy :: "string \<Rightarrow> string" where
  "to_string_lossy s =
     (if s = [] then []
      else (case utf8_step s of
              Good cp n \<Rightarrow> take n s @ to_string_lossy (drop n s)
            | Bad n \<Rightarrow> replacement @ to_string_lossy (drop n s)))"
  by pat_completeness auto
termination
proof (relation "measure length", goal_cases)
  case (2 s cp n)
  with step_len_pos [of s] show ?case by (auto simp: step_len_def)
next
  case (3 s n)
  with step_len_pos [of s] show ?case by (auto simp: step_len_def)
qed simp

declare chars.simps [simp del] utf8_valid.simps [simp del] to_string_lossy.simps [simp del]

lemma to_string_lossy_valid: "utf8_valid s \<Longrightarrow> to_string_lossy s = s"
proof (induction s rule: to_string_lossy.induct)
  case (1 s)
  then show ?case
    by (subst to_string_lossy.simps)
      (auto simp: utf8_valid.simps [of s] split: utf8_step.splits if_splits)
qed

section \<open>Labels and identifiers\<close>

definition is_control :: "nat \<Rightarrow> bool" where
  "is_control cp \<longleftrightarrow> cp < 32 \<or> (127 \<le> cp \<and> cp < 160)"

definition RoleLabel_parse :: "string \<Rightarrow> RoleLabel dres" where
  "RoleLabel_parse v =
     (if v = [] \<or> length v > MAX_ROLE_LABEL_BYTES
         \<or> list_ex (\<lambda>cp. is_control cp \<or> cp = 8232 \<or> cp = 8233) (chars v)
      then Err InvalidRoleLabel else Ok v)"

definition parse_uuid_v7 ::
    "(string \<Rightarrow> (nat \<times> bool \<times> string) option) \<Rightarrow> string \<Rightarrow> DomainError \<Rightarrow> string dres" where
  "parse_uuid_v7 parse_uuid v err =
     (case parse_uuid v of
        None \<Rightarrow> Err err
      | Some (version, rfc4122, text) \<Rightarrow>
          if version \<noteq> 7 \<or> \<not> rfc4122 then Err err else Ok text)"

definition RegistrationId_parse where
  "RegistrationId_parse parse_uuid v = parse_uuid_v7 parse_uuid v InvalidRegistrationId"

definition DeliveryId_parse where
  "DeliveryId_parse parse_uuid v = parse_uuid_v7 parse_uuid v InvalidDeliveryId"

section \<open>Error texts\<close>

text \<open>\<^verbatim>\<open>Display for DomainError\<close>; \<^verbatim>\<open>Path::display\<close> is lossy.\<close>

fun DomainError_to_string :: "DomainError \<Rightarrow> string" where
  "DomainError_to_string InvalidAgentName = ''invalid agent name''"
| "DomainError_to_string InvalidRoleLabel = ''invalid role label''"
| "DomainError_to_string InvalidRegistrationId = ''invalid registration ID''"
| "DomainError_to_string InvalidDeliveryId = ''invalid delivery ID''"
| "DomainError_to_string InvalidTaskId = ''invalid task ID''"
| "DomainError_to_string TextTooLarge = ''message text exceeds the size limit''"
| "DomainError_to_string MetadataTooLarge = ''message metadata exceeds the size limit''"
| "DomainError_to_string MetadataTooDeep = ''message metadata exceeds the nesting limit''"
| "DomainError_to_string TooManyMetadataEntries = ''message metadata exceeds the entry limit''"
| "DomainError_to_string TooManyFileReferences = ''message has too many file references''"
| "DomainError_to_string PathTooLong = ''file reference path exceeds the size limit''"
| "DomainError_to_string FileLabelTooLong = ''file reference label exceeds the size limit''"
| "DomainError_to_string (FileNotFound path) = ''file reference does not exist: '' @ to_string_lossy path"
| "DomainError_to_string (WorkspaceNotFound path) = ''workspace does not exist: '' @ to_string_lossy path"
| "DomainError_to_string (FileOutsideWorkspace path workspace) =
     ''file reference '' @ to_string_lossy path @ '' is outside workspace '' @ to_string_lossy workspace"
| "DomainError_to_string RegistrationNotFound = ''registration not found''"
| "DomainError_to_string RegistrationExpired = ''registration expired''"
| "DomainError_to_string AgentNotRegistered = ''agent is not registered''"
| "DomainError_to_string SenderMismatch = ''authenticated sender does not match delivery sender''"
| "DomainError_to_string WaitAlreadyActive = ''registration already has an active wait''"
| "DomainError_to_string WaitTimedOut = ''wait timed out''"
| "DomainError_to_string DeliveryNotFound = ''delivery not found''"
| "DomainError_to_string DeliveryNotOwned = ''delivery is owned by another registration''"
| "DomainError_to_string TaskNotFound = ''task not found''"
| "DomainError_to_string TaskNotOwned = ''task is owned by another registration''"
| "DomainError_to_string DuplicateTask = ''task already exists''"
| "DomainError_to_string ReplyWaitAlreadyActive = ''task already has a reply waiter''"
| "DomainError_to_string ReplyAlreadySubmitted = ''a conflicting reply already exists''"
| "DomainError_to_string TaskCanceled = ''task was canceled''"
| "DomainError_to_string TaskExpired = ''task delivery deadline expired''"
| "DomainError_to_string TaskFailed = ''task failed''"
| "DomainError_to_string TaskRejected = ''task was rejected''"
| "DomainError_to_string TaskAlreadyCompleted = ''task is already completed''"
| "DomainError_to_string TooManyActiveTasks = ''registration has too many active outbound tasks''"
| "DomainError_to_string TooManyRetainedTasks = ''retained task capacity is exhausted''"
| "DomainError_to_string PersistenceUnavailable = ''broker persistence unavailable''"

section \<open>Metadata\<close>

lemma size_map_snd_le: "size_list (size \<circ> snd) kvs \<le> size_list (size_prod (\<lambda>_. 0) size) kvs"
  by (induction kvs) auto

text \<open>
  The traversal threads the running entry count (\<^verbatim>\<open>&mut usize\<close>); the loop over the children stops at
  the first error.
\<close>

function (sequential) validate_metadata_node :: "json \<Rightarrow> nat \<Rightarrow> nat \<Rightarrow> nat dres"
  and validate_metadata_nodes :: "json list \<Rightarrow> nat \<Rightarrow> nat \<Rightarrow> nat dres" where
  "validate_metadata_node (JArray items) depth entries =
     (if depth + 1 > MAX_METADATA_DEPTH then Err MetadataTooDeep
      else if entries + length items > MAX_METADATA_ENTRIES then Err TooManyMetadataEntries
      else validate_metadata_nodes items (depth + 1) (entries + length items))"
| "validate_metadata_node (JObject kvs) depth entries =
     (if depth + 1 > MAX_METADATA_DEPTH then Err MetadataTooDeep
      else if entries + length kvs > MAX_METADATA_ENTRIES then Err TooManyMetadataEntries
      else validate_metadata_nodes (map snd kvs) (depth + 1) (entries + length kvs))"
| "validate_metadata_node _ depth entries = Ok entries"
| "validate_metadata_nodes [] depth entries = Ok entries"
| "validate_metadata_nodes (v # vs) depth entries =
     res_bind (validate_metadata_node v depth entries) (validate_metadata_nodes vs depth)"
  by pat_completeness auto
termination
  by (relation "measure (\<lambda>x. case x of Inl (v, _, _) \<Rightarrow> 2 * size v
        | Inr (vs, _, _) \<Rightarrow> 2 * size_list size vs + 1)")
    (auto simp: less_Suc_eq_le size_map_snd_le)

definition validate_metadata :: "(json \<Rightarrow> nat) \<Rightarrow> json \<Rightarrow> unit dres" where
  "validate_metadata json_len metadata =
     (if json_len metadata > MAX_METADATA_BYTES then Err MetadataTooLarge
      else res_bind (validate_metadata_node metadata 0 0) (\<lambda>_. Ok ()))"

text \<open>
  The specification of the limits: the nesting depth of a value, and the number of array elements
  and object members in it, counted at every level.
\<close>

function (sequential) json_depth :: "json \<Rightarrow> nat" and json_depths :: "json list \<Rightarrow> nat" where
  "json_depth (JArray items) = Suc (json_depths items)"
| "json_depth (JObject kvs) = Suc (json_depths (map snd kvs))"
| "json_depth _ = 0"
| "json_depths [] = 0"
| "json_depths (v # vs) = max (json_depth v) (json_depths vs)"
  by pat_completeness auto
termination
  by (relation "measure (\<lambda>x. case x of Inl v \<Rightarrow> 2 * size v | Inr vs \<Rightarrow> 2 * size_list size vs + 1)")
    (auto simp: less_Suc_eq_le size_map_snd_le)

function (sequential) json_entries :: "json \<Rightarrow> nat" and json_entries_list :: "json list \<Rightarrow> nat" where
  "json_entries (JArray items) = length items + json_entries_list items"
| "json_entries (JObject kvs) = length kvs + json_entries_list (map snd kvs)"
| "json_entries _ = 0"
| "json_entries_list [] = 0"
| "json_entries_list (v # vs) = json_entries v + json_entries_list vs"
  by pat_completeness auto
termination
  by (relation "measure (\<lambda>x. case x of Inl v \<Rightarrow> 2 * size v | Inr vs \<Rightarrow> 2 * size_list size vs + 1)")
    (auto simp: less_Suc_eq_le size_map_snd_le)

lemma validate_metadata_node_count:
  "entries \<le> MAX_METADATA_ENTRIES \<Longrightarrow> depth \<le> MAX_METADATA_DEPTH \<Longrightarrow>
     (validate_metadata_node v depth entries = Ok n \<longleftrightarrow>
        n = entries + json_entries v \<and> n \<le> MAX_METADATA_ENTRIES
        \<and> depth + json_depth v \<le> MAX_METADATA_DEPTH)"
  "entries \<le> MAX_METADATA_ENTRIES \<Longrightarrow> depth \<le> MAX_METADATA_DEPTH \<Longrightarrow>
     (validate_metadata_nodes vs depth entries = Ok n \<longleftrightarrow>
        n = entries + json_entries_list vs \<and> n \<le> MAX_METADATA_ENTRIES
        \<and> depth + json_depths vs \<le> MAX_METADATA_DEPTH)"
proof (induction v depth entries and vs depth entries arbitrary: n and n
    rule: validate_metadata_node_validate_metadata_nodes.induct)
  case (1 items depth entries)
  then show ?case by auto
next
  case (2 kvs depth entries)
  then show ?case by auto
next
  case (5 v vs depth entries)
  show ?case
  proof (cases "validate_metadata_node v depth entries")
    case (Ok m)
    with 5 have "m = entries + json_entries v" "m \<le> MAX_METADATA_ENTRIES"
      "depth + json_depth v \<le> MAX_METADATA_DEPTH" by auto
    with 5 Ok show ?thesis by (auto simp: max_def)
  next
    case (Err e)
    with 5(1)[OF 5(3,4)] have "\<not> (entries + json_entries v \<le> MAX_METADATA_ENTRIES
        \<and> depth + json_depth v \<le> MAX_METADATA_DEPTH)" by auto
    with Err show ?thesis by (auto simp: max_def)
  next
    case Panic
    with 5(1)[OF 5(3,4)] have "\<not> (entries + json_entries v \<le> MAX_METADATA_ENTRIES
        \<and> depth + json_depth v \<le> MAX_METADATA_DEPTH)" by auto
    with Panic show ?thesis by (auto simp: max_def)
  qed
qed auto

lemma validate_metadata_node_not_Panic [simp]:
  "validate_metadata_node v depth entries \<noteq> Panic"
  "validate_metadata_nodes vs depth entries \<noteq> Panic"
  by (induction v depth entries and vs depth entries
      rule: validate_metadata_node_validate_metadata_nodes.induct)
    (auto simp: res_bind_eq_Panic)

lemma validate_metadata_not_Panic [simp]: "validate_metadata json_len m \<noteq> Panic"
  by (simp add: validate_metadata_def res_bind_eq_Panic)

lemma validate_metadata_Ok:
  "validate_metadata json_len m = Ok () \<longleftrightarrow>
     json_len m \<le> MAX_METADATA_BYTES \<and> json_depth m \<le> MAX_METADATA_DEPTH
     \<and> json_entries m \<le> MAX_METADATA_ENTRIES"
  by (auto simp: validate_metadata_def res_bind_eq_Ok validate_metadata_node_count)

section \<open>Payloads\<close>

text \<open>
  \<^verbatim>\<open>Path::starts_with\<close> compares components: separators are collapsed, \<^verbatim>\<open>.\<close> components other than a
  leading one are dropped, and a leading separator is the root component.
\<close>

fun split_path :: "string \<Rightarrow> string \<Rightarrow> string list" where
  "split_path acc [] = [rev acc]"
| "split_path acc (c # cs) =
     (if c = CHR ''/'' then rev acc # split_path [] cs else split_path (c # acc) cs)"

definition path_components :: "PathBuf \<Rightarrow> string list" where
  "path_components p =
     (let absolute = (p \<noteq> [] \<and> hd p = CHR ''/''); parts = split_path [] p;
          named = filter (\<lambda>c. c \<noteq> [] \<and> c \<noteq> ''.'') parts
      in if absolute then ''/'' # named
         else if parts \<noteq> [] \<and> hd parts = ''.'' then ''.'' # named
         else named)"

definition path_starts_with :: "PathBuf \<Rightarrow> PathBuf \<Rightarrow> bool" where
  "path_starts_with p base \<longleftrightarrow> prefix (path_components base) (path_components p)"

definition validate_file_reference_shape :: "FileReference \<Rightarrow> unit dres" where
  "validate_file_reference_shape f =
     (if length (fr_path f) > MAX_PATH_BYTES then Err PathTooLong
      else if (case fr_label f of None \<Rightarrow> False | Some l \<Rightarrow> length l > MAX_FILE_LABEL_BYTES)
      then Err FileLabelTooLong else Ok ())"

definition validate_canonical_path :: "PathBuf \<Rightarrow> unit dres" where
  "validate_canonical_path p = (if length p > MAX_PATH_BYTES then Err PathTooLong else Ok ())"

definition validate_file_ref ::
    "(PathBuf \<Rightarrow> PathBuf option) \<Rightarrow> PathBuf \<Rightarrow> FileReference \<Rightarrow> FileReference dres" where
  "validate_file_ref canonicalize workspace f =
     (let canonical_workspace = canonicalize workspace;
          workspace_for_check = (case canonical_workspace of None \<Rightarrow> workspace | Some w \<Rightarrow> w)
      in res_bind (validate_file_reference_shape f) (\<lambda>_.
         res_bind (ok_or (canonicalize (fr_path f)) (FileNotFound (fr_path f))) (\<lambda>canonical_path.
         res_bind (validate_canonical_path canonical_path) (\<lambda>_.
         if \<not> path_starts_with canonical_path workspace_for_check
         then Err (FileOutsideWorkspace canonical_path workspace_for_check)
         else res_bind (ok_or canonical_workspace (WorkspaceNotFound workspace)) (\<lambda>_.
         Ok \<lparr>fr_path = canonical_path, fr_media_type = fr_media_type f,
             fr_label = fr_label f\<rparr>)))))"

definition validate_payload ::
    "(json \<Rightarrow> nat) \<Rightarrow> (PathBuf \<Rightarrow> PathBuf option) \<Rightarrow> MessagePayload \<Rightarrow> PathBuf \<Rightarrow>
     ValidatedPayload dres" where
  "validate_payload json_len canonicalize payload workspace =
     (if length (mp_text payload) > MAX_TEXT_BYTES then Err TextTooLarge
      else res_bind (validate_metadata json_len (mp_metadata payload)) (\<lambda>_.
        if length (mp_file_refs payload) > MAX_FILE_REFS then Err TooManyFileReferences
        else res_bind (collect_res (validate_file_ref canonicalize workspace) (mp_file_refs payload))
          (\<lambda>file_refs. Ok \<lparr>vp_text = mp_text payload, vp_metadata = mp_metadata payload,
             vp_file_refs = file_refs\<rparr>)))"

definition validate_persisted_file_ref :: "FileReference \<Rightarrow> unit dres" where
  "validate_persisted_file_ref f =
     (if length (to_string_lossy (fr_path f)) > MAX_PATH_BYTES then Err PathTooLong
      else if (case fr_label f of None \<Rightarrow> False | Some l \<Rightarrow> length l > MAX_FILE_LABEL_BYTES)
      then Err FileLabelTooLong else Ok ())"

definition validate_persisted_payload :: "(json \<Rightarrow> nat) \<Rightarrow> ValidatedPayload \<Rightarrow> unit dres" where
  "validate_persisted_payload json_len payload =
     (if length (vp_text payload) > MAX_TEXT_BYTES then Err TextTooLarge
      else res_bind (validate_metadata json_len (vp_metadata payload)) (\<lambda>_.
        if length (vp_file_refs payload) > MAX_FILE_REFS then Err TooManyFileReferences
        else res_bind (collect_res validate_persisted_file_ref (vp_file_refs payload)) (\<lambda>_. Ok ())))"

lemma validate_persisted_payload_not_Panic [simp]:
  "validate_persisted_payload json_len p \<noteq> Panic"
proof -
  have "collect_res validate_persisted_file_ref fs \<noteq> Panic" for fs
    by (rule collect_res_not_Panic) (simp add: validate_persisted_file_ref_def)
  then show ?thesis
    by (simp add: validate_persisted_payload_def res_bind_eq_Panic)
qed

lemma validate_file_ref_Ok:
  "validate_file_ref canonicalize workspace f = Ok g \<longleftrightarrow>
     (\<exists>w. canonicalize workspace = Some w \<and> canonicalize (fr_path f) = Some (fr_path g)
        \<and> path_starts_with (fr_path g) w \<and> length (fr_path f) \<le> MAX_PATH_BYTES
        \<and> length (fr_path g) \<le> MAX_PATH_BYTES
        \<and> (\<forall>l. fr_label f = Some l \<longrightarrow> length l \<le> MAX_FILE_LABEL_BYTES)
        \<and> g = f\<lparr>fr_path := fr_path g\<rparr>)"
  by (cases f; cases g)
    (auto simp: validate_file_ref_def validate_file_reference_shape_def validate_canonical_path_def
      res_bind_eq_Ok Let_def not_less split: option.splits if_splits)

end
