(* ===== verification/A2A_Durability.thy ===== *)
theory A2A_Durability
  imports A2A_Validation
begin

text \<open>
  \<^verbatim>\<open>herdr-a2a-core/src/durability.rs\<close>: the durable form of a task, the batches the broker commits,
  and the \<^verbatim>\<open>BrokerPersistence\<close> trait object as a record of its two operations over a state of the
  provider's own type.

  The locale \<open>persistence_contract\<close> is the interface between the broker and its persistence: what
  the broker relies on when a commit completes, fails or asks for reconciliation, and what a load
  returns.  The provider in the repository is the SQLite ledger.
\<close>

section \<open>Durable data\<close>

datatype DurableTaskState =
  Queued | Leased | Acknowledged | Replied | Failed | Rejected | Canceled | Expired

record DurableLease =
  dle_delivery_id :: DeliveryId
  dle_owner :: AgentName
  dle_leased_until_unix_ms :: i64
  dle_attempt :: u32

record DurableTask =
  dt_task_id :: TaskId
  dt_context_id :: string
  dt_sender :: AgentName
  dt_recipient :: AgentName
  dt_payload :: ValidatedPayload
  dt_created_unix_ms :: i64
  dt_delivery_deadline_unix_ms :: i64
  dt_state_version :: u64
  dt_state :: DurableTaskState
  dt_lease :: "DurableLease option"
  dt_attempt :: u32
  dt_acknowledged_unix_ms :: "i64 option"
  dt_reply :: "ReplyPayload option"
  dt_terminal_unix_ms :: "i64 option"
  dt_retention_deadline_unix_ms :: "i64 option"

record DurableBrokerSnapshot =
  snap_last_registration_epoch :: RegistrationEpoch
  snap_tasks :: "DurableTask list"

record PersistenceBatch =
  pb_registration_epoch_high_watermark :: "RegistrationEpoch option"
  pb_upsert_tasks :: "DurableTask list"
  pb_delete_task_ids :: "TaskId list"

datatype PersistenceCommitOutcome = Complete | ReconciliationRequired

definition PersistenceBatch_is_empty :: "PersistenceBatch \<Rightarrow> bool" where
  "PersistenceBatch_is_empty b \<longleftrightarrow>
     pb_registration_epoch_high_watermark b = None \<and> pb_upsert_tasks b = [] \<and> pb_delete_task_ids b = []"

section \<open>The persistence interface\<close>

record 'p BrokerPersistence =
  bp_load :: "i64 \<Rightarrow> ('p, DomainError, DurableBrokerSnapshot) op"
  bp_commit :: "PersistenceBatch \<Rightarrow> ('p, DomainError, PersistenceCommitOutcome) op"

definition VolatilePersistence :: "unit BrokerPersistence" where
  "VolatilePersistence =
     \<lparr>bp_load = (\<lambda>_. ret \<lparr>snap_last_registration_epoch = 0, snap_tasks = []\<rparr>),
      bp_commit = (\<lambda>_. ret Complete)\<rparr>"

text \<open>The meaning of a batch on a table of durable tasks: deletions first, then upserts in order.\<close>

type_synonym task_table = "TaskId \<rightharpoonup> DurableTask"

definition upsert_all :: "DurableTask list \<Rightarrow> task_table \<Rightarrow> task_table" where
  "upsert_all ts V = fold (\<lambda>t W. W(dt_task_id t \<mapsto> t)) ts V"

definition apply_batch :: "PersistenceBatch \<Rightarrow> task_table \<Rightarrow> task_table" where
  "apply_batch b V = upsert_all (pb_upsert_tasks b) (V |` (- set (pb_delete_task_ids b)))"

definition table_of :: "DurableTask list \<Rightarrow> task_table" where
  "table_of ts = map_of (map (\<lambda>t. (dt_task_id t, t)) ts)"

lemma upsert_all_Nil [simp]: "upsert_all [] V = V"
  by (simp add: upsert_all_def)

lemma upsert_all_Cons [simp]: "upsert_all (t # ts) V = upsert_all ts (V(dt_task_id t \<mapsto> t))"
  by (simp add: upsert_all_def)

lemma upsert_all_notin:
  "k \<notin> dt_task_id ` set ts \<Longrightarrow> upsert_all ts V k = V k"
  by (induction ts arbitrary: V) auto

lemma upsert_all_in:
  "distinct (map dt_task_id ts) \<Longrightarrow> t \<in> set ts \<Longrightarrow> upsert_all ts V (dt_task_id t) = Some t"
proof (induction ts arbitrary: V)
  case (Cons u ts)
  then show ?case
    by (cases "t = u") (auto simp: upsert_all_notin)
qed simp

lemma restrict_UNIV [simp]: "V |` UNIV = V"
  by (simp add: restrict_map_def)

lemma apply_batch_single:
  "apply_batch \<lparr>pb_registration_epoch_high_watermark = e, pb_upsert_tasks = [t],
     pb_delete_task_ids = []\<rparr> V = V(dt_task_id t \<mapsto> t)"
  by (auto simp: apply_batch_def restrict_map_def)

lemma apply_batch_epoch_only:
  "apply_batch \<lparr>pb_registration_epoch_high_watermark = e, pb_upsert_tasks = [],
     pb_delete_task_ids = []\<rparr> V = V"
  by (simp add: apply_batch_def)

lemma apply_batch_empty: "PersistenceBatch_is_empty b \<Longrightarrow> apply_batch b V = V"
  by (simp add: apply_batch_def PersistenceBatch_is_empty_def)

lemma table_of_Cons [simp]: "table_of (t # ts) = (table_of ts)(dt_task_id t \<mapsto> t)"
  by (simp add: table_of_def)

lemma table_of_Nil [simp]: "table_of [] = Map.empty"
  by (simp add: table_of_def)

lemma table_of_mem:
  "distinct (map dt_task_id ts) \<Longrightarrow> table_of ts k = Some t \<longleftrightarrow> t \<in> set ts \<and> dt_task_id t = k"
  by (auto simp: table_of_def map_of_eq_Some_iff comp_def)

lemma table_of_None: "table_of ts k = None \<longleftrightarrow> k \<notin> dt_task_id ` set ts"
  by (simp add: table_of_def map_of_eq_None_iff image_image)

text \<open>
  The contract.  \<open>holds p V\<close> says that the provider in state \<open>p\<close> answers for the table \<open>V\<close>.  A
  completed commit has applied its batch; a failed commit has applied nothing; a commit that asks
  for reconciliation promises nothing about the table.  A load returns a table the provider answers
  for, without duplicates, and does not change it.
\<close>

locale persistence_contract =
  fixes P :: "'p BrokerPersistence"
    and holds :: "'p \<Rightarrow> task_table \<Rightarrow> bool"
  assumes commit_complete: "bp_commit P b p = (Ok Complete, p') \<Longrightarrow> holds p V \<Longrightarrow>
          holds p' (apply_batch b V)"
    and commit_failed: "bp_commit P b p = (Err e, p') \<Longrightarrow> holds p V \<Longrightarrow> holds p' V"
    and commit_no_panic: "bp_commit P b p \<noteq> (Panic, p')"
    and load_table: "bp_load P now p = (Ok snap, p') \<Longrightarrow>
          holds p' (table_of (snap_tasks snap)) \<and> distinct (map dt_task_id (snap_tasks snap))"
    and load_frame: "bp_load P now p = (l, p') \<Longrightarrow> holds p V \<Longrightarrow> holds p' V"
    and load_no_panic: "bp_load P now p \<noteq> (Panic, p')"

text \<open>
  \<^verbatim>\<open>VolatilePersistence\<close>, the provider of a broker without a ledger, stores nothing: it answers for
  every table, and it never asks for the reconciliation that would load one.
\<close>

interpretation volatile: persistence_contract VolatilePersistence "\<lambda>_ _. True"
  by unfold_locales (auto simp: VolatilePersistence_def)

text \<open>
  A provider that outlives the broker's process also answers for the highest registration epoch that
  was ever handed out: no commit lowers it, a completed one raises it to its high watermark, and a
  load returns it.
\<close>

locale durable_contract = persistence_contract P holds
  for P :: "'p BrokerPersistence" and holds +
  fixes epoch :: "'p \<Rightarrow> RegistrationEpoch"
  assumes commit_epoch_mono: "bp_commit P b p = (r, p') \<Longrightarrow>
          (\<And>n. pb_registration_epoch_high_watermark b = Some n \<Longrightarrow> n \<le> u64_max) \<Longrightarrow> epoch p \<le> epoch p'"
    and commit_epoch_reached: "bp_commit P b p = (Ok Complete, p') \<Longrightarrow>
          pb_registration_epoch_high_watermark b = Some n \<Longrightarrow> n \<le> u64_max \<Longrightarrow> n \<le> epoch p'"
    and load_epoch: "bp_load P now p = (Ok snap, p') \<Longrightarrow> snap_last_registration_epoch snap = epoch p'"
    and load_epoch_frame: "bp_load P now p = (l, p') \<Longrightarrow> epoch p' = epoch p"

end
