(* ===== verification/Broker_State.thy ===== *)
theory Broker_State
  imports A2A_Durability
begin

text \<open>
  The state of the task broker in \<^verbatim>\<open>herdr-a2a-core/src/broker.rs\<close> and its private helpers: the
  durable projections of a task, the transition of a task to a terminal state, the detachment of a
  registration, retirement and pruning, and the restoration of a task from its durable form.

  A \<^verbatim>\<open>Notify\<close> and an \<^verbatim>\<open>oneshot::Sender\<close> are named by an identifier; what is sent on them is recorded in
  the effect log of the broker (theory \<open>Broker_Core\<close>).  A reply waiter is a number.  Counters that
  exist only under \<^verbatim>\<open>cfg(test)\<close> are omitted.
\<close>

section \<open>Constants\<close>

definition REGISTRATION_TTL_MS :: i64 where "REGISTRATION_TTL_MS = 30000"
definition DELIVERY_LEASE_MS :: i64 where "DELIVERY_LEASE_MS = 60000"
definition DELIVERY_TTL_MS :: i64 where "DELIVERY_TTL_MS = 24 * 60 * 60 * 1000"
definition TERMINAL_RETENTION_MS :: i64 where "TERMINAL_RETENTION_MS = 30 * 24 * 60 * 60 * 1000"
definition MAX_RETAINED_TASKS :: nat where "MAX_RETAINED_TASKS = 4096"
definition MAX_RETIRED_REGISTRATION_IDS :: nat where "MAX_RETIRED_REGISTRATION_IDS = MAX_RETAINED_TASKS"
definition MAX_ACTIVE_OUTBOUND_TASKS :: nat where "MAX_ACTIVE_OUTBOUND_TASKS = 32"

lemmas broker_constants = REGISTRATION_TTL_MS_def DELIVERY_LEASE_MS_def DELIVERY_TTL_MS_def
  TERMINAL_RETENTION_MS_def MAX_RETAINED_TASKS_def MAX_RETIRED_REGISTRATION_IDS_def
  MAX_ACTIVE_OUTBOUND_TASKS_def

section \<open>Records\<close>

type_synonym ReplyResult = "ReplyPayload dres"
type_synonym ReplyWaiter = nat

record DeliveryLease =
  dl_delivery_id :: DeliveryId
  dl_owner :: "RegistrationCredentials option"
  dl_leased_until_unix_ms :: i64
  dl_attempt :: u32

record TaskRecord =
  tr_enqueue_sequence :: u64
  tr_state_version :: u64
  tr_original_delivery :: QueuedDelivery
  tr_delivery :: "QueuedDelivery option"
  tr_recipient :: AgentName
  tr_sender :: AgentName
  tr_lease :: "DeliveryLease option"
  tr_last_delivery_attempt :: "u32 option"
  tr_acknowledged :: bool
  tr_acknowledged_unix_ms :: "i64 option"
  tr_reply :: "ReplyPayload option"
  tr_reply_waiters :: "ReplyWaiter list"
  tr_failed :: bool
  tr_rejected :: bool
  tr_canceled :: bool
  tr_expired :: bool
  tr_terminal_unix_ms :: "i64 option"
  tr_terminal_deadline_unix_ms :: "i64 option"

record RegistrationState =
  rs_registration :: Registration
  rs_inbox :: "TaskId list"
  rs_wait_active :: bool

record BrokerStatusEvent =
  ev_kind :: string
  ev_canonical_name :: AgentName
  ev_unix_time :: i64

record State =
  s_reconciliation_required :: bool
  s_last_event :: "BrokerStatusEvent option"
  s_next_registration_epoch :: u64
  s_next_task_sequence :: u64
  s_registrations :: "(RegistrationId, RegistrationState) hash_map"
  s_registrations_by_agent :: "(AgentName, RegistrationId) hash_map"
  s_retired_registration_ids :: "RegistrationId list"
  s_retired_registration_order :: "RegistrationId list"
  s_active_tasks_by_agent :: "(AgentName, TaskId) index"
  s_outbound_tasks_by_agent :: "(AgentName, TaskId) index"
  s_tasks_by_sender :: "(AgentName, TaskId) index"
  s_tasks_by_recipient :: "(AgentName, TaskId) index"
  s_tasks :: "(TaskId, TaskRecord) hash_map"
  s_tasks_by_delivery :: "(DeliveryId, TaskId) hash_map"
  s_delivery_deadlines :: deadline_heap
  s_terminal_deadlines :: deadline_heap

definition State_default :: State where
  "State_default =
     \<lparr>s_reconciliation_required = False, s_last_event = None, s_next_registration_epoch = 0,
      s_next_task_sequence = 0, s_registrations = [], s_registrations_by_agent = [],
      s_retired_registration_ids = [], s_retired_registration_order = [],
      s_active_tasks_by_agent = [], s_outbound_tasks_by_agent = [], s_tasks_by_sender = [],
      s_tasks_by_recipient = [], s_tasks = [], s_tasks_by_delivery = [],
      s_delivery_deadlines = [], s_terminal_deadlines = []\<rparr>"

datatype RecipientTerminalState = RecipientFailed | RecipientRejected

datatype TerminalState =
    TerminalReplied ReplyPayload
  | TerminalFailed ReplyPayload
  | TerminalRejected ReplyPayload
  | TerminalCanceled
  | TerminalExpired

section \<open>Small helpers\<close>

definition record_status_event :: "string \<Rightarrow> AgentName \<Rightarrow> i64 \<Rightarrow> State \<Rightarrow> State" where
  "record_status_event kind canonical_name unix_ms s =
     s\<lparr>s_last_event := Some \<lparr>ev_kind = kind, ev_canonical_name = canonical_name,
        ev_unix_time = unix_ms div 1000\<rparr>\<rparr>"

definition active_registration_id :: "State \<Rightarrow> AgentName \<Rightarrow> i64 \<Rightarrow> RegistrationId option" where
  "active_registration_id s agent_name now =
     (case hm_get (s_registrations_by_agent s) agent_name of
        None \<Rightarrow> None
      | Some rid \<Rightarrow>
          (case hm_get (s_registrations s) rid of
             None \<Rightarrow> None
           | Some r \<Rightarrow> if rg_expires_unix_ms (rs_registration r) > now then Some rid else None))"

definition push_inbox :: "TaskId \<Rightarrow> RegistrationState \<Rightarrow> RegistrationState" where
  "push_inbox task_id r = r\<lparr>rs_inbox := rs_inbox r @ [task_id]\<rparr>"

definition validate_active_registration ::
    "State \<Rightarrow> RegistrationCredentials \<Rightarrow> i64 \<Rightarrow> unit dres" where
  "validate_active_registration s c now =
     (case hm_get (s_registrations s) (cr_id c) of
        None \<Rightarrow> if cr_id c \<in> set (s_retired_registration_ids s)
                then Err RegistrationExpired else Err RegistrationNotFound
      | Some r \<Rightarrow>
          if rg_epoch (rs_registration r) \<noteq> cr_epoch c
             \<or> rg_expires_unix_ms (rs_registration r) \<le> now
             \<or> hm_get (s_registrations_by_agent s) (va_name (rg_agent (rs_registration r)))
                 \<noteq> Some (cr_id c)
          then Err RegistrationExpired else Ok ())"

definition leased_by :: "RegistrationCredentials \<Rightarrow> TaskRecord \<Rightarrow> bool" where
  "leased_by c t \<longleftrightarrow>
     \<not> tr_acknowledged t
     \<and> (case tr_lease t of None \<Rightarrow> False | Some l \<Rightarrow> dl_owner l = Some c)"

definition duration_until :: "i64 \<Rightarrow> i64 \<Rightarrow> int" where
  "duration_until now_unix_ms deadline_unix_ms = max (deadline_unix_ms - now_unix_ms) 0"

section \<open>Durable projections of a task\<close>

definition single_task_batch :: "DurableTask \<Rightarrow> PersistenceBatch" where
  "single_task_batch t =
     \<lparr>pb_registration_epoch_high_watermark = None, pb_upsert_tasks = [t], pb_delete_task_ids = []\<rparr>"

definition next_state_version :: "TaskRecord \<Rightarrow> u64 dres" where
  "next_state_version t = ok_or (checked_add_u64 (tr_state_version t) 1) PersistenceUnavailable"

definition task_durable_state :: "TaskRecord \<Rightarrow> DurableTaskState" where
  "task_durable_state t =
     (if tr_failed t then Failed
      else if tr_rejected t then Rejected
      else if tr_reply t \<noteq> None then Replied
      else if tr_canceled t then Canceled
      else if tr_expired t then Expired
      else if tr_acknowledged t then Acknowledged
      else if tr_lease t \<noteq> None then Leased
      else Queued)"

definition durable_lease :: "AgentName \<Rightarrow> DeliveryLease \<Rightarrow> DurableLease" where
  "durable_lease recipient l =
     \<lparr>dle_delivery_id = dl_delivery_id l, dle_owner = recipient,
      dle_leased_until_unix_ms = dl_leased_until_unix_ms l, dle_attempt = dl_attempt l\<rparr>"

definition effective_attempt :: "TaskRecord \<Rightarrow> u32" where
  "effective_attempt t =
     (case tr_last_delivery_attempt t of
        None \<Rightarrow> qd_attempt (tr_original_delivery t) | Some a \<Rightarrow> a)"

definition durable_task :: "TaskId \<Rightarrow> TaskRecord \<Rightarrow> DurableTask dres" where
  "durable_task task_id t =
     res_bind (ok_or (checked_add_i64 (qd_created_unix_ms (tr_original_delivery t)) DELIVERY_TTL_MS)
         PersistenceUnavailable) (\<lambda>deadline.
     Ok \<lparr>dt_task_id = task_id,
         dt_context_id = qd_context_id (tr_original_delivery t),
         dt_sender = tr_sender t,
         dt_recipient = tr_recipient t,
         dt_payload = qd_payload (tr_original_delivery t),
         dt_created_unix_ms = qd_created_unix_ms (tr_original_delivery t),
         dt_delivery_deadline_unix_ms = deadline,
         dt_state_version = tr_state_version t,
         dt_state = task_durable_state t,
         dt_lease = map_option (durable_lease (tr_recipient t)) (tr_lease t),
         dt_attempt = effective_attempt t,
         dt_acknowledged_unix_ms = tr_acknowledged_unix_ms t,
         dt_reply = tr_reply t,
         dt_terminal_unix_ms = tr_terminal_unix_ms t,
         dt_retention_deadline_unix_ms = tr_terminal_deadline_unix_ms t\<rparr>)"

definition durable_requeued_task :: "TaskId \<Rightarrow> TaskRecord \<Rightarrow> DurableTask dres" where
  "durable_requeued_task task_id t =
     res_bind (durable_task task_id t) (\<lambda>d.
     res_bind (next_state_version t) (\<lambda>v.
     Ok (d\<lparr>dt_state_version := v, dt_state := Queued, dt_lease := None,
          dt_acknowledged_unix_ms := None\<rparr>)))"

definition durable_leased_task :: "TaskId \<Rightarrow> TaskRecord \<Rightarrow> DeliveryLease \<Rightarrow> DurableTask dres" where
  "durable_leased_task task_id t l =
     res_bind (durable_task task_id t) (\<lambda>d.
     res_bind (next_state_version t) (\<lambda>v.
     Ok (d\<lparr>dt_state_version := v, dt_state := Leased,
          dt_lease := Some (durable_lease (tr_recipient t) l), dt_attempt := dl_attempt l,
          dt_acknowledged_unix_ms := None\<rparr>)))"

definition durable_acknowledged_task :: "TaskId \<Rightarrow> TaskRecord \<Rightarrow> i64 \<Rightarrow> DurableTask dres" where
  "durable_acknowledged_task task_id t now =
     res_bind (durable_task task_id t) (\<lambda>d.
     res_bind (next_state_version t) (\<lambda>v.
     Ok (d\<lparr>dt_state_version := v, dt_state := Acknowledged,
          dt_acknowledged_unix_ms := Some now\<rparr>)))"

definition durable_terminal_task ::
    "TaskId \<Rightarrow> TaskRecord \<Rightarrow> i64 \<Rightarrow> DurableTaskState \<Rightarrow> ReplyPayload option \<Rightarrow> DurableTask dres" where
  "durable_terminal_task task_id t now st rep =
     res_bind (durable_task task_id t) (\<lambda>d.
     res_bind (next_state_version t) (\<lambda>v.
     res_bind (ok_or (checked_add_i64 now TERMINAL_RETENTION_MS) PersistenceUnavailable) (\<lambda>deadline.
     Ok (d\<lparr>dt_state_version := v, dt_state := st, dt_lease := None,
          dt_acknowledged_unix_ms := None, dt_reply := rep, dt_terminal_unix_ms := Some now,
          dt_retention_deadline_unix_ms := Some deadline\<rparr>))))"

definition reply_result_for_task :: "TaskRecord \<Rightarrow> ReplyResult option" where
  "reply_result_for_task t =
     (if tr_canceled t then Some (Err TaskCanceled)
      else if tr_expired t then Some (Err TaskExpired)
      else if tr_failed t then Some (Err TaskFailed)
      else if tr_rejected t then Some (Err TaskRejected)
      else map_option Ok (tr_reply t))"

section \<open>Requeueing and detachment\<close>

text \<open>
  \<^verbatim>\<open>bump_requeued_versions_for_credentials\<close> panics when a version cannot advance
  (\<^verbatim>\<open>checked_add(1).expect(..)\<close>); the iteration stops there.
\<close>

fun bump_tasks ::
    "RegistrationCredentials \<Rightarrow> (TaskId, TaskRecord) hash_map \<Rightarrow> (TaskId, TaskRecord) hash_map dres"
    where
  "bump_tasks c [] = Ok []"
| "bump_tasks c ((k, t) # m) =
     res_bind
       (if leased_by c t
        then res_bind (expect (checked_add_u64 (tr_state_version t) 1)) (\<lambda>v.
             Ok (t\<lparr>tr_state_version := v\<rparr>))
        else Ok t) (\<lambda>t'.
     res_bind (bump_tasks c m) (\<lambda>m'. Ok ((k, t') # m')))"

definition bump_requeued_versions_for_credentials ::
    "RegistrationCredentials \<Rightarrow> (State, DomainError, unit) op" where
  "bump_requeued_versions_for_credentials c s =
     (case bump_tasks c (s_tasks s) of
        Ok m \<Rightarrow> (Ok (), s\<lparr>s_tasks := m\<rparr>)
      | Err e \<Rightarrow> (Err e, s)
      | Panic \<Rightarrow> (Panic, s))"

fun drop_oldest_retired :: "RegistrationId list \<Rightarrow> RegistrationId list \<Rightarrow>
    RegistrationId list \<times> RegistrationId list" where
  "drop_oldest_retired ids [] = (ids, [])"
| "drop_oldest_retired ids (r # order) =
     (if length (r # order) > MAX_RETIRED_REGISTRATION_IDS
      then drop_oldest_retired (removeAll r ids) order else (ids, r # order))"

definition retire_registration_id :: "RegistrationId \<Rightarrow> State \<Rightarrow> State" where
  "retire_registration_id rid s =
     (let fresh = rid \<notin> set (s_retired_registration_ids s);
          ids = List.insert rid (s_retired_registration_ids s);
          order = (if fresh then s_retired_registration_order s @ [rid]
                   else s_retired_registration_order s);
          (ids', order') = drop_oldest_retired ids order
      in s\<lparr>s_retired_registration_ids := ids', s_retired_registration_order := order'\<rparr>)"

definition release_delivery :: "TaskId \<Rightarrow> DeliveryId option \<Rightarrow> State \<Rightarrow> State" where
  "release_delivery task_id delivery_id s =
     (case delivery_id of
        None \<Rightarrow> s
      | Some d \<Rightarrow>
          if hm_get (s_tasks_by_delivery s) d = Some task_id
          then s\<lparr>s_tasks_by_delivery := hm_remove d (s_tasks_by_delivery s)\<rparr> else s)"

definition take_lease :: "TaskId \<Rightarrow> State \<Rightarrow> State" where
  "take_lease task_id s =
     (let delivery_id = (case hm_get (s_tasks s) task_id of
            None \<Rightarrow> None | Some t \<Rightarrow> map_option dl_delivery_id (tr_lease t))
      in release_delivery task_id delivery_id
           (s\<lparr>s_tasks := hm_modify task_id (\<lambda>t. t\<lparr>tr_lease := None\<rparr>) (s_tasks s)\<rparr>))"

definition detach_registration ::
    "RegistrationId \<Rightarrow> bool \<Rightarrow> State \<Rightarrow> RegistrationState option \<times> State" where
  "detach_registration rid retire s =
     (case hm_get (s_registrations s) rid of
        None \<Rightarrow> (None, s)
      | Some r \<Rightarrow>
          let name = va_name (rg_agent (rs_registration r));
              s1 = s\<lparr>s_registrations := hm_remove rid (s_registrations s)\<rparr>;
              s2 = (if hm_get (s_registrations_by_agent s1) name = Some rid
                    then s1\<lparr>s_registrations_by_agent := hm_remove name (s_registrations_by_agent s1)\<rparr>
                    else s1);
              s3 = (if retire then retire_registration_id rid s2 else s2);
              c = credentials (rs_registration r);
              leased_task_ids = map fst (filter (\<lambda>(_, t). leased_by c t) (s_tasks s3))
          in (Some r, fold take_lease leased_task_ids s3))"

section \<open>Terminal states\<close>

definition terminal_record :: "i64 \<Rightarrow> i64 \<Rightarrow> u64 \<Rightarrow> TerminalState \<Rightarrow> TaskRecord \<Rightarrow> TaskRecord" where
  "terminal_record now deadline version terminal_state t =
     (let t0 = t\<lparr>tr_reply_waiters := [], tr_state_version := version, tr_delivery := None,
                 tr_lease := None, tr_acknowledged := False, tr_acknowledged_unix_ms := None,
                 tr_reply := None, tr_failed := False, tr_rejected := False, tr_canceled := False,
                 tr_expired := False\<rparr>;
          t1 = (case terminal_state of
                  TerminalReplied r \<Rightarrow> t0\<lparr>tr_reply := Some r\<rparr>
                | TerminalFailed m \<Rightarrow> t0\<lparr>tr_reply := Some m, tr_failed := True\<rparr>
                | TerminalRejected m \<Rightarrow> t0\<lparr>tr_reply := Some m, tr_rejected := True\<rparr>
                | TerminalCanceled \<Rightarrow> t0\<lparr>tr_canceled := True\<rparr>
                | TerminalExpired \<Rightarrow> t0\<lparr>tr_expired := True\<rparr>)
      in t1\<lparr>tr_terminal_unix_ms := Some now, tr_terminal_deadline_unix_ms := Some deadline\<rparr>)"

definition remove_from_inbox :: "AgentName \<Rightarrow> TaskId \<Rightarrow> State \<Rightarrow> State" where
  "remove_from_inbox recipient task_id s =
     (case hm_get (s_registrations_by_agent s) recipient of
        None \<Rightarrow> s
      | Some rid \<Rightarrow> s\<lparr>s_registrations := hm_modify rid
          (\<lambda>r. r\<lparr>rs_inbox := filter (\<lambda>q. q \<noteq> task_id) (rs_inbox r)\<rparr>) (s_registrations s)\<rparr>)"

definition unindex_task :: "AgentName \<Rightarrow> AgentName \<Rightarrow> TaskId \<Rightarrow> State \<Rightarrow> State" where
  "unindex_task sender recipient task_id s =
     s\<lparr>s_active_tasks_by_agent :=
          bucket_remove sender task_id (bucket_remove recipient task_id (s_active_tasks_by_agent s)),
       s_outbound_tasks_by_agent := bucket_remove sender task_id (s_outbound_tasks_by_agent s),
       s_tasks_by_sender := bucket_remove sender task_id (s_tasks_by_sender s),
       s_tasks_by_recipient := bucket_remove recipient task_id (s_tasks_by_recipient s)\<rparr>"

definition terminalize_task ::
    "TaskId \<Rightarrow> i64 \<Rightarrow> TerminalState \<Rightarrow> (State, DomainError, ReplyWaiter list) op" where
  "terminalize_task task_id now terminal_state s =
     (case checked_add_i64 now TERMINAL_RETENTION_MS of
        None \<Rightarrow> (Err PersistenceUnavailable, s)
      | Some deadline \<Rightarrow>
          (case hm_get (s_tasks s) task_id of
             None \<Rightarrow> (Panic, s)
           | Some t \<Rightarrow>
               if tr_terminal_deadline_unix_ms t \<noteq> None then (Ok [], s)
               else (case checked_add_u64 (tr_state_version t) 1 of
                 None \<Rightarrow> (Panic, s\<lparr>s_tasks := hm_insert task_id (t\<lparr>tr_reply_waiters := []\<rparr>) (s_tasks s)\<rparr>)
               | Some v \<Rightarrow>
                   let s1 = s\<lparr>s_tasks := hm_insert task_id
                                (terminal_record now deadline v terminal_state t) (s_tasks s)\<rparr>;
                       s2 = release_delivery task_id (map_option dl_delivery_id (tr_lease t)) s1;
                       s3 = remove_from_inbox (tr_recipient t) task_id s2;
                       s4 = unindex_task (tr_sender t) (tr_recipient t) task_id s3
                   in (Ok (tr_reply_waiters t),
                       s4\<lparr>s_terminal_deadlines :=
                            heap_push (deadline, task_id) (s_terminal_deadlines s4)\<rparr>))))"

section \<open>Pruning\<close>

fun prune_terminal ::
    "i64 \<Rightarrow> deadline_heap \<Rightarrow> (TaskId, TaskRecord) hash_map \<Rightarrow>
     deadline_heap \<times> (TaskId, TaskRecord) hash_map" where
  "prune_terminal now [] tasks = ([], tasks)"
| "prune_terminal now ((deadline, task_id) # h) tasks =
     (if deadline \<le> now
      then prune_terminal now h
             (if (case hm_get tasks task_id of None \<Rightarrow> False
                  | Some t \<Rightarrow> tr_terminal_deadline_unix_ms t = Some deadline)
              then hm_remove task_id tasks else tasks)
      else ((deadline, task_id) # h, tasks))"

definition prune_terminal_tasks :: "i64 \<Rightarrow> State \<Rightarrow> State" where
  "prune_terminal_tasks now s =
     (let (h, tasks) = prune_terminal now (s_terminal_deadlines s) (s_tasks s)
      in s\<lparr>s_terminal_deadlines := h, s_tasks := tasks\<rparr>)"

definition prune_delivery_deadlines :: "i64 \<Rightarrow> State \<Rightarrow> State" where
  "prune_delivery_deadlines now s =
     s\<lparr>s_delivery_deadlines := dropWhile (\<lambda>(deadline, _). deadline \<le> now) (s_delivery_deadlines s)\<rparr>"

section \<open>Restoring a task\<close>

definition is_terminal_state :: "DurableTaskState \<Rightarrow> bool" where
  "is_terminal_state st \<longleftrightarrow> st \<in> {Replied, Failed, Rejected, Canceled, Expired}"

definition index_task :: "AgentName \<Rightarrow> AgentName \<Rightarrow> TaskId \<Rightarrow> State \<Rightarrow> State" where
  "index_task sender recipient task_id s =
     s\<lparr>s_active_tasks_by_agent :=
          bucket_insert recipient task_id (bucket_insert sender task_id (s_active_tasks_by_agent s)),
       s_outbound_tasks_by_agent := bucket_insert sender task_id (s_outbound_tasks_by_agent s),
       s_tasks_by_sender := bucket_insert sender task_id (s_tasks_by_sender s),
       s_tasks_by_recipient := bucket_insert recipient task_id (s_tasks_by_recipient s)\<rparr>"

definition restored_delivery :: "DurableTask \<Rightarrow> QueuedDelivery" where
  "restored_delivery d =
     \<lparr>qd_task_id = dt_task_id d, qd_context_id = dt_context_id d, qd_sender = dt_sender d,
      qd_recipient = dt_recipient d, qd_payload = dt_payload d,
      qd_created_unix_ms = dt_created_unix_ms d, qd_attempt = dt_attempt d\<rparr>"

definition restored_lease :: "DurableLease \<Rightarrow> DeliveryLease" where
  "restored_lease l =
     \<lparr>dl_delivery_id = dle_delivery_id l, dl_owner = None,
      dl_leased_until_unix_ms = dle_leased_until_unix_ms l, dl_attempt = dle_attempt l\<rparr>"

definition restored_record :: "u64 \<Rightarrow> DurableTask \<Rightarrow> TaskRecord" where
  "restored_record seq d =
     \<lparr>tr_enqueue_sequence = seq,
      tr_state_version = dt_state_version d,
      tr_original_delivery = restored_delivery d,
      tr_delivery = (if is_terminal_state (dt_state d) then None else Some (restored_delivery d)),
      tr_recipient = dt_recipient d,
      tr_sender = dt_sender d,
      tr_lease = map_option restored_lease (dt_lease d),
      tr_last_delivery_attempt = (if dt_state_version d > 1 then Some (dt_attempt d) else None),
      tr_acknowledged = (dt_state d = Acknowledged),
      tr_acknowledged_unix_ms = dt_acknowledged_unix_ms d,
      tr_reply = dt_reply d,
      tr_reply_waiters = [],
      tr_failed = (dt_state d = Failed),
      tr_rejected = (dt_state d = Rejected),
      tr_canceled = (dt_state d = Canceled),
      tr_expired = (dt_state d = Expired),
      tr_terminal_unix_ms = dt_terminal_unix_ms d,
      tr_terminal_deadline_unix_ms = dt_retention_deadline_unix_ms d\<rparr>"

definition restore_task :: "DurableTask \<Rightarrow> (State, DomainError, unit) op" where
  "restore_task d s =
     (let task_id = dt_task_id d;
          record = restored_record (s_next_task_sequence s) d
      in if is_terminal_state (dt_state d)
         then (case tr_terminal_deadline_unix_ms record of
                 None \<Rightarrow> (Err PersistenceUnavailable, s)
               | Some deadline \<Rightarrow>
                   (Ok (), s\<lparr>s_terminal_deadlines :=
                                heap_push (deadline, task_id) (s_terminal_deadlines s),
                             s_tasks := hm_insert task_id record (s_tasks s)\<rparr>))
         else
           let s1 = (case tr_lease record of
                       None \<Rightarrow> s
                     | Some l \<Rightarrow> s\<lparr>s_tasks_by_delivery :=
                                     hm_insert (dl_delivery_id l) task_id (s_tasks_by_delivery s)\<rparr>);
               s2 = s1\<lparr>s_delivery_deadlines :=
                         heap_push (dt_delivery_deadline_unix_ms d, task_id) (s_delivery_deadlines s1)\<rparr>;
               s3 = index_task (dt_sender d) (dt_recipient d) task_id s2
           in (Ok (), s3\<lparr>s_tasks := hm_insert task_id record (s_tasks s3)\<rparr>))"

end
