(* ===== verification/Broker_Snapshot.thy ===== *)
theory Broker_Snapshot
  imports Broker_State
begin

text \<open>
  The recovery side of \<^verbatim>\<open>herdr-a2a-core/src/broker.rs\<close>: the validation of one durable task
  (\<^verbatim>\<open>validate_durable_task\<close>) and of a loaded snapshot with its reconciliation against the clock
  (\<^verbatim>\<open>validate_and_reconcile_snapshot\<close>).
\<close>

section \<open>One durable task\<close>

definition persisted_reply :: "ReplyPayload \<Rightarrow> ValidatedPayload" where
  "persisted_reply r =
     \<lparr>vp_text = rp_text r, vp_metadata = rp_metadata r, vp_file_refs = rp_file_refs r\<rparr>"

definition terminal_times_valid :: "DurableTask \<Rightarrow> bool" where
  "terminal_times_valid d =
     (case (dt_terminal_unix_ms d, dt_retention_deadline_unix_ms d) of
        (None, None) \<Rightarrow> True
      | (Some terminal, Some retention) \<Rightarrow>
          terminal \<ge> dt_created_unix_ms d
          \<and> checked_add_i64 terminal TERMINAL_RETENTION_MS = Some retention
      | _ \<Rightarrow> False)"

fun valid_state_columns :: "DurableTaskState \<Rightarrow> DurableTask \<Rightarrow> bool" where
  "valid_state_columns Queued d =
     (dt_lease d = None \<and> dt_acknowledged_unix_ms d = None \<and> dt_reply d = None
      \<and> dt_terminal_unix_ms d = None)"
| "valid_state_columns Leased d =
     (dt_lease d \<noteq> None \<and> dt_acknowledged_unix_ms d = None \<and> dt_reply d = None
      \<and> dt_terminal_unix_ms d = None)"
| "valid_state_columns Acknowledged d =
     (dt_lease d \<noteq> None \<and> dt_acknowledged_unix_ms d \<noteq> None \<and> dt_reply d = None
      \<and> dt_terminal_unix_ms d = None)"
| "valid_state_columns Replied d =
     (dt_lease d = None \<and> dt_acknowledged_unix_ms d = None \<and> dt_reply d \<noteq> None
      \<and> dt_terminal_unix_ms d \<noteq> None)"
| "valid_state_columns Failed d =
     (dt_lease d = None \<and> dt_acknowledged_unix_ms d = None \<and> dt_reply d \<noteq> None
      \<and> dt_terminal_unix_ms d \<noteq> None)"
| "valid_state_columns Rejected d =
     (dt_lease d = None \<and> dt_acknowledged_unix_ms d = None \<and> dt_reply d \<noteq> None
      \<and> dt_terminal_unix_ms d \<noteq> None)"
| "valid_state_columns Canceled d =
     (dt_lease d = None \<and> dt_acknowledged_unix_ms d = None \<and> dt_reply d = None
      \<and> dt_terminal_unix_ms d \<noteq> None)"
| "valid_state_columns Expired d =
     (dt_lease d = None \<and> dt_acknowledged_unix_ms d = None \<and> dt_reply d = None
      \<and> dt_terminal_unix_ms d \<noteq> None)"

definition validate_durable_task :: "(json \<Rightarrow> nat) \<Rightarrow> DurableTask \<Rightarrow> unit dres" where
  "validate_durable_task json_len d =
     res_bind (map_err PersistenceUnavailable (validate_task_id (dt_task_id d))) (\<lambda>_.
     res_bind (map_err PersistenceUnavailable (validate_task_id (dt_context_id d))) (\<lambda>_.
     res_bind (map_err PersistenceUnavailable (AgentName_parse (dt_sender d))) (\<lambda>_.
     res_bind (map_err PersistenceUnavailable (AgentName_parse (dt_recipient d))) (\<lambda>_.
     res_bind (map_err PersistenceUnavailable (validate_persisted_payload json_len (dt_payload d))) (\<lambda>_.
     res_bind (case dt_reply d of
                 None \<Rightarrow> Ok ()
               | Some r \<Rightarrow> map_err PersistenceUnavailable
                             (validate_persisted_payload json_len (persisted_reply r))) (\<lambda>_.
     res_bind (ok_or (checked_add_i64 (dt_created_unix_ms d) DELIVERY_TTL_MS)
                 PersistenceUnavailable) (\<lambda>deadline.
     if dt_created_unix_ms d < 0 \<or> dt_delivery_deadline_unix_ms d \<noteq> deadline
        \<or> dt_state_version d = 0
     then Err PersistenceUnavailable
     else if (case dt_lease d of
                None \<Rightarrow> False
              | Some l \<Rightarrow> dle_owner l \<noteq> dt_recipient d \<or> dle_attempt l \<noteq> dt_attempt d
                  \<or> dle_leased_until_unix_ms l < dt_created_unix_ms d)
     then Err PersistenceUnavailable
     else if (case dt_acknowledged_unix_ms d of
                None \<Rightarrow> False
              | Some ack \<Rightarrow> ack < dt_created_unix_ms d \<or> ack > dt_delivery_deadline_unix_ms d)
     then Err PersistenceUnavailable
     else if \<not> terminal_times_valid d then Err PersistenceUnavailable
     else if valid_state_columns (dt_state d) d then Ok () else Err PersistenceUnavailable)))))))"

text \<open>What the validation establishes, apart from the grammar of names and payloads.\<close>

definition durable_ok :: "DurableTask \<Rightarrow> bool" where
  "durable_ok d \<longleftrightarrow>
     checked_add_i64 (dt_created_unix_ms d) DELIVERY_TTL_MS = Some (dt_delivery_deadline_unix_ms d)
     \<and> 0 \<le> dt_created_unix_ms d \<and> 0 < dt_state_version d
     \<and> (\<forall>l. dt_lease d = Some l \<longrightarrow>
          dle_owner l = dt_recipient d \<and> dle_attempt l = dt_attempt d
          \<and> dt_created_unix_ms d \<le> dle_leased_until_unix_ms l)
     \<and> (\<forall>ack. dt_acknowledged_unix_ms d = Some ack \<longrightarrow>
          dt_created_unix_ms d \<le> ack \<and> ack \<le> dt_delivery_deadline_unix_ms d)
     \<and> terminal_times_valid d \<and> valid_state_columns (dt_state d) d"

definition durable_names_ok :: "(json \<Rightarrow> nat) \<Rightarrow> DurableTask \<Rightarrow> bool" where
  "durable_names_ok json_len d \<longleftrightarrow>
     validate_task_id (dt_task_id d) = Ok () \<and> validate_task_id (dt_context_id d) = Ok ()
     \<and> AgentName_parse (dt_sender d) = Ok (dt_sender d)
     \<and> AgentName_parse (dt_recipient d) = Ok (dt_recipient d)
     \<and> validate_persisted_payload json_len (dt_payload d) = Ok ()
     \<and> (\<forall>r. dt_reply d = Some r \<longrightarrow> validate_persisted_payload json_len (persisted_reply r) = Ok ())"

lemma validate_durable_task_Ok:
  "validate_durable_task json_len d = Ok () \<longleftrightarrow> durable_ok d \<and> durable_names_ok json_len d"
  using AgentName_parse_Ok [of "dt_sender d"] AgentName_parse_Ok [of "dt_recipient d"]
  by (auto simp: validate_durable_task_def durable_ok_def durable_names_ok_def res_bind_eq_Ok
      not_less split: option.splits if_splits)

lemma validate_durable_task_not_Panic [simp]: "validate_durable_task json_len d \<noteq> Panic"
  by (auto simp: validate_durable_task_def res_bind_eq_Panic split: option.splits)

section \<open>A snapshot\<close>

record BrokerRecoveryReport =
  rr_requeued :: nat
  rr_expired :: nat
  rr_pruned :: nat
  rr_restored :: nat

definition BrokerRecoveryReport_default :: BrokerRecoveryReport where
  "BrokerRecoveryReport_default = \<lparr>rr_requeued = 0, rr_expired = 0, rr_pruned = 0, rr_restored = 0\<rparr>"

text \<open>The local variables of the loop in \<^verbatim>\<open>validate_and_reconcile_snapshot\<close>.\<close>

record Reconciliation =
  rc_task_ids :: "TaskId list"
  rc_delivery_ids :: "DeliveryId list"
  rc_restored :: "DurableTask list"
  rc_upsert_tasks :: "DurableTask list"
  rc_delete_task_ids :: "TaskId list"
  rc_report :: BrokerRecoveryReport

definition expire_durable :: "i64 \<Rightarrow> i64 \<Rightarrow> u64 \<Rightarrow> DurableTask \<Rightarrow> DurableTask" where
  "expire_durable now deadline version d =
     d\<lparr>dt_state_version := version, dt_state := Expired, dt_lease := None,
       dt_acknowledged_unix_ms := None, dt_reply := None, dt_terminal_unix_ms := Some now,
       dt_retention_deadline_unix_ms := Some deadline\<rparr>"

definition requeue_durable :: "u64 \<Rightarrow> DurableTask \<Rightarrow> DurableTask" where
  "requeue_durable version d = d\<lparr>dt_state_version := version, dt_state := Queued, dt_lease := None\<rparr>"

definition reconcile_one ::
    "(json \<Rightarrow> nat) \<Rightarrow> i64 \<Rightarrow> DurableTask \<Rightarrow> Reconciliation \<Rightarrow> Reconciliation dres" where
  "reconcile_one json_len now d rc =
     res_bind (validate_durable_task json_len d) (\<lambda>_.
     if dt_task_id d \<in> set (rc_task_ids rc) then Err PersistenceUnavailable
     else
       let rc1 = rc\<lparr>rc_task_ids := dt_task_id d # rc_task_ids rc\<rparr>
       in if (case dt_lease d of None \<Rightarrow> False
              | Some l \<Rightarrow> dle_delivery_id l \<in> set (rc_delivery_ids rc1))
          then Err PersistenceUnavailable
          else
            let rc2 = (case dt_lease d of None \<Rightarrow> rc1
                       | Some l \<Rightarrow> rc1\<lparr>rc_delivery_ids := dle_delivery_id l # rc_delivery_ids rc1\<rparr>)
            in if (case dt_retention_deadline_unix_ms d of None \<Rightarrow> False | Some dl \<Rightarrow> dl \<le> now)
               then Ok (rc2\<lparr>rc_delete_task_ids := rc_delete_task_ids rc2 @ [dt_task_id d],
                            rc_report := (rc_report rc2)\<lparr>rr_pruned := rr_pruned (rc_report rc2) + 1\<rparr>\<rparr>)
               else if \<not> is_terminal_state (dt_state d) \<and> dt_delivery_deadline_unix_ms d \<le> now
               then
                 res_bind (ok_or (checked_add_i64 now TERMINAL_RETENTION_MS) PersistenceUnavailable)
                   (\<lambda>deadline.
                 res_bind (ok_or (checked_add_u64 (dt_state_version d) 1) PersistenceUnavailable) (\<lambda>v.
                 let d' = expire_durable now deadline v d
                 in Ok (rc2\<lparr>rc_upsert_tasks := rc_upsert_tasks rc2 @ [d'],
                            rc_report := (rc_report rc2)\<lparr>rr_expired := rr_expired (rc_report rc2) + 1\<rparr>,
                            rc_restored := rc_restored rc2 @ [d']\<rparr>)))
               else if dt_state d = Leased
               then
                 res_bind (ok_or (checked_add_u64 (dt_state_version d) 1) PersistenceUnavailable) (\<lambda>v.
                 let d' = requeue_durable v d
                 in Ok (rc2\<lparr>rc_upsert_tasks := rc_upsert_tasks rc2 @ [d'],
                            rc_report := (rc_report rc2)\<lparr>rr_requeued := rr_requeued (rc_report rc2) + 1\<rparr>,
                            rc_restored := rc_restored rc2 @ [d']\<rparr>))
               else Ok (rc2\<lparr>rc_restored := rc_restored rc2 @ [d]\<rparr>))"

fun reconcile_loop ::
    "(json \<Rightarrow> nat) \<Rightarrow> i64 \<Rightarrow> DurableTask list \<Rightarrow> Reconciliation \<Rightarrow> Reconciliation dres" where
  "reconcile_loop json_len now [] rc = Ok rc"
| "reconcile_loop json_len now (d # ds) rc =
     res_bind (reconcile_one json_len now d rc) (reconcile_loop json_len now ds)"

definition validate_and_reconcile_snapshot ::
    "(json \<Rightarrow> nat) \<Rightarrow> DurableTask list \<Rightarrow> i64 \<Rightarrow> BrokerRecoveryReport \<Rightarrow>
     (DurableTask list \<times> PersistenceBatch \<times> BrokerRecoveryReport) dres" where
  "validate_and_reconcile_snapshot json_len tasks now report =
     (if length tasks > MAX_RETAINED_TASKS then Err PersistenceUnavailable
      else
        res_bind (reconcile_loop json_len now tasks
            \<lparr>rc_task_ids = [], rc_delivery_ids = [], rc_restored = [], rc_upsert_tasks = [],
             rc_delete_task_ids = [], rc_report = report\<rparr>) (\<lambda>rc.
        Ok (rc_restored rc,
            \<lparr>pb_registration_epoch_high_watermark = None, pb_upsert_tasks = rc_upsert_tasks rc,
             pb_delete_task_ids = rc_delete_task_ids rc\<rparr>,
            rc_report rc)))"

end
