(* ===== verification/Broker_Core.thy ===== *)
theory Broker_Core
  imports Broker_Snapshot
begin

text \<open>
  The broker with its persistence, and the maintenance that runs at the start of every operation
  (\<^verbatim>\<open>commit_transition\<close>, \<^verbatim>\<open>reconcile_state_if_required\<close>, \<^verbatim>\<open>maintain_state\<close>,
  \<^verbatim>\<open>validate_registration_and_maintain\<close> of \<^verbatim>\<open>herdr-a2a-core/src/broker.rs\<close>).

  A \<open>Broker\<close> is what one holder of the state mutex sees: the state, the provider's state, the
  directory generation, and a log of the effects on other tasks (wake-ups, resolved reply waiters)
  and of the commits, in the order they happen.  The parameters are the persistence provider \<open>P\<close>,
  the serialized length of JSON values \<open>json_len\<close>, and the clock reading \<open>now\<close>.
\<close>

section \<open>The broker and its effects\<close>

datatype effect =
    NotifyRegistration RegistrationId
  | NotifyDirectory
  | SendReply ReplyWaiter ReplyResult
  | Committed PersistenceBatch "PersistenceCommitOutcome dres"

record 'p Broker =
  b_state :: State
  b_persistence :: 'p
  b_generation :: u64
  b_effects :: "effect list"
  b_next_waiter :: ReplyWaiter
  b_closed_waiters :: "ReplyWaiter list"

type_synonym ('p, 'a) bop = "('p Broker, DomainError, 'a) op"

definition with_clock :: "'p \<Rightarrow> 'p Broker" where
  "with_clock p =
     \<lparr>b_state = State_default, b_persistence = p, b_generation = 0, b_effects = [],
      b_next_waiter = 0, b_closed_waiters = []\<rparr>"

definition in_state :: "(State, DomainError, 'a) op \<Rightarrow> ('p, 'a) bop" where
  "in_state f w = (case f (b_state w) of (r, s) \<Rightarrow> (r, w\<lparr>b_state := s\<rparr>))"

definition modify_state :: "(State \<Rightarrow> State) \<Rightarrow> ('p, unit) bop" where
  "modify_state f = modify (\<lambda>w. w\<lparr>b_state := f (b_state w)\<rparr>)"

definition get_state :: "(State \<Rightarrow> 'a) \<Rightarrow> ('p, 'a) bop" where
  "get_state f = gets (\<lambda>w. f (b_state w))"

definition emit :: "effect list \<Rightarrow> ('p, unit) bop" where
  "emit fx = modify (\<lambda>w. w\<lparr>b_effects := b_effects w @ fx\<rparr>)"

definition DirectoryChanges_record :: "('p, unit) bop" where
  "DirectoryChanges_record =
     modify (\<lambda>w. w\<lparr>b_generation := (b_generation w + 1) mod 2 ^ 64,
                    b_effects := b_effects w @ [NotifyDirectory]\<rparr>)"

definition resolve_reply_waiters :: "(ReplyWaiter \<times> ReplyResult) list \<Rightarrow> ('p, unit) bop" where
  "resolve_reply_waiters rs = emit (map (\<lambda>(w, r). SendReply w r) rs)"

definition persistence_commit ::
    "'p BrokerPersistence \<Rightarrow> PersistenceBatch \<Rightarrow> ('p, PersistenceCommitOutcome) bop" where
  "persistence_commit P batch w =
     (case bp_commit P batch (b_persistence w) of
        (r, p) \<Rightarrow> (r, w\<lparr>b_persistence := p, b_effects := b_effects w @ [Committed batch r]\<rparr>))"

definition persistence_load ::
    "'p BrokerPersistence \<Rightarrow> i64 \<Rightarrow> ('p, DurableBrokerSnapshot) bop" where
  "persistence_load P now w =
     (case bp_load P now (b_persistence w) of (r, p) \<Rightarrow> (r, w\<lparr>b_persistence := p\<rparr>))"

definition commit_transition :: "'p BrokerPersistence \<Rightarrow> PersistenceBatch \<Rightarrow> ('p, unit) bop" where
  "commit_transition P batch =
     bindM (persistence_commit P batch) (\<lambda>outcome.
     case outcome of
       Complete \<Rightarrow> ret ()
     | ReconciliationRequired \<Rightarrow>
         bindM (modify_state (\<lambda>s. s\<lparr>s_reconciliation_required := True\<rparr>)) (\<lambda>_.
         throw PersistenceUnavailable))"

section \<open>Reconciliation\<close>

definition retained_after :: "i64 \<Rightarrow> DurableTask list \<Rightarrow> DurableTask list" where
  "retained_after now tasks =
     filter (\<lambda>d. case dt_retention_deadline_unix_ms d of None \<Rightarrow> True | Some dl \<Rightarrow> dl > now) tasks"

definition restore_order :: "DurableTask list \<Rightarrow> DurableTask list" where
  "restore_order tasks = sort_key (\<lambda>d. (dt_created_unix_ms d, dt_task_id d)) tasks"

definition retained_waiters :: "State \<Rightarrow> (TaskId \<times> ReplyWaiter list) list" where
  "retained_waiters s =
     filter (\<lambda>(_, ws). ws \<noteq> []) (map (\<lambda>(k, t). (k, tr_reply_waiters t)) (s_tasks s))"

definition clear_for_reconciliation :: "u64 \<Rightarrow> State \<Rightarrow> State" where
  "clear_for_reconciliation last_epoch s =
     s\<lparr>s_next_registration_epoch := max (s_next_registration_epoch s) last_epoch,
       s_next_task_sequence := 0,
       s_active_tasks_by_agent := [], s_outbound_tasks_by_agent := [], s_tasks_by_sender := [],
       s_tasks_by_recipient := [], s_tasks := [], s_tasks_by_delivery := [],
       s_delivery_deadlines := [], s_terminal_deadlines := [],
       s_registrations := hm_map_values (\<lambda>r. r\<lparr>rs_inbox := []\<rparr>) (s_registrations s)\<rparr>"

definition restore_next :: "DurableTask \<Rightarrow> (State, DomainError, unit) op" where
  "restore_next d s =
     (case checked_add_u64 (s_next_task_sequence s) 1 of
        None \<Rightarrow> (Err PersistenceUnavailable, s)
      | Some n \<Rightarrow> restore_task d (s\<lparr>s_next_task_sequence := n\<rparr>))"

definition active_credentials :: "State \<Rightarrow> i64 \<Rightarrow> AgentName \<Rightarrow> RegistrationCredentials option" where
  "active_credentials s now agent_name =
     (case hm_get (s_registrations_by_agent s) agent_name of
        None \<Rightarrow> None
      | Some rid \<Rightarrow>
          (case hm_get (s_registrations s) rid of
             None \<Rightarrow> None
           | Some r \<Rightarrow> if rg_expires_unix_ms (rs_registration r) > now
                       then Some (credentials (rs_registration r)) else None))"

definition rebind_leases :: "i64 \<Rightarrow> State \<Rightarrow> State" where
  "rebind_leases now s =
     s\<lparr>s_tasks := hm_map_values
         (\<lambda>t. t\<lparr>tr_lease := map_option
                  (\<lambda>l. l\<lparr>dl_owner := active_credentials s now (tr_recipient t)\<rparr>) (tr_lease t)\<rparr>)
         (s_tasks s)\<rparr>"

fun reattach_waiters ::
    "(TaskId \<times> ReplyWaiter list) list \<Rightarrow> State \<Rightarrow> (ReplyWaiter \<times> ReplyResult) list \<times> State" where
  "reattach_waiters [] s = ([], s)"
| "reattach_waiters ((task_id, waiters) # rest) s =
     (case hm_get (s_tasks s) task_id of
        Some t \<Rightarrow>
          (case reply_result_for_task t of
             Some result \<Rightarrow>
               (case reattach_waiters rest s of
                  (rs, s') \<Rightarrow> (map (\<lambda>w. (w, result)) waiters @ rs, s'))
           | None \<Rightarrow>
               reattach_waiters rest
                 (s\<lparr>s_tasks := hm_modify task_id
                      (\<lambda>t. t\<lparr>tr_reply_waiters := tr_reply_waiters t @ waiters\<rparr>) (s_tasks s)\<rparr>))
      | None \<Rightarrow>
          (case reattach_waiters rest s of
             (rs, s') \<Rightarrow> (map (\<lambda>w. (w, Err TaskNotFound)) waiters @ rs, s')))"

definition inbox_entries :: "i64 \<Rightarrow> State \<Rightarrow> (RegistrationId \<times> u64 \<times> TaskId) list" where
  "inbox_entries now s =
     sort (List.map_filter (\<lambda>(task_id, t).
        if tr_delivery t \<noteq> None \<and> \<not> tr_acknowledged t \<and> \<not> tr_canceled t \<and> \<not> tr_expired t
           \<and> tr_reply t = None \<and> tr_lease t = None
        then (case hm_get (s_registrations_by_agent s) (tr_recipient t) of
                None \<Rightarrow> None
              | Some rid \<Rightarrow>
                  (case hm_get (s_registrations s) rid of
                     None \<Rightarrow> None
                   | Some r \<Rightarrow> if rg_expires_unix_ms (rs_registration r) > now
                               then Some (rid, tr_enqueue_sequence t, task_id) else None))
        else None) (s_tasks s))"

fun push_inbox_entries ::
    "(RegistrationId \<times> u64 \<times> TaskId) list \<Rightarrow> State \<Rightarrow> RegistrationId list \<times> State" where
  "push_inbox_entries [] s = ([], s)"
| "push_inbox_entries ((rid, _, task_id) # rest) s =
     (case hm_get (s_registrations s) rid of
        None \<Rightarrow> push_inbox_entries rest s
      | Some r \<Rightarrow>
          (case push_inbox_entries rest
                  (s\<lparr>s_registrations := hm_modify rid (push_inbox task_id) (s_registrations s)\<rparr>) of
             (ns, s') \<Rightarrow> (rid # ns, s')))"

definition empty_batch :: PersistenceBatch where
  "empty_batch =
     \<lparr>pb_registration_epoch_high_watermark = None, pb_upsert_tasks = [], pb_delete_task_ids = []\<rparr>"

text \<open>The in-memory half of reconciliation: from the repaired, sorted tasks to the new state.\<close>

definition rebuild_state :: "i64 \<Rightarrow> u64 \<Rightarrow> DurableTask list \<Rightarrow> ('p, unit) bop" where
  "rebuild_state now last_epoch tasks =
     bindM (get_state retained_waiters) (\<lambda>retained.
     bindM (modify_state (clear_for_reconciliation last_epoch)) (\<lambda>_.
     bindM (in_state (forM tasks restore_next)) (\<lambda>_.
     bindM (modify_state (rebind_leases now)) (\<lambda>_.
     bindM (in_state (\<lambda>s. case reattach_waiters retained s of (rs, s') \<Rightarrow> (Ok rs, s'))) (\<lambda>resolutions.
     bindM (in_state (\<lambda>s. case push_inbox_entries (inbox_entries now s) s of (ns, s') \<Rightarrow> (Ok ns, s')))
       (\<lambda>notify.
     bindM (modify_state (\<lambda>s. s\<lparr>s_reconciliation_required := False\<rparr>)) (\<lambda>_.
     bindM (resolve_reply_waiters resolutions) (\<lambda>_.
     emit (map NotifyRegistration notify)))))))))"

definition commit_recovery :: "'p BrokerPersistence \<Rightarrow> PersistenceBatch \<Rightarrow> ('p, unit) bop" where
  "commit_recovery P batch =
     whenM (\<not> PersistenceBatch_is_empty batch)
       (bindM (persistence_commit P batch) (\<lambda>outcome.
        if outcome = ReconciliationRequired then throw PersistenceUnavailable else ret ()))"

definition reconcile_state_if_required ::
    "'p BrokerPersistence \<Rightarrow> (json \<Rightarrow> nat) \<Rightarrow> i64 \<Rightarrow> ('p, unit) bop" where
  "reconcile_state_if_required P json_len now =
     bindM (get_state s_reconciliation_required) (\<lambda>required.
     if \<not> required then ret ()
     else
       bindM (persistence_commit P empty_batch) (\<lambda>repair.
       if repair = ReconciliationRequired then throw PersistenceUnavailable
       else
         bindM (persistence_load P now) (\<lambda>snap.
         if snap_last_registration_epoch snap = u64_max then throw PersistenceUnavailable
         else
           bindM (lift_res (validate_and_reconcile_snapshot json_len (snap_tasks snap) now
                    BrokerRecoveryReport_default)) (\<lambda>(tasks, batch, _).
           bindM (commit_recovery P batch) (\<lambda>_.
           rebuild_state now (snap_last_registration_epoch snap)
             (restore_order (retained_after now tasks)))))))"

section \<open>Maintenance\<close>

definition task_due :: "i64 \<Rightarrow> TaskRecord \<Rightarrow> bool dres" where
  "task_due now t =
     (if tr_terminal_deadline_unix_ms t = None
      then (case tr_delivery t of
              None \<Rightarrow> Ok False
            | Some d \<Rightarrow>
                res_bind (ok_or (checked_add_i64 (qd_created_unix_ms d) DELIVERY_TTL_MS)
                    PersistenceUnavailable) (\<lambda>deadline. Ok (deadline \<le> now)))
      else Ok False)"

fun due_task_ids :: "i64 \<Rightarrow> (TaskId, TaskRecord) hash_map \<Rightarrow> TaskId list dres" where
  "due_task_ids now [] = Ok []"
| "due_task_ids now ((k, t) # m) =
     res_bind (task_due now t) (\<lambda>due.
     res_bind (due_task_ids now m) (\<lambda>ks. Ok (if due then k # ks else ks)))"

definition expired_registration_ids :: "i64 \<Rightarrow> State \<Rightarrow> RegistrationId list" where
  "expired_registration_ids now s =
     map fst (filter (\<lambda>(_, r). rg_expires_unix_ms (rs_registration r) \<le> now) (s_registrations s))"

definition expired_credentials :: "i64 \<Rightarrow> State \<Rightarrow> RegistrationCredentials list" where
  "expired_credentials now s =
     remdups (List.map_filter
       (\<lambda>rid. map_option (\<lambda>r. credentials (rs_registration r)) (hm_get (s_registrations s) rid))
       (expired_registration_ids now s))"

definition leased_by_any :: "RegistrationCredentials list \<Rightarrow> TaskRecord \<Rightarrow> bool" where
  "leased_by_any cs t \<longleftrightarrow>
     \<not> tr_acknowledged t
     \<and> (case tr_lease t of None \<Rightarrow> False
        | Some l \<Rightarrow> (case dl_owner l of None \<Rightarrow> False | Some owner \<Rightarrow> owner \<in> set cs))"

definition maintenance_batch ::
    "i64 \<Rightarrow> TaskId list \<Rightarrow> RegistrationCredentials list \<Rightarrow> State \<Rightarrow> PersistenceBatch dres" where
  "maintenance_batch now due cs s =
     res_bind (collect_res (\<lambda>k. res_bind (expect (hm_get (s_tasks s) k)) (\<lambda>t.
         durable_terminal_task k t now Expired None)) due) (\<lambda>expired.
     res_bind (collect_res (\<lambda>(k, t). durable_requeued_task k t)
         (filter (\<lambda>(k, t). k \<notin> set due \<and> leased_by_any cs t) (s_tasks s))) (\<lambda>requeued.
     Ok \<lparr>pb_registration_epoch_high_watermark = None,
         pb_upsert_tasks = expired @ requeued,
         pb_delete_task_ids = map fst (filter
           (\<lambda>(_, t). case tr_terminal_deadline_unix_ms t of None \<Rightarrow> False | Some dl \<Rightarrow> dl \<le> now)
           (s_tasks s))\<rparr>))"

fun expire_tasks ::
    "i64 \<Rightarrow> TaskId list \<Rightarrow> (State, DomainError, (ReplyWaiter \<times> ReplyResult) list) op" where
  "expire_tasks now [] = ret []"
| "expire_tasks now (k # ks) =
     bindM (terminalize_task k now TerminalExpired) (\<lambda>waiters.
     bindM (expire_tasks now ks) (\<lambda>rest.
     ret (map (\<lambda>w. (w, Err TaskExpired)) waiters @ rest)))"

fun detach_expired :: "RegistrationId list \<Rightarrow> State \<Rightarrow> RegistrationId list \<times> State" where
  "detach_expired [] s = ([], s)"
| "detach_expired (rid # rids) s =
     (case detach_registration rid True s of
        (r, s1) \<Rightarrow>
          (case detach_expired rids s1 of
             (ns, s2) \<Rightarrow> (if r = None then ns else rid # ns, s2)))"

text \<open>The in-memory half of maintenance, after its batch is committed.\<close>

definition apply_maintenance ::
    "i64 \<Rightarrow> TaskId list \<Rightarrow> RegistrationId list \<Rightarrow> RegistrationCredentials list \<Rightarrow> ('p, unit) bop" where
  "apply_maintenance now due expired_ids cs =
     bindM (in_state (expire_tasks now due)) (\<lambda>resolutions.
     bindM (in_state (forM cs bump_requeued_versions_for_credentials)) (\<lambda>_.
     bindM (in_state (\<lambda>s. case detach_expired expired_ids s of (ns, s') \<Rightarrow> (Ok ns, s'))) (\<lambda>notify.
     bindM (emit (map NotifyRegistration notify)) (\<lambda>_.
     bindM (whenM (cs \<noteq> []) DirectoryChanges_record) (\<lambda>_.
     bindM (modify_state (prune_delivery_deadlines now)) (\<lambda>_.
     bindM (modify_state (prune_terminal_tasks now)) (\<lambda>_.
     resolve_reply_waiters resolutions)))))))"

definition maintain_state ::
    "'p BrokerPersistence \<Rightarrow> (json \<Rightarrow> nat) \<Rightarrow> i64 \<Rightarrow> ('p, unit) bop" where
  "maintain_state P json_len now =
     bindM (reconcile_state_if_required P json_len now) (\<lambda>_.
     bindM (get_state s_tasks) (\<lambda>tasks.
     bindM (lift_res (due_task_ids now tasks)) (\<lambda>due.
     bindM (get_state (expired_registration_ids now)) (\<lambda>expired_ids.
     bindM (get_state (expired_credentials now)) (\<lambda>cs.
     bindM (get_state (maintenance_batch now due cs)) (\<lambda>batch_res.
     bindM (lift_res batch_res) (\<lambda>batch.
     bindM (whenM (\<not> PersistenceBatch_is_empty batch) (commit_transition P batch)) (\<lambda>_.
     apply_maintenance now due expired_ids cs))))))))"

definition validate_registration_and_maintain ::
    "'p BrokerPersistence \<Rightarrow> (json \<Rightarrow> nat) \<Rightarrow> RegistrationCredentials \<Rightarrow> i64 \<Rightarrow> ('p, unit) bop" where
  "validate_registration_and_maintain P json_len c now =
     bindM (get_state (\<lambda>s. validate_active_registration s c now)) (\<lambda>validation.
     bindM (maintain_state P json_len now) (\<lambda>_.
     lift_res validation))"

end
