(* ===== verification/Broker_Ops.thy ===== *)
theory Broker_Ops
  imports Broker_Core
begin

text \<open>
  The operations of \<^verbatim>\<open>BrokerState\<close> in \<^verbatim>\<open>herdr-a2a-core/src/broker.rs\<close>.  Each public operation that holds
  the state mutex for its whole body is one atomic operation on the \<open>Broker\<close>; the operations that
  release the mutex and wait (\<^verbatim>\<open>wait_next\<close>, \<^verbatim>\<open>wait_for_reply\<close>, \<^verbatim>\<open>wait_for_agents\<close>,
  \<^verbatim>\<open>start_or_resume\<close>) are sequences of such sections, with the steps of the rest of the system
  between them given as an argument.  Identifiers from \<^verbatim>\<open>Uuid::now_v7\<close> are arguments too.
\<close>

section \<open>Registrations\<close>

definition own_registration :: "RegistrationCredentials \<Rightarrow> ('p, RegistrationState) bop" where
  "own_registration c =
     bindM (get_state (\<lambda>s. hm_get (s_registrations s) (cr_id c))) (\<lambda>r. lift_res (expect r))"

definition requeued_tasks :: "RegistrationCredentials \<Rightarrow> State \<Rightarrow> DurableTask list dres" where
  "requeued_tasks c s =
     collect_res (\<lambda>(k, t). durable_requeued_task k t)
       (filter (\<lambda>(_, t). leased_by c t) (s_tasks s))"

definition registered_credentials :: "RegistrationId option \<Rightarrow> State \<Rightarrow> RegistrationCredentials option" where
  "registered_credentials rid s =
     (case rid of
        None \<Rightarrow> None
      | Some i \<Rightarrow> map_option (\<lambda>r. credentials (rs_registration r)) (hm_get (s_registrations s) i))"

definition queued_for_agent :: "AgentName \<Rightarrow> State \<Rightarrow> (u64 \<times> TaskId) list dres" where
  "queued_for_agent name s =
     res_bind (collect_res (\<lambda>k. res_bind (expect (hm_get (s_tasks s) k)) (\<lambda>t.
         Ok (if tr_recipient t = name \<and> \<not> tr_acknowledged t \<and> \<not> tr_canceled t \<and> \<not> tr_expired t
                \<and> tr_reply t = None \<and> tr_delivery t \<noteq> None
             then Some (tr_enqueue_sequence t, k) else None)))
       (bucket (s_active_tasks_by_agent s) name)) (\<lambda>xs.
     Ok (sort (List.map_filter (\<lambda>x. x) xs)))"

text \<open>Replacing the agent's previous registration: versions first, then the detachment.\<close>

definition replace_registration ::
    "RegistrationId option \<Rightarrow> (State, DomainError, RegistrationState option) op" where
  "replace_registration old_id =
     (case old_id of
        None \<Rightarrow> ret None
      | Some i \<Rightarrow>
          bindM (gets (registered_credentials (Some i))) (\<lambda>c.
          bindM (case c of None \<Rightarrow> ret ()
                 | Some creds \<Rightarrow> bump_requeued_versions_for_credentials creds) (\<lambda>_.
          (\<lambda>s. case detach_registration i True s of (r, s') \<Rightarrow> (Ok r, s')))))"

text \<open>The in-memory half of a registration, after its epoch is committed.\<close>

definition apply_registration ::
    "i64 \<Rightarrow> Registration \<Rightarrow> RegistrationId option \<Rightarrow> ('p, Registration) bop" where
  "apply_registration now registration old_id =
     (let name = va_name (rg_agent registration) in
     bindM (modify_state (\<lambda>s. s\<lparr>s_next_registration_epoch := rg_epoch registration\<rparr>)) (\<lambda>_.
     bindM (in_state (replace_registration old_id)) (\<lambda>old_registration.
     bindM (get_state (queued_for_agent name)) (\<lambda>queued_res.
     bindM (lift_res queued_res) (\<lambda>queued.
     bindM (modify_state (\<lambda>s. s\<lparr>
              s_registrations_by_agent :=
                hm_insert name (rg_id registration) (s_registrations_by_agent s),
              s_registrations := hm_insert (rg_id registration)
                \<lparr>rs_registration = registration, rs_inbox = map snd queued, rs_wait_active = False\<rparr>
                (s_registrations s)\<rparr>)) (\<lambda>_.
     bindM (modify_state (record_status_event ''registered'' name now)) (\<lambda>_.
     bindM DirectoryChanges_record (\<lambda>_.
     bindM (emit (case (old_id, old_registration) of
                    (Some i, Some _) \<Rightarrow> [NotifyRegistration i] | _ \<Rightarrow> [])) (\<lambda>_.
     ret registration)))))))))"

definition register ::
    "'p BrokerPersistence \<Rightarrow> (json \<Rightarrow> nat) \<Rightarrow> i64 \<Rightarrow> RegistrationId \<Rightarrow> VerifiedAgent \<Rightarrow> string \<Rightarrow>
     ('p, Registration) bop" where
  "register P json_len now fresh_id agent harness_session_id =
     bindM (maintain_state P json_len now) (\<lambda>_.
     bindM (lift_res (ok_or (checked_add_i64 now REGISTRATION_TTL_MS) PersistenceUnavailable)) (\<lambda>expiry.
     bindM (get_state s_next_registration_epoch) (\<lambda>epoch0.
     bindM (lift_res (ok_or (checked_add_u64 epoch0 1) PersistenceUnavailable)) (\<lambda>epoch.
     let registration = \<lparr>rg_id = fresh_id, rg_epoch = epoch, rg_agent = agent,
           rg_harness_session_id = harness_session_id, rg_expires_unix_ms = expiry\<rparr>
     in
     bindM (get_state (\<lambda>s. hm_get (s_registrations_by_agent s) (va_name agent))) (\<lambda>old_id.
     bindM (get_state (\<lambda>s. case registered_credentials old_id s of
              None \<Rightarrow> Ok [] | Some c \<Rightarrow> requeued_tasks c s)) (\<lambda>requeued_res.
     bindM (lift_res requeued_res) (\<lambda>requeued.
     bindM (commit_transition P
              \<lparr>pb_registration_epoch_high_watermark = Some epoch, pb_upsert_tasks = requeued,
               pb_delete_task_ids = []\<rparr>) (\<lambda>_.
     apply_registration now registration old_id))))))))"

definition renew ::
    "'p BrokerPersistence \<Rightarrow> (json \<Rightarrow> nat) \<Rightarrow> i64 \<Rightarrow> RegistrationCredentials \<Rightarrow> ('p, Registration) bop"
    where
  "renew P json_len now c =
     bindM (validate_registration_and_maintain P json_len c now) (\<lambda>_.
     bindM (lift_res (ok_or (checked_add_i64 now REGISTRATION_TTL_MS) PersistenceUnavailable)) (\<lambda>expiry.
     bindM (own_registration c) (\<lambda>r.
     let registration = (rs_registration r)\<lparr>rg_expires_unix_ms := expiry\<rparr>
     in
     bindM (modify_state (\<lambda>s. s\<lparr>s_registrations := hm_modify (cr_id c)
              (\<lambda>r. r\<lparr>rs_registration := (rs_registration r)\<lparr>rg_expires_unix_ms := expiry\<rparr>\<rparr>)
              (s_registrations s)\<rparr>)) (\<lambda>_.
     ret registration))))"

text \<open>The in-memory half of a removal, after its batch is committed.\<close>

definition apply_removal :: "RegistrationCredentials \<Rightarrow> ('p, unit) bop" where
  "apply_removal c =
     bindM (in_state (bump_requeued_versions_for_credentials c)) (\<lambda>_.
     bindM (in_state (\<lambda>s. case detach_registration (cr_id c) False s of (r, s') \<Rightarrow> (Ok r, s'))) (\<lambda>r.
     bindM (lift_res (expect r)) (\<lambda>_.
     bindM DirectoryChanges_record (\<lambda>_.
     emit [NotifyRegistration (cr_id c)]))))"

definition remove_registration ::
    "'p BrokerPersistence \<Rightarrow> (json \<Rightarrow> nat) \<Rightarrow> i64 \<Rightarrow> RegistrationCredentials \<Rightarrow> ('p, unit) bop" where
  "remove_registration P json_len now c =
     bindM (validate_registration_and_maintain P json_len c now) (\<lambda>_.
     bindM (get_state (requeued_tasks c)) (\<lambda>requeued_res.
     bindM (lift_res requeued_res) (\<lambda>requeued.
     bindM (whenM (requeued \<noteq> []) (commit_transition P
              \<lparr>pb_registration_epoch_high_watermark = None, pb_upsert_tasks = requeued,
               pb_delete_task_ids = []\<rparr>)) (\<lambda>_.
     apply_removal c))))"

definition authenticate ::
    "'p BrokerPersistence \<Rightarrow> (json \<Rightarrow> nat) \<Rightarrow> i64 \<Rightarrow> RegistrationCredentials \<Rightarrow> ('p, Registration) bop"
    where
  "authenticate P json_len now c =
     bindM (validate_registration_and_maintain P json_len c now) (\<lambda>_.
     bindM (own_registration c) (\<lambda>r.
     ret (rs_registration r)))"

section \<open>Directory and status\<close>

definition live_registrations :: "i64 \<Rightarrow> State \<Rightarrow> Registration list" where
  "live_registrations now s =
     sort_key (\<lambda>r. (va_name (rg_agent r), rg_id r))
       (map (rs_registration \<circ> snd)
         (filter (\<lambda>(_, r). rg_expires_unix_ms (rs_registration r) > now) (s_registrations s)))"

definition list_agents ::
    "'p BrokerPersistence \<Rightarrow> (json \<Rightarrow> nat) \<Rightarrow> i64 \<Rightarrow> ('p, Registration list) bop" where
  "list_agents P json_len now w =
     (case maintain_state P json_len now w of
        (Ok _, w') \<Rightarrow> (Ok (live_registrations now (b_state w')), w')
      | (Err _, w') \<Rightarrow> (Ok [], w')
      | (Panic, w') \<Rightarrow> (Panic, w'))"

record BrokerTaskCounts =
  tc_queued :: nat
  tc_leased :: nat
  tc_waiting_reply :: nat
  tc_terminal :: nat

record BrokerOperationsSnapshot =
  os_registrations :: nat
  os_agents :: "AgentName list"
  os_tasks :: BrokerTaskCounts
  os_last_event :: "BrokerStatusEvent option"

definition count_task :: "TaskRecord \<Rightarrow> BrokerTaskCounts \<Rightarrow> BrokerTaskCounts" where
  "count_task t c =
     (if tr_reply t \<noteq> None \<or> tr_failed t \<or> tr_rejected t \<or> tr_canceled t \<or> tr_expired t
      then c\<lparr>tc_terminal := tc_terminal c + 1\<rparr>
      else if tr_acknowledged t then c\<lparr>tc_waiting_reply := tc_waiting_reply c + 1\<rparr>
      else if tr_lease t \<noteq> None then c\<lparr>tc_leased := tc_leased c + 1\<rparr>
      else c\<lparr>tc_queued := tc_queued c + 1\<rparr>)"

definition task_counts :: "State \<Rightarrow> BrokerTaskCounts" where
  "task_counts s =
     fold (\<lambda>(_, t). count_task t) (s_tasks s)
       \<lparr>tc_queued = 0, tc_leased = 0, tc_waiting_reply = 0, tc_terminal = 0\<rparr>"

definition operations_snapshot ::
    "'p BrokerPersistence \<Rightarrow> (json \<Rightarrow> nat) \<Rightarrow> i64 \<Rightarrow> ('p, BrokerOperationsSnapshot) bop" where
  "operations_snapshot P json_len now =
     bindM (maintain_state P json_len now) (\<lambda>_.
     get_state (\<lambda>s.
       let agents = sort (map (\<lambda>(_, r). va_name (rg_agent (rs_registration r)))
             (filter (\<lambda>(_, r). rg_expires_unix_ms (rs_registration r) > now) (s_registrations s)))
       in \<lparr>os_registrations = length agents, os_agents = agents, os_tasks = task_counts s,
           os_last_event = s_last_event s\<rparr>))"

record AgentDirectoryWait =
  adw_generation :: u64
  adw_registrations :: "Registration list"

definition directory_snapshot ::
    "'p BrokerPersistence \<Rightarrow> (json \<Rightarrow> nat) \<Rightarrow> i64 \<Rightarrow> string list \<Rightarrow> ('p, AgentDirectoryWait) bop" where
  "directory_snapshot P json_len now pane_ids =
     bindM (list_agents P json_len now) (\<lambda>agents.
     bindM (gets b_generation) (\<lambda>generation.
     let by_pane = fold (\<lambda>r m. hm_insert (va_pane_id (rg_agent r)) r m) agents []
     in ret \<lparr>adw_generation = generation,
             adw_registrations = List.map_filter (hm_get by_pane) pane_ids\<rparr>))"

section \<open>Task snapshots\<close>

definition task_snapshot ::
    "'p BrokerPersistence \<Rightarrow> (json \<Rightarrow> nat) \<Rightarrow> i64 \<Rightarrow> RegistrationCredentials \<Rightarrow> TaskId \<Rightarrow>
     ('p, DurableTask) bop" where
  "task_snapshot P json_len now c task_id =
     bindM (validate_registration_and_maintain P json_len c now) (\<lambda>_.
     bindM (own_registration c) (\<lambda>r.
     bindM (get_state (\<lambda>s. hm_get (s_tasks s) task_id)) (\<lambda>t_opt.
     bindM (lift_res (ok_or t_opt TaskNotFound)) (\<lambda>t.
     if tr_sender t \<noteq> va_name (rg_agent (rs_registration r)) then throw TaskNotOwned
     else lift_res (durable_task task_id t)))))"

definition task_snapshot_for_sender ::
    "'p BrokerPersistence \<Rightarrow> (json \<Rightarrow> nat) \<Rightarrow> i64 \<Rightarrow> AgentName \<Rightarrow> TaskId \<Rightarrow> ('p, DurableTask) bop" where
  "task_snapshot_for_sender P json_len now sender task_id =
     bindM (maintain_state P json_len now) (\<lambda>_.
     bindM (get_state (\<lambda>s. hm_get (s_tasks s) task_id)) (\<lambda>t_opt.
     bindM (lift_res (ok_or t_opt TaskNotFound)) (\<lambda>t.
     if tr_sender t \<noteq> sender then throw TaskNotOwned
     else lift_res (durable_task task_id t))))"

section \<open>Enqueueing\<close>

record DeliveryHandle =
  dh_task_id :: TaskId
  dh_context_id :: string

definition enqueued_durable :: "i64 \<Rightarrow> AgentName \<Rightarrow> QueuedDelivery \<Rightarrow> DurableTask" where
  "enqueued_durable deadline sender_name d =
     \<lparr>dt_task_id = qd_task_id d, dt_context_id = qd_context_id d, dt_sender = sender_name,
      dt_recipient = qd_recipient d, dt_payload = qd_payload d,
      dt_created_unix_ms = qd_created_unix_ms d, dt_delivery_deadline_unix_ms = deadline,
      dt_state_version = 1, dt_state = Queued, dt_lease = None, dt_attempt = qd_attempt d,
      dt_acknowledged_unix_ms = None, dt_reply = None, dt_terminal_unix_ms = None,
      dt_retention_deadline_unix_ms = None\<rparr>"

definition enqueued_record :: "u64 \<Rightarrow> AgentName \<Rightarrow> QueuedDelivery \<Rightarrow> TaskRecord" where
  "enqueued_record seq sender_name d =
     \<lparr>tr_enqueue_sequence = seq, tr_state_version = 1, tr_original_delivery = d,
      tr_delivery = Some d, tr_recipient = qd_recipient d, tr_sender = sender_name,
      tr_lease = None, tr_last_delivery_attempt = None, tr_acknowledged = False,
      tr_acknowledged_unix_ms = None, tr_reply = None, tr_reply_waiters = [],
      tr_failed = False, tr_rejected = False, tr_canceled = False, tr_expired = False,
      tr_terminal_unix_ms = None, tr_terminal_deadline_unix_ms = None\<rparr>"

definition insert_enqueued ::
    "u64 \<Rightarrow> i64 \<Rightarrow> AgentName \<Rightarrow> QueuedDelivery \<Rightarrow> i64 \<Rightarrow> State \<Rightarrow> State" where
  "insert_enqueued seq deadline sender_name d now s =
     (let s1 = index_task sender_name (qd_recipient d) (qd_task_id d) s;
          s2 = s1\<lparr>s_tasks := hm_insert (qd_task_id d) (enqueued_record seq sender_name d) (s_tasks s1),
                  s_delivery_deadlines :=
                    heap_push (deadline, qd_task_id d) (s_delivery_deadlines s1)\<rparr>
      in record_status_event ''task_queued'' sender_name now s2)"

text \<open>The in-memory half of an enqueue, after the new task is committed.\<close>

definition apply_enqueue ::
    "i64 \<Rightarrow> u64 \<Rightarrow> i64 \<Rightarrow> AgentName \<Rightarrow> RegistrationId \<Rightarrow> QueuedDelivery \<Rightarrow> ('p, DeliveryHandle) bop" where
  "apply_enqueue now seq deadline sender_name recipient_id delivery =
     bindM (modify_state (\<lambda>s. s\<lparr>s_next_task_sequence := seq\<rparr>)) (\<lambda>_.
     bindM (get_state (\<lambda>s. hm_get (s_registrations s) recipient_id)) (\<lambda>recipient.
     bindM (lift_res (expect recipient)) (\<lambda>_.
     bindM (modify_state (\<lambda>s. s\<lparr>s_registrations :=
              hm_modify recipient_id (push_inbox (qd_task_id delivery)) (s_registrations s)\<rparr>)) (\<lambda>_.
     bindM (modify_state (insert_enqueued seq deadline sender_name delivery now)) (\<lambda>_.
     bindM (emit [NotifyRegistration recipient_id]) (\<lambda>_.
     ret \<lparr>dh_task_id = qd_task_id delivery, dh_context_id = qd_context_id delivery\<rparr>))))))"

definition enqueue ::
    "'p BrokerPersistence \<Rightarrow> (json \<Rightarrow> nat) \<Rightarrow> i64 \<Rightarrow> RegistrationCredentials \<Rightarrow> QueuedDelivery \<Rightarrow>
     ('p, DeliveryHandle) bop" where
  "enqueue P json_len now c delivery0 =
     bindM (validate_registration_and_maintain P json_len c now) (\<lambda>_.
     bindM (get_state s_tasks) (\<lambda>tasks.
     if hm_get tasks (qd_task_id delivery0) \<noteq> None then throw DuplicateTask
     else if length tasks \<ge> MAX_RETAINED_TASKS then throw TooManyRetainedTasks
     else
     bindM (own_registration c) (\<lambda>sender.
     if va_name (rg_agent (rs_registration sender)) \<noteq> qd_sender delivery0 then throw SenderMismatch
     else
     let sender_name = va_name (rg_agent (rs_registration sender)) in
     bindM (get_state (\<lambda>s. length (bucket (s_outbound_tasks_by_agent s) sender_name))) (\<lambda>outbound.
     if outbound \<ge> MAX_ACTIVE_OUTBOUND_TASKS then throw TooManyActiveTasks
     else
     bindM (get_state (\<lambda>s. active_registration_id s (qd_recipient delivery0) now)) (\<lambda>recipient_opt.
     bindM (lift_res (ok_or recipient_opt AgentNotRegistered)) (\<lambda>recipient_id.
     let delivery = delivery0\<lparr>qd_created_unix_ms := now\<rparr> in
     bindM (get_state s_next_task_sequence) (\<lambda>seq0.
     bindM (lift_res (ok_or (checked_add_u64 seq0 1) PersistenceUnavailable)) (\<lambda>seq.
     bindM (lift_res (ok_or (checked_add_i64 (qd_created_unix_ms delivery) DELIVERY_TTL_MS)
              PersistenceUnavailable)) (\<lambda>deadline.
     bindM (commit_transition P
              (single_task_batch (enqueued_durable deadline sender_name delivery))) (\<lambda>_.
     apply_enqueue now seq deadline sender_name recipient_id delivery))))))))))"

datatype StartOrResume = Started DurableTask | Active DurableTask | Terminal DurableTask

text \<open>The critical section at the head of each attempt: \<open>None\<close> means the task has to be enqueued.\<close>

definition resume_section ::
    "'p BrokerPersistence \<Rightarrow> (json \<Rightarrow> nat) \<Rightarrow> i64 \<Rightarrow> RegistrationCredentials \<Rightarrow> QueuedDelivery \<Rightarrow>
     ('p, StartOrResume option) bop" where
  "resume_section P json_len now c delivery =
     bindM (validate_registration_and_maintain P json_len c now) (\<lambda>_.
     bindM (own_registration c) (\<lambda>r.
     if va_name (rg_agent (rs_registration r)) \<noteq> qd_sender delivery then throw SenderMismatch
     else
     bindM (get_state (\<lambda>s. hm_get (s_tasks s) (qd_task_id delivery))) (\<lambda>t_opt.
     case t_opt of
       Some t \<Rightarrow>
         if tr_sender t \<noteq> qd_sender delivery \<or> tr_recipient t \<noteq> qd_recipient delivery
            \<or> qd_context_id (tr_original_delivery t) \<noteq> qd_context_id delivery
            \<or> qd_payload (tr_original_delivery t) \<noteq> qd_payload delivery
         then throw DuplicateTask
         else
           bindM (lift_res (durable_task (qd_task_id delivery) t)) (\<lambda>snapshot.
           ret (Some (if is_terminal_state (dt_state snapshot) then Terminal snapshot
                      else Active snapshot)))
     | None \<Rightarrow>
         bindM (get_state (\<lambda>s. active_registration_id s (qd_recipient delivery) now)) (\<lambda>active.
         bindM (lift_res (ok_or active AgentNotRegistered)) (\<lambda>_.
         ret None)))))"

text \<open>
  \<open>clock k\<close> is the k-th clock reading and \<open>others k\<close> what the rest of the system does to the broker
  between the critical sections around it.
\<close>

fun start_or_resume_attempts ::
    "'p BrokerPersistence \<Rightarrow> (json \<Rightarrow> nat) \<Rightarrow> (nat \<Rightarrow> i64) \<Rightarrow> (nat \<Rightarrow> 'p Broker \<Rightarrow> 'p Broker) \<Rightarrow>
     RegistrationCredentials \<Rightarrow> QueuedDelivery \<Rightarrow> nat \<Rightarrow> nat \<Rightarrow> ('p, StartOrResume) bop" where
  "start_or_resume_attempts P json_len clock others c delivery k 0 = throw DuplicateTask"
| "start_or_resume_attempts P json_len clock others c delivery k (Suc n) =
     bindM (resume_section P json_len (clock k) c delivery) (\<lambda>found.
     case found of
       Some r \<Rightarrow> ret r
     | None \<Rightarrow>
         bindM (modify (others k)) (\<lambda>_.
         (\<lambda>w. case enqueue P json_len (clock (k + 1)) c delivery w of
            (Ok _, w') \<Rightarrow>
              bindM (modify (others (k + 1))) (\<lambda>_.
              bindM (task_snapshot P json_len (clock (k + 2)) c (qd_task_id delivery)) (\<lambda>snapshot.
              ret (Started snapshot))) w'
          | (Err DuplicateTask, w') \<Rightarrow>
              bindM (modify (others (k + 1))) (\<lambda>_.
              start_or_resume_attempts P json_len clock others c delivery (k + 2) n) w'
          | (Err e, w') \<Rightarrow> (Err e, w')
          | (Panic, w') \<Rightarrow> (Panic, w'))))"

definition start_or_resume where
  "start_or_resume P json_len clock others c delivery =
     start_or_resume_attempts P json_len clock others c delivery 0 2"

section \<open>Delivery\<close>

text \<open>A \<^verbatim>\<open>WaitGuard\<close> is named by the registration whose flag it holds.\<close>

definition begin_wait ::
    "'p BrokerPersistence \<Rightarrow> (json \<Rightarrow> nat) \<Rightarrow> i64 \<Rightarrow> RegistrationCredentials \<Rightarrow> ('p, RegistrationId) bop"
    where
  "begin_wait P json_len now c =
     bindM (validate_registration_and_maintain P json_len c now) (\<lambda>_.
     bindM (own_registration c) (\<lambda>r.
     if rs_wait_active r then throw WaitAlreadyActive
     else
       bindM (modify_state (\<lambda>s. s\<lparr>s_registrations := hm_modify (cr_id c)
                (\<lambda>r. r\<lparr>rs_wait_active := True\<rparr>) (s_registrations s)\<rparr>)) (\<lambda>_.
       ret (cr_id c))))"

definition WaitGuard_drop :: "RegistrationId \<Rightarrow> 'p Broker \<Rightarrow> 'p Broker" where
  "WaitGuard_drop rid w =
     w\<lparr>b_state := (b_state w)\<lparr>s_registrations := hm_modify rid
         (\<lambda>r. r\<lparr>rs_wait_active := False\<rparr>) (s_registrations (b_state w))\<rparr>\<rparr>"

datatype DeliveryPoll = Ready DeliveredMessage | Pending i64

text \<open>One task of the inbox: skip it (with the next deadline), or lease it.\<close>

datatype poll_choice = Skip i64 | Lease DeliveredMessage "DeliveryId option" DeliveryLease DurableTask

definition poll_task ::
    "i64 \<Rightarrow> RegistrationCredentials \<Rightarrow> DeliveryId \<Rightarrow> TaskId \<Rightarrow> i64 \<Rightarrow> State \<Rightarrow> poll_choice dres" where
  "poll_task now c fresh_delivery task_id next_deadline s =
     (case hm_get (s_tasks s) task_id of
        None \<Rightarrow> Ok (Skip next_deadline)
      | Some t \<Rightarrow>
          if tr_canceled t \<or> tr_expired t \<or> tr_reply t \<noteq> None \<or> tr_acknowledged t
          then Ok (Skip next_deadline)
          else
            (case tr_delivery t of
               None \<Rightarrow> Ok (Skip next_deadline)
             | Some d \<Rightarrow>
                 res_bind (ok_or (checked_add_i64 (qd_created_unix_ms d) DELIVERY_TTL_MS)
                     PersistenceUnavailable) (\<lambda>delivery_deadline.
                 let next1 = min next_deadline delivery_deadline
                 in if (case tr_lease t of None \<Rightarrow> False | Some l \<Rightarrow> dl_leased_until_unix_ms l > now)
                    then Ok (Skip (case tr_lease t of None \<Rightarrow> next1
                                   | Some l \<Rightarrow> min next1 (dl_leased_until_unix_ms l)))
                    else
                      res_bind (case tr_last_delivery_attempt t of
                                  Some a \<Rightarrow> ok_or (checked_add_u32 a 1) PersistenceUnavailable
                                | None \<Rightarrow> Ok (qd_attempt d)) (\<lambda>attempt.
                      res_bind (ok_or (checked_add_i64 now DELIVERY_LEASE_MS) PersistenceUnavailable)
                        (\<lambda>leased_until.
                      let lease = \<lparr>dl_delivery_id = fresh_delivery, dl_owner = Some c,
                                   dl_leased_until_unix_ms = leased_until, dl_attempt = attempt\<rparr>;
                          delivered = \<lparr>dm_delivery_id = fresh_delivery, dm_task_id = qd_task_id d,
                            dm_context_id = qd_context_id d, dm_sender = qd_sender d,
                            dm_recipient = qd_recipient d, dm_payload = qd_payload d,
                            dm_leased_until_unix_ms = leased_until, dm_attempt = attempt\<rparr>
                      in res_bind (durable_leased_task task_id t lease) (\<lambda>durable.
                         Ok (Lease delivered (map_option dl_delivery_id (tr_lease t)) lease durable)))))))"

fun poll_inbox ::
    "i64 \<Rightarrow> RegistrationCredentials \<Rightarrow> DeliveryId \<Rightarrow> TaskId list \<Rightarrow> i64 \<Rightarrow> State \<Rightarrow>
     (i64 + TaskId \<times> DeliveredMessage \<times> DeliveryId option \<times> DeliveryLease \<times> DurableTask) dres" where
  "poll_inbox now c fresh_delivery [] next_deadline s = Ok (Inl next_deadline)"
| "poll_inbox now c fresh_delivery (k # ks) next_deadline s =
     res_bind (poll_task now c fresh_delivery k next_deadline s) (\<lambda>choice.
     case choice of
       Skip next' \<Rightarrow> poll_inbox now c fresh_delivery ks next' s
     | Lease m old l d \<Rightarrow> Ok (Inr (k, m, old, l, d)))"

definition apply_lease :: "TaskId \<Rightarrow> DeliveryLease \<Rightarrow> DeliveryId option \<Rightarrow> (State, DomainError, unit) op" where
  "apply_lease task_id lease old_delivery_id s =
     (case hm_get (s_tasks s) task_id of
        None \<Rightarrow> (Panic, s)
      | Some t \<Rightarrow>
          (case checked_add_u64 (tr_state_version t) 1 of
             None \<Rightarrow> (Err PersistenceUnavailable, s)
           | Some v \<Rightarrow>
               let s1 = s\<lparr>s_tasks := hm_insert task_id
                     (t\<lparr>tr_state_version := v, tr_last_delivery_attempt := Some (dl_attempt lease),
                        tr_lease := Some lease\<rparr>) (s_tasks s)\<rparr>;
                   s2 = release_delivery task_id old_delivery_id s1
               in (Ok (), s2\<lparr>s_tasks_by_delivery :=
                     hm_insert (dl_delivery_id lease) task_id (s_tasks_by_delivery s2)\<rparr>)))"

definition poll_delivery ::
    "'p BrokerPersistence \<Rightarrow> (json \<Rightarrow> nat) \<Rightarrow> i64 \<Rightarrow> DeliveryId \<Rightarrow> RegistrationCredentials \<Rightarrow>
     ('p, DeliveryPoll) bop" where
  "poll_delivery P json_len now fresh_delivery c =
     bindM (validate_registration_and_maintain P json_len c now) (\<lambda>_.
     bindM (own_registration c) (\<lambda>r.
     bindM (get_state (poll_inbox now c fresh_delivery (rs_inbox r)
              (rg_expires_unix_ms (rs_registration r)))) (\<lambda>choice_res.
     bindM (lift_res choice_res) (\<lambda>choice.
     case choice of
       Inl next_deadline \<Rightarrow> ret (Pending next_deadline)
     | Inr (task_id, delivered, old_delivery_id, lease, durable) \<Rightarrow>
         bindM (commit_transition P (single_task_batch durable)) (\<lambda>_.
         bindM (in_state (apply_lease task_id lease old_delivery_id)) (\<lambda>_.
         ret (Ready delivered)))))))"

definition ack_valid :: "DeliveryId \<Rightarrow> i64 \<Rightarrow> TaskRecord \<Rightarrow> bool" where
  "ack_valid delivery_id now t \<longleftrightarrow>
     (case tr_lease t of
        None \<Rightarrow> False
      | Some l \<Rightarrow> dl_delivery_id l = delivery_id
          \<and> (tr_acknowledged t \<or> dl_leased_until_unix_ms l > now)
          \<and> tr_delivery t \<noteq> None \<and> \<not> tr_canceled t \<and> \<not> tr_expired t \<and> tr_reply t = None)"

definition apply_ack :: "TaskId \<Rightarrow> i64 \<Rightarrow> RegistrationId \<Rightarrow> (State, DomainError, unit) op" where
  "apply_ack task_id now rid s =
     (case hm_get (s_tasks s) task_id of
        None \<Rightarrow> (Panic, s)
      | Some t \<Rightarrow>
          (case checked_add_u64 (tr_state_version t) 1 of
             None \<Rightarrow> (Err PersistenceUnavailable, s)
           | Some v \<Rightarrow>
               let s1 = s\<lparr>s_tasks := hm_insert task_id
                     (t\<lparr>tr_state_version := v, tr_acknowledged := True,
                        tr_acknowledged_unix_ms := Some now\<rparr>) (s_tasks s)\<rparr>
               in (case hm_get (s_registrations s1) rid of
                     None \<Rightarrow> (Panic, s1)
                   | Some _ \<Rightarrow>
                       (Ok (), s1\<lparr>s_registrations := hm_modify rid
                          (\<lambda>r. r\<lparr>rs_inbox := filter (\<lambda>q. q \<noteq> task_id) (rs_inbox r)\<rparr>)
                          (s_registrations s1)\<rparr>))))"

definition ack_delivery ::
    "'p BrokerPersistence \<Rightarrow> (json \<Rightarrow> nat) \<Rightarrow> i64 \<Rightarrow> RegistrationCredentials \<Rightarrow> DeliveryId \<Rightarrow>
     ('p, unit) bop" where
  "ack_delivery P json_len now c delivery_id =
     bindM (validate_registration_and_maintain P json_len c now) (\<lambda>_.
     bindM (own_registration c) (\<lambda>r.
     bindM (get_state (\<lambda>s. hm_get (s_tasks_by_delivery s) delivery_id)) (\<lambda>task_id_opt.
     bindM (lift_res (ok_or task_id_opt DeliveryNotFound)) (\<lambda>task_id.
     bindM (get_state (\<lambda>s. hm_get (s_tasks s) task_id)) (\<lambda>t_opt.
     bindM (lift_res (expect t_opt)) (\<lambda>t.
     if \<not> ack_valid delivery_id now t then throw DeliveryNotFound
     else if tr_acknowledged t
     then (if tr_recipient t = va_name (rg_agent (rs_registration r)) then ret ()
           else throw DeliveryNotOwned)
     else if (case tr_lease t of None \<Rightarrow> None | Some l \<Rightarrow> dl_owner l) \<noteq> Some c
     then throw DeliveryNotOwned
     else
       bindM (lift_res (durable_acknowledged_task task_id t now)) (\<lambda>durable.
       bindM (commit_transition P (single_task_batch durable)) (\<lambda>_.
       in_state (apply_ack task_id now (cr_id c))))))))))"

section \<open>Terminal operations\<close>

definition commit_terminal ::
    "'p BrokerPersistence \<Rightarrow> i64 \<Rightarrow> TaskId \<Rightarrow> TaskRecord \<Rightarrow> DurableTaskState \<Rightarrow> ReplyPayload option \<Rightarrow>
     TerminalState \<Rightarrow> ReplyResult \<Rightarrow> ('p, unit) bop" where
  "commit_terminal P now task_id t durable_state reply_opt terminal_state result =
     bindM (lift_res (durable_terminal_task task_id t now durable_state reply_opt)) (\<lambda>durable.
     bindM (commit_transition P (single_task_batch durable)) (\<lambda>_.
     bindM (in_state (terminalize_task task_id now terminal_state)) (\<lambda>waiters.
     resolve_reply_waiters (map (\<lambda>w. (w, result)) waiters))))"

definition reply ::
    "'p BrokerPersistence \<Rightarrow> (json \<Rightarrow> nat) \<Rightarrow> i64 \<Rightarrow> RegistrationCredentials \<Rightarrow> TaskId \<Rightarrow>
     ReplyPayload \<Rightarrow> ('p, unit) bop" where
  "reply P json_len now c task_id payload =
     bindM (validate_registration_and_maintain P json_len c now) (\<lambda>_.
     bindM (own_registration c) (\<lambda>r.
     bindM (get_state (\<lambda>s. hm_get (s_tasks s) task_id)) (\<lambda>t_opt.
     bindM (lift_res (ok_or t_opt TaskNotFound)) (\<lambda>t.
     if tr_recipient t \<noteq> va_name (rg_agent (rs_registration r)) then throw TaskNotOwned
     else if tr_canceled t then throw TaskCanceled
     else if tr_expired t then throw TaskExpired
     else if tr_failed t \<or> tr_rejected t then throw TaskAlreadyCompleted
     else (case tr_reply t of
             Some existing \<Rightarrow> if existing = payload then ret () else throw ReplyAlreadySubmitted
           | None \<Rightarrow> commit_terminal P now task_id t Replied (Some payload)
                       (TerminalReplied payload) (Ok payload))))))"

definition recipient_terminal ::
    "'p BrokerPersistence \<Rightarrow> (json \<Rightarrow> nat) \<Rightarrow> i64 \<Rightarrow> RegistrationCredentials \<Rightarrow> TaskId \<Rightarrow>
     ReplyPayload \<Rightarrow> RecipientTerminalState \<Rightarrow> ('p, unit) bop" where
  "recipient_terminal P json_len now c task_id message outcome =
     bindM (validate_registration_and_maintain P json_len c now) (\<lambda>_.
     bindM (own_registration c) (\<lambda>r.
     bindM (get_state (\<lambda>s. hm_get (s_tasks s) task_id)) (\<lambda>t_opt.
     bindM (lift_res (ok_or t_opt TaskNotFound)) (\<lambda>t.
     if tr_recipient t \<noteq> va_name (rg_agent (rs_registration r)) then throw TaskNotOwned
     else if (case outcome of RecipientFailed \<Rightarrow> tr_failed t | RecipientRejected \<Rightarrow> tr_rejected t)
             \<and> tr_reply t = Some message
     then ret ()
     else if tr_canceled t \<or> tr_expired t \<or> tr_failed t \<or> tr_rejected t \<or> tr_reply t \<noteq> None
     then throw TaskAlreadyCompleted
     else (case outcome of
             RecipientFailed \<Rightarrow> commit_terminal P now task_id t Failed (Some message)
                                  (TerminalFailed message) (Err TaskFailed)
           | RecipientRejected \<Rightarrow> commit_terminal P now task_id t Rejected (Some message)
                                    (TerminalRejected message) (Err TaskRejected))))))"

definition fail_task where
  "fail_task P json_len now c task_id message =
     recipient_terminal P json_len now c task_id message RecipientFailed"

definition reject_task where
  "reject_task P json_len now c task_id message =
     recipient_terminal P json_len now c task_id message RecipientRejected"

definition cancel_task ::
    "'p BrokerPersistence \<Rightarrow> (json \<Rightarrow> nat) \<Rightarrow> i64 \<Rightarrow> RegistrationCredentials \<Rightarrow> TaskId \<Rightarrow>
     ('p, unit) bop" where
  "cancel_task P json_len now c task_id =
     bindM (validate_registration_and_maintain P json_len c now) (\<lambda>_.
     bindM (own_registration c) (\<lambda>r.
     bindM (get_state (\<lambda>s. hm_get (s_tasks s) task_id)) (\<lambda>t_opt.
     bindM (lift_res (ok_or t_opt TaskNotFound)) (\<lambda>t.
     if tr_sender t \<noteq> va_name (rg_agent (rs_registration r)) then throw TaskNotOwned
     else if tr_canceled t then ret ()
     else if tr_expired t then throw TaskExpired
     else if tr_reply t \<noteq> None then throw TaskAlreadyCompleted
     else commit_terminal P now task_id t Canceled None TerminalCanceled (Err TaskCanceled)))))"

end
