(* ===== verification/Broker_Invariant.thy ===== *)
theory Broker_Invariant
  imports Broker_Ops
begin

text \<open>
  The invariant of the broker state, as facts about the maps of tasks, registrations, agents and
  deliveries, and its preservation by the helpers of theory \<open>Broker_State\<close>.

  The four multi-maps from agents to task identifiers share one contract, the locale
  \<open>task_index\<close>: an index files exactly the live tasks under the agents its selector names.
\<close>

section \<open>Shapes of a task\<close>

definition live :: "TaskRecord \<Rightarrow> bool" where
  "live t \<longleftrightarrow> tr_terminal_deadline_unix_ms t = None"

definition live_shape :: "TaskRecord \<Rightarrow> bool" where
  "live_shape t \<longleftrightarrow>
     tr_delivery t = Some (tr_original_delivery t)
     \<and> \<not> tr_failed t \<and> \<not> tr_rejected t \<and> \<not> tr_canceled t \<and> \<not> tr_expired t
     \<and> tr_reply t = None \<and> tr_terminal_unix_ms t = None
     \<and> (tr_acknowledged t \<longrightarrow> tr_lease t \<noteq> None)
     \<and> (tr_acknowledged t \<longleftrightarrow> tr_acknowledged_unix_ms t \<noteq> None)"

definition terminal_shape :: "TaskRecord \<Rightarrow> bool" where
  "terminal_shape t \<longleftrightarrow>
     tr_delivery t = None \<and> tr_lease t = None \<and> \<not> tr_acknowledged t
     \<and> tr_acknowledged_unix_ms t = None \<and> tr_reply_waiters t = []
     \<and> (\<exists>u. tr_terminal_unix_ms t = Some u
          \<and> tr_terminal_deadline_unix_ms t = Some (u + TERMINAL_RETENTION_MS))
     \<and> (tr_reply t \<noteq> None \<and> \<not> tr_canceled t \<and> \<not> tr_expired t \<and> \<not> (tr_failed t \<and> tr_rejected t)
        \<or> tr_reply t = None \<and> \<not> tr_failed t \<and> \<not> tr_rejected t \<and> tr_canceled t \<noteq> tr_expired t)"

definition task_ok :: "TaskId \<Rightarrow> TaskRecord \<Rightarrow> bool" where
  "task_ok k t \<longleftrightarrow>
     qd_task_id (tr_original_delivery t) = k
     \<and> qd_sender (tr_original_delivery t) = tr_sender t
     \<and> qd_recipient (tr_original_delivery t) = tr_recipient t
     \<and> i64_range (qd_created_unix_ms (tr_original_delivery t) + DELIVERY_TTL_MS)
     \<and> 1 \<le> tr_state_version t
     \<and> (\<forall>l. tr_lease t = Some l \<longrightarrow> dl_attempt l = effective_attempt t)
     \<and> (if live t then live_shape t else terminal_shape t)"

text \<open>The durable form of a task, as a total function; \<^const>\<open>durable_task\<close> computes it.\<close>

definition durable_of :: "TaskId \<Rightarrow> TaskRecord \<Rightarrow> DurableTask" where
  "durable_of k t =
     \<lparr>dt_task_id = k,
      dt_context_id = qd_context_id (tr_original_delivery t),
      dt_sender = tr_sender t,
      dt_recipient = tr_recipient t,
      dt_payload = qd_payload (tr_original_delivery t),
      dt_created_unix_ms = qd_created_unix_ms (tr_original_delivery t),
      dt_delivery_deadline_unix_ms = qd_created_unix_ms (tr_original_delivery t) + DELIVERY_TTL_MS,
      dt_state_version = tr_state_version t,
      dt_state = task_durable_state t,
      dt_lease = map_option (durable_lease (tr_recipient t)) (tr_lease t),
      dt_attempt = effective_attempt t,
      dt_acknowledged_unix_ms = tr_acknowledged_unix_ms t,
      dt_reply = tr_reply t,
      dt_terminal_unix_ms = tr_terminal_unix_ms t,
      dt_retention_deadline_unix_ms = tr_terminal_deadline_unix_ms t\<rparr>"

lemma durable_of_id [simp]: "dt_task_id (durable_of k t) = k"
  by (simp add: durable_of_def)

lemma durable_task_Ok:
  "durable_task k t = Ok d \<longleftrightarrow>
     i64_range (qd_created_unix_ms (tr_original_delivery t) + DELIVERY_TTL_MS) \<and> d = durable_of k t"
  by (auto simp: durable_task_def durable_of_def res_bind_eq_Ok checked_Some)

lemma durable_task_of_ok: "task_ok k t \<Longrightarrow> durable_task k t = Ok (durable_of k t)"
  by (simp add: durable_task_Ok task_ok_def)

lemma durable_task_not_Panic [simp]: "durable_task k t \<noteq> Panic"
  by (simp add: durable_task_def res_bind_eq_Panic)

section \<open>The components of the invariant\<close>

type_synonym task_map = "TaskId \<rightharpoonup> TaskRecord"
type_synonym reg_map = "RegistrationId \<rightharpoonup> RegistrationState"

abbreviation taskm :: "State \<Rightarrow> task_map" where "taskm s \<equiv> hm_get (s_tasks s)"
abbreviation regm :: "State \<Rightarrow> reg_map" where "regm s \<equiv> hm_get (s_registrations s)"
abbreviation agentm :: "State \<Rightarrow> AgentName \<rightharpoonup> RegistrationId" where
  "agentm s \<equiv> hm_get (s_registrations_by_agent s)"
abbreviation delivm :: "State \<Rightarrow> DeliveryId \<rightharpoonup> TaskId" where
  "delivm s \<equiv> hm_get (s_tasks_by_delivery s)"

abbreviation reg_name :: "RegistrationState \<Rightarrow> AgentName" where
  "reg_name r \<equiv> va_name (rg_agent (rs_registration r))"
abbreviation reg_expiry :: "RegistrationState \<Rightarrow> i64" where
  "reg_expiry r \<equiv> rg_expires_unix_ms (rs_registration r)"

definition tasks_inv :: "task_map \<Rightarrow> bool" where
  "tasks_inv T \<longleftrightarrow> (\<forall>k t. T k = Some t \<longrightarrow> task_ok k t)"

definition seq_inv :: "u64 \<Rightarrow> task_map \<Rightarrow> bool" where
  "seq_inv n T \<longleftrightarrow>
     (\<forall>k t. T k = Some t \<longrightarrow> tr_enqueue_sequence t \<le> n)
     \<and> (\<forall>k t k' t'. T k = Some t \<longrightarrow> T k' = Some t' \<longrightarrow>
          tr_enqueue_sequence t = tr_enqueue_sequence t' \<longrightarrow> k = k')"

definition deliv_inv :: "(DeliveryId \<rightharpoonup> TaskId) \<Rightarrow> task_map \<Rightarrow> bool" where
  "deliv_inv D T \<longleftrightarrow>
     (\<forall>d k. D d = Some k \<longleftrightarrow>
        (\<exists>t l. T k = Some t \<and> tr_lease t = Some l \<and> dl_delivery_id l = d))"

definition reg_inv :: "reg_map \<Rightarrow> (AgentName \<rightharpoonup> RegistrationId) \<Rightarrow> bool" where
  "reg_inv R A \<longleftrightarrow>
     (\<forall>i r. R i = Some r \<longrightarrow> rg_id (rs_registration r) = i \<and> A (reg_name r) = Some i)
     \<and> (\<forall>a i. A a = Some i \<longrightarrow> (\<exists>r. R i = Some r \<and> reg_name r = a))"

definition seq_of :: "task_map \<Rightarrow> TaskId \<Rightarrow> u64" where
  "seq_of T k = (case T k of None \<Rightarrow> 0 | Some t \<Rightarrow> tr_enqueue_sequence t)"

definition awaits :: "task_map \<Rightarrow> AgentName \<Rightarrow> TaskId \<Rightarrow> bool" where
  "awaits T a k \<longleftrightarrow>
     (\<exists>t. T k = Some t \<and> live t \<and> \<not> tr_acknowledged t \<and> tr_recipient t = a)"

definition inbox_inv :: "reg_map \<Rightarrow> task_map \<Rightarrow> bool" where
  "inbox_inv R T \<longleftrightarrow>
     (\<forall>i r. R i = Some r \<longrightarrow>
        (\<forall>k \<in> set (rs_inbox r). awaits T (reg_name r) k)
        \<and> sorted_wrt (\<lambda>k k'. seq_of T k < seq_of T k') (rs_inbox r))"

definition owner_inv :: "reg_map \<Rightarrow> task_map \<Rightarrow> bool" where
  "owner_inv R T \<longleftrightarrow>
     (\<forall>k t l. T k = Some t \<longrightarrow> tr_lease t = Some l \<longrightarrow> \<not> tr_acknowledged t \<longrightarrow>
        (\<exists>c r. dl_owner l = Some c \<and> R (cr_id c) = Some r \<and> credentials (rs_registration r) = c
           \<and> reg_name r = tr_recipient t))"

definition term_inv :: "deadline_heap \<Rightarrow> task_map \<Rightarrow> bool" where
  "term_inv H T \<longleftrightarrow>
     sorted H \<and> (\<forall>k t d. T k = Some t \<longrightarrow> tr_terminal_deadline_unix_ms t = Some d \<longrightarrow> (d, k) \<in> set H)"

definition retired_inv :: "RegistrationId list \<Rightarrow> RegistrationId list \<Rightarrow> bool" where
  "retired_inv ids order \<longleftrightarrow>
     distinct order \<and> set ids = set order \<and> length order \<le> MAX_RETIRED_REGISTRATION_IDS"

definition index_ok :: "(TaskRecord \<Rightarrow> AgentName \<Rightarrow> bool) \<Rightarrow> (AgentName, TaskId) index \<Rightarrow> task_map \<Rightarrow> bool"
  where
  "index_ok sel m T \<longleftrightarrow>
     index_wf m
     \<and> (\<forall>a k. k \<in> set (bucket m a) \<longleftrightarrow> (\<exists>t. T k = Some t \<and> live t \<and> sel t a))"

definition by_sender :: "TaskRecord \<Rightarrow> AgentName \<Rightarrow> bool" where
  "by_sender t a \<longleftrightarrow> tr_sender t = a"

definition by_recipient :: "TaskRecord \<Rightarrow> AgentName \<Rightarrow> bool" where
  "by_recipient t a \<longleftrightarrow> tr_recipient t = a"

definition by_participant :: "TaskRecord \<Rightarrow> AgentName \<Rightarrow> bool" where
  "by_participant t a \<longleftrightarrow> tr_sender t = a \<or> tr_recipient t = a"

definition indexes_ok :: "State \<Rightarrow> bool" where
  "indexes_ok s \<longleftrightarrow>
     index_ok by_participant (s_active_tasks_by_agent s) (taskm s)
     \<and> index_ok by_sender (s_outbound_tasks_by_agent s) (taskm s)
     \<and> index_ok by_sender (s_tasks_by_sender s) (taskm s)
     \<and> index_ok by_recipient (s_tasks_by_recipient s) (taskm s)"

definition maps_wf :: "State \<Rightarrow> bool" where
  "maps_wf s \<longleftrightarrow> hm_wf (s_tasks s) \<and> hm_wf (s_registrations s) \<and> hm_wf (s_registrations_by_agent s)
     \<and> hm_wf (s_tasks_by_delivery s)"

definition wf_state :: "State \<Rightarrow> bool" where
  "wf_state s \<longleftrightarrow>
     maps_wf s
     \<and> length (s_tasks s) \<le> MAX_RETAINED_TASKS
     \<and> tasks_inv (taskm s)
     \<and> seq_inv (s_next_task_sequence s) (taskm s)
     \<and> deliv_inv (delivm s) (taskm s)
     \<and> reg_inv (regm s) (agentm s)
     \<and> inbox_inv (regm s) (taskm s)
     \<and> owner_inv (regm s) (taskm s)
     \<and> term_inv (s_terminal_deadlines s) (taskm s)
     \<and> retired_inv (s_retired_registration_ids s) (s_retired_registration_order s)
     \<and> indexes_ok s"

lemmas wf_state_parts = wf_state_def maps_wf_def

text \<open>Every task awaiting delivery is in the inbox of its recipient's unexpired registration.\<close>

definition inbox_complete :: "i64 \<Rightarrow> reg_map \<Rightarrow> task_map \<Rightarrow> bool" where
  "inbox_complete now R T \<longleftrightarrow>
     (\<forall>i r k. R i = Some r \<longrightarrow> now < reg_expiry r \<longrightarrow> awaits T (reg_name r) k \<longrightarrow> k \<in> set (rs_inbox r))"

section \<open>The index contract\<close>

locale task_index =
  fixes sel :: "TaskRecord \<Rightarrow> AgentName \<Rightarrow> bool"
  assumes sel_parties:
    "tr_sender t = tr_sender t' \<Longrightarrow> tr_recipient t = tr_recipient t' \<Longrightarrow> sel t a \<Longrightarrow> sel t' a"
begin

lemma empty_index: "index_ok sel [] Map.empty"
  by (simp add: index_ok_def)

lemma file_task:
  assumes "index_ok sel m T" and "index_wf m'" and "T k = None" and "live t"
    and "\<And>a. set (bucket m' a) = (if sel t a then insert k (set (bucket m a)) else set (bucket m a))"
  shows "index_ok sel m' (T(k \<mapsto> t))"
  using assms by (auto simp: index_ok_def)

lemma unfile_task:
  assumes "index_ok sel m T" and "index_wf m'" and "T k = Some t" and "\<not> live t'"
    and "\<And>a. set (bucket m' a) = (if sel t a then set (bucket m a) - {k} else set (bucket m a))"
  shows "index_ok sel m' (T(k \<mapsto> t'))"
  using assms by (auto simp: index_ok_def split: if_splits)

lemma drop_terminal:
  assumes "index_ok sel m T" and "\<And>k t. T k = Some t \<Longrightarrow> live t \<Longrightarrow> T' k = Some t"
    and "\<And>k t. T' k = Some t \<Longrightarrow> T k = Some t"
  shows "index_ok sel m T'"
proof -
  have "(\<exists>t. T' k = Some t \<and> live t \<and> sel t a) \<longleftrightarrow> (\<exists>t. T k = Some t \<and> live t \<and> sel t a)" for k a
    using assms(2,3) by blast
  with assms(1) show ?thesis by (simp add: index_ok_def)
qed

lemma add_terminal:
  assumes "index_ok sel m T" and "T k = None" and "\<not> live t"
  shows "index_ok sel m (T(k \<mapsto> t))"
  using assms by (auto simp: index_ok_def split: if_splits)

lemma parties_cong:
  assumes "\<And>k. map_option (\<lambda>t. (live t, tr_sender t, tr_recipient t)) (T' k)
             = map_option (\<lambda>t. (live t, tr_sender t, tr_recipient t)) (T k)"
    and "index_ok sel m T"
  shows "index_ok sel m T'"
proof -
  have "(\<exists>t. T' k = Some t \<and> live t \<and> sel t a) \<longleftrightarrow> (\<exists>t. T k = Some t \<and> live t \<and> sel t a)" for k a
    using assms(1)[of k] by (cases "T k"; cases "T' k") (auto intro: sel_parties)
  with assms(2) show ?thesis by (simp add: index_ok_def)
qed

end

interpretation sender_index: task_index by_sender
  by unfold_locales (simp add: by_sender_def)

interpretation recipient_index: task_index by_recipient
  by unfold_locales (simp add: by_recipient_def)

interpretation participant_index: task_index by_participant
  by unfold_locales (auto simp: by_participant_def)

section \<open>Changes that keep the core of every task\<close>

definition core :: "TaskRecord \<Rightarrow> u64 \<times> AgentName \<times> AgentName \<times> bool \<times> i64 option" where
  "core t = (tr_enqueue_sequence t, tr_sender t, tr_recipient t, tr_acknowledged t,
     tr_terminal_deadline_unix_ms t)"

definition same_core :: "task_map \<Rightarrow> task_map \<Rightarrow> bool" where
  "same_core T T' \<longleftrightarrow> (\<forall>k. map_option core (T' k) = map_option core (T k))"

lemma same_core_Some:
  assumes "same_core T T'" and "T' k = Some t'"
  obtains t where "T k = Some t" "core t' = core t"
proof -
  have "map_option core (T' k) = map_option core (T k)"
    using assms(1) by (simp add: same_core_def)
  with assms(2) show thesis by (cases "T k") (auto intro: that)
qed

lemma same_core_sym: "same_core T T' \<Longrightarrow> same_core T' T"
  by (simp add: same_core_def)

lemma same_core_refl [simp]: "same_core T T"
  by (simp add: same_core_def)

lemma same_core_trans: "same_core T T' \<Longrightarrow> same_core T' T'' \<Longrightarrow> same_core T T''"
  by (simp add: same_core_def)

lemma same_core_upd: "T k = Some t \<Longrightarrow> core t' = core t \<Longrightarrow> same_core T (T(k \<mapsto> t'))"
  by (simp add: same_core_def)

lemma same_core_map:
  assumes "\<And>k t. T k = Some t \<Longrightarrow> core (f k t) = core t"
  shows "same_core T (\<lambda>k. map_option (f k) (T k))"
  unfolding same_core_def
proof
  fix k
  show "map_option core (map_option (f k) (T k)) = map_option core (T k)"
    using assms by (cases "T k") auto
qed

lemma seq_inv_core:
  assumes c: "same_core T T'" and i: "seq_inv n T"
  shows "seq_inv n T'"
  unfolding seq_inv_def
proof (intro conjI allI impI)
  fix k t assume "T' k = Some t"
  with c obtain t0 where "T k = Some t0" "core t = core t0" by (rule same_core_Some)
  with i show "tr_enqueue_sequence t \<le> n" by (auto simp: seq_inv_def core_def)
next
  fix k t k' t' assume "T' k = Some t" "T' k' = Some t'"
    and eq: "tr_enqueue_sequence t = tr_enqueue_sequence t'"
  with c obtain t0 t0' where "T k = Some t0" "core t = core t0" "T k' = Some t0'" "core t' = core t0'"
    by (metis same_core_Some)
  with i eq show "k = k'" by (auto simp: seq_inv_def core_def)
qed

lemma term_inv_core:
  assumes c: "same_core T T'" and i: "term_inv H T"
  shows "term_inv H T'"
  unfolding term_inv_def
proof (intro conjI allI impI)
  fix k t d assume "T' k = Some t" "tr_terminal_deadline_unix_ms t = Some d"
  with c obtain t0 where "T k = Some t0" "core t = core t0" by (metis same_core_Some)
  with i \<open>tr_terminal_deadline_unix_ms t = Some d\<close> show "(d, k) \<in> set H"
    by (auto simp: term_inv_def core_def)
qed (use i in \<open>simp add: term_inv_def\<close>)

lemma seq_of_core: "same_core T T' \<Longrightarrow> seq_of T' = seq_of T"
proof
  fix k assume "same_core T T'"
  then have "map_option core (T' k) = map_option core (T k)" by (simp add: same_core_def)
  then show "seq_of T' k = seq_of T k"
    by (cases "T k"; cases "T' k") (auto simp: seq_of_def core_def)
qed

lemma awaits_core: "same_core T T' \<Longrightarrow> awaits T' = awaits T"
proof (intro ext)
  fix a k assume "same_core T T'"
  then have "map_option core (T' k) = map_option core (T k)" by (simp add: same_core_def)
  then show "awaits T' a k = awaits T a k"
    by (cases "T k"; cases "T' k") (auto simp: awaits_def core_def live_def)
qed

lemma inbox_inv_core: "same_core T T' \<Longrightarrow> inbox_inv R T \<Longrightarrow> inbox_inv R T'"
  by (simp add: inbox_inv_def awaits_core seq_of_core)

lemma inbox_complete_core: "same_core T T' \<Longrightarrow> inbox_complete n R T \<Longrightarrow> inbox_complete n R T'"
  by (simp add: inbox_complete_def awaits_core)

lemma same_core_parties:
  "same_core T T' \<Longrightarrow> map_option (\<lambda>t. (live t, tr_sender t, tr_recipient t)) (T' k)
     = map_option (\<lambda>t. (live t, tr_sender t, tr_recipient t)) (T k)"
proof -
  assume "same_core T T'"
  then have "map_option core (T' k) = map_option core (T k)" by (simp add: same_core_def)
  then show ?thesis
    by (cases "T k"; cases "T' k") (auto simp: core_def live_def)
qed

lemma indexes_core:
  assumes "same_core T T'"
  shows "index_ok by_sender m T \<Longrightarrow> index_ok by_sender m T'"
    and "index_ok by_recipient m T \<Longrightarrow> index_ok by_recipient m T'"
    and "index_ok by_participant m T \<Longrightarrow> index_ok by_participant m T'"
  using same_core_parties [OF assms] sender_index.parties_cong recipient_index.parties_cong
    participant_index.parties_cong
  by blast+

lemmas core_preserved = seq_inv_core term_inv_core inbox_inv_core indexes_core inbox_complete_core

end
