(* ===== verification/Broker_Primitives.thy ===== *)
theory Broker_Primitives
  imports Broker_Invariant
begin

text \<open>
  Preservation of the broker invariant by the helpers that change the state: requeueing,
  detachment, terminal transitions and pruning.  Each helper comes with the exact effect it has on
  the maps of tasks, registrations and deliveries.
\<close>

section \<open>Durable projections\<close>

lemma next_state_version_Ok [simp]:
  "next_state_version t = Ok v \<longleftrightarrow> v = tr_state_version t + 1 \<and> tr_state_version t + 1 \<le> u64_max"
  by (auto simp: next_state_version_def checked_Some)

lemma next_state_version_not_Panic [simp]: "next_state_version t \<noteq> Panic"
  by (simp add: next_state_version_def)

lemma durable_projection_not_Panic [simp]:
  "durable_requeued_task k t \<noteq> Panic"
  "durable_leased_task k t l \<noteq> Panic"
  "durable_acknowledged_task k t now \<noteq> Panic"
  "durable_terminal_task k t now st rep \<noteq> Panic"
  by (simp_all add: durable_requeued_task_def durable_leased_task_def durable_acknowledged_task_def
      durable_terminal_task_def res_bind_eq_Panic)

definition requeued_record :: "TaskRecord \<Rightarrow> TaskRecord" where
  "requeued_record t = t\<lparr>tr_state_version := tr_state_version t + 1, tr_lease := None\<rparr>"

definition leased_record :: "DeliveryLease \<Rightarrow> TaskRecord \<Rightarrow> TaskRecord" where
  "leased_record l t =
     t\<lparr>tr_state_version := tr_state_version t + 1, tr_last_delivery_attempt := Some (dl_attempt l),
       tr_lease := Some l\<rparr>"

definition acknowledged_record :: "i64 \<Rightarrow> TaskRecord \<Rightarrow> TaskRecord" where
  "acknowledged_record now t =
     t\<lparr>tr_state_version := tr_state_version t + 1, tr_acknowledged := True,
       tr_acknowledged_unix_ms := Some now\<rparr>"

fun terminal_columns :: "TerminalState \<Rightarrow> DurableTaskState \<times> ReplyPayload option" where
  "terminal_columns (TerminalReplied r) = (Replied, Some r)"
| "terminal_columns (TerminalFailed m) = (Failed, Some m)"
| "terminal_columns (TerminalRejected m) = (Rejected, Some m)"
| "terminal_columns TerminalCanceled = (Canceled, None)"
| "terminal_columns TerminalExpired = (Expired, None)"

definition terminated_record :: "i64 \<Rightarrow> TerminalState \<Rightarrow> TaskRecord \<Rightarrow> TaskRecord" where
  "terminated_record now ts t =
     terminal_record now (now + TERMINAL_RETENTION_MS) (tr_state_version t + 1) ts t"

text \<open>Each durable projection is the durable form of the record the broker installs afterwards.\<close>

lemma durable_requeued_task_Ok:
  assumes "task_ok k t" "live t" "\<not> tr_acknowledged t"
  shows "durable_requeued_task k t = Ok d \<longleftrightarrow>
           d = durable_of k (requeued_record t) \<and> tr_state_version t + 1 \<le> u64_max"
  using assms
  by (auto simp: durable_requeued_task_def res_bind_eq_Ok durable_task_of_ok requeued_record_def
      durable_of_def task_durable_state_def effective_attempt_def task_ok_def live_shape_def
      split: option.splits)

lemma durable_leased_task_Ok:
  assumes "task_ok k t" "live t" "\<not> tr_acknowledged t"
  shows "durable_leased_task k t l = Ok d \<longleftrightarrow>
           d = durable_of k (leased_record l t) \<and> tr_state_version t + 1 \<le> u64_max"
  using assms
  by (auto simp: durable_leased_task_def res_bind_eq_Ok durable_task_of_ok leased_record_def
      durable_of_def task_durable_state_def effective_attempt_def task_ok_def live_shape_def
      split: option.splits)

lemma durable_acknowledged_task_Ok:
  assumes "task_ok k t" "live t" "\<not> tr_acknowledged t"
  shows "durable_acknowledged_task k t now = Ok d \<longleftrightarrow>
           d = durable_of k (acknowledged_record now t) \<and> tr_state_version t + 1 \<le> u64_max"
  using assms
  by (auto simp: durable_acknowledged_task_def res_bind_eq_Ok durable_task_of_ok
      acknowledged_record_def durable_of_def task_durable_state_def effective_attempt_def
      task_ok_def live_shape_def
      split: option.splits)

lemma terminal_record_simps [simp]:
  "tr_enqueue_sequence (terminal_record now dl v ts t) = tr_enqueue_sequence t"
  "tr_state_version (terminal_record now dl v ts t) = v"
  "tr_original_delivery (terminal_record now dl v ts t) = tr_original_delivery t"
  "tr_delivery (terminal_record now dl v ts t) = None"
  "tr_recipient (terminal_record now dl v ts t) = tr_recipient t"
  "tr_sender (terminal_record now dl v ts t) = tr_sender t"
  "tr_lease (terminal_record now dl v ts t) = None"
  "tr_last_delivery_attempt (terminal_record now dl v ts t) = tr_last_delivery_attempt t"
  "tr_acknowledged (terminal_record now dl v ts t) = False"
  "tr_acknowledged_unix_ms (terminal_record now dl v ts t) = None"
  "tr_reply (terminal_record now dl v ts t) = snd (terminal_columns ts)"
  "tr_reply_waiters (terminal_record now dl v ts t) = []"
  "tr_failed (terminal_record now dl v ts t) = (fst (terminal_columns ts) = Failed)"
  "tr_rejected (terminal_record now dl v ts t) = (fst (terminal_columns ts) = Rejected)"
  "tr_canceled (terminal_record now dl v ts t) = (fst (terminal_columns ts) = Canceled)"
  "tr_expired (terminal_record now dl v ts t) = (fst (terminal_columns ts) = Expired)"
  "tr_terminal_unix_ms (terminal_record now dl v ts t) = Some now"
  "tr_terminal_deadline_unix_ms (terminal_record now dl v ts t) = Some dl"
  by (simp_all add: terminal_record_def Let_def split: TerminalState.splits)

lemma terminal_state_durable:
  "task_durable_state (terminal_record now dl v ts t) = fst (terminal_columns ts)"
  by (cases ts) (simp_all add: task_durable_state_def)

lemma durable_terminal_task_Ok:
  assumes "task_ok k t" "terminal_columns ts = (st, rep)"
  shows "durable_terminal_task k t now st rep = Ok d \<longleftrightarrow>
           d = durable_of k (terminated_record now ts t) \<and> tr_state_version t + 1 \<le> u64_max
           \<and> i64_range (now + TERMINAL_RETENTION_MS)"
  using assms
  by (auto simp: durable_terminal_task_def res_bind_eq_Ok durable_task_of_ok terminated_record_def
      durable_of_def terminal_state_durable effective_attempt_def checked_Some
      split: option.splits)

section \<open>Records stay well shaped\<close>

lemma live_updates [simp]:
  "live (requeued_record t) = live t"
  "live (leased_record l t) = live t"
  "live (acknowledged_record now t) = live t"
  "live (terminated_record now ts t) = False"
  by (simp_all add: live_def requeued_record_def leased_record_def acknowledged_record_def
      terminated_record_def)

lemma core_updates [simp]:
  "core (requeued_record t) = core t"
  "core (leased_record l t) = core t"
  by (simp_all add: core_def requeued_record_def leased_record_def)

lemma task_ok_requeued:
  "task_ok k t \<Longrightarrow> live t \<Longrightarrow> \<not> tr_acknowledged t \<Longrightarrow> task_ok k (requeued_record t)"
  by (auto simp: task_ok_def live_shape_def requeued_record_def live_def)

lemma task_ok_leased:
  "task_ok k t \<Longrightarrow> live t \<Longrightarrow> \<not> tr_acknowledged t \<Longrightarrow> task_ok k (leased_record l t)"
  by (auto simp: task_ok_def live_shape_def leased_record_def live_def effective_attempt_def)

lemma task_ok_acknowledged:
  "task_ok k t \<Longrightarrow> live t \<Longrightarrow> tr_lease t \<noteq> None \<Longrightarrow> task_ok k (acknowledged_record now t)"
  by (auto simp: task_ok_def live_shape_def acknowledged_record_def live_def effective_attempt_def
      split: option.splits)

lemma task_ok_terminated: "task_ok k t \<Longrightarrow> task_ok k (terminated_record now ts t)"
  by (cases ts) (auto simp: task_ok_def terminal_shape_def terminated_record_def live_def)

lemma leased_imp_live: "task_ok k t \<Longrightarrow> tr_lease t = Some l \<Longrightarrow> live t"
  by (auto simp: task_ok_def terminal_shape_def split: if_splits)

section \<open>Requeueing\<close>

definition bump_record :: "RegistrationCredentials \<Rightarrow> TaskRecord \<Rightarrow> TaskRecord" where
  "bump_record c t =
     (if leased_by c t then t\<lparr>tr_state_version := tr_state_version t + 1\<rparr> else t)"

lemma bump_tasks_effect:
  "(\<forall>(k, t) \<in> set m. leased_by c t \<longrightarrow> tr_state_version t + 1 \<le> u64_max) \<Longrightarrow>
     bump_tasks c m = Ok (hm_map_values (bump_record c) m)"
proof (induction m)
  case (Cons kt m)
  then show ?case
    by (cases kt) (auto simp: hm_map_values_def bump_record_def checked_add_u64_def)
qed (simp add: hm_map_values_def)

lemma bump_effect:
  assumes "hm_wf (s_tasks s)"
    and "\<And>k t. taskm s k = Some t \<Longrightarrow> leased_by c t \<Longrightarrow> tr_state_version t + 1 \<le> u64_max"
  shows "bump_requeued_versions_for_credentials c s =
           (Ok (), s\<lparr>s_tasks := hm_map_values (bump_record c) (s_tasks s)\<rparr>)"
proof -
  have "\<forall>(k, t) \<in> set (s_tasks s). leased_by c t \<longrightarrow> tr_state_version t + 1 \<le> u64_max"
    using assms by (auto simp: hm_get_iff_mem)
  then show ?thesis
    by (simp add: bump_requeued_versions_for_credentials_def bump_tasks_effect)
qed

section \<open>Releasing leases\<close>

lemma release_delivery_fields [simp]:
  "s_tasks (release_delivery k d s) = s_tasks s"
  "s_registrations (release_delivery k d s) = s_registrations s"
  "s_registrations_by_agent (release_delivery k d s) = s_registrations_by_agent s"
  "s_retired_registration_ids (release_delivery k d s) = s_retired_registration_ids s"
  "s_retired_registration_order (release_delivery k d s) = s_retired_registration_order s"
  "s_active_tasks_by_agent (release_delivery k d s) = s_active_tasks_by_agent s"
  "s_outbound_tasks_by_agent (release_delivery k d s) = s_outbound_tasks_by_agent s"
  "s_tasks_by_sender (release_delivery k d s) = s_tasks_by_sender s"
  "s_tasks_by_recipient (release_delivery k d s) = s_tasks_by_recipient s"
  "s_terminal_deadlines (release_delivery k d s) = s_terminal_deadlines s"
  "s_delivery_deadlines (release_delivery k d s) = s_delivery_deadlines s"
  "s_next_task_sequence (release_delivery k d s) = s_next_task_sequence s"
  "s_next_registration_epoch (release_delivery k d s) = s_next_registration_epoch s"
  "s_reconciliation_required (release_delivery k d s) = s_reconciliation_required s"
  "s_last_event (release_delivery k d s) = s_last_event s"
  by (simp_all add: release_delivery_def split: option.splits)

lemma release_delivery_wf [simp]:
  "hm_wf (s_tasks_by_delivery s) \<Longrightarrow> hm_wf (s_tasks_by_delivery (release_delivery k d s))"
  by (simp add: release_delivery_def split: option.splits)

lemma deliv_inv_release:
  assumes "deliv_inv (delivm s) T" "T k = Some t" "tr_lease t' = None"
  shows "deliv_inv (delivm (release_delivery k (map_option dl_delivery_id (tr_lease t)) s))
           (T(k \<mapsto> t'))"
proof (cases "tr_lease t")
  case None
  with assms show ?thesis
    by (auto simp: release_delivery_def deliv_inv_def)
next
  case (Some l)
  with assms have "delivm s (dl_delivery_id l) = Some k"
    by (auto simp: deliv_inv_def)
  with Some have eq: "delivm (release_delivery k (map_option dl_delivery_id (tr_lease t)) s)
      = (delivm s)(dl_delivery_id l := None)"
    by (simp add: release_delivery_def)
  have keep: "delivm s d = Some j \<longleftrightarrow> (\<exists>t l. T j = Some t \<and> tr_lease t = Some l \<and> dl_delivery_id l = d)"
    for d j using assms(1) by (simp add: deliv_inv_def)
  show ?thesis
    unfolding eq deliv_inv_def
  proof (intro allI)
    fix d j
    show "((delivm s)(dl_delivery_id l := None)) d = Some j \<longleftrightarrow>
        (\<exists>t l. (T(k \<mapsto> t')) j = Some t \<and> tr_lease t = Some l \<and> dl_delivery_id l = d)"
    proof (cases "d = dl_delivery_id l")
      case True
      have "j = k" if "T j = Some u" "tr_lease u = Some m" "dl_delivery_id m = d" for u m
      proof -
        from that have "delivm s d = Some j" using keep by blast
        with True \<open>delivm s (dl_delivery_id l) = Some k\<close> show "j = k" by simp
      qed
      with True assms(3) show ?thesis by auto
    next
      case False
      with Some assms(2,3) show ?thesis by (auto simp: keep)
    qed
  qed
qed

lemma take_lease_fields [simp]:
  "taskm (take_lease k s) = (taskm s)(k := map_option (\<lambda>t. t\<lparr>tr_lease := None\<rparr>) (taskm s k))"
  "hm_keys (s_tasks (take_lease k s)) = hm_keys (s_tasks s)"
  "length (s_tasks (take_lease k s)) = length (s_tasks s)"
  "s_registrations (take_lease k s) = s_registrations s"
  "s_registrations_by_agent (take_lease k s) = s_registrations_by_agent s"
  "s_retired_registration_ids (take_lease k s) = s_retired_registration_ids s"
  "s_retired_registration_order (take_lease k s) = s_retired_registration_order s"
  "s_active_tasks_by_agent (take_lease k s) = s_active_tasks_by_agent s"
  "s_outbound_tasks_by_agent (take_lease k s) = s_outbound_tasks_by_agent s"
  "s_tasks_by_sender (take_lease k s) = s_tasks_by_sender s"
  "s_tasks_by_recipient (take_lease k s) = s_tasks_by_recipient s"
  "s_terminal_deadlines (take_lease k s) = s_terminal_deadlines s"
  "s_next_task_sequence (take_lease k s) = s_next_task_sequence s"
  "s_next_registration_epoch (take_lease k s) = s_next_registration_epoch s"
  "s_reconciliation_required (take_lease k s) = s_reconciliation_required s"
  by (simp_all add: take_lease_def Let_def)

lemma take_lease_inv:
  assumes "deliv_inv (delivm s) (taskm s)" "hm_wf (s_tasks_by_delivery s)"
  shows "deliv_inv (delivm (take_lease k s)) (taskm (take_lease k s))"
    and "hm_wf (s_tasks_by_delivery (take_lease k s))"
proof -
  let ?s1 = "s\<lparr>s_tasks := hm_modify k (\<lambda>t. t\<lparr>tr_lease := None\<rparr>) (s_tasks s)\<rparr>"
  show "deliv_inv (delivm (take_lease k s)) (taskm (take_lease k s))"
  proof (cases "taskm s k")
    case None
    then have "(taskm s)(k := None) = taskm s" by auto
    with None assms show ?thesis
      by (simp add: take_lease_def Let_def release_delivery_def)
  next
    case (Some t)
    have "deliv_inv (delivm (release_delivery k (map_option dl_delivery_id (tr_lease t)) ?s1))
        ((taskm s)(k \<mapsto> t\<lparr>tr_lease := None\<rparr>))"
      by (rule deliv_inv_release) (use assms Some in simp_all)
    with Some show ?thesis by (simp add: take_lease_def Let_def)
  qed
  show "hm_wf (s_tasks_by_delivery (take_lease k s))"
    using assms(2) by (simp add: take_lease_def Let_def)
qed

lemma fold_take_lease_fields [simp]:
  "hm_keys (s_tasks (fold take_lease ks s)) = hm_keys (s_tasks s)"
  "length (s_tasks (fold take_lease ks s)) = length (s_tasks s)"
  "s_registrations (fold take_lease ks s) = s_registrations s"
  "s_registrations_by_agent (fold take_lease ks s) = s_registrations_by_agent s"
  "s_retired_registration_ids (fold take_lease ks s) = s_retired_registration_ids s"
  "s_retired_registration_order (fold take_lease ks s) = s_retired_registration_order s"
  "s_active_tasks_by_agent (fold take_lease ks s) = s_active_tasks_by_agent s"
  "s_outbound_tasks_by_agent (fold take_lease ks s) = s_outbound_tasks_by_agent s"
  "s_tasks_by_sender (fold take_lease ks s) = s_tasks_by_sender s"
  "s_tasks_by_recipient (fold take_lease ks s) = s_tasks_by_recipient s"
  "s_terminal_deadlines (fold take_lease ks s) = s_terminal_deadlines s"
  "s_next_task_sequence (fold take_lease ks s) = s_next_task_sequence s"
  "s_next_registration_epoch (fold take_lease ks s) = s_next_registration_epoch s"
  "s_reconciliation_required (fold take_lease ks s) = s_reconciliation_required s"
  by (induction ks arbitrary: s; simp)+

lemma fold_take_lease_tasks:
  "taskm (fold take_lease ks s) =
     (\<lambda>k. if k \<in> set ks then map_option (\<lambda>t. t\<lparr>tr_lease := None\<rparr>) (taskm s k) else taskm s k)"
proof (induction ks arbitrary: s)
  case (Cons j ks)
  show ?case
    by (auto simp: Cons.IH fun_eq_iff option.map_comp comp_def)
qed simp

lemma fold_take_lease_inv:
  "deliv_inv (delivm s) (taskm s) \<Longrightarrow> hm_wf (s_tasks_by_delivery s) \<Longrightarrow>
     deliv_inv (delivm (fold take_lease ks s)) (taskm (fold take_lease ks s))
     \<and> hm_wf (s_tasks_by_delivery (fold take_lease ks s))"
proof (induction ks arbitrary: s)
  case (Cons k ks)
  then show ?case
    using Cons.IH [OF take_lease_inv [OF Cons.prems]] by simp
qed simp

section \<open>Retired registrations\<close>

lemma drop_oldest_short:
  "length order \<le> MAX_RETIRED_REGISTRATION_IDS \<Longrightarrow> drop_oldest_retired ids order = (ids, order)"
  by (cases order) auto

lemma retire_effect:
  assumes inv: "retired_inv (s_retired_registration_ids s) (s_retired_registration_order s)"
  obtains ids order where
    "retire_registration_id i s =
       s\<lparr>s_retired_registration_ids := ids, s_retired_registration_order := order\<rparr>"
    "retired_inv ids order" "i \<in> set ids"
proof (cases "i \<in> set (s_retired_registration_ids s)")
  case True
  with inv show thesis
    by (intro that [where ids = "s_retired_registration_ids s" and order = "s_retired_registration_order s"])
      (auto simp: retire_registration_id_def retired_inv_def drop_oldest_short Let_def)
next
  case False
  let ?ids = "i # s_retired_registration_ids s" and ?order = "s_retired_registration_order s @ [i]"
  have fresh: "retire_registration_id i s =
      (case drop_oldest_retired ?ids ?order of (ids', order') \<Rightarrow>
         s\<lparr>s_retired_registration_ids := ids', s_retired_registration_order := order'\<rparr>)"
    using False by (simp add: retire_registration_id_def Let_def)
  show thesis
  proof (cases "length ?order \<le> MAX_RETIRED_REGISTRATION_IDS")
    case True
    with inv False fresh show thesis
      by (intro that [where ids = ?ids and order = ?order]) (auto simp: drop_oldest_short retired_inv_def)
  next
    case full: False
    then obtain x xs where x: "s_retired_registration_order s = x # xs"
      using inv by (cases "s_retired_registration_order s")
        (auto simp: retired_inv_def broker_constants)
    have "drop_oldest_retired ?ids ?order = (removeAll x ?ids, xs @ [i])"
      using inv full x by (simp add: retired_inv_def drop_oldest_short)
    with inv False fresh x show thesis
      by (intro that [where ids = "removeAll x ?ids" and order = "xs @ [i]"]) (auto simp: retired_inv_def)
  qed
qed

section \<open>Detaching a registration\<close>

definition detached_record :: "RegistrationCredentials \<Rightarrow> TaskRecord \<Rightarrow> TaskRecord" where
  "detached_record c t = (if leased_by c t then t\<lparr>tr_lease := None\<rparr> else t)"

lemma detached_core [simp]: "core (detached_record c t) = core t"
  by (simp add: detached_record_def core_def)

lemma task_ok_detached: "task_ok k t \<Longrightarrow> task_ok k (detached_record c t)"
  by (auto simp: detached_record_def task_ok_def live_def live_shape_def terminal_shape_def leased_by_def
      split: if_splits)

lemma leased_by_lease: "leased_by c t \<longleftrightarrow> \<not> tr_acknowledged t \<and> (\<exists>l. tr_lease t = Some l \<and> dl_owner l = Some c)"
  by (auto simp: leased_by_def split: option.splits)

lemma reg_inv_remove:
  assumes "reg_inv R A" "R i = Some r"
  shows "reg_inv (R(i := None)) (A(reg_name r := None))"
  using assms by (auto simp: reg_inv_def) (metis option.inject)+

lemma owner_inv_detach:
  assumes "owner_inv R T" "R i = Some r"
  shows "owner_inv (R(i := None)) (\<lambda>k. map_option (detached_record (credentials (rs_registration r))) (T k))"
  unfolding owner_inv_def
proof (intro allI impI)
  fix k t l
  assume t: "map_option (detached_record (credentials (rs_registration r))) (T k) = Some t"
    and l: "tr_lease t = Some l" and na: "\<not> tr_acknowledged t"
  obtain t0 where t0: "T k = Some t0" "t = detached_record (credentials (rs_registration r)) t0"
    using t by auto
  with l na have keep: "\<not> leased_by (credentials (rs_registration r)) t0" "t = t0"
    by (auto simp: detached_record_def split: if_splits)
  with assms(1) t0 l na obtain c r' where
    "dl_owner l = Some c" "R (cr_id c) = Some r'" "credentials (rs_registration r') = c"
    "reg_name r' = tr_recipient t"
    unfolding owner_inv_def by metis
  with keep l na assms(2) show "\<exists>c r'. dl_owner l = Some c \<and> (R(i := None)) (cr_id c) = Some r'
      \<and> credentials (rs_registration r') = c \<and> reg_name r' = tr_recipient t"
    by (cases "cr_id c = i") (auto simp: leased_by_lease)
qed

lemma inbox_inv_remove_reg: "inbox_inv R T \<Longrightarrow> inbox_inv (R(i := None)) T"
  by (auto simp: inbox_inv_def)

text \<open>The broker's counters and flag, which the helpers leave alone.\<close>

definition frame :: "State \<Rightarrow> u64 \<times> u64 \<times> bool" where
  "frame s = (s_next_task_sequence s, s_next_registration_epoch s, s_reconciliation_required s)"

lemma detach_effect:
  assumes wf: "wf_state s" and r: "regm s i = Some r"
  obtains s' where "detach_registration i b s = (Some r, s')" "wf_state s'"
    "regm s' = (regm s)(i := None)" "agentm s' = (agentm s)(reg_name r := None)"
    "taskm s' = (\<lambda>k. map_option (detached_record (credentials (rs_registration r))) (taskm s k))"
    "hm_keys (s_tasks s') = hm_keys (s_tasks s)"
    "frame s' = frame s" "b \<Longrightarrow> i \<in> set (s_retired_registration_ids s')"
proof -
  let ?c = "credentials (rs_registration r)"
  let ?s2 = "s\<lparr>s_registrations := hm_remove i (s_registrations s),
               s_registrations_by_agent := hm_remove (reg_name r) (s_registrations_by_agent s)\<rparr>"
  let ?ids = "map fst (filter (\<lambda>(_, t). leased_by ?c t) (s_tasks s))"
  have agent: "agentm s (reg_name r) = Some i"
    using wf r by (auto simp: wf_state_def reg_inv_def)
  obtain ids order where ret: "(if b then retire_registration_id i ?s2 else ?s2) =
      ?s2\<lparr>s_retired_registration_ids := ids, s_retired_registration_order := order\<rparr>"
    and rinv: "retired_inv ids order" and mem: "b \<Longrightarrow> i \<in> set ids"
  proof (cases b)
    case True
    have "retired_inv (s_retired_registration_ids ?s2) (s_retired_registration_order ?s2)"
      using wf by (simp add: wf_state_def)
    then show thesis by (rule retire_effect [where i = i]) (use True that in auto)
  next
    case False
    then show thesis
      using wf that [where ids = "s_retired_registration_ids s" and order = "s_retired_registration_order s"]
      by (simp add: wf_state_def)
  qed
  let ?s3 = "?s2\<lparr>s_retired_registration_ids := ids, s_retired_registration_order := order\<rparr>"
  let ?s4 = "fold take_lease ?ids ?s3"
  have run: "detach_registration i b s = (Some r, ?s4)"
    using r agent ret by (cases b) (simp_all add: detach_registration_def Let_def)
  have ids_mem: "k \<in> set ?ids \<longleftrightarrow> (\<exists>t. taskm s k = Some t \<and> leased_by ?c t)" for k
    using wf by (force simp: wf_state_parts hm_get_iff_mem)
  have tasks: "taskm ?s4 = (\<lambda>k. map_option (detached_record ?c) (taskm s k))"
  proof
    fix k show "taskm ?s4 k = map_option (detached_record ?c) (taskm s k)"
      unfolding fold_take_lease_tasks using ids_mem [of k]
      by (cases "taskm s k") (auto simp: detached_record_def)
  qed
  have core: "same_core (taskm s) (taskm ?s4)"
    unfolding tasks by (rule same_core_map) simp
  have deliv: "deliv_inv (delivm ?s4) (taskm ?s4) \<and> hm_wf (s_tasks_by_delivery ?s4)"
    by (rule fold_take_lease_inv) (use wf in \<open>simp_all add: wf_state_parts\<close>)
  have len: "length (s_tasks ?s4) = length (s_tasks s)"
    by simp
  have "wf_state ?s4"
    using wf deliv len core_preserved [OF core] reg_inv_remove [of "regm s" "agentm s" i r]
      owner_inv_detach [of "regm s" "taskm s" i r] inbox_inv_remove_reg rinv r
    by (auto simp: wf_state_parts indexes_ok_def tasks_inv_def tasks intro: task_ok_detached)
  with run tasks mem show thesis
    by (intro that [of ?s4]) (simp_all add: frame_def)
qed

section \<open>Changes of task records in place\<close>

text \<open>
  A new record that may replace the old one anywhere: well shaped, with the same core and delivery
  identifier, and with the same lease while it is not acknowledged.
\<close>

definition replaces :: "TaskId \<Rightarrow> TaskRecord \<Rightarrow> TaskRecord \<Rightarrow> bool" where
  "replaces k t t' \<longleftrightarrow>
     core t' = core t \<and> (task_ok k t \<longrightarrow> task_ok k t')
     \<and> map_option dl_delivery_id (tr_lease t') = map_option dl_delivery_id (tr_lease t)
     \<and> (\<not> tr_acknowledged t \<longrightarrow> tr_lease t' = tr_lease t)"

lemma replaces_refl [simp]: "replaces k t t"
  by (simp add: replaces_def)

lemma deliv_inv_replaces:
  assumes "deliv_inv D T" and rel: "\<And>k. rel_option (replaces k) (T k) (T' k)"
  shows "deliv_inv D T'"
proof -
  have "(\<exists>t l. T' k = Some t \<and> tr_lease t = Some l \<and> dl_delivery_id l = d)
      \<longleftrightarrow> (\<exists>t l. T k = Some t \<and> tr_lease t = Some l \<and> dl_delivery_id l = d)" for k d
  proof (cases "T k")
    case (Some t)
    with rel [of k] obtain t' where t': "T' k = Some t'" "replaces k t t'"
      by (auto simp: option_rel_Some1)
    then have "map_option dl_delivery_id (tr_lease t') = map_option dl_delivery_id (tr_lease t)"
      by (simp add: replaces_def)
    with Some t' show ?thesis
      by (cases "tr_lease t"; cases "tr_lease t'") auto
  qed (use rel [of k] in simp)
  with assms(1) show ?thesis by (simp add: deliv_inv_def)
qed

lemma wf_replace_tasks:
  assumes wf: "wf_state s" and keys: "hm_keys m = hm_keys (s_tasks s)"
    and rel: "\<And>k. rel_option (replaces k) (taskm s k) (hm_get m k)"
  shows "wf_state (s\<lparr>s_tasks := m\<rparr>)"
proof -
  have core: "same_core (taskm s) (hm_get m)"
    unfolding same_core_def
  proof
    fix k show "map_option core (hm_get m k) = map_option core (taskm s k)"
      using rel [of k] by (cases "taskm s k"; cases "hm_get m k") (auto simp: replaces_def)
  qed
  have old: "\<exists>t. taskm s k = Some t \<and> replaces k t t'" if "hm_get m k = Some t'" for k t'
    using rel [of k] that by (auto simp: option_rel_Some2)
  have "tasks_inv (hm_get m)"
    using wf old by (fastforce simp: wf_state_def tasks_inv_def replaces_def)
  moreover have "owner_inv (regm s) (hm_get m)"
    unfolding owner_inv_def
  proof (intro allI impI)
    fix k t' l assume t': "hm_get m k = Some t'" "tr_lease t' = Some l" "\<not> tr_acknowledged t'"
    then obtain t where t: "taskm s k = Some t" "replaces k t t'" using old by blast
    with t' have "tr_lease t = Some l" "\<not> tr_acknowledged t" "tr_recipient t = tr_recipient t'"
      by (auto simp: replaces_def core_def)
    with t wf show "\<exists>c r. dl_owner l = Some c \<and> regm s (cr_id c) = Some r
        \<and> credentials (rs_registration r) = c \<and> reg_name r = tr_recipient t'"
      by (fastforce simp: wf_state_def owner_inv_def)
  qed
  moreover have "length m = length (s_tasks s)"
    using arg_cong [OF keys, of length] by simp
  ultimately show ?thesis
    using wf keys core_preserved [OF core] deliv_inv_replaces [of _ "taskm s" "hm_get m"] rel
    by (simp add: wf_state_parts indexes_ok_def)
qed

lemma replaces_bump: "task_ok k t \<Longrightarrow> replaces k t (bump_record c t)"
  by (auto simp: replaces_def bump_record_def core_def task_ok_def live_def live_shape_def
      terminal_shape_def effective_attempt_def split: if_splits option.splits)

lemma wf_bump:
  assumes "wf_state s"
  shows "wf_state (s\<lparr>s_tasks := hm_map_values (bump_record c) (s_tasks s)\<rparr>)"
proof (rule wf_replace_tasks)
  show "rel_option (replaces k) (taskm s k) (hm_get (hm_map_values (bump_record c) (s_tasks s)) k)" for k
    using assms by (cases "taskm s k") (auto simp: wf_state_def tasks_inv_def replaces_bump)
qed (use assms in simp_all)

section \<open>Terminal transitions\<close>

lemma inbox_inv_drop:
  assumes inv: "inbox_inv R T" and same: "\<And>j. j \<noteq> k \<Longrightarrow> T' j = T j"
  shows "inbox_inv (\<lambda>i. map_option (\<lambda>r. r\<lparr>rs_inbox := filter (\<lambda>q. q \<noteq> k) (rs_inbox r)\<rparr>) (R i)) T'"
proof -
  have "awaits T' a j = awaits T a j" "seq_of T' j = seq_of T j" if "j \<noteq> k" for a j
    using same [OF that] by (auto simp: awaits_def seq_of_def)
  moreover have "sorted_wrt (\<lambda>a b. seq_of T' a < seq_of T' b) (filter (\<lambda>q. q \<noteq> k) xs)"
    if "sorted_wrt (\<lambda>a b. seq_of T a < seq_of T b) xs" for xs
  proof (rule sorted_wrt_mono_rel [OF _ sorted_wrt_filter [OF that]])
    fix x y assume "x \<in> set (filter (\<lambda>q. q \<noteq> k) xs)" "y \<in> set (filter (\<lambda>q. q \<noteq> k) xs)"
      "seq_of T x < seq_of T y"
    then show "seq_of T' x < seq_of T' y" using same by (auto simp: seq_of_def)
  qed
  ultimately show ?thesis using inv by (auto simp: inbox_inv_def)
qed

text \<open>Only the recipient's registration can hold the task, so removing it there removes it everywhere.\<close>

lemma inbox_filter_all:
  assumes reg: "reg_inv R A" and inv: "inbox_inv R T" and t: "T k = Some t"
  shows "(case A (tr_recipient t) of None \<Rightarrow> R | Some i \<Rightarrow>
            R(i := map_option (\<lambda>r. r\<lparr>rs_inbox := filter (\<lambda>q. q \<noteq> k) (rs_inbox r)\<rparr>) (R i)))
         = (\<lambda>i. map_option (\<lambda>r. r\<lparr>rs_inbox := filter (\<lambda>q. q \<noteq> k) (rs_inbox r)\<rparr>) (R i))"
proof -
  have keep: "filter (\<lambda>q. q \<noteq> k) (rs_inbox r) = rs_inbox r"
    if "R i = Some r" "A (tr_recipient t) \<noteq> Some i" for i r
  proof -
    have "k \<notin> set (rs_inbox r)"
    proof
      assume "k \<in> set (rs_inbox r)"
      with inv that(1) t have "tr_recipient t = reg_name r"
        by (fastforce simp: inbox_inv_def awaits_def)
      with reg that show False by (auto simp: reg_inv_def)
    qed
    then show ?thesis by (induction "rs_inbox r") (auto simp: filter_id_conv)
  qed
  have id: "map_option (\<lambda>r. r\<lparr>rs_inbox := filter (\<lambda>q. q \<noteq> k) (rs_inbox r)\<rparr>) (R i) = R i"
    if "A (tr_recipient t) \<noteq> Some i" for i
    using keep [OF _ that] by (cases "R i") auto
  show ?thesis
    by (cases "A (tr_recipient t)") (auto simp: fun_eq_iff id)
qed

lemma remove_from_inbox_regm:
  assumes "reg_inv (regm s) (agentm s)" "inbox_inv (regm s) T" "T k = Some t"
  shows "regm (remove_from_inbox (tr_recipient t) k s) =
    (\<lambda>i. map_option (\<lambda>r. r\<lparr>rs_inbox := filter (\<lambda>q. q \<noteq> k) (rs_inbox r)\<rparr>) (regm s i))"
  unfolding inbox_filter_all [OF assms, symmetric]
  by (auto simp: remove_from_inbox_def split: option.splits)

lemma remove_from_inbox_fields [simp]:
  "hm_keys (s_registrations (remove_from_inbox a k s)) = hm_keys (s_registrations s)"
  "s_registrations_by_agent (remove_from_inbox a k s) = s_registrations_by_agent s"
  "s_tasks (remove_from_inbox a k s) = s_tasks s"
  "s_tasks_by_delivery (remove_from_inbox a k s) = s_tasks_by_delivery s"
  "s_retired_registration_ids (remove_from_inbox a k s) = s_retired_registration_ids s"
  "s_retired_registration_order (remove_from_inbox a k s) = s_retired_registration_order s"
  "s_active_tasks_by_agent (remove_from_inbox a k s) = s_active_tasks_by_agent s"
  "s_outbound_tasks_by_agent (remove_from_inbox a k s) = s_outbound_tasks_by_agent s"
  "s_tasks_by_sender (remove_from_inbox a k s) = s_tasks_by_sender s"
  "s_tasks_by_recipient (remove_from_inbox a k s) = s_tasks_by_recipient s"
  "s_terminal_deadlines (remove_from_inbox a k s) = s_terminal_deadlines s"
  "s_next_task_sequence (remove_from_inbox a k s) = s_next_task_sequence s"
  "s_next_registration_epoch (remove_from_inbox a k s) = s_next_registration_epoch s"
  "s_reconciliation_required (remove_from_inbox a k s) = s_reconciliation_required s"
  by (simp_all add: remove_from_inbox_def split: option.splits)

definition same_regs :: "reg_map \<Rightarrow> reg_map \<Rightarrow> bool" where
  "same_regs R R' \<longleftrightarrow> (\<forall>i. map_option rs_registration (R' i) = map_option rs_registration (R i))"

lemma same_regs_Some:
  assumes "same_regs R R'" "R i = Some r"
  obtains r' where "R' i = Some r'" "rs_registration r' = rs_registration r"
proof -
  have "map_option rs_registration (R' i) = map_option rs_registration (R i)"
    using assms(1) by (simp add: same_regs_def)
  with assms(2) show thesis by (cases "R' i") (auto intro: that)
qed

lemma same_regs_refl [simp]: "same_regs R R"
  by (simp add: same_regs_def)

lemma same_regs_sym: "same_regs R R' \<Longrightarrow> same_regs R' R"
  by (simp add: same_regs_def)

lemma same_regs_trans: "same_regs R R' \<Longrightarrow> same_regs R' R'' \<Longrightarrow> same_regs R R''"
  by (simp add: same_regs_def)

lemma same_regs_map: "(\<And>r. rs_registration (f r) = rs_registration r) \<Longrightarrow> same_regs R (\<lambda>i. map_option f (R i))"
  by (simp add: same_regs_def option.map_comp comp_def)

lemma same_regs_upd:
  "(\<And>r. rs_registration (f r) = rs_registration r) \<Longrightarrow> same_regs R (R(i := map_option f (R i)))"
  by (simp add: same_regs_def option.map_comp comp_def)

lemma reg_inv_same:
  assumes "same_regs R R'" "reg_inv R A"
  shows "reg_inv R' A"
  unfolding reg_inv_def
proof (intro conjI allI impI)
  fix i r' assume "R' i = Some r'"
  then obtain r where "R i = Some r" "rs_registration r = rs_registration r'"
    using same_regs_Some [OF same_regs_sym [OF assms(1)]] by metis
  with assms(2) show "rg_id (rs_registration r') = i" "A (reg_name r') = Some i"
    unfolding reg_inv_def by metis+
next
  fix a i assume "A a = Some i"
  with assms(2) obtain r where "R i = Some r" "reg_name r = a"
    unfolding reg_inv_def by metis
  then show "\<exists>r. R' i = Some r \<and> reg_name r = a"
    using same_regs_Some [OF assms(1)] by metis
qed

lemma owner_inv_same:
  assumes "same_regs R R'" "owner_inv R T"
  shows "owner_inv R' T"
  unfolding owner_inv_def
proof (intro allI impI)
  fix k t l assume "T k = Some t" "tr_lease t = Some l" "\<not> tr_acknowledged t"
  with assms(2) obtain c r where "dl_owner l = Some c" "R (cr_id c) = Some r"
    "credentials (rs_registration r) = c" "reg_name r = tr_recipient t"
    unfolding owner_inv_def by metis
  then show "\<exists>c r. dl_owner l = Some c \<and> R' (cr_id c) = Some r
      \<and> credentials (rs_registration r) = c \<and> reg_name r = tr_recipient t"
    using same_regs_Some [OF assms(1)] by metis
qed

lemma owner_inv_unleased:
  "owner_inv R T \<Longrightarrow> tr_lease t = None \<or> tr_acknowledged t \<Longrightarrow> owner_inv R (T(k \<mapsto> t))"
  by (auto simp: owner_inv_def)

lemma seq_inv_upd:
  "seq_inv n T \<Longrightarrow> T k = Some t \<Longrightarrow> tr_enqueue_sequence t' = tr_enqueue_sequence t \<Longrightarrow>
     seq_inv n (T(k \<mapsto> t'))"
  by (auto simp: seq_inv_def)

lemma unfile_indexes:
  assumes "T k = Some t" "\<not> live t'"
  shows "index_ok by_participant m T \<Longrightarrow>
      index_ok by_participant (bucket_remove (tr_sender t) k (bucket_remove (tr_recipient t) k m)) (T(k \<mapsto> t'))"
    and "index_ok by_sender m T \<Longrightarrow> index_ok by_sender (bucket_remove (tr_sender t) k m) (T(k \<mapsto> t'))"
    and "index_ok by_recipient m T \<Longrightarrow>
      index_ok by_recipient (bucket_remove (tr_recipient t) k m) (T(k \<mapsto> t'))"
  by (rule participant_index.unfile_task sender_index.unfile_task recipient_index.unfile_task,
      assumption, simp add: index_ok_def, rule assms, rule assms,
      auto simp: by_participant_def by_sender_def by_recipient_def)+

lemma unindex_task_fields [simp]:
  "s_registrations (unindex_task a b k s) = s_registrations s"
  "s_registrations_by_agent (unindex_task a b k s) = s_registrations_by_agent s"
  "s_tasks (unindex_task a b k s) = s_tasks s"
  "s_tasks_by_delivery (unindex_task a b k s) = s_tasks_by_delivery s"
  "s_retired_registration_ids (unindex_task a b k s) = s_retired_registration_ids s"
  "s_retired_registration_order (unindex_task a b k s) = s_retired_registration_order s"
  "s_terminal_deadlines (unindex_task a b k s) = s_terminal_deadlines s"
  "s_next_task_sequence (unindex_task a b k s) = s_next_task_sequence s"
  "s_next_registration_epoch (unindex_task a b k s) = s_next_registration_epoch s"
  "s_reconciliation_required (unindex_task a b k s) = s_reconciliation_required s"
  by (simp_all add: unindex_task_def)

abbreviation without_task :: "TaskId \<Rightarrow> RegistrationState \<Rightarrow> RegistrationState" where
  "without_task k r \<equiv> r\<lparr>rs_inbox := filter (\<lambda>q. q \<noteq> k) (rs_inbox r)\<rparr>"

lemma keys_hm_insert_old: "hm_get m k = Some v \<Longrightarrow> hm_keys (hm_insert k u m) = hm_keys m"
  by (induction m) (auto split: if_splits)

lemma length_hm_insert_old: "hm_get m k = Some v \<Longrightarrow> length (hm_insert k u m) = length m"
  by (induction m) (auto split: if_splits)

lemma terminalize_effect:
  assumes wf: "wf_state s" and t: "taskm s k = Some t" and lv: "live t"
    and v: "tr_state_version t + 1 \<le> u64_max" and n: "i64_range (now + TERMINAL_RETENTION_MS)"
  obtains s' where "terminalize_task k now ts s = (Ok (tr_reply_waiters t), s')" "wf_state s'"
    "taskm s' = (taskm s)(k \<mapsto> terminated_record now ts t)"
    "hm_keys (s_tasks s') = hm_keys (s_tasks s)"
    "regm s' = (\<lambda>i. map_option (without_task k) (regm s i))"
    "s_registrations_by_agent s' = s_registrations_by_agent s" "frame s' = frame s"
    "s_retired_registration_ids s' = s_retired_registration_ids s"
proof -
  let ?t' = "terminated_record now ts t" and ?T' = "(taskm s)(k \<mapsto> terminated_record now ts t)"
  let ?s1 = "s\<lparr>s_tasks := hm_insert k ?t' (s_tasks s)\<rparr>"
  let ?s2 = "release_delivery k (map_option dl_delivery_id (tr_lease t)) ?s1"
  let ?s3 = "remove_from_inbox (tr_recipient t) k ?s2"
  let ?s4 = "unindex_task (tr_sender t) (tr_recipient t) k ?s3"
  let ?s5 = "?s4\<lparr>s_terminal_deadlines :=
      heap_push (now + TERMINAL_RETENTION_MS, k) (s_terminal_deadlines ?s4)\<rparr>"
  have run: "terminalize_task k now ts s = (Ok (tr_reply_waiters t), ?s5)"
    using t lv v n
    by (simp add: terminalize_task_def checked_add_i64_def checked_add_u64_def live_def Let_def
        terminated_record_def)
  have regs: "regm ?s3 = (\<lambda>i. map_option (without_task k) (regm s i))"
    using remove_from_inbox_regm [where s = ?s2 and T = "taskm s" and k = k and t = t] wf t
    by (simp add: wf_state_def)
  have same: "same_regs (regm s) (regm ?s3)"
    unfolding regs by (rule same_regs_map) simp
  have deliv: "deliv_inv (delivm ?s2) ?T'"
    by (rule deliv_inv_release) (use wf t in \<open>simp_all add: wf_state_def terminated_record_def\<close>)
  have tasks: "tasks_inv ?T'"
    using wf t by (auto simp: wf_state_def tasks_inv_def task_ok_terminated)
  have inbox: "inbox_inv (regm ?s3) ?T'"
    unfolding regs by (rule inbox_inv_drop [where T = "taskm s"]) (use wf in \<open>auto simp: wf_state_def\<close>)
  have owner: "owner_inv (regm ?s3) ?T'"
    using owner_inv_same [OF same] wf
    by (auto simp: wf_state_def terminated_record_def intro: owner_inv_unleased)
  have terms: "term_inv (s_terminal_deadlines ?s5) ?T'"
    using wf by (auto simp: wf_state_def term_inv_def terminated_record_def)
  have seq: "seq_inv (s_next_task_sequence s) ?T'"
    using wf t by (auto simp: wf_state_def terminated_record_def intro: seq_inv_upd)
  have idx: "indexes_ok ?s5"
    using wf unfile_indexes [of "taskm s" k t ?t'] t by (simp add: wf_state_def indexes_ok_def unindex_task_def)
  have "wf_state ?s5"
    using wf regs deliv tasks inbox owner terms seq idx reg_inv_same [OF same] t
    by (simp add: wf_state_parts keys_hm_insert_old length_hm_insert_old)
  with run regs t show thesis
    by (intro that [of ?s5]) (simp_all add: frame_def keys_hm_insert_old)
qed

section \<open>Pruning\<close>

lemma inbox_inv_awaits:
  assumes inv: "inbox_inv R T" and aw: "\<And>a k. awaits T a k \<Longrightarrow> awaits T' a k \<and> seq_of T' k = seq_of T k"
  shows "inbox_inv R T'"
  unfolding inbox_inv_def
proof (intro allI impI)
  fix i r assume "R i = Some r"
  with inv have m: "\<forall>k \<in> set (rs_inbox r). awaits T (reg_name r) k"
    and s: "sorted_wrt (\<lambda>k k'. seq_of T k < seq_of T k') (rs_inbox r)"
    by (auto simp: inbox_inv_def)
  have "sorted_wrt (\<lambda>k k'. seq_of T' k < seq_of T' k') (rs_inbox r)"
  proof (rule sorted_wrt_mono_rel [OF _ s])
    fix x y assume "x \<in> set (rs_inbox r)" "y \<in> set (rs_inbox r)" "seq_of T x < seq_of T y"
    moreover from this have "seq_of T' x = seq_of T x" "seq_of T' y = seq_of T y"
      using m aw by blast+
    ultimately show "seq_of T' x < seq_of T' y" by simp
  qed
  with m aw show "(\<forall>k \<in> set (rs_inbox r). awaits T' (reg_name r) k)
      \<and> sorted_wrt (\<lambda>k k'. seq_of T' k < seq_of T' k') (rs_inbox r)" by blast
qed

definition due_for_pruning :: "i64 \<Rightarrow> TaskRecord \<Rightarrow> bool" where
  "due_for_pruning now t \<longleftrightarrow>
     (case tr_terminal_deadline_unix_ms t of None \<Rightarrow> False | Some d \<Rightarrow> d \<le> now)"

definition pruned :: "i64 \<Rightarrow> task_map \<Rightarrow> task_map" where
  "pruned now T = (\<lambda>k. case T k of None \<Rightarrow> None | Some t \<Rightarrow> if due_for_pruning now t then None else Some t)"

lemma prune_terminal_get:
  "sorted h \<Longrightarrow> hm_get (snd (prune_terminal now h m)) k =
     (case hm_get m k of None \<Rightarrow> None
      | Some t \<Rightarrow> if \<exists>d. tr_terminal_deadline_unix_ms t = Some d \<and> d \<le> now \<and> (d, k) \<in> set h
                  then None else Some t)"
proof (induction now h m rule: prune_terminal.induct)
  case (2 now d j h m)
  show ?case
  proof (cases "d \<le> now")
    case True
    with 2 show ?thesis by (auto split: option.splits)
  next
    case False
    with 2(2) have "\<not> (d' \<le> now \<and> (d', k) \<in> set ((d, j) # h))" for d'
      using sorted_deadline_prefix [of "(d, j)" h "(d', k)"] by auto
    with False show ?thesis by (auto split: option.splits)
  qed
qed (auto split: option.splits)

lemma prune_terminal_map:
  "hm_wf m \<Longrightarrow> hm_wf (snd (prune_terminal now h m)) \<and> length (snd (prune_terminal now h m)) \<le> length m"
proof (induction now h m rule: prune_terminal.induct)
  case (2 now d j h m)
  have "length (hm_remove j m) \<le> length m" by (rule length_hm_remove)
  with 2 show ?case by (auto intro: order_trans)
qed auto

lemma prune_terminal_heap:
  "sorted h \<Longrightarrow> sorted (fst (prune_terminal now h m))
     \<and> set (fst (prune_terminal now h m)) = {x \<in> set h. now < fst x}"
proof (induction now h m rule: prune_terminal.induct)
  case (2 now d j h m)
  have "now < fst x" if "\<not> d \<le> now" "x \<in> set h" for x
    using sorted_deadline_prefix [OF 2(2) that(2)] that(1) by simp
  with 2 show ?case by auto
qed auto

lemma prune_wf:
  assumes wf: "wf_state s"
  shows "wf_state (prune_terminal_tasks now s)"
    and "taskm (prune_terminal_tasks now s) = pruned now (taskm s)"
proof -
  obtain h m where hm: "prune_terminal now (s_terminal_deadlines s) (s_tasks s) = (h, m)"
    by fastforce
  have sorted: "sorted (s_terminal_deadlines s)"
    and deadlines: "taskm s k = Some t \<Longrightarrow> tr_terminal_deadline_unix_ms t = Some d \<Longrightarrow>
      (d, k) \<in> set (s_terminal_deadlines s)" for k t d
    using wf by (auto simp: wf_state_def term_inv_def)
  have get: "hm_get m = pruned now (taskm s)"
  proof
    fix k show "hm_get m k = pruned now (taskm s) k"
      using prune_terminal_get [OF sorted, of now "s_tasks s" k] deadlines [of k] hm
      by (auto simp: pruned_def due_for_pruning_def split: option.splits)
  qed
  have eq: "prune_terminal_tasks now s = s\<lparr>s_terminal_deadlines := h, s_tasks := m\<rparr>"
    by (simp add: prune_terminal_tasks_def hm)
  then show "taskm (prune_terminal_tasks now s) = pruned now (taskm s)" by (simp add: get)
  have sub: "taskm s k = Some t" "\<not> due_for_pruning now t" if "pruned now (taskm s) k = Some t" for k t
    using that by (auto simp: pruned_def split: option.splits if_splits)
  have live: "pruned now (taskm s) k = Some t" if "taskm s k = Some t" "live t" for k t
    using that by (simp add: pruned_def due_for_pruning_def live_def)
  have aw: "awaits (pruned now (taskm s)) a k \<and> seq_of (pruned now (taskm s)) k = seq_of (taskm s) k"
    if "awaits (taskm s) a k" for a k
    using that live by (auto simp: awaits_def seq_of_def)
  have leased: "live t" if "taskm s k = Some t" "tr_lease t = Some l" for k t l
    using wf that by (auto simp: wf_state_def tasks_inv_def intro: leased_imp_live)
  have facts: "hm_wf m" "length m \<le> length (s_tasks s)" "sorted h"
    "set h = {x \<in> set (s_terminal_deadlines s). now < fst x}"
    using prune_terminal_map [of "s_tasks s" now "s_terminal_deadlines s"]
      prune_terminal_heap [OF sorted, of now "s_tasks s"] wf hm by (auto simp: wf_state_parts)
  have "deliv_inv (delivm s) (hm_get m)"
    using wf leased live sub unfolding get wf_state_def deliv_inv_def by metis
  moreover have "term_inv h (hm_get m)"
    using facts(3,4) deadlines sub unfolding get term_inv_def
    by (fastforce simp: due_for_pruning_def)
  moreover have "inbox_inv (regm s) (hm_get m)"
    unfolding get by (rule inbox_inv_awaits [OF _ aw]) (use wf in \<open>auto simp: wf_state_def\<close>)
  moreover have "tasks_inv (hm_get m)" "seq_inv (s_next_task_sequence s) (hm_get m)"
    "owner_inv (regm s) (hm_get m)"
    using wf sub unfolding get wf_state_def tasks_inv_def seq_inv_def owner_inv_def by metis+
  moreover have
    "index_ok by_participant m' (taskm s) \<Longrightarrow> index_ok by_participant m' (pruned now (taskm s))"
    "index_ok by_sender m' (taskm s) \<Longrightarrow> index_ok by_sender m' (pruned now (taskm s))"
    "index_ok by_recipient m' (taskm s) \<Longrightarrow> index_ok by_recipient m' (pruned now (taskm s))" for m'
    by (erule participant_index.drop_terminal sender_index.drop_terminal recipient_index.drop_terminal,
        erule (1) live, erule sub(1))+
  then have "indexes_ok (s\<lparr>s_terminal_deadlines := h, s_tasks := m\<rparr>)"
    using wf by (simp add: wf_state_def indexes_ok_def get)
  ultimately show "wf_state (prune_terminal_tasks now s)"
    using wf facts(1,2) unfolding eq by (simp add: wf_state_parts)
qed

lemma prune_fields [simp]:
  "s_registrations (prune_terminal_tasks now s) = s_registrations s"
  "s_registrations_by_agent (prune_terminal_tasks now s) = s_registrations_by_agent s"
  "s_retired_registration_ids (prune_terminal_tasks now s) = s_retired_registration_ids s"
  "frame (prune_terminal_tasks now s) = frame s"
  by (simp_all add: prune_terminal_tasks_def frame_def split: prod.splits)

lemma wf_delivery_deadlines [simp]: "wf_state (s\<lparr>s_delivery_deadlines := h\<rparr>) = wf_state s"
  by (simp add: wf_state_parts indexes_ok_def)

end
