(* ===== verification/Broker_Restore.thy ===== *)
theory Broker_Restore
  imports Broker_Primitives
begin

text \<open>
  Recovery: the durable form of a task and the record restored from it are inverse to each other,
  the repair of a loaded snapshot is a pointwise function of its tasks, and the state rebuilt from
  a repaired snapshot satisfies the broker invariant and mirrors the snapshot.
\<close>

section \<open>Restored records\<close>

lemma durable_ok_terminal:
  assumes "durable_ok d"
  shows "is_terminal_state (dt_state d) \<longleftrightarrow> dt_retention_deadline_unix_ms d \<noteq> None"
    and "is_terminal_state (dt_state d) \<longleftrightarrow> dt_terminal_unix_ms d \<noteq> None"
  using assms
  by (cases "dt_state d"; auto simp: durable_ok_def is_terminal_state_def terminal_times_valid_def
      split: option.splits)+

lemma restored_live: "durable_ok d \<Longrightarrow> live (restored_record n d) \<longleftrightarrow> \<not> is_terminal_state (dt_state d)"
  by (simp add: live_def restored_record_def durable_ok_terminal)

lemma task_ok_restored: "durable_ok d \<Longrightarrow> task_ok (dt_task_id d) (restored_record n d)"
  by (cases "dt_state d")
    (auto simp: task_ok_def restored_record_def restored_delivery_def restored_lease_def durable_ok_def
      live_def live_shape_def terminal_shape_def effective_attempt_def is_terminal_state_def
      terminal_times_valid_def checked_Some split: option.splits if_splits)

lemma durable_of_restored: "durable_ok d \<Longrightarrow> durable_of (dt_task_id d) (restored_record n d) = d"
  by (cases "dt_state d"; cases d)
    (auto simp: durable_of_def restored_record_def restored_delivery_def restored_lease_def durable_ok_def
      effective_attempt_def task_durable_state_def durable_lease_def checked_Some
      split: option.splits if_splits)

lemma restored_fields [simp]:
  "tr_enqueue_sequence (restored_record n d) = n"
  "tr_sender (restored_record n d) = dt_sender d"
  "tr_recipient (restored_record n d) = dt_recipient d"
  "tr_acknowledged (restored_record n d) = (dt_state d = Acknowledged)"
  "tr_lease (restored_record n d) = map_option restored_lease (dt_lease d)"
  "tr_terminal_deadline_unix_ms (restored_record n d) = dt_retention_deadline_unix_ms d"
  "tr_reply_waiters (restored_record n d) = []"
  "dl_delivery_id (restored_lease l) = dle_delivery_id l"
  by (simp_all add: restored_record_def restored_lease_def)

section \<open>Filing a new task\<close>

lemma file_indexes:
  assumes "T k = None" "live t"
  shows "index_ok by_participant m T \<Longrightarrow>
      index_ok by_participant (bucket_insert (tr_recipient t) k (bucket_insert (tr_sender t) k m)) (T(k \<mapsto> t))"
    and "index_ok by_sender m T \<Longrightarrow> index_ok by_sender (bucket_insert (tr_sender t) k m) (T(k \<mapsto> t))"
    and "index_ok by_recipient m T \<Longrightarrow>
      index_ok by_recipient (bucket_insert (tr_recipient t) k m) (T(k \<mapsto> t))"
  by (rule participant_index.file_task sender_index.file_task recipient_index.file_task,
      assumption, simp add: index_ok_def, rule assms, rule assms,
      auto simp: by_participant_def by_sender_def by_recipient_def)+

lemma inbox_inv_new:
  assumes "inbox_inv R T" "T k = None"
  shows "inbox_inv R (T(k \<mapsto> t))"
  by (rule inbox_inv_awaits [OF assms(1)]) (use assms(2) in \<open>auto simp: awaits_def seq_of_def\<close>)

lemma seq_inv_new:
  "seq_inv n T \<Longrightarrow> n < tr_enqueue_sequence t \<Longrightarrow> seq_inv (tr_enqueue_sequence t) (T(k \<mapsto> t))"
  unfolding seq_inv_def by (auto; fastforce)

lemma deliv_inv_new:
  assumes "deliv_inv D T" "T k = None" "\<And>l. tr_lease t = Some l \<Longrightarrow> D (dl_delivery_id l) = None"
  shows "deliv_inv (case tr_lease t of None \<Rightarrow> D | Some l \<Rightarrow> D(dl_delivery_id l \<mapsto> k)) (T(k \<mapsto> t))"
proof (cases "tr_lease t")
  case None
  with assms show ?thesis by (auto simp: deliv_inv_def)
next
  case (Some l)
  have keep: "D d = Some j \<longleftrightarrow> (\<exists>t l. T j = Some t \<and> tr_lease t = Some l \<and> dl_delivery_id l = d)" for d j
    using assms(1) by (simp add: deliv_inv_def)
  have unused: "dl_delivery_id m \<noteq> dl_delivery_id l" if "T j = Some u" "tr_lease u = Some m" for j u m
    using keep [of "dl_delivery_id m" j] assms(3) [OF Some] that by auto
  from Some assms(2) show ?thesis
    unfolding deliv_inv_def by (auto simp: keep unused split: if_splits)
qed

lemma term_inv_new:
  "term_inv h T \<Longrightarrow> tr_terminal_deadline_unix_ms t = Some d \<Longrightarrow> term_inv (heap_push (d, k) h) (T(k \<mapsto> t))"
  "term_inv h T \<Longrightarrow> tr_terminal_deadline_unix_ms t = None \<Longrightarrow> term_inv h (T(k \<mapsto> t))"
  by (auto simp: term_inv_def)

text \<open>What the repair of a snapshot leaves: valid tasks, none of them leased without acknowledgement.\<close>

definition restorable :: "DurableTask \<Rightarrow> bool" where
  "restorable d \<longleftrightarrow> durable_ok d \<and> dt_state d \<noteq> Leased"

lemma restorable_lease: "restorable d \<Longrightarrow> dt_lease d = None \<or> dt_state d = Acknowledged"
  by (cases "dt_state d") (auto simp: restorable_def durable_ok_def)

lemma restore_next_effect:
  assumes wf: "wf_state s" and d: "restorable d" and new: "taskm s (dt_task_id d) = None"
    and deliv: "\<And>l. dt_lease d = Some l \<Longrightarrow> delivm s (dle_delivery_id l) = None"
    and room: "length (s_tasks s) < MAX_RETAINED_TASKS" and seq: "s_next_task_sequence s + 1 \<le> u64_max"
  obtains s' where "restore_next d s = (Ok (), s')" "wf_state s'"
    "taskm s' = (taskm s)(dt_task_id d \<mapsto> restored_record (s_next_task_sequence s + 1) d)"
    "delivm s' = (case dt_lease d of None \<Rightarrow> delivm s | Some l \<Rightarrow> (delivm s)(dle_delivery_id l \<mapsto> dt_task_id d))"
    "length (s_tasks s') = Suc (length (s_tasks s))"
    "s_next_task_sequence s' = s_next_task_sequence s + 1"
    "s_registrations s' = s_registrations s" "s_registrations_by_agent s' = s_registrations_by_agent s"
    "s_retired_registration_ids s' = s_retired_registration_ids s"
    "s_next_registration_epoch s' = s_next_registration_epoch s"
    "s_reconciliation_required s' = s_reconciliation_required s"
proof -
  let ?n = "s_next_task_sequence s + 1" and ?k = "dt_task_id d"
  let ?t = "restored_record ?n d" and ?T' = "(taskm s)(?k \<mapsto> restored_record ?n d)"
  have ok: "durable_ok d" using d by (simp add: restorable_def)
  obtain s' where run: "restore_next d s = (Ok (), s')"
    and s': "s_tasks s' = hm_insert ?k ?t (s_tasks s)"
      "s_tasks_by_delivery s' = (case dt_lease d of None \<Rightarrow> s_tasks_by_delivery s
         | Some l \<Rightarrow> hm_insert (dle_delivery_id l) ?k (s_tasks_by_delivery s))"
      "s_terminal_deadlines s' = (case dt_retention_deadline_unix_ms d of
         None \<Rightarrow> s_terminal_deadlines s | Some dl \<Rightarrow> heap_push (dl, ?k) (s_terminal_deadlines s))"
      "indexes_ok s'"
    and same: "s_next_task_sequence s' = ?n"
      "s_registrations s' = s_registrations s" "s_registrations_by_agent s' = s_registrations_by_agent s"
      "s_retired_registration_ids s' = s_retired_registration_ids s"
      "s_retired_registration_order s' = s_retired_registration_order s"
      "s_next_registration_epoch s' = s_next_registration_epoch s"
      "s_reconciliation_required s' = s_reconciliation_required s"
  proof (cases "is_terminal_state (dt_state d)")
    case True
    then obtain dl where dl: "dt_retention_deadline_unix_ms d = Some dl"
      using durable_ok_terminal(1) [OF ok] by auto
    have "dt_lease d = None"
      using True restorable_lease [OF d] by (auto simp: is_terminal_state_def)
    moreover have "\<not> live ?t" using True by (simp add: restored_live [OF ok])
    ultimately show thesis
      using that [of "s\<lparr>s_next_task_sequence := ?n,
          s_terminal_deadlines := heap_push (dl, ?k) (s_terminal_deadlines s),
          s_tasks := hm_insert ?k ?t (s_tasks s)\<rparr>"]
        True dl seq wf new participant_index.add_terminal sender_index.add_terminal
        recipient_index.add_terminal
      by (simp add: restore_next_def restore_task_def checked_add_u64_def Let_def wf_state_def
          indexes_ok_def)
  next
    case False
    then have dl: "dt_retention_deadline_unix_ms d = None"
      using durable_ok_terminal(1) [OF ok] by auto
    have lv: "live ?t" using False by (simp add: restored_live [OF ok])
    note idx = file_indexes [of "taskm s" ?k ?t]
    show thesis
      by (rule that [of "snd (restore_next d s)"])
        (use False dl wf new lv idx seq in \<open>simp_all add: restore_next_def restore_task_def
          checked_add_u64_def Let_def index_task_def wf_state_def indexes_ok_def split: option.splits\<close>)
  qed
  have inv: "tasks_inv ?T'" "seq_inv ?n ?T'" "inbox_inv (regm s) ?T'" "owner_inv (regm s) ?T'"
    using wf new task_ok_restored [OF ok] seq_inv_new [where t = ?t] inbox_inv_new restorable_lease [OF d]
    by (auto simp: wf_state_def tasks_inv_def intro!: owner_inv_unleased)
  have "deliv_inv (delivm s') ?T'"
    using deliv_inv_new [of "delivm s" "taskm s" ?k ?t] wf new deliv s'(2)
    by (auto simp: wf_state_def split: option.splits)
  moreover have "term_inv (s_terminal_deadlines s') ?T'"
    using wf s'(3) term_inv_new [where t = ?t] by (auto simp: wf_state_def split: option.splits)
  moreover have "hm_wf (s_tasks_by_delivery s')"
    using wf s'(2) by (auto simp: wf_state_parts split: option.splits)
  ultimately have "wf_state s'"
    using wf inv s'(1,4) same room new by (simp add: wf_state_parts length_hm_insert_new)
  with run s'(1,2) same show thesis
    by (intro that [of s']) (auto simp: length_hm_insert_new new split: option.splits)
qed

section \<open>Restoring a list of tasks\<close>

definition lease_ids :: "DurableTask list \<Rightarrow> DeliveryId list" where
  "lease_ids = List.map_filter (\<lambda>d. map_option dle_delivery_id (dt_lease d))"

lemma lease_ids_simps [simp]:
  "lease_ids [] = []"
  "lease_ids (d # ds) = (case dt_lease d of None \<Rightarrow> lease_ids ds | Some l \<Rightarrow> dle_delivery_id l # lease_ids ds)"
  by (simp_all add: lease_ids_def map_filter_simps split: option.splits)

lemma lease_ids_set: "set (lease_ids ds) = {x. \<exists>d \<in> set ds. map_option dle_delivery_id (dt_lease d) = Some x}"
  by (induction ds) (auto split: option.splits)

definition bookkeeping :: "State \<Rightarrow> (RegistrationId, RegistrationState) hash_map \<times>
    (AgentName, RegistrationId) hash_map \<times> RegistrationId list \<times> u64 \<times> bool" where
  "bookkeeping s = (s_registrations s, s_registrations_by_agent s, s_retired_registration_ids s,
     s_next_registration_epoch s, s_reconciliation_required s)"

lemma restore_all_effect:
  assumes "wf_state s" "\<forall>d \<in> set ds. restorable d" "distinct (map dt_task_id ds)"
    "distinct (lease_ids ds)" "\<forall>d \<in> set ds. taskm s (dt_task_id d) = None"
    "\<forall>x \<in> set (lease_ids ds). delivm s x = None"
    "length (s_tasks s) + length ds \<le> MAX_RETAINED_TASKS"
    "s_next_task_sequence s + length ds \<le> u64_max"
  shows "\<exists>s'. forM ds restore_next s = (Ok (), s') \<and> wf_state s'
    \<and> (\<forall>i < length ds. taskm s' (dt_task_id (ds ! i)) =
         Some (restored_record (s_next_task_sequence s + i + 1) (ds ! i)))
    \<and> (\<forall>k. k \<notin> dt_task_id ` set ds \<longrightarrow> taskm s' k = taskm s k)
    \<and> bookkeeping s' = bookkeeping s"
  using assms
proof (induction ds arbitrary: s)
  case (Cons d ds)
  have pre: "restorable d" "taskm s (dt_task_id d) = None"
    "\<And>l. dt_lease d = Some l \<Longrightarrow> delivm s (dle_delivery_id l) = None"
    "length (s_tasks s) < MAX_RETAINED_TASKS" "s_next_task_sequence s + 1 \<le> u64_max"
    using Cons.prems by auto
  obtain s1 where s1: "restore_next d s = (Ok (), s1)" "wf_state s1"
    "taskm s1 = (taskm s)(dt_task_id d \<mapsto> restored_record (s_next_task_sequence s + 1) d)"
    "delivm s1 = (case dt_lease d of None \<Rightarrow> delivm s | Some l \<Rightarrow> (delivm s)(dle_delivery_id l \<mapsto> dt_task_id d))"
    "length (s_tasks s1) = Suc (length (s_tasks s))"
    "s_next_task_sequence s1 = s_next_task_sequence s + 1"
    and same: "bookkeeping s1 = bookkeeping s"
    by (rule restore_next_effect [OF Cons.prems(1) pre]) (auto simp: bookkeeping_def)
  have ne: "dt_task_id e \<noteq> dt_task_id d" if "e \<in> set ds" for e
    using Cons.prems(3) that by (metis distinct.simps(2) image_eqI list.set_map list.simps(9))
  have "\<forall>x \<in> set (lease_ids ds). delivm s1 x = None" "\<forall>e \<in> set ds. taskm s1 (dt_task_id e) = None"
    using Cons.prems s1(3,4) by (auto simp: ne split: option.splits)
  with Cons.IH [of s1] Cons.prems s1 obtain s' where s': "forM ds restore_next s1 = (Ok (), s')" "wf_state s'"
    "\<forall>i < length ds. taskm s' (dt_task_id (ds ! i)) =
       Some (restored_record (s_next_task_sequence s1 + i + 1) (ds ! i))"
    "\<forall>k. k \<notin> dt_task_id ` set ds \<longrightarrow> taskm s' k = taskm s1 k" "bookkeeping s' = bookkeeping s1"
    by (auto split: option.splits)
  moreover have "taskm s' (dt_task_id ((d # ds) ! i)) =
      Some (restored_record (s_next_task_sequence s + i + 1) ((d # ds) ! i))" if "i < length (d # ds)" for i
    using s'(3,4) s1(3,6) Cons.prems(3) that by (cases i) auto
  ultimately show ?case
    using s1(1,3) same by (intro exI [of _ s']) auto
qed simp

section \<open>Repairing a snapshot\<close>

text \<open>The pointwise meaning of the repair: \<open>None\<close> for a task past its retention.\<close>

definition past_retention :: "i64 \<Rightarrow> DurableTask \<Rightarrow> bool" where
  "past_retention now d \<longleftrightarrow>
     (case dt_retention_deadline_unix_ms d of None \<Rightarrow> False | Some dl \<Rightarrow> dl \<le> now)"

definition past_delivery :: "i64 \<Rightarrow> DurableTask \<Rightarrow> bool" where
  "past_delivery now d \<longleftrightarrow>
     \<not> is_terminal_state (dt_state d) \<and> dt_delivery_deadline_unix_ms d \<le> now"

definition reconciled :: "i64 \<Rightarrow> DurableTask \<Rightarrow> DurableTask option" where
  "reconciled now d =
     (if past_retention now d then None
      else if past_delivery now d
      then Some (expire_durable now (now + TERMINAL_RETENTION_MS) (dt_state_version d + 1) d)
      else if dt_state d = Leased then Some (requeue_durable (dt_state_version d + 1) d)
      else Some d)"

definition repaired :: "i64 \<Rightarrow> DurableTask list \<Rightarrow> DurableTask list" where
  "repaired now ds = List.map_filter (reconciled now) ds"

definition repair_batch :: "i64 \<Rightarrow> DurableTask list \<Rightarrow> PersistenceBatch" where
  "repair_batch now ds =
     \<lparr>pb_registration_epoch_high_watermark = None,
      pb_upsert_tasks = repaired now (filter (\<lambda>d. reconciled now d \<noteq> Some d) ds),
      pb_delete_task_ids = map dt_task_id (filter (past_retention now) ds)\<rparr>"

text \<open>The repair of one task succeeds: it is valid, and its version and the clock can advance.\<close>

definition repairable :: "(json \<Rightarrow> nat) \<Rightarrow> i64 \<Rightarrow> DurableTask \<Rightarrow> bool" where
  "repairable json_len now d \<longleftrightarrow>
     validate_durable_task json_len d = Ok ()
     \<and> (\<not> past_retention now d \<and> past_delivery now d \<longrightarrow> i64_range (now + TERMINAL_RETENTION_MS))
     \<and> (\<not> past_retention now d \<and> (past_delivery now d \<or> dt_state d = Leased) \<longrightarrow>
          dt_state_version d + 1 \<le> u64_max)"

lemma reconciled_None: "reconciled now d = None \<longleftrightarrow> past_retention now d"
  by (simp add: reconciled_def)

lemma reconciled_id: "reconciled now d = Some d' \<Longrightarrow> dt_task_id d' = dt_task_id d"
  by (auto simp: reconciled_def expire_durable_def requeue_durable_def split: if_splits)

lemma reconciled_lease:
  "reconciled now d = Some d' \<Longrightarrow> dt_lease d' = None \<or> dt_lease d' = dt_lease d"
  by (auto simp: reconciled_def expire_durable_def requeue_durable_def split: if_splits)

lemma changed_durable [simp]:
  "expire_durable now dl (Suc (dt_state_version d)) d \<noteq> d"
  "requeue_durable (Suc (dt_state_version d)) d \<noteq> d"
  by (auto simp: expire_durable_def requeue_durable_def dest: arg_cong [where f = dt_state_version])

lemma durable_ok_expire:
  "durable_ok d \<Longrightarrow> past_delivery now d \<Longrightarrow> i64_range (now + TERMINAL_RETENTION_MS) \<Longrightarrow>
     durable_ok (expire_durable now (now + TERMINAL_RETENTION_MS) (dt_state_version d + 1) d)"
  by (auto simp: durable_ok_def past_delivery_def expire_durable_def terminal_times_valid_def
      checked_Some broker_constants)

lemma durable_ok_requeue:
  "durable_ok d \<Longrightarrow> dt_state d = Leased \<Longrightarrow> durable_ok (requeue_durable (dt_state_version d + 1) d)"
  by (auto simp: durable_ok_def requeue_durable_def terminal_times_valid_def)

lemma reconciled_restorable:
  "repairable json_len now d \<Longrightarrow> reconciled now d = Some d' \<Longrightarrow> restorable d'"
  using durable_ok_expire [of d now] durable_ok_requeue [of d]
  by (auto simp: repairable_def validate_durable_task_Ok reconciled_def restorable_def
      expire_durable_def requeue_durable_def split: if_splits)

lemma reconciled_kept:
  assumes "repairable json_len now d" "reconciled now d = Some d'"
  shows "\<not> past_retention now d'" "\<not> past_delivery now d'"
  using assms
  by (auto simp: reconciled_def past_retention_def past_delivery_def expire_durable_def
      requeue_durable_def is_terminal_state_def broker_constants split: if_splits)

definition count_repair :: "i64 \<Rightarrow> DurableTask \<Rightarrow> BrokerRecoveryReport \<Rightarrow> BrokerRecoveryReport" where
  "count_repair now d rep =
     (if past_retention now d then rep\<lparr>rr_pruned := rr_pruned rep + 1\<rparr>
      else if past_delivery now d then rep\<lparr>rr_expired := rr_expired rep + 1\<rparr>
      else if dt_state d = Leased then rep\<lparr>rr_requeued := rr_requeued rep + 1\<rparr>
      else rep)"

definition advance :: "i64 \<Rightarrow> DurableTask \<Rightarrow> Reconciliation \<Rightarrow> Reconciliation" where
  "advance now d rc =
     \<lparr>rc_task_ids = dt_task_id d # rc_task_ids rc,
      rc_delivery_ids = lease_ids [d] @ rc_delivery_ids rc,
      rc_restored = rc_restored rc @ repaired now [d],
      rc_upsert_tasks = rc_upsert_tasks rc @ pb_upsert_tasks (repair_batch now [d]),
      rc_delete_task_ids = rc_delete_task_ids rc @ pb_delete_task_ids (repair_batch now [d]),
      rc_report = count_repair now d (rc_report rc)\<rparr>"

lemma reconcile_one_Ok:
  "reconcile_one json_len now d rc = Ok rc' \<longleftrightarrow>
     repairable json_len now d \<and> dt_task_id d \<notin> set (rc_task_ids rc)
     \<and> set (lease_ids [d]) \<inter> set (rc_delivery_ids rc) = {} \<and> rc' = advance now d rc"
proof -
  have pr: "(case dt_retention_deadline_unix_ms d of None \<Rightarrow> False | Some dl \<Rightarrow> dl \<le> now) = past_retention now d"
    by (simp add: past_retention_def)
  have pd: "(\<not> is_terminal_state (dt_state d) \<and> dt_delivery_deadline_unix_ms d \<le> now) = past_delivery now d"
    by (simp add: past_delivery_def)
  show ?thesis
    unfolding reconcile_one_def pr pd
    by (cases "dt_lease d"; cases "past_retention now d"; cases "past_delivery now d")
      (auto simp: res_bind_eq_Ok repairable_def advance_def count_repair_def repaired_def
        repair_batch_def reconciled_def map_filter_simps checked_Some Let_def)
qed

lemma repaired_simps:
  "repaired now [] = []"
  "repaired now (d # ds) =
     (case reconciled now d of None \<Rightarrow> repaired now ds | Some d' \<Rightarrow> d' # repaired now ds)"
  by (simp_all add: repaired_def map_filter_simps split: option.splits)

lemma repaired_Cons: "repaired now (d # ds) = repaired now [d] @ repaired now ds"
  by (simp add: repaired_def map_filter_simps split: option.splits)

lemma repair_batch_Cons:
  "pb_upsert_tasks (repair_batch now (d # ds)) =
     pb_upsert_tasks (repair_batch now [d]) @ pb_upsert_tasks (repair_batch now ds)"
  "pb_delete_task_ids (repair_batch now (d # ds)) =
     pb_delete_task_ids (repair_batch now [d]) @ pb_delete_task_ids (repair_batch now ds)"
  by (auto simp: repair_batch_def repaired_def map_filter_simps split: option.splits)

lemma reconcile_loop_Ok:
  "reconcile_loop json_len now ds rc = Ok rc' \<longleftrightarrow>
     (\<forall>d \<in> set ds. repairable json_len now d)
     \<and> distinct (map dt_task_id ds) \<and> dt_task_id ` set ds \<inter> set (rc_task_ids rc) = {}
     \<and> distinct (lease_ids ds) \<and> set (lease_ids ds) \<inter> set (rc_delivery_ids rc) = {}
     \<and> rc' = \<lparr>rc_task_ids = rev (map dt_task_id ds) @ rc_task_ids rc,
              rc_delivery_ids = rev (lease_ids ds) @ rc_delivery_ids rc,
              rc_restored = rc_restored rc @ repaired now ds,
              rc_upsert_tasks = rc_upsert_tasks rc @ pb_upsert_tasks (repair_batch now ds),
              rc_delete_task_ids = rc_delete_task_ids rc @ pb_delete_task_ids (repair_batch now ds),
              rc_report = fold (count_repair now) ds (rc_report rc)\<rparr>"
proof (induction ds arbitrary: rc)
  case Nil
  then show ?case
    by (auto simp: repaired_def repair_batch_def map_filter_simps)
next
  case (Cons d ds)
  show ?case
    by (cases "dt_lease d")
      (auto simp: res_bind_eq_Ok reconcile_one_Ok Cons.IH advance_def repaired_Cons [of now d ds]
        repair_batch_Cons [of now d ds])
qed

lemma validate_and_reconcile_Ok:
  "validate_and_reconcile_snapshot json_len ds now rep = Ok x \<longleftrightarrow>
     length ds \<le> MAX_RETAINED_TASKS \<and> (\<forall>d \<in> set ds. repairable json_len now d)
     \<and> distinct (map dt_task_id ds) \<and> distinct (lease_ids ds)
     \<and> x = (repaired now ds, repair_batch now ds, fold (count_repair now) ds rep)"
  by (auto simp: validate_and_reconcile_snapshot_def res_bind_eq_Ok reconcile_loop_Ok repair_batch_def)

lemma validate_and_reconcile_not_Panic [simp]:
  "validate_and_reconcile_snapshot json_len ds now rep \<noteq> Panic"
proof -
  have "reconcile_one json_len now d rc \<noteq> Panic" for d rc
    by (auto simp: reconcile_one_def res_bind_eq_Panic Let_def split: option.splits)
  then have "reconcile_loop json_len now ds rc \<noteq> Panic" for rc
    by (induction ds arbitrary: rc) (auto simp: res_bind_eq_Panic)
  then show ?thesis
    by (simp add: validate_and_reconcile_snapshot_def res_bind_eq_Panic)
qed

text \<open>The repaired tasks are the snapshot's table after the repair batch.\<close>

lemma repaired_ids_subset: "dt_task_id ` set (repaired now ds) \<subseteq> dt_task_id ` set ds"
  by (induction ds) (auto simp: repaired_def map_filter_simps reconciled_id split: option.splits)

lemma repaired_distinct: "distinct (map dt_task_id ds) \<Longrightarrow> distinct (map dt_task_id (repaired now ds))"
proof (induction ds)
  case (Cons d ds)
  have "dt_task_id d \<notin> dt_task_id ` set (repaired now ds)"
    using Cons.prems repaired_ids_subset [of now ds] by auto
  with Cons show ?case
    by (auto simp: repaired_def map_filter_simps reconciled_id split: option.splits)
qed (simp add: repaired_def map_filter_simps)

lemma repaired_table:
  "distinct (map dt_task_id ds) \<Longrightarrow>
     table_of (repaired now ds) k = Option.bind (table_of ds k) (reconciled now)"
proof (induction ds)
  case (Cons d ds)
  have fresh: "table_of (repaired now ds) (dt_task_id d) = None"
    using Cons.prems repaired_ids_subset [of now ds] by (auto simp: table_of_None)
  have IH: "table_of (repaired now ds) k = Option.bind (table_of ds k) (reconciled now)"
    using Cons by simp
  show ?case
  proof (cases "reconciled now d")
    case None
    with fresh IH show ?thesis by (cases "k = dt_task_id d") (simp_all add: repaired_simps)
  next
    case (Some d')
    with IH reconciled_id [OF Some] show ?thesis
      by (cases "k = dt_task_id d") (simp_all add: repaired_simps)
  qed
qed (simp add: repaired_simps)

lemma upsert_all_table:
  "distinct (map dt_task_id ts) \<Longrightarrow> upsert_all ts V = V ++ table_of ts"
proof
  fix k assume d: "distinct (map dt_task_id ts)"
  show "upsert_all ts V k = (V ++ table_of ts) k"
  proof (cases "k \<in> dt_task_id ` set ts")
    case True
    then obtain t where t: "t \<in> set ts" "k = dt_task_id t" by auto
    then have "table_of ts k = Some t" by (simp add: table_of_mem d)
    with t d show ?thesis by (simp add: upsert_all_in map_add_def)
  next
    case False
    then have "table_of ts k = None" by (simp add: table_of_None)
    with False show ?thesis by (simp add: upsert_all_notin map_add_def)
  qed
qed

lemma repair_batch_table:
  assumes d: "distinct (map dt_task_id ds)"
  shows "apply_batch (repair_batch now ds) (table_of ds) = table_of (repaired now ds)"
proof
  fix k
  let ?changed = "filter (\<lambda>d. reconciled now d \<noteq> Some d) ds"
  have dc: "distinct (map dt_task_id ?changed)"
    using d by (rule distinct_map_filter)
  have deleted: "k \<in> set (pb_delete_task_ids (repair_batch now ds)) \<longleftrightarrow>
      (\<exists>e. table_of ds k = Some e \<and> past_retention now e)"
    by (auto simp: repair_batch_def table_of_mem [OF d])
  have ups: "table_of (pb_upsert_tasks (repair_batch now ds)) k =
      Option.bind (table_of ?changed k) (reconciled now)"
    using repaired_table [OF dc] by (simp add: repair_batch_def)
  have ch: "table_of ?changed k = (case table_of ds k of None \<Rightarrow> None
      | Some e \<Rightarrow> if reconciled now e = Some e then None else Some e)"
  proof (cases "table_of ?changed k")
    case None
    then have "\<forall>e \<in> set ?changed. dt_task_id e \<noteq> k"
      unfolding table_of_None by blast
    with None show ?thesis
      by (auto simp: table_of_mem [OF d] split: option.splits)
  next
    case (Some e)
    then have "e \<in> set ds" "reconciled now e \<noteq> Some e" "dt_task_id e = k"
      by (auto simp: table_of_mem [OF dc])
    with Some show ?thesis using table_of_mem [OF d, of k e] by simp
  qed
  have du: "distinct (map dt_task_id (pb_upsert_tasks (repair_batch now ds)))"
    using repaired_distinct [OF dc] by (simp add: repair_batch_def)
  have result: "apply_batch (repair_batch now ds) (table_of ds) k =
      (case Option.bind (table_of ?changed k) (reconciled now) of
         Some x \<Rightarrow> Some x
       | None \<Rightarrow> if k \<in> set (pb_delete_task_ids (repair_batch now ds)) then None else table_of ds k)"
    by (simp add: apply_batch_def upsert_all_table [OF du] map_add_def ups restrict_map_def)
  show "apply_batch (repair_batch now ds) (table_of ds) k = table_of (repaired now ds) k"
  proof (cases "table_of ds k")
    case None
    then show ?thesis unfolding result ch repaired_table [OF d] deleted by simp
  next
    case (Some e)
    then show ?thesis
      unfolding result ch repaired_table [OF d] deleted reconciled_None [symmetric]
      by (cases "reconciled now e") auto
  qed
qed

end
