(* ===== verification/Broker_Rebuild.thy ===== *)
theory Broker_Rebuild
  imports Broker_Restore
begin

text \<open>
  The in-memory half of reconciliation: the state rebuilt from repaired tasks satisfies the
  invariant, mirrors the tasks, keeps every registration, and lists every task that awaits delivery
  in the inbox of its recipient, in enqueue order.
\<close>

section \<open>The mirror of the task table\<close>

definition mirror :: "task_map \<Rightarrow> task_table" where
  "mirror T = (\<lambda>k. map_option (durable_of k) (T k))"

lemma mirror_upd [simp]: "mirror (T(k \<mapsto> t)) = (mirror T)(k \<mapsto> durable_of k t)"
  by (auto simp: mirror_def)

lemma mirror_empty [simp]: "mirror Map.empty = Map.empty"
  by (simp add: mirror_def)

lemma mirror_rel:
  "(\<And>k. rel_option (\<lambda>t t'. durable_of k t' = durable_of k t) (T k) (T' k)) \<Longrightarrow> mirror T' = mirror T"
  unfolding mirror_def
proof
  fix k assume "\<And>k. rel_option (\<lambda>t t'. durable_of k t' = durable_of k t) (T k) (T' k)"
  from this [of k] show "map_option (durable_of k) (T' k) = map_option (durable_of k) (T k)"
    by (cases "T k"; cases "T' k") auto
qed

text \<open>Only the waiters of tasks without a result change.\<close>

definition waiters_only :: "TaskRecord \<Rightarrow> TaskRecord \<Rightarrow> bool" where
  "waiters_only t t' \<longleftrightarrow>
     (\<exists>ws. t' = t\<lparr>tr_reply_waiters := ws\<rparr> \<and> (reply_result_for_task t \<noteq> None \<longrightarrow> ws = tr_reply_waiters t))"

lemma reply_result_waiters [simp]: "reply_result_for_task (t\<lparr>tr_reply_waiters := ws\<rparr>) = reply_result_for_task t"
  by (simp add: reply_result_for_task_def)

lemma waiters_only_refl [simp]: "waiters_only t t"
  unfolding waiters_only_def by (rule exI [of _ "tr_reply_waiters t"]) simp

lemma waiters_only_set: "reply_result_for_task t = None \<Longrightarrow> waiters_only t (t\<lparr>tr_reply_waiters := ws\<rparr>)"
  unfolding waiters_only_def by (rule exI [of _ ws]) simp

lemma waiters_only_trans: "waiters_only t t' \<Longrightarrow> waiters_only t' t'' \<Longrightarrow> waiters_only t t''"
  unfolding waiters_only_def by (elim exE conjE, rule exI [of _ "tr_reply_waiters t''"]) auto

lemma no_result_live: "task_ok k t \<Longrightarrow> reply_result_for_task t = None \<Longrightarrow> live t"
  by (auto simp: task_ok_def terminal_shape_def reply_result_for_task_def split: if_splits)

lemma effective_attempt_waiters [simp]:
  "effective_attempt (t\<lparr>tr_reply_waiters := ws\<rparr>) = effective_attempt t"
  by (simp add: effective_attempt_def split: option.splits)

lemma task_ok_waiters: "task_ok k t \<Longrightarrow> live t \<Longrightarrow> task_ok k (t\<lparr>tr_reply_waiters := ws\<rparr>)"
  by (simp add: task_ok_def live_def live_shape_def)

lemma waiters_only_replaces:
  assumes "waiters_only t t'" "task_ok k t"
  shows "replaces k t t'"
proof (cases "reply_result_for_task t")
  case None
  with assms obtain ws where "t' = t\<lparr>tr_reply_waiters := ws\<rparr>" "live t"
    by (auto simp: waiters_only_def intro: no_result_live)
  with assms(2) show ?thesis
    by (simp add: replaces_def core_def task_ok_waiters)
qed (use assms in \<open>auto simp: waiters_only_def\<close>)

lemma durable_of_waiters [simp]: "durable_of k (t\<lparr>tr_reply_waiters := ws\<rparr>) = durable_of k t"
  by (simp add: durable_of_def task_durable_state_def)

lemma waiters_only_durable: "waiters_only t t' \<Longrightarrow> durable_of k t' = durable_of k t"
  unfolding waiters_only_def by (elim exE conjE) simp

lemma rel_option_trans:
  "rel_option R a b \<Longrightarrow> rel_option R b c \<Longrightarrow> (\<And>x y z. R x y \<Longrightarrow> R y z \<Longrightarrow> R x z) \<Longrightarrow> rel_option R a c"
  by (cases a; cases b; cases c) auto

lemma reattach_effect:
  "\<exists>rs m. reattach_waiters ws s = (rs, s\<lparr>s_tasks := m\<rparr>) \<and> hm_keys m = hm_keys (s_tasks s)
     \<and> (\<forall>k. rel_option waiters_only (taskm s k) (hm_get m k))"
proof (induction ws arbitrary: s)
  case Nil
  have "reattach_waiters [] s = ([], s\<lparr>s_tasks := s_tasks s\<rparr>)" by simp
  moreover have "\<forall>k. rel_option waiters_only (taskm s k) (taskm s k)"
    by (simp add: option.rel_refl)
  ultimately show ?case by blast
next
  case (Cons kw ws)
  obtain j vs where kw: "kw = (j, vs)" by fastforce
  show ?case
  proof (cases "\<exists>t. taskm s j = Some t \<and> reply_result_for_task t = None")
    case True
    then obtain t where t: "taskm s j = Some t" "reply_result_for_task t = None" by blast
    let ?m1 = "hm_modify j (\<lambda>t. t\<lparr>tr_reply_waiters := tr_reply_waiters t @ vs\<rparr>) (s_tasks s)"
    let ?s1 = "s\<lparr>s_tasks := ?m1\<rparr>"
    obtain rs m where run: "reattach_waiters ws ?s1 = (rs, ?s1\<lparr>s_tasks := m\<rparr>)"
      and ks: "hm_keys m = hm_keys (s_tasks ?s1)"
      and rl: "\<forall>k. rel_option waiters_only (taskm ?s1 k) (hm_get m k)"
      using Cons.IH [of ?s1] by blast
    have IH: "reattach_waiters ws ?s1 = (rs, s\<lparr>s_tasks := m\<rparr>)" "hm_keys m = hm_keys (s_tasks s)"
      "\<forall>k. rel_option waiters_only (hm_get ?m1 k) (hm_get m k)"
      using run ks rl by (simp_all del: hm_get_modify)
    have step: "rel_option waiters_only (taskm s k) (hm_get ?m1 k)" for k
      using t by (cases "k = j"; cases "taskm s k") (simp_all add: waiters_only_set)
    have "rel_option waiters_only (taskm s k) (hm_get m k)" for k
      by (rule rel_option_trans [OF step spec [OF IH(3)] waiters_only_trans])
    moreover have "reattach_waiters (kw # ws) s = (rs, s\<lparr>s_tasks := m\<rparr>)"
      using kw t IH(1) by simp
    ultimately show ?thesis using IH(2) by blast
  next
    case False
    obtain rs m where IH: "reattach_waiters ws s = (rs, s\<lparr>s_tasks := m\<rparr>)"
      "hm_keys m = hm_keys (s_tasks s)" "\<forall>k. rel_option waiters_only (taskm s k) (hm_get m k)"
      using Cons.IH [of s] by blast
    moreover obtain rs' where "reattach_waiters (kw # ws) s = (rs', s\<lparr>s_tasks := m\<rparr>)"
    proof (cases "taskm s j")
      case (Some t)
      with False obtain x where "reply_result_for_task t = Some x" by auto
      with Some kw IH(1) that show thesis by simp
    qed (use kw IH(1) that in simp)
    ultimately show ?thesis by blast
  qed
qed

section \<open>Refilling the inboxes\<close>

lemma reg_inv_name: "reg_inv R A \<Longrightarrow> A a = Some i \<Longrightarrow> R i = Some r \<Longrightarrow> reg_name r = a"
  unfolding reg_inv_def by fastforce

lemma reg_inv_agent: "reg_inv R A \<Longrightarrow> R i = Some r \<Longrightarrow> A (reg_name r) = Some i \<and> rg_id (rs_registration r) = i"
  unfolding reg_inv_def by blast

definition refilled ::
    "(RegistrationId \<times> u64 \<times> TaskId) list \<Rightarrow> RegistrationId \<Rightarrow> RegistrationState \<Rightarrow> RegistrationState" where
  "refilled es i r = r\<lparr>rs_inbox := rs_inbox r @ map (snd \<circ> snd) (filter (\<lambda>e. fst e = i) es)\<rparr>"

lemma push_entries_effect:
  "\<exists>ns m. push_inbox_entries es s = (ns, s\<lparr>s_registrations := m\<rparr>)
     \<and> hm_keys m = hm_keys (s_registrations s)
     \<and> hm_get m = (\<lambda>i. map_option (refilled es i) (regm s i))"
proof (induction es arbitrary: s)
  case Nil
  have "s = s\<lparr>s_registrations := s_registrations s\<rparr>" by simp
  moreover have "regm s = (\<lambda>i. map_option (refilled [] i) (regm s i))"
  proof
    show "regm s i = map_option (refilled [] i) (regm s i)" for i
      by (cases "regm s i") (simp_all add: refilled_def)
  qed
  ultimately show ?case by (auto intro!: exI [of _ "s_registrations s"])
next
  case (Cons e es)
  obtain j q k where e: "e = (j, q, k)" by (metis surj_pair)
  show ?case
  proof (cases "regm s j")
    case None
    obtain ns m where IH: "push_inbox_entries es s = (ns, s\<lparr>s_registrations := m\<rparr>)"
      "hm_keys m = hm_keys (s_registrations s)"
      "hm_get m = (\<lambda>i. map_option (refilled es i) (regm s i))"
      using Cons.IH [of s] by auto
    have "map_option (refilled es i) (regm s i) = map_option (refilled (e # es) i) (regm s i)" for i
      using None e by (cases "regm s i") (auto simp: refilled_def)
    with IH None e show ?thesis by auto
  next
    case (Some r)
    let ?m1 = "hm_modify j (push_inbox k) (s_registrations s)"
    obtain ns m where IH: "push_inbox_entries es (s\<lparr>s_registrations := ?m1\<rparr>) = (ns, s\<lparr>s_registrations := m\<rparr>)"
      "hm_keys m = hm_keys (s_registrations s)"
      "hm_get m = (\<lambda>i. map_option (refilled es i) (hm_get ?m1 i))"
      using Cons.IH [of "s\<lparr>s_registrations := ?m1\<rparr>"] by auto
    have "map_option (refilled es i) (hm_get ?m1 i) = map_option (refilled (e # es) i) (regm s i)" for i
      using e by (cases "regm s i") (auto simp: refilled_def push_inbox_def)
    with IH Some e show ?thesis by auto
  qed
qed

lemma inbox_entries_mem:
  assumes "hm_wf (s_tasks s)"
  shows "(i, q, k) \<in> set (inbox_entries now s) \<longleftrightarrow>
    (\<exists>t r. taskm s k = Some t \<and> tr_delivery t \<noteq> None \<and> \<not> tr_acknowledged t \<and> \<not> tr_canceled t
       \<and> \<not> tr_expired t \<and> tr_reply t = None \<and> tr_lease t = None
       \<and> agentm s (tr_recipient t) = Some i \<and> regm s i = Some r \<and> now < reg_expiry r
       \<and> q = tr_enqueue_sequence t)"
  unfolding inbox_entries_def set_sort
  by (auto simp: map_filter_def hm_get_iff_mem [OF assms] image_iff split: option.splits if_splits) force+

lemma inbox_entries_strict:
  assumes "hm_wf (s_tasks s)"
  shows "sorted_wrt (<) (inbox_entries now s)"
proof -
  let ?f = "\<lambda>(task_id, t).
        if tr_delivery t \<noteq> None \<and> \<not> tr_acknowledged t \<and> \<not> tr_canceled t \<and> \<not> tr_expired t
           \<and> tr_reply t = None \<and> tr_lease t = None
        then (case agentm s (tr_recipient t) of None \<Rightarrow> None
              | Some rid \<Rightarrow> (case regm s rid of None \<Rightarrow> None
                   | Some r \<Rightarrow> if rg_expires_unix_ms (rs_registration r) > now
                               then Some (rid, tr_enqueue_sequence t, task_id) else None))
        else None"
  have key: "map (\<lambda>p. snd (snd (the (?f p)))) (filter (\<lambda>p. ?f p \<noteq> None) (s_tasks s)) =
      map fst (filter (\<lambda>p. ?f p \<noteq> None) (s_tasks s))"
    by (rule map_cong) (auto split: if_splits option.splits)
  have "distinct (map (\<lambda>p. snd (snd (the (?f p)))) (filter (\<lambda>p. ?f p \<noteq> None) (s_tasks s)))"
    unfolding key using assms by (rule distinct_map_filter)
  then have "distinct (map (\<lambda>e. snd (snd e)) (List.map_filter ?f (s_tasks s)))"
    by (simp add: map_filter_def comp_def)
  then have "distinct (List.map_filter ?f (s_tasks s))"
    by (simp add: distinct_map)
  then show ?thesis
    unfolding inbox_entries_def strict_sorted_iff by simp
qed

lemma refilled_sorted:
  assumes wf: "wf_state s"
  shows "sorted_wrt (\<lambda>k k'. seq_of (taskm s) k < seq_of (taskm s) k')
    (map (snd \<circ> snd) (filter (\<lambda>e. fst e = i) (inbox_entries now s)))"
  unfolding sorted_wrt_map
proof (rule sorted_wrt_mono_rel [OF _ sorted_wrt_filter [OF inbox_entries_strict]])
  have hm: "hm_wf (s_tasks s)" using wf by (simp add: wf_state_parts)
  then show "hm_wf (s_tasks s)" .
  fix e e' assume m: "e \<in> set (filter (\<lambda>e. fst e = i) (inbox_entries now s))"
    "e' \<in> set (filter (\<lambda>e. fst e = i) (inbox_entries now s))" and lt: "e < e'"
  from m have "fst e = i" "fst e' = i" by simp_all
  then obtain q k q' k' where e: "e = (i, q, k)" "e' = (i, q', k')"
    by (metis prod.collapse)
  with m obtain t t' where t: "taskm s k = Some t" "q = tr_enqueue_sequence t"
    "taskm s k' = Some t'" "q' = tr_enqueue_sequence t'"
    by (auto simp: inbox_entries_mem [OF hm])
  have "q \<noteq> q'"
  proof
    assume "q = q'"
    then have "k = k'" using wf t unfolding wf_state_def seq_inv_def by metis
    with \<open>q = q'\<close> e lt show False by simp
  qed
  with e lt have "q < q'" by (auto simp: less_prod_def)
  with e t show "seq_of (taskm s) ((snd \<circ> snd) e) < seq_of (taskm s) ((snd \<circ> snd) e')"
    by (simp add: seq_of_def)
qed

lemma wf_set_registrations:
  assumes wf: "wf_state s" and keys: "hm_keys m = hm_keys (s_registrations s)"
    and same: "same_regs (regm s) (hm_get m)" and inbox: "inbox_inv (hm_get m) (taskm s)"
  shows "wf_state (s\<lparr>s_registrations := m\<rparr>)"
  using wf keys inbox reg_inv_same [OF same] owner_inv_same [OF same]
  by (simp add: wf_state_parts indexes_ok_def)

lemma push_entries_wf:
  assumes wf: "wf_state s" and empty: "\<And>i r. regm s i = Some r \<Longrightarrow> rs_inbox r = []"
    and unleased: "\<And>k t. taskm s k = Some t \<Longrightarrow> tr_lease t = None \<or> tr_acknowledged t"
  obtains ns s' where "push_inbox_entries (inbox_entries now s) s = (ns, s')" "wf_state s'"
    "s_tasks s' = s_tasks s" "same_regs (regm s) (regm s')"
    "s_registrations_by_agent s' = s_registrations_by_agent s"
    "s_retired_registration_ids s' = s_retired_registration_ids s" "frame s' = frame s"
    "inbox_complete now (regm s') (taskm s')"
proof -
  obtain ns m where run: "push_inbox_entries (inbox_entries now s) s = (ns, s\<lparr>s_registrations := m\<rparr>)"
    and keys: "hm_keys m = hm_keys (s_registrations s)"
    and get: "hm_get m = (\<lambda>i. map_option (refilled (inbox_entries now s) i) (regm s i))"
    using push_entries_effect [of "inbox_entries now s" s] by auto
  have hm: "hm_wf (s_tasks s)" and ok: "\<And>k t. taskm s k = Some t \<Longrightarrow> task_ok k t"
    and reg: "reg_inv (regm s) (agentm s)"
    using wf by (auto simp: wf_state_parts tasks_inv_def)
  have same: "same_regs (regm s) (hm_get m)"
    by (simp add: same_regs_def get refilled_def option.map_comp comp_def)
  have inbox: "rs_inbox r' = map (snd \<circ> snd) (filter (\<lambda>e. fst e = i) (inbox_entries now s))
      \<and> (\<exists>r. regm s i = Some r \<and> rs_registration r' = rs_registration r)"
    if "hm_get m i = Some r'" for i r'
    using that empty by (auto simp: get refilled_def)
  have "inbox_inv (hm_get m) (taskm s)"
    unfolding inbox_inv_def
  proof (intro allI impI conjI ballI)
    fix i r' k assume r': "hm_get m i = Some r'" and "k \<in> set (rs_inbox r')"
    then obtain q where "(i, q, k) \<in> set (inbox_entries now s)" using inbox by auto
    then obtain t where t: "taskm s k = Some t" "tr_delivery t \<noteq> None" "\<not> tr_acknowledged t"
      "agentm s (tr_recipient t) = Some i" by (auto simp: inbox_entries_mem [OF hm])
    with ok have "live t" by (fastforce simp: task_ok_def terminal_shape_def split: if_splits)
    moreover have "tr_recipient t = reg_name r'"
      using reg_inv_name [OF reg t(4)] inbox [OF r'] by auto
    ultimately show "awaits (taskm s) (reg_name r') k" using t by (auto simp: awaits_def)
  qed (use inbox refilled_sorted [OF wf] in auto)
  then have "wf_state (s\<lparr>s_registrations := m\<rparr>)"
    by (rule wf_set_registrations [OF wf keys same])
  moreover have "inbox_complete now (hm_get m) (taskm s)"
    unfolding inbox_complete_def
  proof (intro allI impI)
    fix i r' k assume r': "hm_get m i = Some r'" "now < reg_expiry r'" "awaits (taskm s) (reg_name r') k"
    then obtain t where t: "taskm s k = Some t" "live t" "\<not> tr_acknowledged t" "tr_recipient t = reg_name r'"
      by (auto simp: awaits_def)
    obtain r where r: "regm s i = Some r" "rs_registration r' = rs_registration r"
      using inbox [OF r'(1)] by blast
    have "(i, tr_enqueue_sequence t, k) \<in> set (inbox_entries now s)"
      using t r r'(2) reg_inv_agent [OF reg r(1)] unleased [OF t(1)] ok [OF t(1)]
      by (simp add: inbox_entries_mem [OF hm] task_ok_def live_shape_def)
    then show "k \<in> set (rs_inbox r')"
      using inbox [OF r'(1)] by force
  qed
  ultimately show thesis
    using run same by (intro that [of ns "s\<lparr>s_registrations := m\<rparr>"]) (simp_all add: frame_def)
qed

section \<open>Operations on the broker\<close>

lemma wp_broker [simp]:
  "wp (get_state f) E Q w = Q (f (b_state w)) w"
  "wp (modify_state g) E R w = R () (w\<lparr>b_state := g (b_state w)\<rparr>)"
  "wp (emit fx) E R w = R () (w\<lparr>b_effects := b_effects w @ fx\<rparr>)"
  "wp (resolve_reply_waiters rs) E R w =
     R () (w\<lparr>b_effects := b_effects w @ map (\<lambda>(v, r). SendReply v r) rs\<rparr>)"
  "wp DirectoryChanges_record E R w =
     R () (w\<lparr>b_generation := (b_generation w + 1) mod 2 ^ 64, b_effects := b_effects w @ [NotifyDirectory]\<rparr>)"
  by (simp_all add: get_state_def modify_state_def emit_def resolve_reply_waiters_def
      DirectoryChanges_record_def)

lemma wp_in_state [simp]:
  "wp (in_state f) E Q w =
     wp f (\<lambda>e s. E e (w\<lparr>b_state := s\<rparr>)) (\<lambda>a s. Q a (w\<lparr>b_state := s\<rparr>)) (b_state w)"
  by (simp add: wp_def in_state_def split: prod.splits res.splits)

lemma wf_flags [simp]:
  "wf_state (s\<lparr>s_reconciliation_required := b\<rparr>) = wf_state s"
  "wf_state (s\<lparr>s_next_registration_epoch := n\<rparr>) = wf_state s"
  "wf_state (s\<lparr>s_last_event := ev\<rparr>) = wf_state s"
  by (simp_all add: wf_state_parts indexes_ok_def)

section \<open>Rebuilding the state\<close>

lemma clear_wf:
  assumes "wf_state s"
  shows "wf_state (clear_for_reconciliation e s)"
    and "taskm (clear_for_reconciliation e s) = Map.empty"
    and "delivm (clear_for_reconciliation e s) = Map.empty"
    and "same_regs (regm s) (regm (clear_for_reconciliation e s))"
    and "\<And>i r. regm (clear_for_reconciliation e s) i = Some r \<Longrightarrow> rs_inbox r = []"
proof -
  let ?s = "clear_for_reconciliation e s"
  show same: "same_regs (regm s) (regm ?s)"
    by (simp add: clear_for_reconciliation_def same_regs_map)
  show inbox: "\<And>i r. regm ?s i = Some r \<Longrightarrow> rs_inbox r = []"
    by (auto simp: clear_for_reconciliation_def)
  show "taskm ?s = Map.empty" "delivm ?s = Map.empty"
    by (simp_all add: clear_for_reconciliation_def)
  have "inbox_inv (regm ?s) Map.empty"
    using inbox by (auto simp: inbox_inv_def)
  moreover have "indexes_ok ?s"
    by (simp add: indexes_ok_def clear_for_reconciliation_def sender_index.empty_index
        recipient_index.empty_index participant_index.empty_index)
  ultimately show "wf_state ?s"
    using assms reg_inv_same [OF same]
    by (auto simp: wf_state_parts clear_for_reconciliation_def tasks_inv_def seq_inv_def deliv_inv_def
        owner_inv_def term_inv_def)
qed

lemma effective_attempt_lease [simp]: "effective_attempt (t\<lparr>tr_lease := x\<rparr>) = effective_attempt t"
  by (simp add: effective_attempt_def split: option.splits)

lemma rebind_durable:
  "durable_of k (t\<lparr>tr_lease := map_option (\<lambda>l. l\<lparr>dl_owner := ow\<rparr>) (tr_lease t)\<rparr>) = durable_of k t"
  by (cases "tr_lease t") (simp_all add: durable_of_def task_durable_state_def durable_lease_def)

lemma rebind_replaces:
  assumes "task_ok k t" "tr_lease t = None \<or> tr_acknowledged t"
  shows "replaces k t (t\<lparr>tr_lease := map_option (\<lambda>l. l\<lparr>dl_owner := ow\<rparr>) (tr_lease t)\<rparr>)"
proof (cases "tr_lease t")
  case None
  then have "t\<lparr>tr_lease := map_option (\<lambda>l. l\<lparr>dl_owner := ow\<rparr>) (tr_lease t)\<rparr> = t" by simp
  then show ?thesis by simp
next
  case (Some l)
  with assms show ?thesis
    using leased_imp_live [OF assms(1) Some]
    by (simp add: replaces_def core_def task_ok_def live_def live_shape_def)
qed

lemma rebind_wf:
  assumes wf: "wf_state s"
    and unleased: "\<And>k t. taskm s k = Some t \<Longrightarrow> tr_lease t = None \<or> tr_acknowledged t"
  shows "wf_state (rebind_leases now s)" and "mirror (taskm (rebind_leases now s)) = mirror (taskm s)"
proof -
  let ?f = "\<lambda>t. t\<lparr>tr_lease := map_option (\<lambda>l. l\<lparr>dl_owner := active_credentials s now (tr_recipient t)\<rparr>) (tr_lease t)\<rparr>"
  have ok: "taskm s k = Some t \<Longrightarrow> task_ok k t" for k t
    using wf by (simp add: wf_state_def tasks_inv_def)
  have rel: "rel_option (replaces k) (taskm s k) (hm_get (hm_map_values ?f (s_tasks s)) k)"
    "rel_option (\<lambda>t t'. durable_of k t' = durable_of k t) (taskm s k) (hm_get (hm_map_values ?f (s_tasks s)) k)" for k
    by (cases "taskm s k"; simp add: rebind_replaces rebind_durable ok unleased)+
  show "wf_state (rebind_leases now s)"
    unfolding rebind_leases_def by (rule wf_replace_tasks [OF wf _ rel(1)]) simp
  show "mirror (taskm (rebind_leases now s)) = mirror (taskm s)"
    unfolding rebind_leases_def by (rule mirror_rel) (use rel(2) in simp)
qed

lemma reattach_wf:
  assumes wf: "wf_state s"
  obtains rs m where "reattach_waiters ws s = (rs, s\<lparr>s_tasks := m\<rparr>)" "wf_state (s\<lparr>s_tasks := m\<rparr>)"
    "mirror (hm_get m) = mirror (taskm s)" "same_core (taskm s) (hm_get m)"
    "\<And>k t'. hm_get m k = Some t' \<Longrightarrow> \<exists>t. taskm s k = Some t \<and> tr_lease t' = tr_lease t \<and> tr_acknowledged t' = tr_acknowledged t"
proof -
  obtain rs m where run: "reattach_waiters ws s = (rs, s\<lparr>s_tasks := m\<rparr>)"
    and keys: "hm_keys m = hm_keys (s_tasks s)"
    and rel: "\<forall>k. rel_option waiters_only (taskm s k) (hm_get m k)"
    using reattach_effect by blast
  have ok: "taskm s k = Some t \<Longrightarrow> task_ok k t" for k t
    using wf by (simp add: wf_state_def tasks_inv_def)
  have rep: "rel_option (replaces k) (taskm s k) (hm_get m k)"
    and dur: "rel_option (\<lambda>t t'. durable_of k t' = durable_of k t) (taskm s k) (hm_get m k)" for k
    using rel [rule_format, of k] ok [of k]
    by (cases "taskm s k"; cases "hm_get m k"; simp add: waiters_only_replaces waiters_only_durable)+
  have old: "\<exists>t. taskm s k = Some t \<and> tr_lease t' = tr_lease t \<and> tr_acknowledged t' = tr_acknowledged t"
    if "hm_get m k = Some t'" for k t'
    using rel [rule_format, of k] that by (cases "taskm s k") (auto simp: waiters_only_def)
  have "same_core (taskm s) (hm_get m)"
    unfolding same_core_def
  proof
    fix k show "map_option core (hm_get m k) = map_option core (taskm s k)"
      using rep [of k] by (cases "taskm s k"; cases "hm_get m k") (auto simp: replaces_def)
  qed
  then show thesis
    by (rule that [OF run wf_replace_tasks [OF wf keys rep] mirror_rel [OF dur] _ old])
qed

text \<open>What an operation on the broker leaves of its registrations.\<close>

definition regs_kept :: "State \<Rightarrow> State \<Rightarrow> bool" where
  "regs_kept s s' \<longleftrightarrow>
     same_regs (regm s) (regm s') \<and> s_registrations_by_agent s' = s_registrations_by_agent s
     \<and> s_retired_registration_ids s' = s_retired_registration_ids s"

lemma regs_kept_refl [simp]: "regs_kept s s"
  by (simp add: regs_kept_def)

lemma regs_kept_trans: "regs_kept s s' \<Longrightarrow> regs_kept s' s'' \<Longrightarrow> regs_kept s s''"
  by (auto simp: regs_kept_def intro: same_regs_trans)

definition restore_list :: "DurableTask list \<Rightarrow> bool" where
  "restore_list ds \<longleftrightarrow>
     (\<forall>d \<in> set ds. restorable d) \<and> distinct (map dt_task_id ds) \<and> distinct (lease_ids ds)
     \<and> length ds \<le> MAX_RETAINED_TASKS"

lemma restore_from_empty:
  assumes wf: "wf_state s" and empty: "taskm s = Map.empty" "delivm s = Map.empty"
    and ds: "restore_list ds" and seq: "s_next_task_sequence s = 0"
  obtains s' where "forM ds restore_next s = (Ok (), s')" "wf_state s'" "bookkeeping s' = bookkeeping s"
    "mirror (taskm s') = table_of ds"
    "\<And>k t. taskm s' k = Some t \<Longrightarrow> tr_lease t = None \<or> tr_acknowledged t"
    "\<And>i. i < length ds \<Longrightarrow> taskm s' (dt_task_id (ds ! i)) = Some (restored_record (i + 1) (ds ! i))"
proof -
  have none: "length (s_tasks s) = 0" using empty(1) by simp
  have "\<exists>s'. forM ds restore_next s = (Ok (), s') \<and> wf_state s'
    \<and> (\<forall>i < length ds. taskm s' (dt_task_id (ds ! i)) =
         Some (restored_record (s_next_task_sequence s + i + 1) (ds ! i)))
    \<and> (\<forall>k. k \<notin> dt_task_id ` set ds \<longrightarrow> taskm s' k = taskm s k)
    \<and> bookkeeping s' = bookkeeping s"
    by (rule restore_all_effect [OF wf])
      (use ds empty seq none in \<open>simp_all add: restore_list_def u64_max_def broker_constants\<close>)
  then obtain s' where s': "forM ds restore_next s = (Ok (), s')" "wf_state s'"
    "\<And>i. i < length ds \<Longrightarrow> taskm s' (dt_task_id (ds ! i)) = Some (restored_record (i + 1) (ds ! i))"
    "\<And>k. k \<notin> dt_task_id ` set ds \<Longrightarrow> taskm s' k = None" "bookkeeping s' = bookkeeping s"
    unfolding seq empty by auto
  have elem: "\<exists>i < length ds. k = dt_task_id (ds ! i) \<and> taskm s' k = Some (restored_record (i + 1) (ds ! i))"
    if "k \<in> dt_task_id ` set ds" for k
  proof -
    from that obtain i where "i < length ds" "k = dt_task_id (ds ! i)"
      by (auto simp: in_set_conv_nth)
    with s'(3) show ?thesis by blast
  qed
  have "mirror (taskm s') = table_of ds"
  proof
    fix k show "mirror (taskm s') k = table_of ds k"
    proof (cases "k \<in> dt_task_id ` set ds")
      case True
      then obtain i where i: "i < length ds" "k = dt_task_id (ds ! i)"
        "taskm s' k = Some (restored_record (i + 1) (ds ! i))" using elem by blast
      then have "durable_ok (ds ! i)" using ds by (simp add: restore_list_def restorable_def)
      moreover have "table_of ds k = Some (ds ! i)"
        using i ds by (simp add: table_of_mem restore_list_def)
      ultimately show ?thesis using i by (simp add: mirror_def durable_of_restored)
    next
      case False
      then show ?thesis using s'(4) by (simp add: mirror_def table_of_None [THEN iffD2])
    qed
  qed
  moreover have "tr_lease t = None \<or> tr_acknowledged t" if t: "taskm s' k = Some t" for k t
  proof -
    have "k \<in> dt_task_id ` set ds" using s'(4) t by force
    then obtain i where i: "i < length ds" "t = restored_record (i + 1) (ds ! i)"
      using elem t by force
    then show ?thesis using ds restorable_lease [of "ds ! i"] by (auto simp: restore_list_def)
  qed
  ultimately show thesis using that s' by blast
qed

definition rebuilt :: "i64 \<Rightarrow> u64 \<Rightarrow> DurableTask list \<Rightarrow> State \<Rightarrow> State \<Rightarrow> bool" where
  "rebuilt now e ds s s' \<longleftrightarrow>
     wf_state s' \<and> mirror (taskm s') = table_of ds \<and> regs_kept s s' \<and> \<not> s_reconciliation_required s'
     \<and> s_next_registration_epoch s' = max (s_next_registration_epoch s) e
     \<and> inbox_complete now (regm s') (taskm s')"

lemma rebuild_wp:
  assumes wf: "wf_state (b_state w)" and ds: "restore_list ds"
  shows "wp (rebuild_state now e ds) (\<lambda>_ _. False)
    (\<lambda>_ w'. rebuilt now e ds (b_state w) (b_state w') \<and> b_persistence w' = b_persistence w) w"
proof -
  let ?s1 = "clear_for_reconciliation e (b_state w)"
  note clear = clear_wf [OF wf, of e]
  have seq: "s_next_task_sequence ?s1 = 0" by (simp add: clear_for_reconciliation_def)
  obtain s2 where s2: "forM ds restore_next ?s1 = (Ok (), s2)" "wf_state s2" "bookkeeping s2 = bookkeeping ?s1"
    "mirror (taskm s2) = table_of ds"
    and un2: "\<And>k t. taskm s2 k = Some t \<Longrightarrow> tr_lease t = None \<or> tr_acknowledged t"
    by (rule restore_from_empty [OF clear(1,2,3) ds seq]) blast
  let ?s3 = "rebind_leases now s2"
  have un3: "tr_lease t = None \<or> tr_acknowledged t" if "taskm ?s3 k = Some t" for k t
    using that un2 [of k] by (auto simp: rebind_leases_def)
  obtain rs m where s4: "reattach_waiters (retained_waiters (b_state w)) ?s3 = (rs, ?s3\<lparr>s_tasks := m\<rparr>)"
    "wf_state (?s3\<lparr>s_tasks := m\<rparr>)" "mirror (hm_get m) = mirror (taskm ?s3)"
    and old: "\<And>k t'. hm_get m k = Some t' \<Longrightarrow>
      \<exists>t. taskm ?s3 k = Some t \<and> tr_lease t' = tr_lease t \<and> tr_acknowledged t' = tr_acknowledged t"
    by (rule reattach_wf [OF rebind_wf(1) [OF s2(2) un2]]) blast+
  let ?s4 = "?s3\<lparr>s_tasks := m\<rparr>"
  have "s_registrations ?s4 = s_registrations ?s1"
    using s2(3) by (simp add: bookkeeping_def rebind_leases_def)
  then have empty: "rs_inbox r = []" if "regm ?s4 i = Some r" for i r
    using clear(5) that by simp
  have un4: "tr_lease t = None \<or> tr_acknowledged t" if "taskm ?s4 k = Some t" for k t
    using that old [of k t] un3 [of k] by auto
  obtain ns s5 where s5: "push_inbox_entries (inbox_entries now ?s4) ?s4 = (ns, s5)" "wf_state s5"
    "s_tasks s5 = s_tasks ?s4" "same_regs (regm ?s4) (regm s5)"
    "s_registrations_by_agent s5 = s_registrations_by_agent ?s4"
    "s_retired_registration_ids s5 = s_retired_registration_ids ?s4" "frame s5 = frame ?s4"
    "inbox_complete now (regm s5) (taskm s5)"
    by (rule push_entries_wf [OF s4(2) empty un4]) blast+
  have kept: "regs_kept (b_state w) s5"
    using clear(4) s5(4,5,6) s2(3) \<open>s_registrations ?s4 = _\<close>
    by (auto simp: regs_kept_def bookkeeping_def rebind_leases_def clear_for_reconciliation_def
        intro: same_regs_trans)
  have "rebuilt now e ds (b_state w) (s5\<lparr>s_reconciliation_required := False\<rparr>)"
    using s5 s4(3) rebind_wf(2) [OF s2(2) un2] s2(3,4) kept
    by (simp add: rebuilt_def regs_kept_def frame_def bookkeeping_def rebind_leases_def
        clear_for_reconciliation_def)
  then show ?thesis
    by (simp add: rebuild_state_def) (simp add: wp_def s2(1) s4(1) s5(1))
qed

end
