(* ===== verification/Broker_Maintain.thy ===== *)
theory Broker_Maintain
  imports Broker_Rebuild
begin

text \<open>
  Maintenance, which every operation of the broker runs first: the exact effect of expiring tasks,
  requeueing the tasks of expired registrations, detaching those registrations and pruning, and the
  proof that the committed batch is the durable image of that effect.
\<close>

section \<open>Expiring tasks\<close>

definition due_now :: "i64 \<Rightarrow> TaskRecord \<Rightarrow> bool" where
  "due_now now t \<longleftrightarrow> live t \<and> qd_created_unix_ms (tr_original_delivery t) + DELIVERY_TTL_MS \<le> now"

definition due_ids :: "i64 \<Rightarrow> State \<Rightarrow> TaskId list" where
  "due_ids now s = map fst (filter (\<lambda>(k, t). due_now now t) (s_tasks s))"

lemma task_due_Ok: "task_ok k t \<Longrightarrow> task_due now t = Ok (due_now now t)"
  by (auto simp: task_due_def due_now_def task_ok_def live_def live_shape_def checked_add_i64_def)

lemma due_task_ids_Ok: "wf_state s \<Longrightarrow> due_task_ids now (s_tasks s) = Ok (due_ids now s)"
proof -
  assume wf: "wf_state s"
  have "due_task_ids now m = Ok (map fst (filter (\<lambda>(k, t). due_now now t) m))"
    if "\<And>k t. (k, t) \<in> set m \<Longrightarrow> task_ok k t" for m
    using that
  proof (induction m)
    case (Cons kt m)
    obtain k t where kt: "kt = (k, t)" by fastforce
    with Cons.prems have "task_ok k t" by auto
    with Cons kt show ?case by (simp add: task_due_Ok [of k])
  qed simp
  with wf show ?thesis
    by (simp add: due_ids_def wf_state_parts tasks_inv_def hm_get_iff_mem)
qed

lemma due_ids_mem:
  "wf_state s \<Longrightarrow> k \<in> set (due_ids now s) \<longleftrightarrow> (\<exists>t. taskm s k = Some t \<and> due_now now t)"
  by (force simp: due_ids_def wf_state_parts hm_get_iff_mem)

lemma due_ids_distinct: "wf_state s \<Longrightarrow> distinct (due_ids now s)"
  by (simp add: due_ids_def wf_state_parts distinct_map_filter)

definition without_tasks :: "TaskId list \<Rightarrow> RegistrationState \<Rightarrow> RegistrationState" where
  "without_tasks ks r = r\<lparr>rs_inbox := filter (\<lambda>q. q \<notin> set ks) (rs_inbox r)\<rparr>"

lemma without_tasks_simps [simp]:
  "rs_registration (without_tasks ks r) = rs_registration r"
  "rs_inbox (without_tasks ks r) = filter (\<lambda>q. q \<notin> set ks) (rs_inbox r)"
  "without_tasks ks (without_task k r) = without_tasks (k # ks) r"
  by (simp_all add: without_tasks_def conj_commute)

lemma without_tasks_Nil: "map_option (without_tasks []) x = x"
  by (cases x) (simp_all add: without_tasks_def)

definition expired_map :: "i64 \<Rightarrow> TaskId list \<Rightarrow> task_map \<Rightarrow> task_map" where
  "expired_map now ks T =
     (\<lambda>k. if k \<in> set ks then map_option (terminated_record now TerminalExpired) (T k) else T k)"

lemma expire_effect:
  assumes "wf_state s" "distinct ks" "i64_range (now + TERMINAL_RETENTION_MS) \<or> ks = []"
    "\<And>k. k \<in> set ks \<Longrightarrow> \<exists>t. taskm s k = Some t \<and> live t \<and> tr_state_version t + 1 \<le> u64_max"
  shows "\<exists>rs s'. expire_tasks now ks s = (Ok rs, s') \<and> wf_state s' \<and> taskm s' = expired_map now ks (taskm s)
    \<and> regm s' = (\<lambda>i. map_option (without_tasks ks) (regm s i))
    \<and> s_registrations_by_agent s' = s_registrations_by_agent s \<and> frame s' = frame s
    \<and> s_retired_registration_ids s' = s_retired_registration_ids s
    \<and> rs = concat (map (\<lambda>k. case taskm s k of None \<Rightarrow> []
         | Some t \<Rightarrow> map (\<lambda>v. (v, Err TaskExpired)) (tr_reply_waiters t)) ks)"
  using assms
proof (induction ks arbitrary: s)
  case Nil
  then show ?case by (simp add: expired_map_def without_tasks_Nil)
next
  case (Cons k ks)
  obtain t where t: "taskm s k = Some t" "live t" "tr_state_version t + 1 \<le> u64_max"
    using Cons.prems(4) by force
  have rng: "i64_range (now + TERMINAL_RETENTION_MS)" using Cons.prems(3) by simp
  obtain s1 where s1: "terminalize_task k now TerminalExpired s = (Ok (tr_reply_waiters t), s1)" "wf_state s1"
    "taskm s1 = (taskm s)(k \<mapsto> terminated_record now TerminalExpired t)"
    "regm s1 = (\<lambda>i. map_option (without_task k) (regm s i))"
    "s_registrations_by_agent s1 = s_registrations_by_agent s" "frame s1 = frame s"
    "s_retired_registration_ids s1 = s_retired_registration_ids s"
    by (rule terminalize_effect [OF Cons.prems(1) t rng]) blast
  have k: "k \<notin> set ks" using Cons.prems(2) by simp
  have pre: "\<exists>t. taskm s1 j = Some t \<and> live t \<and> tr_state_version t + 1 \<le> u64_max" if "j \<in> set ks" for j
    using Cons.prems(4) [of j] that k s1(3) by auto
  obtain rs s' where IH: "expire_tasks now ks s1 = (Ok rs, s')" "wf_state s'"
    "taskm s' = expired_map now ks (taskm s1)" "regm s' = (\<lambda>i. map_option (without_tasks ks) (regm s1 i))"
    "s_registrations_by_agent s' = s_registrations_by_agent s1" "frame s' = frame s1"
    "s_retired_registration_ids s' = s_retired_registration_ids s1"
    "rs = concat (map (\<lambda>k. case taskm s1 k of None \<Rightarrow> []
         | Some t \<Rightarrow> map (\<lambda>v. (v, Err TaskExpired)) (tr_reply_waiters t)) ks)"
    using Cons.IH [OF s1(2) _ _ pre] Cons.prems(2) rng by auto
  have "expired_map now ks (taskm s1) = expired_map now (k # ks) (taskm s)"
    using t(1) k s1(3) by (auto simp: expired_map_def fun_eq_iff)
  moreover have "regm s' = (\<lambda>i. map_option (without_tasks (k # ks)) (regm s i))"
    unfolding IH(4) s1(4) by (simp add: option.map_comp comp_def)
  moreover have "(case taskm s1 j of None \<Rightarrow> [] | Some t \<Rightarrow> map (\<lambda>v. (v, Err TaskExpired)) (tr_reply_waiters t))
      = (case taskm s j of None \<Rightarrow> [] | Some t \<Rightarrow> map (\<lambda>v. (v, Err TaskExpired)) (tr_reply_waiters t))"
    if "j \<in> set ks" for j
    using that k s1(3) by auto
  then have "rs = concat (map (\<lambda>k. case taskm s k of None \<Rightarrow> []
         | Some t \<Rightarrow> map (\<lambda>v. (v, Err TaskExpired)) (tr_reply_waiters t)) ks)"
    unfolding IH(8) by (intro arg_cong [where f = concat] map_cong) auto
  ultimately show ?case
    using IH s1 t(1) by simp
qed

section \<open>Requeueing for expired registrations\<close>

lemma leased_by_any_iff: "leased_by_any cs t \<longleftrightarrow> (\<exists>c \<in> set cs. leased_by c t)"
  by (auto simp: leased_by_any_def leased_by_def split: option.splits)

lemma leased_by_unique: "leased_by c t \<Longrightarrow> leased_by c' t \<Longrightarrow> c = c'"
  by (auto simp: leased_by_def split: option.splits)

definition bump_any :: "RegistrationCredentials list \<Rightarrow> TaskRecord \<Rightarrow> TaskRecord" where
  "bump_any cs t = (if leased_by_any cs t then t\<lparr>tr_state_version := tr_state_version t + 1\<rparr> else t)"

lemma leased_by_version [simp]: "leased_by c (t\<lparr>tr_state_version := v\<rparr>) = leased_by c t"
  by (simp add: leased_by_def)

lemma leased_by_any_bump [simp]: "leased_by_any cs (bump_record c t) = leased_by_any cs t"
  by (simp add: leased_by_any_iff bump_record_def)

lemma bump_any_Cons:
  assumes "c \<notin> set cs"
  shows "bump_any cs (bump_record c t) = bump_any (c # cs) t"
  using assms leased_by_unique [of c t]
  by (auto simp: bump_any_def bump_record_def leased_by_any_iff)

lemma bump_all_effect:
  assumes "wf_state s" "distinct cs"
    "\<And>k t. taskm s k = Some t \<Longrightarrow> leased_by_any cs t \<Longrightarrow> tr_state_version t + 1 \<le> u64_max"
  shows "\<exists>m. forM cs bump_requeued_versions_for_credentials s = (Ok (), s\<lparr>s_tasks := m\<rparr>)
    \<and> wf_state (s\<lparr>s_tasks := m\<rparr>) \<and> hm_get m = (\<lambda>k. map_option (bump_any cs) (taskm s k))"
  using assms
proof (induction cs arbitrary: s)
  case Nil
  have "bump_any [] = (\<lambda>t. t)" by (simp add: bump_any_def leased_by_any_iff fun_eq_iff)
  then have "taskm s = (\<lambda>k. map_option (bump_any []) (taskm s k))" by (simp add: option.map_ident)
  moreover have "forM [] bump_requeued_versions_for_credentials s = (Ok (), s\<lparr>s_tasks := s_tasks s\<rparr>)"
    by simp
  moreover have "wf_state (s\<lparr>s_tasks := s_tasks s\<rparr>)" using Nil.prems(1) by simp
  ultimately show ?case by blast
next
  case (Cons c cs)
  have wf: "hm_wf (s_tasks s)" using Cons.prems(1) by (simp add: wf_state_parts)
  let ?m1 = "hm_map_values (bump_record c) (s_tasks s)"
  let ?s1 = "s\<lparr>s_tasks := ?m1\<rparr>"
  have b: "bump_requeued_versions_for_credentials c s = (Ok (), ?s1)"
    by (rule bump_effect [OF wf]) (use Cons.prems(3) in \<open>auto simp: leased_by_any_iff\<close>)
  have pre: "tr_state_version t + 1 \<le> u64_max" if t: "taskm ?s1 k = Some t" and l: "leased_by_any cs t" for k t
  proof -
    obtain t0 where t0: "taskm s k = Some t0" "t = bump_record c t0" using t by auto
    from l t0(2) have any: "leased_by_any cs t0" by simp
    then obtain c' where c': "c' \<in> set cs" "leased_by c' t0" by (auto simp: leased_by_any_iff)
    have "\<not> leased_by c t0"
      using c' Cons.prems(2) leased_by_unique [OF c'(2), of c] by auto
    then have "t = t0" using t0(2) by (simp add: bump_record_def)
    with Cons.prems(3) [OF t0(1)] any show ?thesis by (simp add: leased_by_any_iff)
  qed
  have "distinct cs" using Cons.prems(2) by simp
  note IH = Cons.IH [OF wf_bump [OF Cons.prems(1), of c] this]
  obtain m where m: "forM cs bump_requeued_versions_for_credentials ?s1 = (Ok (), ?s1\<lparr>s_tasks := m\<rparr>)"
    "wf_state (?s1\<lparr>s_tasks := m\<rparr>)" "hm_get m = (\<lambda>k. map_option (bump_any cs) (taskm ?s1 k))"
    using IH pre by blast
  have "hm_get m = (\<lambda>k. map_option (bump_any (c # cs)) (taskm s k))"
    using m(3) Cons.prems(2) by (simp add: option.map_comp comp_def bump_any_Cons)
  moreover have "forM (c # cs) bump_requeued_versions_for_credentials s = (Ok (), s\<lparr>s_tasks := m\<rparr>)"
    using b m(1) by simp
  ultimately show ?case using m(2) by auto
qed

section \<open>Detaching expired registrations\<close>

definition release_any :: "RegistrationCredentials list \<Rightarrow> TaskRecord \<Rightarrow> TaskRecord" where
  "release_any cs t = (if leased_by_any cs t then t\<lparr>tr_lease := None\<rparr> else t)"

lemma release_any_Cons: "release_any cs (detached_record c t) = release_any (c # cs) t"
  by (auto simp: release_any_def detached_record_def leased_by_any_iff leased_by_def split: option.splits)

definition creds_of :: "reg_map \<Rightarrow> RegistrationId list \<Rightarrow> RegistrationCredentials list" where
  "creds_of R is = List.map_filter (\<lambda>i. map_option (\<lambda>r. credentials (rs_registration r)) (R i)) is"

lemma creds_of_cong:
  "(\<And>i. i \<in> set is \<Longrightarrow> map_option rs_registration (R i) = map_option rs_registration (R' i)) \<Longrightarrow>
     creds_of R is = creds_of R' is"
proof (induction "is")
  case (Cons i "is")
  have "map_option rs_registration (R i) = map_option rs_registration (R' i)" using Cons.prems by simp
  with Cons show ?case
    by (cases "R i"; cases "R' i") (simp_all add: creds_of_def map_filter_simps)
qed (simp add: creds_of_def map_filter_simps)

lemma detach_expired_effect:
  assumes "wf_state s" "distinct is" "\<And>i. i \<in> set is \<Longrightarrow> regm s i \<noteq> None"
  shows "\<exists>s'. detach_expired is s = (is, s') \<and> wf_state s'
    \<and> regm s' = (regm s) |` (- set is)
    \<and> taskm s' = (\<lambda>k. map_option (release_any (creds_of (regm s) is)) (taskm s k))
    \<and> frame s' = frame s"
  using assms
proof (induction "is" arbitrary: s)
  case Nil
  have "release_any [] = (\<lambda>t. t)" by (simp add: release_any_def leased_by_any_iff fun_eq_iff)
  with Nil show ?case
    by (simp add: creds_of_def map_filter_simps option.map_ident)
next
  case (Cons i "is")
  obtain r where r: "regm s i = Some r" using Cons.prems(3) [of i] by auto
  let ?c = "credentials (rs_registration r)"
  obtain s1 where s1: "detach_registration i True s = (Some r, s1)" "wf_state s1"
    "regm s1 = (regm s)(i := None)"
    "taskm s1 = (\<lambda>k. map_option (detached_record ?c) (taskm s k))" "frame s1 = frame s"
    by (rule detach_effect [OF Cons.prems(1) r]) blast
  have "regm s1 j \<noteq> None" if "j \<in> set is" for j
    using Cons.prems(2,3) that s1(3) by auto
  then obtain s' where IH: "detach_expired is s1 = (is, s')" "wf_state s'" "regm s' = (regm s1) |` (- set is)"
    "taskm s' = (\<lambda>k. map_option (release_any (creds_of (regm s1) is)) (taskm s1 k))" "frame s' = frame s1"
    using Cons.IH [OF s1(2)] Cons.prems(2) by auto
  have "creds_of (regm s1) is = creds_of (regm s) is"
    by (rule creds_of_cong) (use Cons.prems(2) s1(3) in auto)
  then have "taskm s' = (\<lambda>k. map_option (release_any (creds_of (regm s) (i # is))) (taskm s k))"
    using IH(4) s1(4) r by (simp add: option.map_comp comp_def release_any_Cons creds_of_def map_filter_simps)
  moreover have "regm s' = (regm s) |` (- set (i # is))"
    using IH(3) s1(3) by (auto simp: restrict_map_def)
  ultimately show ?case using IH s1 by simp
qed

section \<open>The effect of maintenance\<close>

definition maintain_record :: "i64 \<Rightarrow> RegistrationCredentials list \<Rightarrow> TaskRecord \<Rightarrow> TaskRecord option" where
  "maintain_record now cs t =
     (if due_now now t then Some (terminated_record now TerminalExpired t)
      else if leased_by_any cs t then Some (requeued_record t)
      else if due_for_pruning now t then None
      else Some t)"

definition maintained :: "i64 \<Rightarrow> RegistrationCredentials list \<Rightarrow> task_map \<Rightarrow> task_map" where
  "maintained now cs T = (\<lambda>k. Option.bind (T k) (maintain_record now cs))"

lemma leased_any_live: "task_ok k t \<Longrightarrow> leased_by_any cs t \<Longrightarrow> live t \<and> \<not> tr_acknowledged t"
  by (auto simp: leased_by_any_def intro: leased_imp_live split: option.splits)

lemma not_pruned [simp]: "live t \<Longrightarrow> \<not> due_for_pruning now t"
  "\<not> due_for_pruning now (terminated_record now ts t)"
  by (simp_all add: due_for_pruning_def live_def terminated_record_def broker_constants)

lemma live_release [simp]: "live (release_any cs t) = live t" "live (bump_any cs t) = live t"
  by (simp_all add: live_def release_any_def bump_any_def)

lemma maintained_steps:
  assumes "tasks_inv T" and due: "\<And>k t. T k = Some t \<Longrightarrow> k \<in> set ks \<longleftrightarrow> due_now now t"
  shows "pruned now (\<lambda>k. map_option (release_any cs) (map_option (bump_any cs) (expired_map now ks T k)))
    = maintained now cs T"
proof
  fix k
  let ?L = "pruned now (\<lambda>k. map_option (release_any cs) (map_option (bump_any cs) (expired_map now ks T k))) k"
  show "?L = maintained now cs T k"
  proof (cases "T k")
    case (Some t)
    have ok: "task_ok k t" using assms(1) Some by (simp add: tasks_inv_def)
    consider (due) "due_now now t" | (leased) "\<not> due_now now t" "leased_by_any cs t"
      | (other) "\<not> due_now now t" "\<not> leased_by_any cs t" by blast
    then show ?thesis
    proof cases
      case due
      have "\<not> leased_by_any cs (terminated_record now TerminalExpired t)"
        by (simp add: leased_by_any_def terminated_record_def)
      then have "release_any cs (bump_any cs (terminated_record now TerminalExpired t))
          = terminated_record now TerminalExpired t"
        by (simp add: release_any_def bump_any_def)
      with due Some assms(2) show ?thesis
        by (simp add: pruned_def expired_map_def maintained_def maintain_record_def)
    next
      case leased
      have "release_any cs (bump_any cs t) = requeued_record t"
        using leased by (simp add: release_any_def bump_any_def requeued_record_def leased_by_any_def)
      with leased Some assms(2) leased_any_live [OF ok] show ?thesis
        by (simp add: pruned_def expired_map_def maintained_def maintain_record_def)
    next
      case other
      then have "release_any cs (bump_any cs t) = t" by (simp add: release_any_def bump_any_def)
      with other Some assms(2) show ?thesis
        by (simp add: pruned_def expired_map_def maintained_def maintain_record_def)
    qed
  qed (simp add: pruned_def expired_map_def maintained_def)
qed

lemma collect_res_map:
  assumes "collect_res f xs = Ok ys" and "\<And>x y. x \<in> set xs \<Longrightarrow> f x = Ok y \<Longrightarrow> y = g x \<and> C x"
  shows "ys = map g xs \<and> (\<forall>x \<in> set xs. C x)"
proof -
  from assms(1) have "list_all2 (\<lambda>x y. f x = Ok y) xs ys" by (simp add: collect_res_Ok)
  then show ?thesis using assms(2)
    by (induction rule: list_all2_induct) auto
qed

definition requeue_set :: "TaskId list \<Rightarrow> RegistrationCredentials list \<Rightarrow> State \<Rightarrow> (TaskId \<times> TaskRecord) list" where
  "requeue_set due cs s = filter (\<lambda>(k, t). k \<notin> set due \<and> leased_by_any cs t) (s_tasks s)"

lemma maintenance_batch_Ok:
  assumes wf: "wf_state s" and b: "maintenance_batch now (due_ids now s) cs s = Ok b"
  shows "pb_upsert_tasks b =
      map (\<lambda>k. durable_of k (terminated_record now TerminalExpired (the (taskm s k)))) (due_ids now s)
      @ map (\<lambda>(k, t). durable_of k (requeued_record t)) (requeue_set (due_ids now s) cs s)"
    and "pb_delete_task_ids b = map fst (filter (\<lambda>(_, t). due_for_pruning now t) (s_tasks s))"
    and "\<And>k t. taskm s k = Some t \<Longrightarrow> due_now now t \<Longrightarrow>
      tr_state_version t + 1 \<le> u64_max \<and> i64_range (now + TERMINAL_RETENTION_MS)"
    and "\<And>k t. taskm s k = Some t \<Longrightarrow> leased_by_any cs t \<Longrightarrow> \<not> due_now now t \<Longrightarrow> tr_state_version t + 1 \<le> u64_max"
proof -
  have ok: "taskm s k = Some t \<Longrightarrow> task_ok k t" for k t
    using wf by (simp add: wf_state_def tasks_inv_def)
  have get: "(k, t) \<in> set (s_tasks s) \<longleftrightarrow> taskm s k = Some t" for k t
    using wf by (simp add: wf_state_parts hm_get_iff_mem)
  obtain es rs where es: "collect_res (\<lambda>k. res_bind (expect (taskm s k)) (\<lambda>t.
      durable_terminal_task k t now Expired None)) (due_ids now s) = Ok es"
    and rs: "collect_res (\<lambda>(k, t). durable_requeued_task k t) (requeue_set (due_ids now s) cs s) = Ok rs"
    and batch: "b = \<lparr>pb_registration_epoch_high_watermark = None, pb_upsert_tasks = es @ rs,
       pb_delete_task_ids = map fst (filter (\<lambda>(_, t). due_for_pruning now t) (s_tasks s))\<rparr>"
    using b by (auto simp: maintenance_batch_def res_bind_eq_Ok requeue_set_def due_for_pruning_def)
  have 1: "es = map (\<lambda>k. durable_of k (terminated_record now TerminalExpired (the (taskm s k)))) (due_ids now s)
      \<and> (\<forall>k \<in> set (due_ids now s). tr_state_version (the (taskm s k)) + 1 \<le> u64_max
           \<and> i64_range (now + TERMINAL_RETENTION_MS))"
    by (rule collect_res_map [OF es])
      (auto simp: res_bind_eq_Ok durable_terminal_task_Ok [OF ok, where ts = TerminalExpired])
  have 2: "rs = map (\<lambda>(k, t). durable_of k (requeued_record t)) (requeue_set (due_ids now s) cs s)
      \<and> (\<forall>(k, t) \<in> set (requeue_set (due_ids now s) cs s). tr_state_version t + 1 \<le> u64_max)"
  proof (rule collect_res_map [OF rs])
    fix x y assume x: "x \<in> set (requeue_set (due_ids now s) cs s)"
      and y: "(case x of (k, t) \<Rightarrow> durable_requeued_task k t) = Ok y"
    obtain k t where kt: "x = (k, t)" by fastforce
    with x have "taskm s k = Some t" "leased_by_any cs t" by (auto simp: requeue_set_def get)
    with ok leased_any_live [of k t cs] y kt
    show "y = (case x of (k, t) \<Rightarrow> durable_of k (requeued_record t))
        \<and> (case x of (k, t) \<Rightarrow> tr_state_version t + 1 \<le> u64_max)"
      by (simp add: durable_requeued_task_Ok)
  qed
  show "pb_upsert_tasks b =
      map (\<lambda>k. durable_of k (terminated_record now TerminalExpired (the (taskm s k)))) (due_ids now s)
      @ map (\<lambda>(k, t). durable_of k (requeued_record t)) (requeue_set (due_ids now s) cs s)"
    "pb_delete_task_ids b = map fst (filter (\<lambda>(_, t). due_for_pruning now t) (s_tasks s))"
    using batch 1 2 by simp_all
  show "tr_state_version t + 1 \<le> u64_max \<and> i64_range (now + TERMINAL_RETENTION_MS)"
    if "taskm s k = Some t" "due_now now t" for k t
    using 1 that due_ids_mem [OF wf, of k now] by force
  show "tr_state_version t + 1 \<le> u64_max"
    if "taskm s k = Some t" "leased_by_any cs t" "\<not> due_now now t" for k t
    using 2 that due_ids_mem [OF wf, of k now] by (auto simp: requeue_set_def get)
qed

lemma maintenance_batch_not_Panic:
  assumes wf: "wf_state s"
  shows "maintenance_batch now (due_ids now s) cs s \<noteq> Panic"
proof -
  have "collect_res (\<lambda>k. res_bind (expect (taskm s k)) (\<lambda>t. durable_terminal_task k t now Expired None))
      (due_ids now s) \<noteq> Panic"
    by (rule collect_res_not_Panic) (auto simp: due_ids_mem [OF wf] res_bind_eq_Panic)
  moreover have "collect_res (\<lambda>(k, t). durable_requeued_task k t) xs \<noteq> Panic" for xs
    by (rule collect_res_not_Panic) auto
  ultimately show ?thesis
    by (simp add: maintenance_batch_def res_bind_eq_Panic)
qed

text \<open>The committed batch turns the mirror of the tasks into the mirror of the maintained tasks.\<close>

lemma maintenance_batch_mirror:
  assumes wf: "wf_state s" and b: "maintenance_batch now (due_ids now s) cs s = Ok b"
  shows "apply_batch b (mirror (taskm s)) = mirror (maintained now cs (taskm s))"
proof
  fix k
  note batch = maintenance_batch_Ok [OF wf b]
  let ?us = "pb_upsert_tasks b"
  have get: "(k, t) \<in> set (s_tasks s) \<longleftrightarrow> taskm s k = Some t" for k t
    using wf by (simp add: wf_state_parts hm_get_iff_mem)
  have wfk: "hm_wf (s_tasks s)" using wf by (simp add: wf_state_parts)
  have ids: "map dt_task_id ?us = due_ids now s @ map fst (requeue_set (due_ids now s) cs s)"
    unfolding batch(1) by (simp add: comp_def case_prod_unfold)
  have dist: "distinct (map dt_task_id ?us)"
    unfolding ids using due_ids_distinct [OF wf] wfk
    by (auto simp: requeue_set_def distinct_map_filter)
  have up_due: "durable_of k (terminated_record now TerminalExpired t) \<in> set ?us"
    if "taskm s k = Some t" "due_now now t" for t
    using that due_ids_mem [OF wf, of k now] unfolding batch(1) by (force intro: image_eqI [of _ _ k])
  have up_req: "durable_of k (requeued_record t) \<in> set ?us"
    if "taskm s k = Some t" "\<not> due_now now t" "leased_by_any cs t" for t
    using that due_ids_mem [OF wf, of k now] unfolding batch(1)
    by (auto simp: requeue_set_def get intro!: image_eqI [of _ _ "(k, t)"])
  have mem: "k \<in> dt_task_id ` set ?us \<longleftrightarrow> (\<exists>t. taskm s k = Some t \<and> (due_now now t \<or> leased_by_any cs t))"
  proof -
    have "k \<in> dt_task_id ` set ?us \<longleftrightarrow> k \<in> set (map dt_task_id ?us)" by simp
    also have "\<dots> \<longleftrightarrow> k \<in> set (due_ids now s) \<or> k \<in> fst ` set (requeue_set (due_ids now s) cs s)"
      unfolding ids by simp
    finally show ?thesis
      using due_ids_mem [OF wf, of k now] by (force simp: requeue_set_def get image_iff)
  qed
  have del: "k \<in> set (pb_delete_task_ids b) \<longleftrightarrow> (\<exists>t. taskm s k = Some t \<and> due_for_pruning now t)"
    unfolding batch(2) by (force simp: get image_iff)
  show "apply_batch b (mirror (taskm s)) k = mirror (maintained now cs (taskm s)) k"
  proof (cases "taskm s k")
    case None
    then have "k \<notin> dt_task_id ` set ?us" using mem by simp
    with None show ?thesis
      by (simp add: apply_batch_def upsert_all_notin restrict_map_def mirror_def maintained_def)
  next
    case (Some t)
    consider "due_now now t" | "\<not> due_now now t" "leased_by_any cs t"
      | "\<not> due_now now t" "\<not> leased_by_any cs t" by blast
    then show ?thesis
    proof cases
      case 1
      with Some show ?thesis
        using upsert_all_in [OF dist up_due [OF Some 1]]
        by (simp add: apply_batch_def mirror_def maintained_def maintain_record_def)
    next
      case 2
      with Some show ?thesis
        using upsert_all_in [OF dist up_req [OF Some 2]]
        by (simp add: apply_batch_def mirror_def maintained_def maintain_record_def)
    next
      case 3
      then have "k \<notin> dt_task_id ` set ?us" using mem Some by simp
      with 3 Some del show ?thesis
        by (simp add: apply_batch_def upsert_all_notin restrict_map_def mirror_def maintained_def
            maintain_record_def)
    qed
  qed
qed

section \<open>The state after maintenance\<close>

definition maintain_registration :: "i64 \<Rightarrow> TaskId list \<Rightarrow> RegistrationState \<Rightarrow> RegistrationState option" where
  "maintain_registration now ks r = (if now < reg_expiry r then Some (without_tasks ks r) else None)"

lemma expired_registration_ids_mem:
  "wf_state s \<Longrightarrow> i \<in> set (expired_registration_ids now s) \<longleftrightarrow> (\<exists>r. regm s i = Some r \<and> reg_expiry r \<le> now)"
  by (force simp: expired_registration_ids_def wf_state_parts hm_get_iff_mem)

lemma expired_credentials_of:
  "expired_credentials now s = remdups (creds_of (regm s) (expired_registration_ids now s))"
  by (simp add: expired_credentials_def creds_of_def)

lemma leased_by_any_remdups: "leased_by_any (remdups cs) = leased_by_any cs"
  by (simp add: fun_eq_iff leased_by_any_iff)

definition maintained_state :: "i64 \<Rightarrow> State \<Rightarrow> State \<Rightarrow> bool" where
  "maintained_state now s s' \<longleftrightarrow>
     wf_state s' \<and> taskm s' = maintained now (expired_credentials now s) (taskm s)
     \<and> regm s' = (\<lambda>i. Option.bind (regm s i) (maintain_registration now (due_ids now s)))
     \<and> frame s' = frame s"

lemma maintenance_steps:
  assumes wf: "wf_state s" and b: "maintenance_batch now (due_ids now s) (expired_credentials now s) s = Ok b"
  obtains rs s1 s2 s3 where
    "expire_tasks now (due_ids now s) s = (Ok rs, s1)"
    "forM (expired_credentials now s) bump_requeued_versions_for_credentials s1 = (Ok (), s2)"
    "detach_expired (expired_registration_ids now s) s2 = (expired_registration_ids now s, s3)"
    "maintained_state now s (prune_terminal_tasks now (prune_delivery_deadlines now s3))"
    "rs = concat (map (\<lambda>k. case taskm s k of None \<Rightarrow> []
       | Some t \<Rightarrow> map (\<lambda>v. (v, Err TaskExpired)) (tr_reply_waiters t)) (due_ids now s))"
proof -
  let ?ks = "due_ids now s" and ?cs = "expired_credentials now s" and ?is = "expired_registration_ids now s"
  note batch = maintenance_batch_Ok [OF wf b]
  have rng: "i64_range (now + TERMINAL_RETENTION_MS) \<or> ?ks = []"
    using batch(3) due_ids_mem [OF wf, of "hd ?ks" now] by (cases ?ks) auto
  have pre: "\<exists>t. taskm s k = Some t \<and> live t \<and> tr_state_version t + 1 \<le> u64_max" if "k \<in> set ?ks" for k
    using that batch(3) by (auto simp: due_ids_mem [OF wf] due_now_def)
  obtain rs s1 where s1: "expire_tasks now ?ks s = (Ok rs, s1)" "wf_state s1"
    "taskm s1 = expired_map now ?ks (taskm s)" "regm s1 = (\<lambda>i. map_option (without_tasks ?ks) (regm s i))"
    "frame s1 = frame s"
    "rs = concat (map (\<lambda>k. case taskm s k of None \<Rightarrow> []
       | Some t \<Rightarrow> map (\<lambda>v. (v, Err TaskExpired)) (tr_reply_waiters t)) ?ks)"
    using expire_effect [OF wf due_ids_distinct [OF wf] rng pre] by auto
  have bpre: "tr_state_version t + 1 \<le> u64_max" if t: "taskm s1 k = Some t" and l: "leased_by_any ?cs t" for k t
  proof (cases "k \<in> set ?ks")
    case True
    with t l show ?thesis
      by (auto simp: s1(3) expired_map_def leased_by_any_def terminated_record_def)
  next
    case False
    with t have "taskm s k = Some t" by (simp add: s1(3) expired_map_def)
    with False l batch(4) due_ids_mem [OF wf, of k now] show ?thesis by auto
  qed
  have csd: "distinct ?cs" by (simp add: expired_credentials_of)
  obtain m where m: "forM ?cs bump_requeued_versions_for_credentials s1 = (Ok (), s1\<lparr>s_tasks := m\<rparr>)"
    "wf_state (s1\<lparr>s_tasks := m\<rparr>)" "hm_get m = (\<lambda>k. map_option (bump_any ?cs) (taskm s1 k))"
    using bump_all_effect [OF s1(2) csd] bpre by blast
  let ?s2 = "s1\<lparr>s_tasks := m\<rparr>"
  have isd: "distinct ?is"
    using wf by (simp add: expired_registration_ids_def wf_state_parts distinct_map_filter)
  have isr: "regm ?s2 i \<noteq> None" if "i \<in> set ?is" for i
    using that by (auto simp: expired_registration_ids_mem [OF wf] s1(4))
  obtain s3 where s3: "detach_expired ?is ?s2 = (?is, s3)" "wf_state s3" "regm s3 = (regm ?s2) |` (- set ?is)"
    "taskm s3 = (\<lambda>k. map_option (release_any (creds_of (regm ?s2) ?is)) (taskm ?s2 k))" "frame s3 = frame ?s2"
    using detach_expired_effect [OF m(2) isd isr] by auto
  have "creds_of (regm s1) ?is = creds_of (regm s) ?is"
    by (rule creds_of_cong) (simp add: s1(4) option.map_comp comp_def)
  then have rel: "release_any (creds_of (regm s1) ?is) = release_any ?cs"
    by (simp add: fun_eq_iff release_any_def expired_credentials_of leased_by_any_remdups)
  let ?s4 = "prune_delivery_deadlines now s3" and ?s5 = "prune_terminal_tasks now (prune_delivery_deadlines now s3)"
  have wf4: "wf_state ?s4" using s3(2) by (simp add: prune_delivery_deadlines_def)
  have "taskm ?s5 = maintained now ?cs (taskm s)"
    using maintained_steps [of "taskm s" ?ks now ?cs] due_ids_mem [OF wf] wf prune_wf(2) [OF wf4]
    by (simp add: s3(4) rel m(3) s1(3) wf_state_def prune_delivery_deadlines_def)
  moreover have "regm ?s5 = (\<lambda>i. Option.bind (regm s i) (maintain_registration now ?ks))"
  proof
    fix i show "regm ?s5 i = Option.bind (regm s i) (maintain_registration now ?ks)"
      using expired_registration_ids_mem [OF wf, of i now]
      by (cases "regm s i") (auto simp: prune_delivery_deadlines_def s3(3) s1(4) restrict_map_def
          maintain_registration_def)
  qed
  moreover have "frame ?s5 = frame s"
    using s3(5) s1(5) unfolding prune_fields by (simp add: prune_delivery_deadlines_def frame_def)
  ultimately have "maintained_state now s ?s5"
    using prune_wf(1) [OF wf4] by (simp add: maintained_state_def)
  then show thesis by (rule that [OF s1(1) m(1) s3(1) _ s1(6)])
qed

end
