(* ===== verification/Broker_Contract.thy ===== *)
theory Broker_Contract
  imports Broker_Maintain
begin

text \<open>
  The invariant of a broker over a persistence provider, and its preservation by commits, by
  reconciliation and by maintenance, for every provider that meets \<open>persistence_contract\<close>.
\<close>

section \<open>The invariant\<close>

text \<open>
  The state is well formed.  Unless reconciliation is due, the provider holds exactly the durable
  form of the tasks in memory, and every task that awaits delivery is in the inbox of its
  recipient's registration, provided that one has not expired by \<open>now\<close>.
\<close>

definition binv :: "('p \<Rightarrow> task_table \<Rightarrow> bool) \<Rightarrow> i64 \<Rightarrow> 'p Broker \<Rightarrow> bool" where
  "binv holds now w \<longleftrightarrow>
     wf_state (b_state w)
     \<and> (\<not> s_reconciliation_required (b_state w) \<longrightarrow>
          holds (b_persistence w) (mirror (taskm (b_state w)))
          \<and> inbox_complete now (regm (b_state w)) (taskm (b_state w)))"

lemma binv_mono: "binv holds now w \<Longrightarrow> now \<le> later \<Longrightarrow> binv holds later w"
  by (auto simp: binv_def inbox_complete_def)

lemma binv_irrelevant [simp]:
  "binv holds now (w\<lparr>b_effects := fx\<rparr>) = binv holds now w"
  "binv holds now (w\<lparr>b_generation := n\<rparr>) = binv holds now w"
  "binv holds now (w\<lparr>b_next_waiter := v\<rparr>) = binv holds now w"
  "binv holds now (w\<lparr>b_closed_waiters := vs\<rparr>) = binv holds now w"
  by (simp_all add: binv_def)

text \<open>
  After reconciliation the broker is consistent with its provider again, with the registrations it
  had; when none was due, nothing has changed.
\<close>

definition reconciled_world :: "('p \<Rightarrow> task_table \<Rightarrow> bool) \<Rightarrow> i64 \<Rightarrow> 'p Broker \<Rightarrow> 'p Broker \<Rightarrow> bool" where
  "reconciled_world holds now w w' \<longleftrightarrow>
     binv holds now w' \<and> \<not> s_reconciliation_required (b_state w')
     \<and> regs_kept (b_state w) (b_state w') \<and> (\<not> s_reconciliation_required (b_state w) \<longrightarrow> w' = w)"

text \<open>Maintenance that ran to its end, and an early return from it.\<close>

definition maintained_world :: "('p \<Rightarrow> task_table \<Rightarrow> bool) \<Rightarrow> i64 \<Rightarrow> 'p Broker \<Rightarrow> 'p Broker \<Rightarrow> bool" where
  "maintained_world holds now w w' \<longleftrightarrow>
     binv holds now w' \<and> \<not> s_reconciliation_required (b_state w')
     \<and> (\<exists>w0. reconciled_world holds now w w0 \<and> maintained_state now (b_state w0) (b_state w'))"

definition halted_world :: "('p \<Rightarrow> task_table \<Rightarrow> bool) \<Rightarrow> i64 \<Rightarrow> 'p Broker \<Rightarrow> 'p Broker \<Rightarrow> bool" where
  "halted_world holds now w w' \<longleftrightarrow>
     binv holds now w'
     \<and> (\<exists>w0. (w0 = w \<or> reconciled_world holds now w w0)
          \<and> b_state w' = (b_state w0)\<lparr>s_reconciliation_required := s_reconciliation_required (b_state w')\<rparr>)"

section \<open>Repaired snapshots can be restored\<close>

lemma distinct_map_filter_iff:
  "distinct xs \<Longrightarrow> distinct (List.map_filter g xs) \<longleftrightarrow>
     (\<forall>x \<in> set xs. \<forall>y \<in> set xs. \<forall>v. g x = Some v \<longrightarrow> g y = Some v \<longrightarrow> x = y)"
  unfolding map_filter_def distinct_map inj_on_def
  by (auto; metis option.sel)

lemma lease_ids_perm:
  assumes "distinct xs" "distinct ys" "set xs = set ys"
  shows "distinct (lease_ids xs) = distinct (lease_ids ys)"
  unfolding lease_ids_def distinct_map_filter_iff [OF assms(1)] distinct_map_filter_iff [OF assms(2)] assms(3) ..

lemma lease_ids_repaired:
  "set (lease_ids (repaired now ds)) \<subseteq> set (lease_ids ds)
   \<and> (distinct (lease_ids ds) \<longrightarrow> distinct (lease_ids (repaired now ds)))"
proof (induction ds)
  case (Cons d ds)
  show ?case
  proof (cases "reconciled now d")
    case None
    with Cons show ?thesis by (auto simp: repaired_simps split: option.splits)
  next
    case (Some d')
    with Cons reconciled_lease [OF Some] show ?thesis
      by (auto simp: repaired_simps split: option.splits)
  qed
qed (simp add: repaired_simps)

lemma length_repaired: "length (repaired now ds) \<le> length ds"
  by (induction ds) (auto simp: repaired_simps split: option.splits)

lemma set_repaired: "d' \<in> set (repaired now ds) \<Longrightarrow> \<exists>d \<in> set ds. reconciled now d = Some d'"
  by (induction ds) (auto simp: repaired_simps split: option.splits)

lemma distinct_of_ids: "distinct (map f xs) \<Longrightarrow> distinct xs"
  by (simp add: distinct_map)

lemma table_of_perm:
  assumes "distinct (map dt_task_id xs)" "distinct (map dt_task_id ys)" "set xs = set ys"
  shows "table_of xs = table_of ys"
proof
  fix k show "table_of xs k = table_of ys k"
    using table_of_mem [OF assms(1), of k] table_of_mem [OF assms(2), of k] assms(3)
    by (cases "table_of xs k"; cases "table_of ys k") auto
qed

lemma repaired_restore_list:
  assumes v: "validate_and_reconcile_snapshot json_len ds now rep = Ok (ts, batch, rep')"
  shows "restore_list (restore_order (retained_after now ts))"
    and "table_of (restore_order (retained_after now ts)) = apply_batch batch (table_of ds)"
proof -
  have len: "length ds \<le> MAX_RETAINED_TASKS" and all: "\<forall>d \<in> set ds. repairable json_len now d"
    and ids: "distinct (map dt_task_id ds)" and lids: "distinct (lease_ids ds)"
    and ts: "ts = repaired now ds" and batch: "batch = repair_batch now ds"
    using v by (auto simp: validate_and_reconcile_Ok)
  have "retained_after now ts = ts"
    unfolding retained_after_def filter_id_conv
  proof
    fix d' assume "d' \<in> set ts"
    then obtain d where "d \<in> set ds" "reconciled now d = Some d'" using ts set_repaired by blast
    with all have "\<not> past_retention now d'" using reconciled_kept(1) by blast
    then show "case dt_retention_deadline_unix_ms d' of None \<Rightarrow> True | Some dl \<Rightarrow> now < dl"
      by (auto simp: past_retention_def split: option.splits)
  qed
  moreover have d1: "distinct (map dt_task_id ts)" using repaired_distinct [OF ids] ts by simp
  moreover have d2: "distinct (map dt_task_id (restore_order ts))"
    using d1 by (simp add: restore_order_def distinct_map)
  moreover have "distinct (lease_ids (restore_order ts))"
    using lease_ids_perm [OF distinct_of_ids [OF d2] distinct_of_ids [OF d1]]
      lease_ids_repaired [of now ds] lids ts
    by (simp add: restore_order_def)
  moreover have "restorable d'" if "d' \<in> set ts" for d'
    using that ts set_repaired [of d' now ds] all reconciled_restorable by blast
  moreover have "length ts \<le> MAX_RETAINED_TASKS"
    using length_repaired [of now ds] len ts by simp
  ultimately show "restore_list (restore_order (retained_after now ts))"
    by (simp add: restore_list_def restore_order_def)
  show "table_of (restore_order (retained_after now ts)) = apply_batch batch (table_of ds)"
    using table_of_perm [OF d2 d1] \<open>retained_after now ts = ts\<close> repair_batch_table [OF ids] ts batch
    by (simp add: restore_order_def)
qed

section \<open>Maintained states\<close>

lemma maintained_flags:
  "maintained_state now s s' \<Longrightarrow> s_reconciliation_required s' = s_reconciliation_required s"
  by (simp add: maintained_state_def frame_def)

lemma maintain_record_awaits:
  "maintain_record now cs t = Some t' \<Longrightarrow> live t' \<Longrightarrow>
     live t \<and> \<not> due_now now t \<and> tr_acknowledged t' = tr_acknowledged t \<and> tr_recipient t' = tr_recipient t"
  by (auto simp: maintain_record_def requeued_record_def live_def terminated_record_def split: if_splits)

lemma maintained_inbox:
  assumes ms: "maintained_state now s s'" and inbox: "inbox_complete now (regm s) (taskm s)" and wf: "wf_state s"
  shows "inbox_complete now (regm s') (taskm s')"
  unfolding inbox_complete_def
proof (intro allI impI)
  fix i r' k assume r': "regm s' i = Some r'" and aw: "awaits (taskm s') (reg_name r') k"
  obtain r where r: "regm s i = Some r" "now < reg_expiry r" "r' = without_tasks (due_ids now s) r"
    using ms r' by (auto simp: maintained_state_def bind_eq_Some_conv maintain_registration_def split: if_splits)
  obtain t t' where t: "taskm s k = Some t" "maintain_record now (expired_credentials now s) t = Some t'"
    "live t'" "\<not> tr_acknowledged t'" "tr_recipient t' = reg_name r'"
    using aw ms by (auto simp: awaits_def maintained_state_def maintained_def bind_eq_Some_conv)
  have "awaits (taskm s) (reg_name r) k" and "k \<notin> set (due_ids now s)"
    using t r(3) maintain_record_awaits [OF t(2,3)] by (auto simp: awaits_def due_ids_mem [OF wf])
  then show "k \<in> set (rs_inbox r')"
    using inbox r by (auto simp: inbox_complete_def)
qed

section \<open>Commits\<close>

context persistence_contract
begin

lemma persistence_commit_rule:
  assumes "\<And>p'. bp_commit P b (b_persistence w) = (Ok Complete, p') \<Longrightarrow>
      Q Complete (w\<lparr>b_persistence := p', b_effects := b_effects w @ [Committed b (Ok Complete)]\<rparr>)"
    and "\<And>p'. Q ReconciliationRequired
      (w\<lparr>b_persistence := p', b_effects := b_effects w @ [Committed b (Ok ReconciliationRequired)]\<rparr>)"
    and "\<And>e p'. bp_commit P b (b_persistence w) = (Err e, p') \<Longrightarrow>
      E e (w\<lparr>b_persistence := p', b_effects := b_effects w @ [Committed b (Err e)]\<rparr>)"
  shows "wp (persistence_commit P b) E Q w"
proof -
  obtain r p' where c: "bp_commit P b (b_persistence w) = (r, p')" by fastforce
  moreover have "r \<noteq> Panic" using commit_no_panic c by metis
  ultimately consider (complete) "r = Ok Complete" | (retry) "r = Ok ReconciliationRequired"
    | (failed) e where "r = Err e"
    by (metis PersistenceCommitOutcome.exhaust res.exhaust)
  then show ?thesis
    by cases (use assms c in \<open>simp_all add: wp_def persistence_commit_def\<close>)
qed

lemma commit_transition_rule:
  assumes "holds (b_persistence w) V"
    and "\<And>p'. holds p' (apply_batch b V) \<Longrightarrow>
      Q () (w\<lparr>b_persistence := p', b_effects := b_effects w @ [Committed b (Ok Complete)]\<rparr>)"
    and "\<And>e p'. holds p' V \<Longrightarrow>
      E e (w\<lparr>b_persistence := p', b_effects := b_effects w @ [Committed b (Err e)]\<rparr>)"
    and "\<And>p'. E PersistenceUnavailable
      (w\<lparr>b_persistence := p', b_effects := b_effects w @ [Committed b (Ok ReconciliationRequired)],
         b_state := (b_state w)\<lparr>s_reconciliation_required := True\<rparr>\<rparr>)"
  shows "wp (commit_transition P b) E Q w"
  unfolding commit_transition_def wp_bindM
  by (rule persistence_commit_rule)
    (use assms commit_complete commit_failed in \<open>auto\<close>)

text \<open>The rule the operations use: a commit that does not complete leaves the invariant intact.\<close>

lemma commit_rule:
  assumes inv: "binv holds now w" and nr: "\<not> s_reconciliation_required (b_state w)"
    and Q: "\<And>p'. holds p' (apply_batch b (mirror (taskm (b_state w)))) \<Longrightarrow>
      Q () (w\<lparr>b_persistence := p', b_effects := b_effects w @ [Committed b (Ok Complete)]\<rparr>)"
    and E: "\<And>e w'. binv holds now w' \<Longrightarrow>
      b_state w' = (b_state w)\<lparr>s_reconciliation_required := s_reconciliation_required (b_state w')\<rparr> \<Longrightarrow> E e w'"
  shows "wp (commit_transition P b) E Q w"
  by (rule commit_transition_rule [where V = "mirror (taskm (b_state w))"])
    (use inv nr in \<open>auto simp: binv_def intro!: Q E\<close>)

section \<open>Reconciliation\<close>

lemma reconcile_rule:
  assumes inv: "binv holds now w"
    and Q: "\<And>w'. reconciled_world holds now w w' \<Longrightarrow> Q () w'"
    and E: "\<And>e w'. binv holds now w' \<Longrightarrow> b_state w' = b_state w \<Longrightarrow> E e w'"
  shows "wp (reconcile_state_if_required P json_len now) E Q w"
proof (cases "s_reconciliation_required (b_state w)")
  case False
  with inv show ?thesis
    by (auto simp: reconcile_state_if_required_def reconciled_world_def intro: Q)
next
  case True
  have fail: "E e w'" if "b_state w' = b_state w" for e w'
    by (rule E) (use inv True that in \<open>simp_all add: binv_def\<close>)
  have load: "wp (persistence_load P now) E
      (\<lambda>snap w'. b_state w' = b_state w \<and> holds (b_persistence w') (table_of (snap_tasks snap))) w1"
    if w1: "b_state w1 = b_state w" for w1
  proof -
    obtain r p' where l: "bp_load P now (b_persistence w1) = (r, p')" by fastforce
    then show ?thesis
      using load_no_panic fail w1
      by (cases r) (auto simp: wp_def persistence_load_def dest: load_table)
  qed
  have rebuild: "wp (commit_recovery P batch) E
      (\<lambda>_. wp (rebuild_state now last (restore_order (retained_after now tasks))) E Q) w2"
    if w2: "b_state w2 = b_state w" "holds (b_persistence w2) (table_of ds)"
      and v: "validate_and_reconcile_snapshot json_len ds now BrokerRecoveryReport_default = Ok (tasks, batch, rep)"
    for w2 ds tasks batch rep last
  proof -
    let ?ts = "restore_order (retained_after now tasks)"
    note ok = repaired_restore_list [OF v]
    have finish: "wp (rebuild_state now last ?ts) E Q w3"
      if "b_state w3 = b_state w" "holds (b_persistence w3) (table_of ?ts)" for w3
    proof (rule wp_conseq [OF rebuild_wp [OF _ ok(1)]])
      show "wf_state (b_state w3)" using inv that by (simp add: binv_def)
      fix a and w' :: "'p Broker" assume "rebuilt now last ?ts (b_state w3) (b_state w') \<and> b_persistence w' = b_persistence w3"
      with that True show "Q a w'"
        by (cases a) (auto simp: rebuilt_def reconciled_world_def binv_def intro!: Q)
    qed simp
    show ?thesis
    proof (cases "PersistenceBatch_is_empty batch")
      case True
      with finish [of w2] w2 ok(2) show ?thesis
        by (simp add: commit_recovery_def apply_batch_empty)
    next
      case False
      then show ?thesis
        unfolding commit_recovery_def wp_whenM wp_bindM
        by (simp, intro persistence_commit_rule)
          (use fail finish w2 commit_complete ok(2) in auto)
    qed
  qed
  have validated: "wp (lift_res (validate_and_reconcile_snapshot json_len ds now BrokerRecoveryReport_default)) E
      (\<lambda>(tasks, batch, _). wp (bindM (commit_recovery P batch) (\<lambda>_.
         rebuild_state now last (restore_order (retained_after now tasks)))) E Q) w2"
    if "b_state w2 = b_state w" "holds (b_persistence w2) (table_of ds)" for w2 ds last
    unfolding wp_lift_res using rebuild [OF that] fail that by auto
  have loaded: "wp (persistence_load P now) E (\<lambda>snap. wp
      (if snap_last_registration_epoch snap = u64_max then throw PersistenceUnavailable
       else bindM (lift_res (validate_and_reconcile_snapshot json_len (snap_tasks snap) now
                    BrokerRecoveryReport_default)) (\<lambda>(tasks, batch, _).
            bindM (commit_recovery P batch) (\<lambda>_.
            rebuild_state now (snap_last_registration_epoch snap)
              (restore_order (retained_after now tasks))))) E Q) w1"
    if "b_state w1 = b_state w" for w1
    by (rule wp_conseq [OF load [OF that]]) (auto simp: case_prod_unfold fail validated [unfolded case_prod_unfold])
  show ?thesis
    unfolding reconcile_state_if_required_def wp_bindM wp_broker
    using True by (simp, intro persistence_commit_rule) (simp_all add: loaded fail)
qed

section \<open>Maintenance\<close>

lemma maintain_rule:
  assumes inv: "binv holds now w"
    and Q: "\<And>w'. maintained_world holds now w w' \<Longrightarrow> Q () w'"
    and E: "\<And>e w'. halted_world holds now w w' \<Longrightarrow> E e w'"
  shows "wp (maintain_state P json_len now) E Q w"
  unfolding maintain_state_def wp_bindM [of "reconcile_state_if_required P json_len now"]
proof (rule reconcile_rule [OF inv])
  fix e w' assume "binv holds now w'" "b_state w' = b_state w"
  then show "E e w'" by (intro E) (auto simp: halted_world_def)
next
  fix w0 assume w0: "reconciled_world holds now w w0"
  then have inv0: "binv holds now w0" and nr: "\<not> s_reconciliation_required (b_state w0)"
    by (simp_all add: reconciled_world_def)
  let ?s = "b_state w0"
  have wf: "wf_state ?s" using inv0 by (simp add: binv_def)
  have halt: "E e w'" if "binv holds now w'"
    "b_state w' = ?s\<lparr>s_reconciliation_required := s_reconciliation_required (b_state w')\<rparr>" for e w'
    using that w0 by (intro E) (auto simp: halted_world_def)
  have body: "wp (apply_maintenance now (due_ids now ?s) (expired_registration_ids now ?s)
      (expired_credentials now ?s)) E Q w1"
    if b: "maintenance_batch now (due_ids now ?s) (expired_credentials now ?s) ?s = Ok b"
      and w1: "b_state w1 = ?s" "holds (b_persistence w1) (apply_batch b (mirror (taskm ?s)))" for b w1
  proof -
    obtain rs s1 s2 s3 where steps:
      "expire_tasks now (due_ids now ?s) ?s = (Ok rs, s1)"
      "forM (expired_credentials now ?s) bump_requeued_versions_for_credentials s1 = (Ok (), s2)"
      "detach_expired (expired_registration_ids now ?s) s2 = (expired_registration_ids now ?s, s3)"
      and ms: "maintained_state now ?s (prune_terminal_tasks now (prune_delivery_deadlines now s3))"
      by (rule maintenance_steps [OF wf b]) blast
    let ?s5 = "prune_terminal_tasks now (prune_delivery_deadlines now s3)"
    have s5: "wf_state ?s5" "taskm ?s5 = maintained now (expired_credentials now ?s) (taskm ?s)"
      using ms by (simp_all add: maintained_state_def)
    have final: "Q () w'" if "b_state w' = prune_terminal_tasks now (prune_delivery_deadlines now s3)"
      "b_persistence w' = b_persistence w1" for w'
    proof (rule Q)
      show "maintained_world holds now w w'"
        using w0 ms w1(2) nr that maintained_inbox [OF ms] inv0 maintained_flags [OF ms] s5
        by (auto simp: maintained_world_def binv_def maintenance_batch_mirror [OF wf b])
    qed
    show ?thesis
      by (simp add: apply_maintenance_def w1(1)) (simp add: wp_def steps final)
  qed
  have commit: "wp (commit_transition P b) E (\<lambda>_. wp (apply_maintenance now (due_ids now ?s)
      (expired_registration_ids now ?s) (expired_credentials now ?s)) E Q) w0"
    if "maintenance_batch now (due_ids now ?s) (expired_credentials now ?s) ?s = Ok b" for b
    by (rule commit_rule [OF inv0 nr]) (use body [OF that] halt in auto)
  have empty: "wp (apply_maintenance now (due_ids now ?s) (expired_registration_ids now ?s)
      (expired_credentials now ?s)) E Q w0"
    if "maintenance_batch now (due_ids now ?s) (expired_credentials now ?s) ?s = Ok b"
      "PersistenceBatch_is_empty b" for b
    by (rule body [OF that(1)]) (use inv0 nr in \<open>simp_all add: binv_def apply_batch_empty [OF that(2)]\<close>)
  have err: "E e w0" for e by (rule halt) (use inv0 in simp_all)
  show "wp (bindM (get_state s_tasks) (\<lambda>tasks.
     bindM (lift_res (due_task_ids now tasks)) (\<lambda>due.
     bindM (get_state (expired_registration_ids now)) (\<lambda>expired_ids.
     bindM (get_state (expired_credentials now)) (\<lambda>cs.
     bindM (get_state (maintenance_batch now due cs)) (\<lambda>batch_res.
     bindM (lift_res batch_res) (\<lambda>batch.
     bindM (whenM (\<not> PersistenceBatch_is_empty batch) (commit_transition P batch)) (\<lambda>_.
     apply_maintenance now due expired_ids cs)))))))) E Q w0"
    by (simp add: due_task_ids_Ok [OF wf] wp_lift_res maintenance_batch_not_Panic [OF wf] commit empty err)
qed

end

end
