(* ===== verification/Broker_Transitions.thy ===== *)
theory Broker_Transitions
  imports Broker_Contract
begin

text \<open>
  The state changes of the operations, each with its exact effect and its preservation of the
  invariant: leasing, acknowledging, enqueueing, requeueing with detachment, and registering.
\<close>

section \<open>Inboxes\<close>

lemma inbox_complete_drop:
  assumes "inbox_complete now R T" "\<And>j. j \<noteq> k \<Longrightarrow> T' j = T j" "\<And>a. \<not> awaits T' a k"
  shows "inbox_complete now (\<lambda>i. map_option (without_task k) (R i)) T'"
  unfolding inbox_complete_def
proof (intro allI impI)
  fix i r' j assume r': "map_option (without_task k) (R i) = Some r'" "now < reg_expiry r'"
    and aw: "awaits T' (reg_name r') j"
  obtain r where r: "R i = Some r" "r' = without_task k r" using r' by auto
  have "j \<noteq> k" using assms(3) aw by auto
  then have "awaits T (reg_name r) j" using aw r assms(2) [of j] by (simp add: awaits_def)
  with assms(1) r r'(2) \<open>j \<noteq> k\<close> show "j \<in> set (rs_inbox r')"
    by (auto simp: inbox_complete_def)
qed

lemma inbox_complete_regs:
  assumes "inbox_complete now R T" "\<And>i r'. R' i = Some r' \<Longrightarrow>
    \<exists>r. R i = Some r \<and> reg_name r = reg_name r' \<and> rs_inbox r = rs_inbox r' \<and> (now < reg_expiry r' \<longrightarrow> now < reg_expiry r)"
  shows "inbox_complete now R' T"
  using assms unfolding inbox_complete_def by metis

section \<open>Leasing\<close>

lemma deliv_inv_same_lease:
  assumes "deliv_inv D T" "T k = Some t" "tr_lease t' = tr_lease t"
  shows "deliv_inv D (T(k \<mapsto> t'))"
  using assms by (auto simp: deliv_inv_def)

lemma deliv_inv_lease:
  assumes d: "deliv_inv D (T(k \<mapsto> v))" and "tr_lease v = None" "tr_lease v' = Some l"
    and new: "D (dl_delivery_id l) = None"
  shows "deliv_inv (D(dl_delivery_id l \<mapsto> k)) (T(k \<mapsto> v'))"
proof -
  have keep: "D x = Some j \<longleftrightarrow> (\<exists>t l. (T(k \<mapsto> v)) j = Some t \<and> tr_lease t = Some l \<and> dl_delivery_id l = x)" for x j
    using d by (simp add: deliv_inv_def)
  have unused: "dl_delivery_id m \<noteq> dl_delivery_id l" if "j \<noteq> k" "T j = Some u" "tr_lease u = Some m" for j u m
    using keep [of "dl_delivery_id m" j] new that by auto
  show ?thesis
    unfolding deliv_inv_def using assms(2,3)
    by (auto simp: keep unused split: if_splits)
qed

lemma wf_update_task:
  assumes wf: "wf_state s" and t: "taskm s k = Some t" and ok: "task_ok k t'"
    and core: "core t' = core t"
    and tasks: "taskm s' = (taskm s)(k \<mapsto> t')" "hm_keys (s_tasks s') = hm_keys (s_tasks s)"
    and deliv: "deliv_inv (delivm s') (taskm s')" "hm_wf (s_tasks_by_delivery s')"
    and owner: "owner_inv (regm s) (taskm s')"
    and same: "s_registrations s' = s_registrations s" "s_registrations_by_agent s' = s_registrations_by_agent s"
      "s_retired_registration_ids s' = s_retired_registration_ids s"
      "s_retired_registration_order s' = s_retired_registration_order s"
      "s_active_tasks_by_agent s' = s_active_tasks_by_agent s"
      "s_outbound_tasks_by_agent s' = s_outbound_tasks_by_agent s"
      "s_tasks_by_sender s' = s_tasks_by_sender s" "s_tasks_by_recipient s' = s_tasks_by_recipient s"
      "s_terminal_deadlines s' = s_terminal_deadlines s" "s_next_task_sequence s' = s_next_task_sequence s"
  shows "wf_state s'"
proof -
  have sc: "same_core (taskm s) (taskm s')"
    unfolding tasks(1) by (rule same_core_upd) (use t core in simp_all)
  have len: "length (s_tasks s') = length (s_tasks s)"
    using arg_cong [OF tasks(2), of length] by simp
  have "tasks_inv (taskm s')"
    using wf ok unfolding tasks(1) by (simp add: wf_state_def tasks_inv_def)
  with wf tasks(2) deliv owner same len core_preserved [OF sc] show ?thesis
    by (simp add: wf_state_parts indexes_ok_def)
qed

lemma lease_effect:
  assumes wf: "wf_state s" and t: "taskm s k = Some t" "live t" "\<not> tr_acknowledged t"
    and v: "tr_state_version t + 1 \<le> u64_max" and fresh: "delivm s (dl_delivery_id l) = None"
    and own: "dl_owner l = Some c" "regm s (cr_id c) = Some r" "credentials (rs_registration r) = c"
      "reg_name r = tr_recipient t"
  obtains s' where "apply_lease k l (map_option dl_delivery_id (tr_lease t)) s = (Ok (), s')" "wf_state s'"
    "taskm s' = (taskm s)(k \<mapsto> leased_record l t)" "s_registrations s' = s_registrations s"
    "s_registrations_by_agent s' = s_registrations_by_agent s"
    "s_retired_registration_ids s' = s_retired_registration_ids s" "frame s' = frame s"
proof -
  let ?t' = "leased_record l t" and ?t0 = "(leased_record l t)\<lparr>tr_lease := None\<rparr>"
  let ?s1 = "s\<lparr>s_tasks := hm_insert k ?t' (s_tasks s)\<rparr>"
  let ?s2 = "release_delivery k (map_option dl_delivery_id (tr_lease t)) ?s1"
  let ?s3 = "?s2\<lparr>s_tasks_by_delivery := hm_insert (dl_delivery_id l) k (s_tasks_by_delivery ?s2)\<rparr>"
  have run: "apply_lease k l (map_option dl_delivery_id (tr_lease t)) s = (Ok (), ?s3)"
    using t v by (simp add: apply_lease_def checked_add_u64_def Let_def leased_record_def)
  have "deliv_inv (delivm ?s2) ((taskm s)(k \<mapsto> ?t0))"
    by (rule deliv_inv_release) (use wf t in \<open>simp_all add: wf_state_def\<close>)
  moreover have "delivm ?s2 (dl_delivery_id l) = None"
    using fresh by (simp add: release_delivery_def split: option.splits)
  ultimately have deliv: "deliv_inv (delivm ?s3) ((taskm s)(k \<mapsto> ?t'))"
    using deliv_inv_lease [where v' = ?t' and l = l] by (simp add: leased_record_def)
  have ok: "task_ok k t" using wf t by (simp add: wf_state_def tasks_inv_def)
  have owner: "owner_inv (regm s) ((taskm s)(k \<mapsto> ?t'))"
    using wf own by (auto simp: wf_state_def owner_inv_def leased_record_def)
  have "wf_state ?s3"
    by (rule wf_update_task [OF wf t(1) task_ok_leased [OF ok t(2,3), of l]])
      (use wf t deliv owner in \<open>simp_all add: keys_hm_insert_old wf_state_parts\<close>)
  with run show thesis
    by (intro that [of ?s3]) (simp_all add: frame_def)
qed

section \<open>Acknowledging\<close>

lemma ack_effect:
  assumes wf: "wf_state s" and t: "taskm s k = Some t" "live t" "\<not> tr_acknowledged t" "tr_lease t \<noteq> None"
    and v: "tr_state_version t + 1 \<le> u64_max"
    and r: "regm s i = Some r" "reg_name r = tr_recipient t"
  obtains s' where "apply_ack k now i s = (Ok (), s')" "wf_state s'"
    "taskm s' = (taskm s)(k \<mapsto> acknowledged_record now t)"
    "regm s' = (\<lambda>i. map_option (without_task k) (regm s i))"
    "s_registrations_by_agent s' = s_registrations_by_agent s"
    "s_retired_registration_ids s' = s_retired_registration_ids s" "frame s' = frame s"
proof -
  let ?t' = "acknowledged_record now t" and ?T' = "(taskm s)(k \<mapsto> acknowledged_record now t)"
  let ?s' = "s\<lparr>s_tasks := hm_insert k ?t' (s_tasks s),
    s_registrations := hm_modify i (without_task k) (s_registrations s)\<rparr>"
  have run: "apply_ack k now i s = (Ok (), ?s')"
    using t r v by (simp add: apply_ack_def checked_add_u64_def Let_def acknowledged_record_def)
  have reg: "reg_inv (regm s) (agentm s)" using wf by (simp add: wf_state_def)
  have regs: "regm ?s' = (\<lambda>i. map_option (without_task k) (regm s i))"
    using inbox_filter_all [OF reg, of "taskm s" k t] t(1) reg_inv_agent [OF reg r(1)] r(2) wf
    by (simp add: wf_state_def)
  have same: "same_regs (regm s) (regm ?s')"
    unfolding regs by (rule same_regs_map) simp
  have ok: "task_ok k t" using wf t by (simp add: wf_state_def tasks_inv_def)
  have lease: "tr_lease ?t' = tr_lease t" "tr_terminal_deadline_unix_ms ?t' = tr_terminal_deadline_unix_ms t"
    "tr_enqueue_sequence ?t' = tr_enqueue_sequence t" "tr_sender ?t' = tr_sender t"
    "tr_recipient ?t' = tr_recipient t" "tr_acknowledged ?t'"
    by (simp_all add: acknowledged_record_def)
  have "tasks_inv ?T'"
    using wf task_ok_acknowledged [OF ok t(2,4)] by (simp add: wf_state_def tasks_inv_def)
  moreover have "inbox_inv (regm ?s') ?T'"
    unfolding regs by (rule inbox_inv_drop [where T = "taskm s"]) (use wf in \<open>auto simp: wf_state_def\<close>)
  moreover have "owner_inv (regm ?s') ?T'"
    by (rule owner_inv_unleased [OF owner_inv_same [OF same]])
      (use wf lease in \<open>simp_all add: wf_state_def\<close>)
  moreover have "deliv_inv (delivm s) ?T'" "seq_inv (s_next_task_sequence s) ?T'"
    "term_inv (s_terminal_deadlines s) ?T'"
    using wf t lease deliv_inv_same_lease seq_inv_upd
    by (auto simp: wf_state_def term_inv_def)
  moreover have "map_option (\<lambda>t. (live t, tr_sender t, tr_recipient t)) (?T' j)
      = map_option (\<lambda>t. (live t, tr_sender t, tr_recipient t)) (taskm s j)" for j
    using t lease by (simp add: live_def)
  then have "indexes_ok ?s'"
    using wf sender_index.parties_cong [of ?T' "taskm s"] recipient_index.parties_cong [of ?T' "taskm s"]
      participant_index.parties_cong [of ?T' "taskm s"]
    by (simp add: wf_state_def indexes_ok_def)
  ultimately have "wf_state ?s'"
    using wf t reg_inv_same [OF same] by (simp add: wf_state_parts keys_hm_insert_old length_hm_insert_old)
  with run regs show thesis
    by (intro that [of ?s']) (simp_all add: frame_def)
qed

section \<open>Enqueueing\<close>

lemma inbox_inv_push:
  assumes inv: "inbox_inv R T" and new: "T k = None" and seq: "seq_inv n T" "n < tr_enqueue_sequence t"
    and t: "live t" "\<not> tr_acknowledged t" and r: "R i = Some r" "reg_name r = tr_recipient t"
  shows "inbox_inv (R(i \<mapsto> push_inbox k r)) (T(k \<mapsto> t))"
proof -
  have new_inv: "inbox_inv R (T(k \<mapsto> t))" by (rule inbox_inv_new [OF inv new])
  have "seq_of (T(k \<mapsto> t)) j < seq_of (T(k \<mapsto> t)) k" if j: "j \<in> set (rs_inbox r)" for j
  proof -
    obtain u where u: "T j = Some u" using inv r j by (fastforce simp: inbox_inv_def awaits_def)
    then have "j \<noteq> k" using new by auto
    with u seq show ?thesis by (fastforce simp: seq_of_def seq_inv_def)
  qed
  moreover have "awaits (T(k \<mapsto> t)) (reg_name r) k" using t r by (simp add: awaits_def)
  moreover have "\<forall>j \<in> set (rs_inbox r). awaits (T(k \<mapsto> t)) (reg_name r) j"
    using new_inv r(1) by (auto simp: inbox_inv_def)
  ultimately show ?thesis
    using new_inv r(1) unfolding inbox_inv_def
    by (auto simp: push_inbox_def sorted_wrt_append)
qed

lemma inbox_complete_push:
  assumes "inbox_complete now R T" "T k = None" "R i = Some r" "reg_name r = tr_recipient t" "reg_inv R A"
  shows "inbox_complete now (R(i \<mapsto> push_inbox k r)) (T(k \<mapsto> t))"
  unfolding inbox_complete_def
proof (intro allI impI)
  fix j r' q assume r': "(R(i \<mapsto> push_inbox k r)) j = Some r'" "now < reg_expiry r'"
    and aw: "awaits (T(k \<mapsto> t)) (reg_name r') q"
  show "q \<in> set (rs_inbox r')"
  proof (cases "q = k")
    case True
    with aw have "reg_name r' = reg_name r" using assms(4) by (simp add: awaits_def)
    moreover from r' obtain r0 where "R j = Some r0" "reg_name r0 = reg_name r'"
      using assms(3) by (cases "j = i") (auto simp: push_inbox_def)
    ultimately have "j = i"
      using reg_inv_agent [OF assms(5)] assms(3) by (metis option.inject)
    with True r'(1) show ?thesis by (auto simp: push_inbox_def)
  next
    case False
    then have "awaits T (reg_name r') q" using aw by (simp add: awaits_def)
    with assms(1,3) r' show ?thesis
      unfolding inbox_complete_def by (cases "j = i") (auto simp: push_inbox_def)
  qed
qed

lemma enqueued_fields [simp]:
  "tr_enqueue_sequence (enqueued_record n a d) = n" "tr_sender (enqueued_record n a d) = a"
  "tr_recipient (enqueued_record n a d) = qd_recipient d" "tr_lease (enqueued_record n a d) = None"
  "tr_acknowledged (enqueued_record n a d) = False" "live (enqueued_record n a d)"
  "tr_terminal_deadline_unix_ms (enqueued_record n a d) = None"
  by (simp_all add: enqueued_record_def live_def)

lemma task_ok_enqueued:
  "qd_sender d = a \<Longrightarrow> i64_range (qd_created_unix_ms d + DELIVERY_TTL_MS) \<Longrightarrow>
     task_ok (qd_task_id d) (enqueued_record n a d)"
  by (simp add: task_ok_def enqueued_record_def live_def live_shape_def)

lemma durable_of_enqueued:
  "durable_of (qd_task_id d) (enqueued_record n a d)
     = enqueued_durable (qd_created_unix_ms d + DELIVERY_TTL_MS) a d"
  by (simp add: durable_of_def enqueued_record_def enqueued_durable_def task_durable_state_def
      effective_attempt_def)

lemma enqueue_effect:
  assumes wf: "wf_state s" and new: "taskm s (qd_task_id d) = None"
    and room: "length (s_tasks s) < MAX_RETAINED_TASKS"
    and seq: "s_next_task_sequence s < n"
    and r: "regm s i = Some r" "reg_name r = qd_recipient d"
    and d: "qd_sender d = a" "i64_range (qd_created_unix_ms d + DELIVERY_TTL_MS)"
  obtains s' where
    "insert_enqueued n dl a d now
       (s\<lparr>s_next_task_sequence := n,
          s_registrations := hm_modify i (push_inbox (qd_task_id d)) (s_registrations s)\<rparr>) = s'"
    "wf_state s'" "taskm s' = (taskm s)(qd_task_id d \<mapsto> enqueued_record n a d)"
    "regm s' = (regm s)(i \<mapsto> push_inbox (qd_task_id d) r)"
    "s_registrations_by_agent s' = s_registrations_by_agent s"
    "s_reconciliation_required s' = s_reconciliation_required s"
    "s_outbound_tasks_by_agent s' = bucket_insert a (qd_task_id d) (s_outbound_tasks_by_agent s)"
proof -
  let ?k = "qd_task_id d" and ?t = "enqueued_record n a d"
  let ?s' = "insert_enqueued n dl a d now
       (s\<lparr>s_next_task_sequence := n, s_registrations := hm_modify i (push_inbox ?k) (s_registrations s)\<rparr>)"
  note defs = insert_enqueued_def index_task_def record_status_event_def Let_def
  have tasks: "taskm ?s' = (taskm s)(?k \<mapsto> ?t)" by (simp add: defs)
  have regs: "regm ?s' = (regm s)(i \<mapsto> push_inbox ?k r)" using r by (simp add: defs)
  have "same_regs (regm s) (regm ?s')"
    using r by (simp add: regs same_regs_def push_inbox_def)
  then have "reg_inv (regm ?s') (agentm s)" "owner_inv (regm ?s') (taskm ?s')"
    using wf reg_inv_same owner_inv_same unfolding tasks
    by (auto simp: wf_state_def intro: owner_inv_unleased)
  moreover have "tasks_inv (taskm ?s')"
    using wf task_ok_enqueued [OF d] by (simp add: wf_state_def tasks_inv_def tasks)
  moreover have "inbox_inv (regm ?s') (taskm ?s')"
    unfolding regs tasks using wf new seq r
    by (intro inbox_inv_push [where n = "s_next_task_sequence s"]) (simp_all add: wf_state_def)
  moreover have "deliv_inv (delivm ?s') (taskm ?s')"
    using wf new deliv_inv_new [of "delivm s" "taskm s" ?k ?t] by (simp add: tasks wf_state_def defs)
  moreover have "seq_inv (s_next_task_sequence ?s') (taskm ?s')"
    using wf seq seq_inv_new [of "s_next_task_sequence s" "taskm s" ?t ?k] by (simp add: tasks wf_state_def defs)
  moreover have "term_inv (s_terminal_deadlines ?s') (taskm ?s')"
    using wf term_inv_new(2) [of "s_terminal_deadlines s" "taskm s" ?t ?k] by (simp add: tasks wf_state_def defs)
  moreover have "indexes_ok ?s'"
    using wf new file_indexes [of "taskm s" ?k ?t] by (simp add: indexes_ok_def wf_state_def defs)
  ultimately have "wf_state ?s'"
    using wf room new by (simp add: wf_state_parts defs length_hm_insert_new)
  with tasks regs show thesis by (intro that [OF refl]) (simp_all add: defs)
qed

section \<open>Requeueing the tasks of a registration\<close>

definition requeue_by :: "RegistrationCredentials \<Rightarrow> TaskRecord \<Rightarrow> TaskRecord" where
  "requeue_by c t = (if leased_by c t then requeued_record t else t)"

definition requeued_map :: "RegistrationCredentials \<Rightarrow> task_map \<Rightarrow> task_map" where
  "requeued_map c T = (\<lambda>k. map_option (requeue_by c) (T k))"

lemma requeued_map_core: "same_core T (requeued_map c T)"
  unfolding requeued_map_def by (rule same_core_map) (simp add: requeue_by_def)

lemma requeued_tasks_Ok:
  assumes wf: "wf_state s" and ds: "requeued_tasks c s = Ok ds"
  shows "ds = map (\<lambda>(k, t). durable_of k (requeued_record t)) (filter (\<lambda>(_, t). leased_by c t) (s_tasks s))"
    and "\<And>k t. taskm s k = Some t \<Longrightarrow> leased_by c t \<Longrightarrow> tr_state_version t + 1 \<le> u64_max"
proof -
  have ok: "taskm s k = Some t \<Longrightarrow> task_ok k t" for k t
    using wf by (simp add: wf_state_def tasks_inv_def)
  have get: "(k, t) \<in> set (s_tasks s) \<longleftrightarrow> taskm s k = Some t" for k t
    using wf by (simp add: wf_state_parts hm_get_iff_mem)
  have "ds = map (\<lambda>(k, t). durable_of k (requeued_record t)) (filter (\<lambda>(_, t). leased_by c t) (s_tasks s))
      \<and> (\<forall>(k, t) \<in> set (filter (\<lambda>(_, t). leased_by c t) (s_tasks s)). tr_state_version t + 1 \<le> u64_max)"
  proof (rule collect_res_map [OF ds [unfolded requeued_tasks_def]])
    fix x y assume x: "x \<in> set (filter (\<lambda>(_, t). leased_by c t) (s_tasks s))"
      and y: "(case x of (k, t) \<Rightarrow> durable_requeued_task k t) = Ok y"
    obtain k t where kt: "x = (k, t)" by fastforce
    with x have "taskm s k = Some t" "leased_by_any [c] t" by (auto simp: get leased_by_any_iff)
    with ok leased_any_live [of k t "[c]"] y kt
    show "y = (case x of (k, t) \<Rightarrow> durable_of k (requeued_record t))
        \<and> (case x of (k, t) \<Rightarrow> tr_state_version t + 1 \<le> u64_max)"
      by (simp add: durable_requeued_task_Ok)
  qed
  then show "ds = map (\<lambda>(k, t). durable_of k (requeued_record t)) (filter (\<lambda>(_, t). leased_by c t) (s_tasks s))"
    "\<And>k t. taskm s k = Some t \<Longrightarrow> leased_by c t \<Longrightarrow> tr_state_version t + 1 \<le> u64_max"
    by (auto simp: get)
qed

lemma requeued_tasks_not_Panic [simp]: "requeued_tasks c s \<noteq> Panic"
  unfolding requeued_tasks_def by (rule collect_res_not_Panic) auto

lemma requeued_tasks_mirror:
  assumes wf: "wf_state s" and ds: "requeued_tasks c s = Ok ds"
  shows "apply_batch \<lparr>pb_registration_epoch_high_watermark = e, pb_upsert_tasks = ds, pb_delete_task_ids = []\<rparr>
      (mirror (taskm s)) = mirror (requeued_map c (taskm s))"
proof
  fix k
  let ?xs = "filter (\<lambda>(_, t). leased_by c t) (s_tasks s)"
  have get: "(k, t) \<in> set (s_tasks s) \<longleftrightarrow> taskm s k = Some t" for k t
    using wf by (simp add: wf_state_parts hm_get_iff_mem)
  have dsx: "ds = map (\<lambda>(k, t). durable_of k (requeued_record t)) ?xs"
    using requeued_tasks_Ok(1) [OF wf ds] .
  have ids: "map dt_task_id ds = map fst ?xs" by (simp add: dsx comp_def case_prod_unfold)
  have dist: "distinct (map dt_task_id ds)"
    unfolding ids using wf by (simp add: wf_state_parts distinct_map_filter)
  have mem: "k \<in> dt_task_id ` set ds \<longleftrightarrow> (\<exists>t. taskm s k = Some t \<and> leased_by c t)"
  proof -
    have "k \<in> dt_task_id ` set ds \<longleftrightarrow> k \<in> set (map fst ?xs)" unfolding ids [symmetric] by simp
    then show ?thesis by (force simp: get)
  qed
  show "apply_batch \<lparr>pb_registration_epoch_high_watermark = e, pb_upsert_tasks = ds, pb_delete_task_ids = []\<rparr>
      (mirror (taskm s)) k = mirror (requeued_map c (taskm s)) k"
  proof (cases "k \<in> dt_task_id ` set ds")
    case True
    then obtain t where t: "taskm s k = Some t" "leased_by c t" using mem by auto
    then have "durable_of k (requeued_record t) \<in> set ds"
      unfolding dsx by (force simp: get)
    from upsert_all_in [OF dist this] t show ?thesis
      by (simp add: apply_batch_def mirror_def requeued_map_def requeue_by_def)
  next
    case False
    with mem show ?thesis
      by (cases "taskm s k") (auto simp: apply_batch_def mirror_def requeued_map_def requeue_by_def upsert_all_notin)
  qed
qed

lemma requeue_detach_effect:
  assumes wf: "wf_state s" and r: "regm s i = Some r" and c: "credentials (rs_registration r) = c"
    and v: "\<And>k t. taskm s k = Some t \<Longrightarrow> leased_by c t \<Longrightarrow> tr_state_version t + 1 \<le> u64_max"
  obtains s1 s' where "bump_requeued_versions_for_credentials c s = (Ok (), s1)"
    "detach_registration i b s1 = (Some r, s')" "wf_state s'" "regm s' = (regm s)(i := None)"
    "agentm s' = (agentm s)(reg_name r := None)" "taskm s' = requeued_map c (taskm s)" "frame s' = frame s"
    "b \<Longrightarrow> i \<in> set (s_retired_registration_ids s')"
proof -
  let ?s1 = "s\<lparr>s_tasks := hm_map_values (bump_record c) (s_tasks s)\<rparr>"
  have hm: "hm_wf (s_tasks s)" using wf by (simp add: wf_state_parts)
  have b: "bump_requeued_versions_for_credentials c s = (Ok (), ?s1)"
    by (rule bump_effect [OF hm v])
  have r1: "regm ?s1 i = Some r" using r by simp
  obtain s' where s': "detach_registration i b ?s1 = (Some r, s')" "wf_state s'"
    "regm s' = (regm ?s1)(i := None)" "agentm s' = (agentm ?s1)(reg_name r := None)"
    "taskm s' = (\<lambda>k. map_option (detached_record c) (taskm ?s1 k))" "frame s' = frame ?s1"
    "b \<Longrightarrow> i \<in> set (s_retired_registration_ids s')"
    by (rule detach_effect [OF wf_bump [OF wf] r1]) (use c in blast)
  have "detached_record c (bump_record c t) = requeue_by c t" for t
    by (simp add: detached_record_def bump_record_def requeue_by_def requeued_record_def)
  then have "taskm s' = requeued_map c (taskm s)"
    using s'(5) by (simp add: requeued_map_def option.map_comp comp_def)
  with s' b show thesis by (intro that [of ?s1 s']) (simp_all add: frame_def)
qed

section \<open>Registering\<close>

lemma collect_res_total: "(\<And>x. x \<in> set xs \<Longrightarrow> f x = Ok (g x)) \<Longrightarrow> collect_res f xs = Ok (map g xs)"
  by (induction xs) auto

text \<open>The tasks handed to a new registration: exactly those that await delivery, in enqueue order.\<close>

lemma queued_effect:
  assumes wf: "wf_state s"
  obtains q where "queued_for_agent a s = Ok q" "\<And>k. k \<in> set (map snd q) \<longleftrightarrow> awaits (taskm s) a k"
    "sorted_wrt (\<lambda>k k'. seq_of (taskm s) k < seq_of (taskm s) k') (map snd q)"
proof -
  let ?b = "bucket (s_active_tasks_by_agent s) a"
  let ?c = "\<lambda>t. tr_recipient t = a \<and> \<not> tr_acknowledged t \<and> \<not> tr_canceled t \<and> \<not> tr_expired t
      \<and> tr_reply t = None \<and> tr_delivery t \<noteq> None"
  let ?g = "\<lambda>k. if ?c (the (taskm s k)) then Some (tr_enqueue_sequence (the (taskm s k)), k) else None"
  have idx: "index_ok by_participant (s_active_tasks_by_agent s) (taskm s)"
    using wf by (simp add: wf_state_def indexes_ok_def)
  have bucket: "k \<in> set ?b \<longleftrightarrow> (\<exists>t. taskm s k = Some t \<and> live t \<and> by_participant t a)" for k
    using idx by (simp add: index_ok_def)
  have dist: "distinct ?b" using idx by (simp add: index_ok_def index_wf_bucket_distinct)
  have run: "collect_res (\<lambda>k. res_bind (expect (taskm s k)) (\<lambda>t.
      Ok (if ?c t then Some (tr_enqueue_sequence t, k) else None))) ?b = Ok (map ?g ?b)"
    by (rule collect_res_total) (auto simp: bucket)
  let ?q = "sort (List.map_filter ?g ?b)"
  have mf: "List.map_filter (\<lambda>x. x) (map ?g ?b) = List.map_filter ?g ?b"
    by (simp add: map_filter_def filter_map comp_def)
  have q: "queued_for_agent a s = Ok ?q"
    unfolding queued_for_agent_def run res_bind.simps mf ..
  have ok: "taskm s k = Some t \<Longrightarrow> task_ok k t" for k t
    using wf by (simp add: wf_state_def tasks_inv_def)
  have mem: "(n, k) \<in> set ?q \<longleftrightarrow> awaits (taskm s) a k \<and> n = seq_of (taskm s) k" for n k
  proof -
    have "(n, k) \<in> set ?q \<longleftrightarrow> k \<in> set ?b \<and> ?c (the (taskm s k)) \<and> n = tr_enqueue_sequence (the (taskm s k))"
      by (auto simp: map_filter_def image_iff split: if_splits)
    also have "\<dots> \<longleftrightarrow> awaits (taskm s) a k \<and> n = seq_of (taskm s) k"
      using ok [of k] by (cases "taskm s k")
        (auto simp: bucket by_participant_def awaits_def seq_of_def task_ok_def live_shape_def)
    finally show ?thesis .
  qed
  have "distinct (List.map_filter ?g ?b)"
    unfolding distinct_map_filter_iff [OF dist] by (auto split: if_splits)
  then have strict: "sorted_wrt (<) ?q" by (simp add: strict_sorted_iff)
  have "sorted_wrt (\<lambda>k k'. seq_of (taskm s) k < seq_of (taskm s) k') (map snd ?q)"
    unfolding sorted_wrt_map
  proof (rule sorted_wrt_mono_rel [OF _ strict])
    fix x y assume m: "x \<in> set ?q" "y \<in> set ?q" and lt: "x < y"
    obtain n k n' k' where x: "x = (n, k)" "y = (n', k')" by fastforce
    with m have aw: "awaits (taskm s) a k" "n = seq_of (taskm s) k" "awaits (taskm s) a k'" "n' = seq_of (taskm s) k'"
      using mem by blast+
    then obtain t t' where t: "taskm s k = Some t" "taskm s k' = Some t'" by (auto simp: awaits_def)
    have "n \<noteq> n'"
    proof
      assume n: "n = n'"
      then have "tr_enqueue_sequence t = tr_enqueue_sequence t'"
        using aw t by (simp add: seq_of_def)
      then have "k = k'" using wf t unfolding wf_state_def seq_inv_def by blast
      with n x lt show False by simp
    qed
    with x lt aw show "seq_of (taskm s) (snd x) < seq_of (taskm s) (snd y)"
      by (auto simp: less_prod_def)
  qed
  moreover have "k \<in> set (map snd ?q) \<longleftrightarrow> awaits (taskm s) a k" for k
  proof -
    have "k \<in> set (map snd ?q) \<longleftrightarrow> (\<exists>n. (n, k) \<in> set ?q)" by force
    then show ?thesis unfolding mem by blast
  qed
  ultimately show thesis using q that by blast
qed

lemma insert_registration_wf:
  assumes wf: "wf_state s" and free: "agentm s a = None" and fresh: "regm s i = None"
    and r: "rg_id (rs_registration r) = i" "reg_name r = a"
    and inbox: "\<And>k. k \<in> set (rs_inbox r) \<longleftrightarrow> awaits (taskm s) a k"
      "sorted_wrt (\<lambda>k k'. seq_of (taskm s) k < seq_of (taskm s) k') (rs_inbox r)"
  shows "wf_state (s\<lparr>s_registrations_by_agent := hm_insert a i (s_registrations_by_agent s),
      s_registrations := hm_insert i r (s_registrations s)\<rparr>)"
    and "inbox_complete now (regm s) (taskm s) \<Longrightarrow> inbox_complete now ((regm s)(i \<mapsto> r)) (taskm s)"
proof -
  have reg: "reg_inv (regm s) (agentm s)" using wf by (simp add: wf_state_def)
  have "reg_inv ((regm s)(i \<mapsto> r)) ((agentm s)(a \<mapsto> i))"
    using reg r fresh free unfolding reg_inv_def by (auto; metis option.distinct(1))
  moreover have "owner_inv ((regm s)(i \<mapsto> r)) (taskm s)"
    unfolding owner_inv_def
  proof (intro allI impI)
    fix k t l assume t: "taskm s k = Some t" "tr_lease t = Some l" "\<not> tr_acknowledged t"
    have "owner_inv (regm s) (taskm s)" using wf by (simp add: wf_state_def)
    with t obtain c r' where c: "dl_owner l = Some c" "regm s (cr_id c) = Some r'"
      "credentials (rs_registration r') = c" "reg_name r' = tr_recipient t"
      unfolding owner_inv_def by metis
    then have "cr_id c \<noteq> i" using fresh by auto
    with c show "\<exists>c r'. dl_owner l = Some c \<and> ((regm s)(i \<mapsto> r)) (cr_id c) = Some r'
        \<and> credentials (rs_registration r') = c \<and> reg_name r' = tr_recipient t" by auto
  qed
  moreover have "inbox_inv ((regm s)(i \<mapsto> r)) (taskm s)"
    using wf inbox r(2) by (simp add: wf_state_def inbox_inv_def)
  ultimately show "wf_state (s\<lparr>s_registrations_by_agent := hm_insert a i (s_registrations_by_agent s),
      s_registrations := hm_insert i r (s_registrations s)\<rparr>)"
    using wf by (simp add: wf_state_parts indexes_ok_def)
  show "inbox_complete now (regm s) (taskm s) \<Longrightarrow> inbox_complete now ((regm s)(i \<mapsto> r)) (taskm s)"
    using inbox r(2) by (simp add: inbox_complete_def)
qed

section \<open>Registrations in place\<close>

text \<open>Changes of one registration that keep its credentials, its name and its inbox.\<close>

lemma wf_modify_registration:
  assumes wf: "wf_state s"
    and f: "\<And>r. credentials (rs_registration (f r)) = credentials (rs_registration r)"
      "\<And>r. reg_name (f r) = reg_name r" "\<And>r. rs_inbox (f r) = rs_inbox r"
      "\<And>r. rg_id (rs_registration (f r)) = rg_id (rs_registration r)"
  shows "wf_state (s\<lparr>s_registrations := hm_modify i f (s_registrations s)\<rparr>)"
proof -
  let ?R = "(regm s)(i := map_option f (regm s i))"
  have old: "\<exists>r. regm s j = Some r \<and> credentials (rs_registration r') = credentials (rs_registration r)
      \<and> reg_name r' = reg_name r \<and> rs_inbox r' = rs_inbox r \<and> rg_id (rs_registration r') = rg_id (rs_registration r)"
    if "?R j = Some r'" for j r' using that f by (cases "j = i") auto
  have new: "\<exists>r'. ?R j = Some r' \<and> credentials (rs_registration r') = credentials (rs_registration r)
      \<and> reg_name r' = reg_name r"
    if "regm s j = Some r" for j r using that f by (cases "j = i") auto
  have reg: "reg_inv (regm s) (agentm s)" using wf by (simp add: wf_state_def)
  have "reg_inv ?R (agentm s)"
    unfolding reg_inv_def
  proof (intro conjI allI impI)
    fix j r' assume "?R j = Some r'"
    then obtain r where "regm s j = Some r" "reg_name r' = reg_name r"
      "rg_id (rs_registration r') = rg_id (rs_registration r)" using old by blast
    with reg_inv_agent [OF reg this(1)]
    show "rg_id (rs_registration r') = j" "agentm s (reg_name r') = Some j" by simp_all
  next
    fix a j assume "agentm s a = Some j"
    with reg obtain r where "regm s j = Some r" "reg_name r = a"
      unfolding reg_inv_def by blast
    then show "\<exists>r. ?R j = Some r \<and> reg_name r = a" using new [of j r] by auto
  qed
  moreover have "inbox_inv ?R (taskm s)"
    unfolding inbox_inv_def
  proof (intro allI impI)
    fix j r' assume "?R j = Some r'"
    then obtain r where "regm s j = Some r" "reg_name r' = reg_name r" "rs_inbox r' = rs_inbox r"
      using old by blast
    with wf show "(\<forall>k \<in> set (rs_inbox r'). awaits (taskm s) (reg_name r') k)
        \<and> sorted_wrt (\<lambda>k k'. seq_of (taskm s) k < seq_of (taskm s) k') (rs_inbox r')"
      by (auto simp: wf_state_def inbox_inv_def)
  qed
  moreover have "owner_inv ?R (taskm s)"
    unfolding owner_inv_def
  proof (intro allI impI)
    fix k t l assume t: "taskm s k = Some t" "tr_lease t = Some l" "\<not> tr_acknowledged t"
    have "owner_inv (regm s) (taskm s)" using wf by (simp add: wf_state_def)
    with t obtain c r where "dl_owner l = Some c" "regm s (cr_id c) = Some r"
      "credentials (rs_registration r) = c" "reg_name r = tr_recipient t"
      unfolding owner_inv_def by metis
    then show "\<exists>c r. dl_owner l = Some c \<and> ?R (cr_id c) = Some r
        \<and> credentials (rs_registration r) = c \<and> reg_name r = tr_recipient t"
      using new [of "cr_id c" r] by auto
  qed
  ultimately show ?thesis
    using wf by (simp add: wf_state_parts indexes_ok_def)
qed

end
