(* ===== verification/Broker_Correct.thy ===== *)
theory Broker_Correct
  imports Broker_Transitions
begin

text \<open>
  Every operation of the broker keeps the invariant, never panics, and on an early return has
  changed nothing but what maintenance changes.  The lemmas are proved once, in the context of
  \<open>persistence_contract\<close>, for every provider.
\<close>

section \<open>Authenticated callers\<close>

text \<open>
  What an operation knows after \<^verbatim>\<open>validate_registration_and_maintain\<close>: the caller's registration
  exists, has not expired, and so has no other.
\<close>

definition ready ::
    "('p \<Rightarrow> task_table \<Rightarrow> bool) \<Rightarrow> i64 \<Rightarrow> RegistrationCredentials \<Rightarrow> 'p Broker \<Rightarrow> RegistrationState \<Rightarrow> bool" where
  "ready holds now c w r \<longleftrightarrow>
     binv holds now w \<and> \<not> s_reconciliation_required (b_state w)
     \<and> regm (b_state w) (cr_id c) = Some r \<and> credentials (rs_registration r) = c
     \<and> (\<forall>i r'. regm (b_state w) i = Some r' \<longrightarrow> now < reg_expiry r')"

text \<open>An early return: nothing has changed but what maintenance changes.\<close>

definition rejected_world :: "('p \<Rightarrow> task_table \<Rightarrow> bool) \<Rightarrow> i64 \<Rightarrow> 'p Broker \<Rightarrow> 'p Broker \<Rightarrow> bool" where
  "rejected_world holds now w w' \<longleftrightarrow>
     binv holds now w'
     \<and> (\<exists>w0. (w0 = w \<or> reconciled_world holds now w w0 \<or> maintained_world holds now w w0)
          \<and> b_state w' = (b_state w0)\<lparr>s_reconciliation_required := s_reconciliation_required (b_state w')\<rparr>)"

lemma halted_rejected: "halted_world holds now w w' \<Longrightarrow> rejected_world holds now w w'"
  by (auto simp: halted_world_def rejected_world_def)

lemma maintained_rejected: "maintained_world holds now w w' \<Longrightarrow> rejected_world holds now w w'"
  unfolding rejected_world_def by (auto simp: maintained_world_def)

lemma commit_rejected:
  "maintained_world holds now w w0 \<Longrightarrow> binv holds now w' \<Longrightarrow>
     b_state w' = (b_state w0)\<lparr>s_reconciliation_required := s_reconciliation_required (b_state w')\<rparr> \<Longrightarrow>
     rejected_world holds now w w'"
  unfolding rejected_world_def by blast

lemma rejected_binv: "rejected_world holds now w w' \<Longrightarrow> binv holds now w'"
  by (simp add: rejected_world_def)

lemma validate_active_Ok:
  "wf_state s \<Longrightarrow> validate_active_registration s c now = Ok () \<longleftrightarrow>
     (\<exists>r. regm s (cr_id c) = Some r \<and> credentials (rs_registration r) = c \<and> now < reg_expiry r)"
  using reg_inv_agent [of "regm s" "agentm s" "cr_id c"]
  by (cases c) (auto simp: validate_active_registration_def credentials_def wf_state_def
      split: option.splits if_splits)

lemma validate_active_not_Panic [simp]: "validate_active_registration s c now \<noteq> Panic"
  by (auto simp: validate_active_registration_def split: option.splits)

lemma maintained_regs:
  fixes w :: "'p Broker"
  assumes "maintained_world holds now w w'"
  shows "map_option rs_registration (regm (b_state w') i) =
    Option.bind (regm (b_state w) i) (\<lambda>r. if now < reg_expiry r then Some (rs_registration r) else None)"
proof -
  obtain w0 :: "'p Broker" where w0: "regs_kept (b_state w) (b_state w0)" "maintained_state now (b_state w0) (b_state w')"
    using assms by (auto simp: maintained_world_def reconciled_world_def)
  then have "map_option rs_registration (regm (b_state w0) i) = map_option rs_registration (regm (b_state w) i)"
    by (simp add: regs_kept_def same_regs_def)
  moreover have "regm (b_state w') i = Option.bind (regm (b_state w0) i)
      (maintain_registration now (due_ids now (b_state w0)))"
    using w0(2) by (simp add: maintained_state_def)
  ultimately show ?thesis
    by (cases "regm (b_state w) i"; cases "regm (b_state w0) i") (auto simp: maintain_registration_def)
qed

lemma maintained_unexpired:
  assumes "maintained_world holds now w w'" "regm (b_state w') i = Some r"
  shows "now < reg_expiry r"
  using maintained_regs [OF assms(1), of i] assms(2)
  by (cases "regm (b_state w) i") (auto split: if_splits)

lemma maintained_ready:
  assumes mw: "maintained_world holds now w w'" and inv: "binv holds now w"
    and v: "validate_active_registration (b_state w) c now = Ok ()"
  obtains r where "ready holds now c w' r"
proof -
  obtain r where r: "regm (b_state w) (cr_id c) = Some r" "credentials (rs_registration r) = c" "now < reg_expiry r"
    using v inv by (auto simp: binv_def validate_active_Ok)
  then obtain r' where "regm (b_state w') (cr_id c) = Some r'" "rs_registration r' = rs_registration r"
    using maintained_regs [OF mw, of "cr_id c"] by (cases "regm (b_state w') (cr_id c)") auto
  with r mw maintained_unexpired [OF mw] show thesis
    by (intro that [of r']) (auto simp: ready_def maintained_world_def)
qed

lemma wp_own_registration:
  "ready holds now c w r \<Longrightarrow> wp (own_registration c) E Q w = Q r w"
  by (simp add: own_registration_def ready_def)

context persistence_contract
begin

lemma authenticated_rule:
  assumes inv: "binv holds now w"
    and Q: "\<And>w' r. maintained_world holds now w w' \<Longrightarrow> ready holds now c w' r \<Longrightarrow> Q () w'"
    and E: "\<And>e w'. rejected_world holds now w w' \<Longrightarrow> E e w'"
  shows "wp (validate_registration_and_maintain P json_len c now) E Q w"
  unfolding validate_registration_and_maintain_def wp_bindM wp_broker
proof (rule maintain_rule [OF inv])
  fix w' assume mw: "maintained_world holds now w w'"
  show "wp (lift_res (validate_active_registration (b_state w) c now)) E Q w'"
    unfolding wp_lift_res
    using maintained_ready [OF mw inv] Q [OF mw] E [OF maintained_rejected [OF mw]]
    by auto
qed (use E halted_rejected in blast)

text \<open>The same, with the state the operation goes on from given as the one maintenance leaves.\<close>

lemma authenticated_state_rule:
  assumes "binv holds now w"
    and Q: "\<And>w' r. maintained_world holds now w w' \<Longrightarrow> ready holds now c w' r \<Longrightarrow>
      w' = snd (maintain_state P json_len now w) \<Longrightarrow> Q () w'"
    and E: "\<And>e w'. rejected_world holds now w w' \<Longrightarrow> E e w'"
  shows "wp (validate_registration_and_maintain P json_len c now) E Q w"
proof (rule wp_run, rule authenticated_rule [OF assms(1)])
  have "snd (validate_registration_and_maintain P json_len c now w) = snd (maintain_state P json_len now w)"
    by (simp add: validate_registration_and_maintain_def get_state_def bindM_def op_defs split: prod.splits res.splits)
  then show "w' = snd (validate_registration_and_maintain P json_len c now w) \<longrightarrow> Q () w'"
    if "maintained_world holds now w w'" "ready holds now c w' r" for w' r
    using Q [OF that] by metis
qed (rule E)

end

section \<open>Terminal operations\<close>

text \<open>
  The effect of settling a live task: its record becomes terminal, it leaves its recipient's inbox,
  the durable task is committed, and then each of its reply waiters gets the result.
\<close>

definition settled_world ::
    "i64 \<Rightarrow> TaskId \<Rightarrow> TaskRecord \<Rightarrow> TerminalState \<Rightarrow> ReplyResult \<Rightarrow> 'p Broker \<Rightarrow> 'p Broker \<Rightarrow> bool" where
  "settled_world now k t ts result w w' \<longleftrightarrow>
     taskm (b_state w') = (taskm (b_state w))(k \<mapsto> terminated_record now ts t)
     \<and> regm (b_state w') = (\<lambda>i. map_option (without_task k) (regm (b_state w) i))
     \<and> b_effects w' = b_effects w
         @ Committed (single_task_batch (durable_of k (terminated_record now ts t))) (Ok Complete)
         # map (\<lambda>v. SendReply v result) (tr_reply_waiters t)"

definition has_outcome :: "TerminalState \<Rightarrow> TaskRecord \<Rightarrow> bool" where
  "has_outcome ts t \<longleftrightarrow> (task_durable_state t, tr_reply t) = terminal_columns ts"

text \<open>
  A caller that is a party to the task (its recipient or its sender, by \<open>party\<close>) settles it: either
  the task already has that very outcome, or it was live and gets it now.
\<close>

definition settles ::
    "('p \<Rightarrow> task_table \<Rightarrow> bool) \<Rightarrow> i64 \<Rightarrow> RegistrationCredentials \<Rightarrow> TaskId \<Rightarrow> (TaskRecord \<Rightarrow> AgentName) \<Rightarrow>
     TerminalState \<Rightarrow> ReplyResult \<Rightarrow> 'p Broker \<Rightarrow> 'p Broker \<Rightarrow> bool" where
  "settles holds now c k party ts result w w' \<longleftrightarrow>
     binv holds now w' \<and> \<not> s_reconciliation_required (b_state w')
     \<and> (\<exists>w1 r t. maintained_world holds now w w1 \<and> ready holds now c w1 r
          \<and> taskm (b_state w1) k = Some t \<and> party t = reg_name r
          \<and> (if live t then settled_world now k t ts result w1 w' else has_outcome ts t \<and> w' = w1))"

lemma ready_task_ok: "ready holds now c w r \<Longrightarrow> taskm (b_state w) k = Some t \<Longrightarrow> task_ok k t"
  by (simp add: ready_def binv_def wf_state_def tasks_inv_def)

lemma live_of_guards:
  "task_ok k t \<Longrightarrow> \<not> tr_canceled t \<Longrightarrow> \<not> tr_expired t \<Longrightarrow> tr_reply t = None \<Longrightarrow> live t"
  by (auto simp: task_ok_def terminal_shape_def split: if_splits)

lemma has_outcome_cases:
  "task_ok k t \<Longrightarrow> tr_canceled t \<Longrightarrow> \<not> live t \<and> has_outcome TerminalCanceled t"
  "task_ok k t \<Longrightarrow> tr_failed t \<Longrightarrow> tr_reply t = Some m \<Longrightarrow> \<not> live t \<and> has_outcome (TerminalFailed m) t"
  "task_ok k t \<Longrightarrow> tr_rejected t \<Longrightarrow> tr_reply t = Some m \<Longrightarrow> \<not> live t \<and> has_outcome (TerminalRejected m) t"
  "task_ok k t \<Longrightarrow> tr_reply t = Some m \<Longrightarrow> \<not> tr_failed t \<Longrightarrow> \<not> tr_rejected t \<Longrightarrow>
     \<not> live t \<and> has_outcome (TerminalReplied m) t"
  by (auto simp: task_ok_def live_shape_def terminal_shape_def has_outcome_def task_durable_state_def
      split: if_splits)

context persistence_contract
begin

lemma commit_terminal_rule:
  assumes inv: "binv holds now w" and nr: "\<not> s_reconciliation_required (b_state w)"
    and t: "taskm (b_state w) k = Some t" "live t" and cols: "terminal_columns ts = (st, rep)"
    and Q: "\<And>w'. binv holds now w' \<Longrightarrow> \<not> s_reconciliation_required (b_state w') \<Longrightarrow>
      settled_world now k t ts result w w' \<Longrightarrow> Q () w'"
    and E: "\<And>e w'. binv holds now w' \<Longrightarrow>
      b_state w' = (b_state w)\<lparr>s_reconciliation_required := s_reconciliation_required (b_state w')\<rparr> \<Longrightarrow> E e w'"
  shows "wp (commit_terminal P now k t st rep ts result) E Q w"
proof -
  let ?s = "b_state w" and ?t' = "terminated_record now ts t"
  have wf: "wf_state ?s" and inbox: "inbox_complete now (regm ?s) (taskm ?s)"
    using inv nr by (simp_all add: binv_def)
  have ok: "task_ok k t" using wf t(1) by (simp add: wf_state_def tasks_inv_def)
  have "wp (commit_transition P (single_task_batch d)) E
      (\<lambda>_. wp (bindM (in_state (terminalize_task k now ts)) (\<lambda>waiters.
         resolve_reply_waiters (map (\<lambda>w. (w, result)) waiters))) E Q) w"
    if d: "d = durable_of k ?t'" and v: "tr_state_version t + 1 \<le> u64_max"
      and n: "i64_range (now + TERMINAL_RETENTION_MS)" for d
  proof (rule commit_rule [OF inv nr _ E])
    fix p' assume p': "holds p' (apply_batch (single_task_batch d) (mirror (taskm ?s)))"
    let ?w = "w\<lparr>b_persistence := p', b_effects := b_effects w @ [Committed (single_task_batch d) (Ok Complete)]\<rparr>"
    obtain s' where s': "terminalize_task k now ts ?s = (Ok (tr_reply_waiters t), s')" "wf_state s'"
      "taskm s' = (taskm ?s)(k \<mapsto> ?t')" "regm s' = (\<lambda>i. map_option (without_task k) (regm ?s i))"
      "frame s' = frame ?s"
      by (rule terminalize_effect [OF wf t v n]) blast
    have "inbox_complete now (regm s') (taskm s')"
      unfolding s'(3,4) by (rule inbox_complete_drop [OF inbox]) (auto simp: awaits_def)
    then have final: "Q () (?w\<lparr>b_state := s',
        b_effects := b_effects ?w @ map (\<lambda>(v, r). SendReply v r) (map (\<lambda>v. (v, result)) (tr_reply_waiters t))\<rparr>)"
      using s' p' nr d
      by (intro Q) (simp_all add: binv_def frame_def settled_world_def single_task_batch_def
          apply_batch_single comp_def)
    then show "wp (bindM (in_state (terminalize_task k now ts)) (\<lambda>waiters.
         resolve_reply_waiters (map (\<lambda>w. (w, result)) waiters))) E Q ?w"
      by simp (simp add: wp_def s'(1) comp_def)
  qed
  then show ?thesis
    unfolding commit_terminal_def wp_bindM wp_lift_res
    using E [OF inv] by (auto simp: durable_terminal_task_Ok [OF ok cols])
qed

lemma settle_body:
  assumes mw: "maintained_world holds now w w1" and rd: "ready holds now c w1 r"
    and t: "taskm (b_state w1) k = Some t" "party t = reg_name r" "live t"
    and cols: "terminal_columns ts = (st, rep)"
  shows "wp (commit_terminal P now k t st rep ts result) (\<lambda>_. rejected_world holds now w)
    (\<lambda>_. settles holds now c k party ts result w) w1"
proof (rule commit_terminal_rule [OF _ _ t(1,3) cols])
  show "binv holds now w1" "\<not> s_reconciliation_required (b_state w1)"
    using rd by (simp_all add: ready_def)
  show "settles holds now c k party ts result w w'"
    if "binv holds now w'" "\<not> s_reconciliation_required (b_state w')" "settled_world now k t ts result w1 w'" for w'
    unfolding settles_def using mw rd t that by (intro conjI exI [of _ w1] exI [of _ r] exI [of _ t]) simp_all
qed (rule commit_rejected [OF mw])

lemma settle_again:
  assumes mw: "maintained_world holds now w w1" and rd: "ready holds now c w1 r"
    and t: "taskm (b_state w1) k = Some t" "party t = reg_name r" "\<not> live t \<and> has_outcome ts t"
  shows "settles holds now c k party ts result w w1"
  unfolding settles_def using mw rd t
  by (intro conjI exI [of _ w1] exI [of _ r] exI [of _ t]) (simp_all add: ready_def)

lemma reply_correct:
  assumes inv: "binv holds now w"
  shows "wp (reply P json_len now c k payload) (\<lambda>_. rejected_world holds now w)
    (\<lambda>_. settles holds now c k tr_recipient (TerminalReplied payload) (Ok payload) w) w"
  unfolding reply_def wp_bindM
proof (rule authenticated_rule [OF inv], goal_cases)
  case (1 w1 r)
  note ok = ready_task_ok [OF 1(2)]
  show ?case
    by (cases "taskm (b_state w1) k")
      (auto simp: wp_own_registration [OF 1(2)] maintained_rejected [OF 1(1)] settle_body [OF 1]
        settle_again [OF 1] has_outcome_cases(4) [OF ok] live_of_guards [OF ok] split: option.splits)
qed

lemma recipient_terminal_correct:
  assumes inv: "binv holds now w"
  shows "wp (recipient_terminal P json_len now c k message outcome) (\<lambda>_. rejected_world holds now w)
    (\<lambda>_. case outcome of
       RecipientFailed \<Rightarrow> settles holds now c k tr_recipient (TerminalFailed message) (Err TaskFailed) w
     | RecipientRejected \<Rightarrow> settles holds now c k tr_recipient (TerminalRejected message) (Err TaskRejected) w) w"
  unfolding recipient_terminal_def wp_bindM
proof (rule authenticated_rule [OF inv], goal_cases)
  case (1 w1 r)
  note ok = ready_task_ok [OF 1(2)]
  show ?case
    by (cases "taskm (b_state w1) k"; cases outcome)
      (auto simp: wp_own_registration [OF 1(2)] maintained_rejected [OF 1(1)] settle_body [OF 1]
        settle_again [OF 1] has_outcome_cases(2,3) [OF ok] live_of_guards [OF ok])
qed

lemma cancel_task_correct:
  assumes inv: "binv holds now w"
  shows "wp (cancel_task P json_len now c k) (\<lambda>_. rejected_world holds now w)
    (\<lambda>_. settles holds now c k tr_sender TerminalCanceled (Err TaskCanceled) w) w"
  unfolding cancel_task_def wp_bindM
proof (rule authenticated_rule [OF inv], goal_cases)
  case (1 w1 r)
  note ok = ready_task_ok [OF 1(2)]
  show ?case
    by (cases "taskm (b_state w1) k")
      (auto simp: wp_own_registration [OF 1(2)] maintained_rejected [OF 1(1)] settle_body [OF 1]
        settle_again [OF 1] has_outcome_cases(1) [OF ok] live_of_guards [OF ok])
qed

section \<open>Operations that only read\<close>

lemma authenticate_correct:
  assumes inv: "binv holds now w"
  shows "wp (authenticate P json_len now c) (\<lambda>_. rejected_world holds now w)
    (\<lambda>reg w'. maintained_world holds now w w'
       \<and> (\<exists>r. ready holds now c w' r \<and> reg = rs_registration r)) w"
  unfolding authenticate_def wp_bindM
proof (rule authenticated_rule [OF inv], goal_cases)
  case (1 w1 r)
  then show ?case by (auto simp: wp_own_registration)
qed

lemma task_snapshot_correct:
  assumes inv: "binv holds now w"
  shows "wp (task_snapshot P json_len now c k) (\<lambda>_. rejected_world holds now w)
    (\<lambda>d w'. maintained_world holds now w w'
       \<and> (\<exists>r t. ready holds now c w' r \<and> taskm (b_state w') k = Some t \<and> tr_sender t = reg_name r
            \<and> d = durable_of k t)) w"
  unfolding task_snapshot_def wp_bindM
proof (rule authenticated_rule [OF inv], goal_cases)
  case (1 w1 r)
  then show ?case
    by (cases "taskm (b_state w1) k")
      (auto simp: wp_own_registration [OF 1(2)] maintained_rejected [OF 1(1)] wp_lift_res
        durable_task_of_ok [OF ready_task_ok [OF 1(2)]])
qed

lemma task_snapshot_for_sender_correct:
  assumes inv: "binv holds now w"
  shows "wp (task_snapshot_for_sender P json_len now sender k) (\<lambda>_. rejected_world holds now w)
    (\<lambda>d w'. maintained_world holds now w w'
       \<and> (\<exists>t. taskm (b_state w') k = Some t \<and> tr_sender t = sender \<and> d = durable_of k t)) w"
  unfolding task_snapshot_for_sender_def wp_bindM
proof (rule maintain_rule [OF inv], goal_cases)
  case (1 w1)
  then have ok: "taskm (b_state w1) k = Some t \<Longrightarrow> task_ok k t" for t
    by (simp add: maintained_world_def binv_def wf_state_def tasks_inv_def)
  show ?case
    by (cases "taskm (b_state w1) k")
      (auto simp: maintained_rejected [OF 1] wp_lift_res durable_task_of_ok [OF ok] 1)
qed (rule halted_rejected)

lemma list_agents_correct:
  assumes inv: "binv holds now w"
  shows "wp (list_agents P json_len now) (\<lambda>_ _. False)
    (\<lambda>regs w'. (regs = live_registrations now (b_state w') \<and> maintained_world holds now w w')
       \<or> (regs = [] \<and> halted_world holds now w w')) w"
proof -
  have "wp (maintain_state P json_len now) (\<lambda>_. halted_world holds now w) (\<lambda>_. maintained_world holds now w) w"
    by (rule maintain_rule [OF inv])
  then show ?thesis
    by (auto simp: wp_def list_agents_def split: prod.splits res.splits)
qed

lemma operations_snapshot_correct:
  assumes inv: "binv holds now w"
  shows "wp (operations_snapshot P json_len now) (\<lambda>_. rejected_world holds now w)
    (\<lambda>snap w'. maintained_world holds now w w' \<and> os_tasks snap = task_counts (b_state w')) w"
  unfolding operations_snapshot_def wp_bindM
  by (rule maintain_rule [OF inv]) (auto simp: Let_def intro: halted_rejected)

lemma directory_snapshot_correct:
  assumes inv: "binv holds now w"
  shows "wp (directory_snapshot P json_len now panes) (\<lambda>_ _. False)
    (\<lambda>adw w'. binv holds now w' \<and> adw_generation adw = b_generation w') w"
  unfolding directory_snapshot_def wp_bindM
  by (rule wp_conseq [OF list_agents_correct [OF inv]])
    (auto simp: Let_def maintained_world_def halted_world_def)

lemma resume_section_correct:
  assumes inv: "binv holds now w"
  shows "wp (resume_section P json_len now c d) (\<lambda>_. rejected_world holds now w)
    (\<lambda>_. maintained_world holds now w) w"
  unfolding resume_section_def wp_bindM
proof (rule authenticated_rule [OF inv], goal_cases)
  case (1 w1 r)
  then show ?case
    by (auto simp: wp_own_registration [OF 1(2)] maintained_rejected [OF 1(1)] wp_lift_res
        durable_task_of_ok [OF ready_task_ok [OF 1(2)]] split: option.splits)
qed

end

section \<open>Registrations\<close>

definition renewed :: "i64 \<Rightarrow> Registration \<Rightarrow> Registration" where
  "renewed now g = g\<lparr>rg_expires_unix_ms := now + REGISTRATION_TTL_MS\<rparr>"

text \<open>A change of the caller's registration that keeps its identity and inbox.\<close>

lemma ready_modify_registration:
  assumes rd: "ready holds now c w r"
    and f: "\<And>r. credentials (rs_registration (f r)) = credentials (rs_registration r)"
      "\<And>r. reg_name (f r) = reg_name r" "\<And>r. rs_inbox (f r) = rs_inbox r"
      "\<And>r. rg_id (rs_registration (f r)) = rg_id (rs_registration r)"
  shows "binv holds now (w\<lparr>b_state := (b_state w)\<lparr>s_registrations :=
      hm_modify (cr_id c) f (s_registrations (b_state w))\<rparr>\<rparr>)"
proof -
  let ?s = "b_state w"
  have inv: "binv holds now w" and nr: "\<not> s_reconciliation_required ?s" using rd by (simp_all add: ready_def)
  have "inbox_complete now ((regm ?s)(cr_id c := map_option f (regm ?s (cr_id c)))) (taskm ?s)"
  proof (rule inbox_complete_regs [of now "regm ?s"])
    show "inbox_complete now (regm ?s) (taskm ?s)" using inv nr by (simp add: binv_def)
    show "\<exists>r. regm ?s i = Some r \<and> reg_name r = reg_name r' \<and> rs_inbox r = rs_inbox r'
        \<and> (now < reg_expiry r' \<longrightarrow> now < reg_expiry r)"
      if "((regm ?s)(cr_id c := map_option f (regm ?s (cr_id c)))) i = Some r'" for i r'
      using that rd f by (cases "i = cr_id c") (auto simp: ready_def)
  qed
  moreover have "wf_state (?s\<lparr>s_registrations := hm_modify (cr_id c) f (s_registrations ?s)\<rparr>)"
    by (rule wf_modify_registration) (use inv f in \<open>simp_all add: binv_def\<close>)
  ultimately show ?thesis using inv nr by (simp add: binv_def)
qed

lemma WaitGuard_drop_binv: "binv holds now w \<Longrightarrow> binv holds now (WaitGuard_drop i w)"
proof -
  assume inv: "binv holds now w"
  let ?f = "\<lambda>r. r\<lparr>rs_wait_active := False\<rparr>" and ?s = "b_state w"
  have "wf_state (?s\<lparr>s_registrations := hm_modify i ?f (s_registrations ?s)\<rparr>)"
    by (rule wf_modify_registration) (use inv in \<open>simp_all add: binv_def\<close>)
  moreover have "inbox_complete now ((regm ?s)(i := map_option ?f (regm ?s i))) (taskm ?s)"
    if "inbox_complete now (regm ?s) (taskm ?s)"
    by (rule inbox_complete_regs [OF that]) (auto split: if_splits)
  ultimately show "binv holds now (WaitGuard_drop i w)"
    using inv by (simp add: binv_def WaitGuard_drop_def)
qed

context persistence_contract
begin

lemma renew_correct:
  assumes inv: "binv holds now w"
  shows "wp (renew P json_len now c) (\<lambda>_. rejected_world holds now w)
    (\<lambda>g w'. binv holds now w' \<and> (\<exists>w1 r. maintained_world holds now w w1 \<and> ready holds now c w1 r
       \<and> g = renewed now (rs_registration r)
       \<and> regm (b_state w') = (regm (b_state w1))(cr_id c \<mapsto> r\<lparr>rs_registration := g\<rparr>)
       \<and> taskm (b_state w') = taskm (b_state w1))) w"
  unfolding renew_def wp_bindM
proof (rule authenticated_rule [OF inv], goal_cases)
  case (1 w1 r)
  show ?case
  proof (cases "checked_add_i64 now REGISTRATION_TTL_MS")
    case (Some e)
    let ?f = "\<lambda>r. r\<lparr>rs_registration := (rs_registration r)\<lparr>rg_expires_unix_ms := e\<rparr>\<rparr>"
    have "binv holds now (w1\<lparr>b_state := (b_state w1)\<lparr>s_registrations :=
        hm_modify (cr_id c) ?f (s_registrations (b_state w1))\<rparr>\<rparr>)"
      by (rule ready_modify_registration [OF 1(2)]) (simp_all add: credentials_def)
    moreover have "regm (b_state w1) (cr_id c) = Some r" using 1(2) by (simp add: ready_def)
    moreover have "e = now + REGISTRATION_TTL_MS" using Some by (simp add: checked_Some)
    ultimately show ?thesis
      using 1 Some by (auto simp: wp_own_registration [OF 1(2)] Let_def renewed_def intro!: exI [of _ w1] exI [of _ r])
  qed (simp add: maintained_rejected [OF 1(1)])
qed

lemma begin_wait_correct:
  assumes inv: "binv holds now w"
  shows "wp (begin_wait P json_len now c) (\<lambda>_. rejected_world holds now w)
    (\<lambda>g w'. binv holds now w' \<and> g = cr_id c \<and> (\<exists>w1 r. maintained_world holds now w w1 \<and> ready holds now c w1 r
       \<and> \<not> rs_wait_active r
       \<and> regm (b_state w') = (regm (b_state w1))(cr_id c \<mapsto> r\<lparr>rs_wait_active := True\<rparr>)
       \<and> taskm (b_state w') = taskm (b_state w1))) w"
  unfolding begin_wait_def wp_bindM
proof (rule authenticated_rule [OF inv], goal_cases)
  case (1 w1 r)
  have "binv holds now (w1\<lparr>b_state := (b_state w1)\<lparr>s_registrations :=
      hm_modify (cr_id c) (\<lambda>r. r\<lparr>rs_wait_active := True\<rparr>) (s_registrations (b_state w1))\<rparr>\<rparr>)"
    by (rule ready_modify_registration [OF 1(2)]) simp_all
  moreover have "regm (b_state w1) (cr_id c) = Some r" using 1(2) by (simp add: ready_def)
  ultimately show ?case
    using 1 by (auto simp: wp_own_registration [OF 1(2)] maintained_rejected intro!: exI [of _ w1] exI [of _ r])
qed

end

end
