(* ===== verification/Broker_Exchange.thy ===== *)
theory Broker_Exchange
  imports Broker_Correct
begin

text \<open>
  The operations that move tasks and registrations: removing and creating a registration, enqueueing
  a task, leasing it to its recipient and acknowledging it.  As in theory \<open>Broker_Correct\<close> each is
  proved for every provider: it does not panic, it keeps the invariant, an early return has changed
  nothing but what maintenance changes, and a normal return has exactly the stated effect.
\<close>

section \<open>Removing a registration\<close>

definition deregistered :: "('p \<Rightarrow> task_table \<Rightarrow> bool) \<Rightarrow> i64 \<Rightarrow> RegistrationCredentials \<Rightarrow> 'p Broker \<Rightarrow> 'p Broker \<Rightarrow> bool" where
  "deregistered holds now c w w' \<longleftrightarrow>
     binv holds now w' \<and> \<not> s_reconciliation_required (b_state w')
     \<and> (\<exists>w1 r. maintained_world holds now w w1 \<and> ready holds now c w1 r
          \<and> regm (b_state w') = (regm (b_state w1))(cr_id c := None)
          \<and> agentm (b_state w') = (agentm (b_state w1))(reg_name r := None)
          \<and> taskm (b_state w') = requeued_map c (taskm (b_state w1)))"

context persistence_contract
begin

lemma remove_registration_correct:
  assumes inv: "binv holds now w"
  shows "wp (remove_registration P json_len now c) (\<lambda>_. rejected_world holds now w)
    (\<lambda>_. deregistered holds now c w) w"
  unfolding remove_registration_def wp_bindM
proof (rule authenticated_rule [OF inv], goal_cases)
  case (1 w1 r)
  let ?s = "b_state w1"
  let ?batch = "\<lambda>ds. \<lparr>pb_registration_epoch_high_watermark = None, pb_upsert_tasks = ds, pb_delete_task_ids = []\<rparr>"
  have inv1: "binv holds now w1" and nr: "\<not> s_reconciliation_required ?s"
    and r: "regm ?s (cr_id c) = Some r" "credentials (rs_registration r) = c"
    using 1(2) by (simp_all add: ready_def)
  have wf: "wf_state ?s" and inbox: "inbox_complete now (regm ?s) (taskm ?s)"
    using inv1 nr by (simp_all add: binv_def)
  have body: "wp (apply_removal c) E (\<lambda>_. deregistered holds now c w) w2"
    if ds: "requeued_tasks c ?s = Ok ds" and w2: "b_state w2 = ?s"
      "holds (b_persistence w2) (apply_batch (?batch ds) (mirror (taskm ?s)))" for ds w2 E
  proof -
    obtain s1 s' where s': "bump_requeued_versions_for_credentials c ?s = (Ok (), s1)"
      "detach_registration (cr_id c) False s1 = (Some r, s')" "wf_state s'" "regm s' = (regm ?s)(cr_id c := None)"
      "agentm s' = (agentm ?s)(reg_name r := None)" "taskm s' = requeued_map c (taskm ?s)" "frame s' = frame ?s"
      by (rule requeue_detach_effect [OF wf r requeued_tasks_Ok(2) [OF wf ds]]) blast+
    have "inbox_complete now (regm s') (taskm s')"
      unfolding s'(4,6)
      by (rule inbox_complete_core [OF requeued_map_core inbox_complete_regs [OF inbox]]) (auto split: if_splits)
    with s' nr w2 have final: "deregistered holds now c w w3"
      if "b_state w3 = s'" "b_persistence w3 = b_persistence w2" for w3
      unfolding deregistered_def using that 1
      by (intro conjI exI [of _ w1] exI [of _ r])
        (simp_all add: binv_def frame_def requeued_tasks_mirror [OF wf ds])
    let ?detach = "\<lambda>s. case detach_registration (cr_id c) False s of (r, s') \<Rightarrow> (Ok r :: _ dres, s')"
    have d: "?detach s1 = (Ok (Some r), s')"
      by (simp add: s'(2))
    show ?thesis
      by (simp add: apply_removal_def w2(1) wp_total [of "bump_requeued_versions_for_credentials c" ?s, OF s'(1)] wp_total [of ?detach s1, OF d] final)
  qed
  have commit: "wp (commit_transition P (?batch ds)) (\<lambda>_. rejected_world holds now w)
      (\<lambda>_. wp (apply_removal c) (\<lambda>_. rejected_world holds now w) (\<lambda>_. deregistered holds now c w)) w1"
    if "requeued_tasks c ?s = Ok ds" for ds
    by (rule commit_rule [OF inv1 nr], rule body [OF that])
      (simp, simp, rule commit_rejected [OF 1(1)])
  have skip: "wp (apply_removal c) E (\<lambda>_. deregistered holds now c w) w1" if "requeued_tasks c ?s = Ok []" for E
    by (rule body [OF that]) (use inv1 nr in \<open>simp_all add: binv_def apply_batch_epoch_only\<close>)
  show ?case
    using commit skip maintained_rejected [OF 1(1)] by (auto simp: wp_lift_res)
qed

end

section \<open>Enqueueing\<close>

lemma active_registration_Some:
  assumes "wf_state s"
  shows "active_registration_id s a now = Some i \<longleftrightarrow>
    (\<exists>q. agentm s a = Some i \<and> regm s i = Some q \<and> reg_name q = a \<and> now < reg_expiry q)"
proof -
  have "reg_inv (regm s) (agentm s)" using assms by (simp add: wf_state_def)
  then have "reg_name q = a" if "agentm s a = Some i" "regm s i = Some q" for q
    using that by (rule reg_inv_name)
  then show ?thesis
    by (cases "agentm s a"; cases "regm s i") (auto simp: active_registration_id_def split: option.splits)
qed

text \<open>
  A new task: it is queued at the version 1 with the clock's reading as its creation time, goes to
  the end of the inbox of its recipient's registration, and is committed before the recipient is
  woken.
\<close>

definition enqueued ::
    "('p \<Rightarrow> task_table \<Rightarrow> bool) \<Rightarrow> i64 \<Rightarrow> RegistrationCredentials \<Rightarrow> QueuedDelivery \<Rightarrow> 'p Broker \<Rightarrow> 'p Broker \<Rightarrow> bool" where
  "enqueued holds now c d w w' \<longleftrightarrow>
     binv holds now w' \<and> \<not> s_reconciliation_required (b_state w')
     \<and> (\<exists>w1 r i q n. let k = qd_task_id d;
            t = enqueued_record n (qd_sender d) (d\<lparr>qd_created_unix_ms := now\<rparr>) in
          maintained_world holds now w w1 \<and> ready holds now c w1 r \<and> reg_name r = qd_sender d
          \<and> taskm (b_state w1) k = None
          \<and> length (s_tasks (b_state w1)) < MAX_RETAINED_TASKS
          \<and> length (bucket (s_outbound_tasks_by_agent (b_state w1)) (qd_sender d)) < MAX_ACTIVE_OUTBOUND_TASKS
          \<and> agentm (b_state w1) (qd_recipient d) = Some i \<and> regm (b_state w1) i = Some q \<and> now < reg_expiry q
          \<and> n = s_next_task_sequence (b_state w1) + 1
          \<and> taskm (b_state w') = (taskm (b_state w1))(k \<mapsto> t)
          \<and> regm (b_state w') = (regm (b_state w1))(i \<mapsto> push_inbox k q)
          \<and> s_outbound_tasks_by_agent (b_state w') =
              bucket_insert (qd_sender d) k (s_outbound_tasks_by_agent (b_state w1))
          \<and> b_effects w' = b_effects w1
              @ [Committed (single_task_batch (durable_of k t)) (Ok Complete), NotifyRegistration i])"

context persistence_contract
begin

lemma enqueue_commit:
  assumes mw: "maintained_world holds now w w1" and rd: "ready holds now c w1 r"
    and d: "reg_name r = qd_sender d" "taskm (b_state w1) (qd_task_id d) = None"
    and room: "length (s_tasks (b_state w1)) < MAX_RETAINED_TASKS"
      "length (bucket (s_outbound_tasks_by_agent (b_state w1)) (qd_sender d)) < MAX_ACTIVE_OUTBOUND_TASKS"
    and i: "active_registration_id (b_state w1) (qd_recipient d) now = Some i"
    and n: "n = s_next_task_sequence (b_state w1) + 1" and dl: "i64_range (now + DELIVERY_TTL_MS)"
  shows "wp (commit_transition P (single_task_batch (enqueued_durable (now + DELIVERY_TTL_MS) (qd_sender d)
      (d\<lparr>qd_created_unix_ms := now\<rparr>)))) (\<lambda>_. rejected_world holds now w)
    (\<lambda>_. wp (apply_enqueue now n (now + DELIVERY_TTL_MS) (qd_sender d) i (d\<lparr>qd_created_unix_ms := now\<rparr>))
       (\<lambda>_. rejected_world holds now w) (\<lambda>h w'. h = \<lparr>dh_task_id = qd_task_id d, dh_context_id = qd_context_id d\<rparr>
         \<and> enqueued holds now c d w w')) w1"
proof -
  let ?s = "b_state w1" and ?d = "d\<lparr>qd_created_unix_ms := now\<rparr>"
  let ?t = "enqueued_record n (qd_sender d) ?d"
  have inv: "binv holds now w1" and nr: "\<not> s_reconciliation_required ?s" using rd by (simp_all add: ready_def)
  then have wf: "wf_state ?s" and inbox: "inbox_complete now (regm ?s) (taskm ?s)" by (simp_all add: binv_def)
  obtain q where q: "agentm ?s (qd_recipient d) = Some i" "regm ?s i = Some q" "reg_name q = qd_recipient d"
    "now < reg_expiry q"
    using i active_registration_Some [OF wf] by auto
  have pre: "taskm ?s (qd_task_id ?d) = None" "s_next_task_sequence ?s < n" "reg_name q = qd_recipient ?d"
    "qd_sender ?d = qd_sender d" "i64_range (qd_created_unix_ms ?d + DELIVERY_TTL_MS)"
    using d q n dl by simp_all
  obtain s' where "insert_enqueued n (now + DELIVERY_TTL_MS) (qd_sender d) ?d now
       (?s\<lparr>s_next_task_sequence := n, s_registrations := hm_modify i (push_inbox (qd_task_id ?d)) (s_registrations ?s)\<rparr>) = s'"
    "wf_state s'" "taskm s' = (taskm ?s)(qd_task_id ?d \<mapsto> ?t)" "regm s' = (regm ?s)(i \<mapsto> push_inbox (qd_task_id ?d) q)"
    "s_reconciliation_required s' = s_reconciliation_required ?s"
    "s_outbound_tasks_by_agent s' = bucket_insert (qd_sender d) (qd_task_id ?d) (s_outbound_tasks_by_agent ?s)"
    by (rule enqueue_effect [OF wf pre(1) room(1) pre(2) q(2) pre(3-5)]) blast
  note s' = this [simplified]
  have durable: "enqueued_durable (now + DELIVERY_TTL_MS) (qd_sender d) ?d = durable_of (qd_task_id d) ?t"
    using durable_of_enqueued [of ?d n "qd_sender d"] by simp
  have "inbox_complete now (regm s') (taskm s')"
    unfolding s'(3,4) using inbox d(2) q wf
    by (intro inbox_complete_push [where A = "agentm ?s"]) (simp_all add: wf_state_def)
  with s' nr have final: "enqueued holds now c d w w3"
    if "b_state w3 = s'" "holds (b_persistence w3) (mirror (taskm s'))"
      "b_effects w3 = b_effects w1 @ [Committed (single_task_batch (durable_of (qd_task_id d) ?t)) (Ok Complete), NotifyRegistration i]"
    for w3
    unfolding enqueued_def Let_def using that mw rd d room q n
    by (intro conjI exI [of _ w1] exI [of _ r] exI [of _ i] exI [of _ q] exI [of _ n]) (simp_all add: binv_def)
  show ?thesis
    unfolding durable
  proof (rule commit_rule [OF inv nr])
    fix p' assume "holds p' (apply_batch (single_task_batch (durable_of (qd_task_id d) ?t)) (mirror (taskm ?s)))"
    then have "holds p' (mirror (taskm s'))"
      by (simp add: apply_batch_single single_task_batch_def s'(3))
    then show "wp (apply_enqueue now n (now + DELIVERY_TTL_MS) (qd_sender d) i ?d) (\<lambda>_. rejected_world holds now w)
        (\<lambda>h w'. h = \<lparr>dh_task_id = qd_task_id d, dh_context_id = qd_context_id d\<rparr> \<and> enqueued holds now c d w w')
        (w1\<lparr>b_persistence := p',
          b_effects := b_effects w1 @ [Committed (single_task_batch (durable_of (qd_task_id d) ?t)) (Ok Complete)]\<rparr>)"
      by (simp add: apply_enqueue_def s'(1) q(2) final)
  qed (rule commit_rejected [OF mw])
qed

lemma enqueue_correct:
  assumes inv: "binv holds now w"
  shows "wp (enqueue P json_len now c d) (\<lambda>_. rejected_world holds now w) (\<lambda>h w'.
    h = \<lparr>dh_task_id = qd_task_id d, dh_context_id = qd_context_id d\<rparr> \<and> enqueued holds now c d w w') w"
  unfolding enqueue_def wp_bindM [of "validate_registration_and_maintain P json_len c now"]
proof (rule authenticated_rule [OF inv], goal_cases)
  case (1 w1 r)
  show ?case
    using maintained_rejected [OF 1(1)]
    by (simp add: wp_own_registration [OF 1(2)] Let_def split: option.splits)
      (auto simp: checked_Some intro!: enqueue_commit [OF 1])
qed

end

section \<open>Registering\<close>

text \<open>The tasks after the agent's previous registration, if any, has given back its leases.\<close>

definition handed_over :: "RegistrationId option \<Rightarrow> State \<Rightarrow> task_map" where
  "handed_over old s = (case registered_credentials old s of
     None \<Rightarrow> taskm s | Some c \<Rightarrow> requeued_map c (taskm s))"

definition requeued_for :: "RegistrationId option \<Rightarrow> State \<Rightarrow> DurableTask list dres" where
  "requeued_for old s = (case registered_credentials old s of None \<Rightarrow> Ok [] | Some c \<Rightarrow> requeued_tasks c s)"

lemma epoch_irrelevant [simp]:
  "requeued_for old (s\<lparr>s_next_registration_epoch := e\<rparr>) = requeued_for old s"
  "handed_over old (s\<lparr>s_next_registration_epoch := e\<rparr>) = handed_over old s"
proof -
  have "registered_credentials old (s\<lparr>s_next_registration_epoch := e\<rparr>) = registered_credentials old s"
    by (cases old) (simp_all add: registered_credentials_def)
  then show "requeued_for old (s\<lparr>s_next_registration_epoch := e\<rparr>) = requeued_for old s"
    "handed_over old (s\<lparr>s_next_registration_epoch := e\<rparr>) = handed_over old s"
    by (cases "registered_credentials old s"; simp add: requeued_for_def handed_over_def requeued_tasks_def)+
qed

lemma requeued_for_not_Panic [simp]: "requeued_for old s \<noteq> Panic"
  by (simp add: requeued_for_def split: option.splits)

lemma requeued_for_mirror:
  assumes "wf_state s" "requeued_for old s = Ok ds"
  shows "apply_batch \<lparr>pb_registration_epoch_high_watermark = e, pb_upsert_tasks = ds, pb_delete_task_ids = []\<rparr>
      (mirror (taskm s)) = mirror (handed_over old s)"
  using assms requeued_tasks_mirror
  by (auto simp: requeued_for_def handed_over_def apply_batch_epoch_only split: option.splits)

lemma handed_over_core: "same_core (taskm s) (handed_over old s)"
  by (simp add: handed_over_def requeued_map_core split: option.splits)

lemma replace_effect:
  assumes wf: "wf_state s" and ds: "requeued_for (agentm s a) s = Ok ds"
  obtains old s' where "replace_registration (agentm s a) s = (Ok old, s')" "wf_state s'"
    "regm s' = (\<lambda>i. if agentm s a = Some i then None else regm s i)" "agentm s' = (agentm s)(a := None)"
    "taskm s' = handed_over (agentm s a) s" "frame s' = frame s" "old = None \<longleftrightarrow> agentm s a = None"
proof (cases "agentm s a")
  case None
  then show thesis
    by (intro that [of None s])
      (use wf in \<open>auto simp: replace_registration_def handed_over_def registered_credentials_def\<close>)
next
  case (Some i)
  have reg: "reg_inv (regm s) (agentm s)" using wf by (simp add: wf_state_def)
  obtain r where r: "regm s i = Some r" "reg_name r = a" using reg Some unfolding reg_inv_def by blast
  let ?c = "credentials (rs_registration r)"
  have rc: "registered_credentials (Some i) s = Some ?c" using r by (simp add: registered_credentials_def)
  have ds': "requeued_tasks ?c s = Ok ds" using ds Some rc by (simp add: requeued_for_def)
  obtain s1 s' where s': "bump_requeued_versions_for_credentials ?c s = (Ok (), s1)"
    "detach_registration i True s1 = (Some r, s')" "wf_state s'" "regm s' = (regm s)(i := None)"
    "agentm s' = (agentm s)(reg_name r := None)" "taskm s' = requeued_map ?c (taskm s)" "frame s' = frame s"
    by (rule requeue_detach_effect [OF wf r(1) refl requeued_tasks_Ok(2) [OF wf ds']]) blast+
  show thesis
    by (rule that [of "Some r" s'])
      (use Some s' r rc in \<open>auto simp: replace_registration_def handed_over_def fun_eq_iff\<close>)
qed

definition registered ::
    "('p \<Rightarrow> task_table \<Rightarrow> bool) \<Rightarrow> i64 \<Rightarrow> RegistrationId \<Rightarrow> VerifiedAgent \<Rightarrow> string \<Rightarrow> 'p Broker \<Rightarrow>
     Registration \<Rightarrow> 'p Broker \<Rightarrow> bool" where
  "registered holds now i agent session w g w' \<longleftrightarrow>
     binv holds now w' \<and> \<not> s_reconciliation_required (b_state w')
     \<and> (\<exists>w1 inbox. let old = agentm (b_state w1) (va_name agent) in
          maintained_world holds now w w1
          \<and> g = \<lparr>rg_id = i, rg_epoch = s_next_registration_epoch (b_state w1) + 1, rg_agent = agent,
                 rg_harness_session_id = session, rg_expires_unix_ms = now + REGISTRATION_TTL_MS\<rparr>
          \<and> s_next_registration_epoch (b_state w') = rg_epoch g
          \<and> taskm (b_state w') = handed_over old (b_state w1)
          \<and> agentm (b_state w') = (agentm (b_state w1))(va_name agent \<mapsto> i)
          \<and> regm (b_state w') = (\<lambda>j. if old = Some j then None else regm (b_state w1) j)
              (i \<mapsto> \<lparr>rs_registration = g, rs_inbox = inbox, rs_wait_active = False\<rparr>)
          \<and> set inbox = {k. awaits (taskm (b_state w')) (va_name agent) k}
          \<and> (\<exists>ds fx. b_effects w' = b_effects w1
               @ Committed \<lparr>pb_registration_epoch_high_watermark = Some (rg_epoch g), pb_upsert_tasks = ds,
                   pb_delete_task_ids = []\<rparr> (Ok Complete) # fx))"

context persistence_contract
begin

lemma register_commit:
  fixes w1 :: "'p Broker"
  defines "s \<equiv> b_state w1"
  assumes mw: "maintained_world holds now w w1" and fresh: "regm s i = None"
    and ds: "requeued_for (agentm s (va_name agent)) s = Ok ds"
    and e: "e = s_next_registration_epoch s + 1"
    and g: "g = \<lparr>rg_id = i, rg_epoch = e, rg_agent = agent, rg_harness_session_id = session,
      rg_expires_unix_ms = now + REGISTRATION_TTL_MS\<rparr>"
  shows "wp (commit_transition P \<lparr>pb_registration_epoch_high_watermark = Some e, pb_upsert_tasks = ds,
      pb_delete_task_ids = []\<rparr>) (\<lambda>_. rejected_world holds now w)
    (\<lambda>_. wp (apply_registration now g (agentm s (va_name agent))) (\<lambda>_. rejected_world holds now w)
       (registered holds now i agent session w)) w1"
proof -
  let ?a = "va_name agent" and ?s0 = "s\<lparr>s_next_registration_epoch := e\<rparr>"
  let ?b = "\<lparr>pb_registration_epoch_high_watermark = Some e, pb_upsert_tasks = ds, pb_delete_task_ids = []\<rparr>"
  have inv: "binv holds now w1" and nr: "\<not> s_reconciliation_required (b_state w1)"
    using mw by (simp_all add: maintained_world_def)
  then have wf: "wf_state ?s0" and inbox: "inbox_complete now (regm s) (taskm s)" by (simp_all add: binv_def s_def)
  have ds0: "requeued_for (agentm ?s0 ?a) ?s0 = Ok ds" and h0: "handed_over (agentm ?s0 ?a) ?s0 = handed_over (agentm s ?a) s"
    using ds by simp_all
  obtain old s1 where s1: "replace_registration (agentm ?s0 ?a) ?s0 = (Ok old, s1)" "wf_state s1"
    "regm s1 = (\<lambda>i. if agentm ?s0 ?a = Some i then None else regm ?s0 i)" "agentm s1 = (agentm ?s0)(?a := None)"
    "taskm s1 = handed_over (agentm ?s0 ?a) ?s0" "frame s1 = frame ?s0"
    by (rule replace_effect [OF wf ds0]) blast
  have regs: "regm s1 = (\<lambda>i. if agentm s ?a = Some i then None else regm s i)"
    using s1(3) by (simp add: fun_eq_iff)
  obtain q where q: "queued_for_agent ?a s1 = Ok q" "\<And>k. k \<in> set (map snd q) \<longleftrightarrow> awaits (taskm s1) ?a k"
    "sorted_wrt (\<lambda>k k'. seq_of (taskm s1) k < seq_of (taskm s1) k') (map snd q)"
    by (rule queued_effect [OF s1(2)]) blast
  let ?r = "\<lparr>rs_registration = g, rs_inbox = map snd q, rs_wait_active = False\<rparr>"
  let ?s2 = "s1\<lparr>s_registrations_by_agent := hm_insert ?a i (s_registrations_by_agent s1),
      s_registrations := hm_insert i ?r (s_registrations s1)\<rparr>"
  have "inbox_complete now (regm s1) (taskm s1)"
    unfolding regs s1(5) h0
    by (rule inbox_complete_core [OF handed_over_core inbox_complete_regs [OF inbox]]) (auto split: if_splits)
  then have wf2: "wf_state ?s2" "inbox_complete now (regm ?s2) (taskm ?s2)"
    using insert_registration_wf(1) [OF s1(2), of ?a i ?r] insert_registration_wf(2) [OF s1(2), of ?a i ?r now] q s1(4) regs fresh g by simp_all
  have final: "registered holds now i agent session w g w3"
    if "b_state w3 = record_status_event ''registered'' ?a now ?s2" "holds (b_persistence w3) (mirror (taskm s1))"
      "b_effects w3 = b_effects w1 @ Committed ?b (Ok Complete) # fx" for w3 fx
    unfolding registered_def Let_def
    using that mw wf2 regs [unfolded s_def] s1(4-6) q(2) nr g e h0
    by (intro conjI exI [of _ w1] exI [of _ "map snd q"] exI [of _ ds] exI [of _ fx])
      (simp_all add: binv_def s_def record_status_event_def frame_def set_eq_iff del: set_map)
  have run: "wp (replace_registration (agentm (b_state w1) ?a)) E Q ((b_state w1)\<lparr>s_next_registration_epoch := e\<rparr>) = Q old s1" for E Q
    using s1(1) by (simp add: wp_def s_def)
  have gs: "rg_epoch g = e" "rg_id g = i" "rg_agent g = agent" using g by simp_all
  show ?thesis
    unfolding s_def
  proof (rule commit_rule [OF inv nr])
    fix p' assume "holds p' (apply_batch ?b (mirror (taskm (b_state w1))))"
    then have p': "holds p' (mirror (taskm s1))"
      using requeued_for_mirror [OF _ ds] inv by (simp add: s1(5) h0 binv_def s_def)
    show "wp (apply_registration now g (agentm (b_state w1) ?a)) (\<lambda>_. rejected_world holds now w)
        (registered holds now i agent session w)
        (w1\<lparr>b_persistence := p', b_effects := b_effects w1 @ [Committed ?b (Ok Complete)]\<rparr>)"
      using p' gs by (simp add: apply_registration_def Let_def run q(1) final)
  qed (rule commit_rejected [OF mw])
qed

lemma register_correct:
  assumes inv: "binv holds now w" and fresh: "regm (b_state w) i = None"
  shows "wp (register P json_len now i agent session) (\<lambda>_. rejected_world holds now w)
    (registered holds now i agent session w) w"
  unfolding register_def wp_bindM [of "maintain_state P json_len now"]
proof (rule maintain_rule [OF inv], goal_cases)
  case (1 w1)
  have "regm (b_state w1) i = None"
    using maintained_regs [OF 1, of i] fresh by simp
  then show ?case
    using maintained_rejected [OF 1] register_commit [OF 1]
    by (simp add: Let_def wp_lift_res requeued_for_def [symmetric] split: option.splits)
       (auto simp: checked_Some)
qed (rule halted_rejected)

end

end
