(* ===== verification/Broker_Delivery.thy ===== *)
theory Broker_Delivery
  imports Broker_Correct
begin

text \<open>
  Delivery: polling an inbox, which leases its first task that is under no live lease, and
  acknowledging a delivery.
\<close>

section \<open>Acknowledging\<close>

definition acked ::
    "('p \<Rightarrow> task_table \<Rightarrow> bool) \<Rightarrow> i64 \<Rightarrow> RegistrationCredentials \<Rightarrow> DeliveryId \<Rightarrow> 'p Broker \<Rightarrow> 'p Broker \<Rightarrow> bool" where
  "acked holds now c d w w' \<longleftrightarrow>
     binv holds now w' \<and> \<not> s_reconciliation_required (b_state w')
     \<and> (\<exists>w1 r k t l. maintained_world holds now w w1 \<and> ready holds now c w1 r
          \<and> taskm (b_state w1) k = Some t \<and> tr_recipient t = reg_name r \<and> live t
          \<and> tr_lease t = Some l \<and> dl_delivery_id l = d
          \<and> (if tr_acknowledged t then w' = w1
             else dl_owner l = Some c \<and> now < dl_leased_until_unix_ms l
               \<and> taskm (b_state w') = (taskm (b_state w1))(k \<mapsto> acknowledged_record now t)
               \<and> regm (b_state w') = (\<lambda>i. map_option (without_task k) (regm (b_state w1) i))
               \<and> b_effects w' = b_effects w1
                   @ [Committed (single_task_batch (durable_of k (acknowledged_record now t))) (Ok Complete)]))"

lemma delivery_task:
  assumes "wf_state s" "delivm s d = Some k"
  obtains t l where "taskm s k = Some t" "tr_lease t = Some l" "dl_delivery_id l = d" "live t" "task_ok k t"
proof -
  obtain t l where t: "taskm s k = Some t" "tr_lease t = Some l" "dl_delivery_id l = d"
    using assms by (auto simp: wf_state_def deliv_inv_def)
  moreover have "task_ok k t" using assms(1) t(1) by (simp add: wf_state_def tasks_inv_def)
  ultimately show thesis using that leased_imp_live by blast
qed

lemma owner_registration:
  assumes rd: "ready holds now c w r" and t: "taskm (b_state w) k = Some t" "tr_lease t = Some l"
    "\<not> tr_acknowledged t" "dl_owner l = Some c"
  shows "reg_name r = tr_recipient t"
proof -
  have "owner_inv (regm (b_state w)) (taskm (b_state w))" and r: "regm (b_state w) (cr_id c) = Some r"
    using rd by (simp_all add: ready_def binv_def wf_state_def)
  with t obtain c' r' where "dl_owner l = Some c'" "regm (b_state w) (cr_id c') = Some r'" "reg_name r' = tr_recipient t"
    unfolding owner_inv_def by metis
  with t(4) r show ?thesis by simp
qed

context persistence_contract
begin

lemma ack_commit:
  assumes mw: "maintained_world holds now w w1" and rd: "ready holds now c w1 r"
    and t: "taskm (b_state w1) k = Some t" "tr_lease t = Some l" "live t" "\<not> tr_acknowledged t"
    and l: "dl_owner l = Some c" "dl_delivery_id l = d" "now < dl_leased_until_unix_ms l"
    and v: "tr_state_version t + 1 \<le> u64_max"
  shows "wp (commit_transition P (single_task_batch (durable_of k (acknowledged_record now t))))
    (\<lambda>_. rejected_world holds now w)
    (\<lambda>_. wp (in_state (apply_ack k now (cr_id c))) (\<lambda>_. rejected_world holds now w) (\<lambda>_. acked holds now c d w)) w1"
proof -
  let ?s = "b_state w1" and ?t' = "acknowledged_record now t"
  have inv: "binv holds now w1" and nr: "\<not> s_reconciliation_required ?s" and r: "regm ?s (cr_id c) = Some r"
    using rd by (simp_all add: ready_def)
  then have wf: "wf_state ?s" and inbox: "inbox_complete now (regm ?s) (taskm ?s)" by (simp_all add: binv_def)
  have name: "reg_name r = tr_recipient t" by (rule owner_registration [OF rd t(1,2,4) l(1)])
  have "tr_lease t \<noteq> None" using t by simp
  then obtain s' where s': "apply_ack k now (cr_id c) ?s = (Ok (), s')" "wf_state s'"
    "taskm s' = (taskm ?s)(k \<mapsto> ?t')" "regm s' = (\<lambda>i. map_option (without_task k) (regm ?s i))" "frame s' = frame ?s"
    by (rule ack_effect [OF wf t(1,3,4) _ v r name]) blast
  have "inbox_complete now (regm s') (taskm s')"
    unfolding s'(3,4)
    by (rule inbox_complete_drop [OF inbox]) (auto simp: awaits_def acknowledged_record_def)
  with s' nr have final: "acked holds now c d w w3"
    if "b_state w3 = s'" "holds (b_persistence w3) (mirror (taskm s'))"
      "b_effects w3 = b_effects w1 @ [Committed (single_task_batch (durable_of k ?t')) (Ok Complete)]" for w3
    unfolding acked_def using that mw rd t l name
    by (intro conjI exI [of _ w1] exI [of _ r] exI [of _ k] exI [of _ t] exI [of _ l])
      (simp_all add: binv_def frame_def)
  show ?thesis
  proof (rule commit_rule [OF inv nr])
    fix p' assume "holds p' (apply_batch (single_task_batch (durable_of k ?t')) (mirror (taskm ?s)))"
    then have "holds p' (mirror (taskm s'))"
      by (simp add: apply_batch_single single_task_batch_def s'(3))
    then show "wp (in_state (apply_ack k now (cr_id c))) (\<lambda>_. rejected_world holds now w) (\<lambda>_. acked holds now c d w)
        (w1\<lparr>b_persistence := p', b_effects := b_effects w1 @ [Committed (single_task_batch (durable_of k ?t')) (Ok Complete)]\<rparr>)"
      by (simp add: wp_total [of "apply_ack k now (cr_id c)" ?s, OF s'(1)] final)
  qed (rule commit_rejected [OF mw])
qed

lemma ack_delivery_correct:
  assumes inv: "binv holds now w"
  shows "wp (ack_delivery P json_len now c d) (\<lambda>_. rejected_world holds now w) (\<lambda>_. acked holds now c d w) w"
  unfolding ack_delivery_def wp_bindM [of "validate_registration_and_maintain P json_len c now"]
proof (rule authenticated_rule [OF inv], goal_cases)
  case (1 w1 r)
  note rej = maintained_rejected [OF 1(1)]
  have wf: "wf_state (b_state w1)" using 1(2) by (simp add: ready_def binv_def)
  show ?case
  proof (cases "delivm (b_state w1) d")
    case None
    then show ?thesis by (simp add: wp_own_registration [OF 1(2)] rej)
  next
    case (Some k)
    obtain t l where t: "taskm (b_state w1) k = Some t" "tr_lease t = Some l" "dl_delivery_id l = d" "live t" "task_ok k t"
      by (rule delivery_task [OF wf Some])
    have again: "acked holds now c d w w1" if "tr_acknowledged t" "tr_recipient t = reg_name r"
      unfolding acked_def using 1 t that
      by (intro conjI exI [of _ w1] exI [of _ r] exI [of _ k] exI [of _ t] exI [of _ l]) (simp_all add: ready_def)
    show ?thesis
      using Some t by (simp add: wp_own_registration [OF 1(2)] rej again wp_lift_res del: wp_in_state)
        (auto simp: durable_acknowledged_task_Ok rej ack_valid_def intro!: ack_commit [OF 1] simp del: wp_in_state)
  qed
qed

end

section \<open>Polling\<close>

definition leased_now :: "i64 \<Rightarrow> TaskRecord \<Rightarrow> bool" where
  "leased_now now t \<longleftrightarrow> (\<exists>l. tr_lease t = Some l \<and> now < dl_leased_until_unix_ms l)"

definition next_attempt :: "TaskRecord \<Rightarrow> u32" where
  "next_attempt t = (case tr_last_delivery_attempt t of
     Some a \<Rightarrow> a + 1 | None \<Rightarrow> qd_attempt (tr_original_delivery t))"

definition new_lease :: "i64 \<Rightarrow> RegistrationCredentials \<Rightarrow> DeliveryId \<Rightarrow> TaskRecord \<Rightarrow> DeliveryLease" where
  "new_lease now c d t =
     \<lparr>dl_delivery_id = d, dl_owner = Some c, dl_leased_until_unix_ms = now + DELIVERY_LEASE_MS,
      dl_attempt = next_attempt t\<rparr>"

definition delivered_message :: "TaskRecord \<Rightarrow> DeliveryLease \<Rightarrow> DeliveredMessage" where
  "delivered_message t l =
     (let q = tr_original_delivery t in
      \<lparr>dm_delivery_id = dl_delivery_id l, dm_task_id = qd_task_id q, dm_context_id = qd_context_id q,
       dm_sender = qd_sender q, dm_recipient = qd_recipient q, dm_payload = qd_payload q,
       dm_leased_until_unix_ms = dl_leased_until_unix_ms l, dm_attempt = dl_attempt l\<rparr>)"

text \<open>The times at which a task under a live lease may become available or expire.\<close>

definition wake_times :: "TaskRecord \<Rightarrow> i64 set" where
  "wake_times t = insert (qd_created_unix_ms (tr_original_delivery t) + DELIVERY_TTL_MS)
     (case tr_lease t of None \<Rightarrow> {} | Some l \<Rightarrow> {dl_leased_until_unix_ms l})"

lemma wake_times_finite [simp]: "finite (wake_times t)"
  by (simp add: wake_times_def split: option.splits)

lemma poll_task_Ok:
  assumes t: "taskm s k = Some t" and ok: "task_ok k t" "live t" "\<not> tr_acknowledged t"
  shows "poll_task now c d k next s \<noteq> Panic"
    and "poll_task now c d k next s = Ok (Skip n) \<Longrightarrow> leased_now now t \<and> n = Min (insert next (wake_times t))"
    and "poll_task now c d k next s = Ok (Lease m old l dt) \<Longrightarrow>
      \<not> leased_now now t \<and> l = new_lease now c d t \<and> m = delivered_message t l
      \<and> old = map_option dl_delivery_id (tr_lease t) \<and> dt = durable_of k (leased_record l t)
      \<and> tr_state_version t + 1 \<le> u64_max \<and> next_attempt t \<le> max u32_max (qd_attempt (tr_original_delivery t))"
proof -
  have shape: "tr_delivery t = Some (tr_original_delivery t)" "\<not> tr_canceled t" "\<not> tr_expired t" "tr_reply t = None"
    and range: "i64_range (qd_created_unix_ms (tr_original_delivery t) + DELIVERY_TTL_MS)"
    using ok by (simp_all add: task_ok_def live_shape_def)
  note defs = poll_task_def t shape ok(3) range checked_add_i64_def [of "qd_created_unix_ms _"]
    Let_def res_bind_eq_Panic res_bind_eq_Ok durable_leased_task_Ok [OF ok] checked_Some
  show "poll_task now c d k next s \<noteq> Panic"
    by (simp add: defs split: option.splits)
  show "leased_now now t \<and> n = Min (insert next (wake_times t))"
    if "poll_task now c d k next s = Ok (Skip n)"
    using that by (auto simp: defs leased_now_def wake_times_def min.assoc split: option.splits if_splits)
  show "\<not> leased_now now t \<and> l = new_lease now c d t \<and> m = delivered_message t l
      \<and> old = map_option dl_delivery_id (tr_lease t) \<and> dt = durable_of k (leased_record l t)
      \<and> tr_state_version t + 1 \<le> u64_max \<and> next_attempt t \<le> max u32_max (qd_attempt (tr_original_delivery t))"
    if "poll_task now c d k next s = Ok (Lease m old l dt)"
    using that by (auto simp: defs leased_now_def new_lease_def delivered_message_def next_attempt_def split: option.splits if_splits)
qed

text \<open>Every task of an inbox is live and not acknowledged.\<close>

definition pollable :: "State \<Rightarrow> TaskId list \<Rightarrow> bool" where
  "pollable s ks \<longleftrightarrow> (\<forall>k \<in> set ks. \<exists>t. taskm s k = Some t \<and> task_ok k t \<and> live t \<and> \<not> tr_acknowledged t)"

lemma inbox_pollable: "wf_state s \<Longrightarrow> regm s i = Some r \<Longrightarrow> pollable s (rs_inbox r)"
  by (fastforce simp: pollable_def wf_state_def inbox_inv_def tasks_inv_def awaits_def)

text \<open>What a poll of the tasks \<open>ks\<close> finds: the first that is under no live lease, or when to look again.\<close>

definition first_offer :: "i64 \<Rightarrow> State \<Rightarrow> TaskId list \<Rightarrow> TaskId \<Rightarrow> TaskRecord \<Rightarrow> bool" where
  "first_offer now s ks k t \<longleftrightarrow>
     (\<exists>ks1 ks2. ks = ks1 @ k # ks2 \<and> (\<forall>j \<in> set ks1. \<exists>u. taskm s j = Some u \<and> leased_now now u))
     \<and> taskm s k = Some t \<and> \<not> leased_now now t"

definition all_wake_times :: "State \<Rightarrow> TaskId list \<Rightarrow> i64 set" where
  "all_wake_times s ks = (\<Union>k \<in> set ks. case taskm s k of None \<Rightarrow> {} | Some t \<Rightarrow> wake_times t)"

lemma Min_insert_Min:
  fixes A :: "i64 set"
  assumes "finite A" "A \<noteq> {}" "finite B"
  shows "Min (insert (Min A) B) = Min (A \<union> B)"
  using assms by (cases "B = {}") (simp_all add: Min.union)

lemma poll_inbox_Ok:
  assumes "pollable s ks"
  shows "poll_inbox now c d ks next s \<noteq> Panic"
    and "poll_inbox now c d ks next s = Ok (Inl n) \<Longrightarrow>
      (\<forall>k \<in> set ks. \<exists>t. taskm s k = Some t \<and> leased_now now t) \<and> n = Min (insert next (all_wake_times s ks))"
    and "poll_inbox now c d ks next s = Ok (Inr (k, m, old, l, dt)) \<Longrightarrow>
      (\<exists>t. first_offer now s ks k t \<and> l = new_lease now c d t \<and> m = delivered_message t l
        \<and> old = map_option dl_delivery_id (tr_lease t) \<and> dt = durable_of k (leased_record l t)
        \<and> tr_state_version t + 1 \<le> u64_max)"
  using assms
proof (induction ks arbitrary: "next")
  case Nil
  { case 1 then show ?case by simp }
  { case 2 then show ?case by (simp add: all_wake_times_def) }
  { case 3 then show ?case by simp }
next
  case (Cons j ks)
  have pl: "pollable s ks" if "pollable s (j # ks)" using that by (simp add: pollable_def)
  have wake: "Min (insert (Min (insert nx (wake_times u))) (all_wake_times s ks)) = Min (insert nx (all_wake_times s (j # ks)))"
    if "taskm s j = Some u" for nx u
  proof -
    have fin: "finite (all_wake_times s ks)" by (simp add: all_wake_times_def split: option.splits)
    have "all_wake_times s (j # ks) = wake_times u \<union> all_wake_times s ks" using that by (simp add: all_wake_times_def)
    then show ?thesis
      using Min_insert_Min [OF _ _ fin, of "insert nx (wake_times u)"] by simp
  qed
  { case 1
    then obtain t where t: "taskm s j = Some t" "task_ok j t" "live t" "\<not> tr_acknowledged t" by (auto simp: pollable_def)
    show ?case
      using poll_task_Ok(1) [OF t] Cons.IH(1) [OF pl [OF 1]]
      by (auto simp: res_bind_eq_Panic split: poll_choice.splits) }
  { case 2
    then obtain t where t: "taskm s j = Some t" "task_ok j t" "live t" "\<not> tr_acknowledged t" by (auto simp: pollable_def)
    obtain n' where n': "poll_task now c d j next s = Ok (Skip n')" "poll_inbox now c d ks n' s = Ok (Inl n)"
      using 2(1) by (cases "poll_task now c d j next s") (auto split: poll_choice.split_asm)
    show ?case
      using poll_task_Ok(2) [OF t n'(1)] Cons.IH(2) [OF n'(2) pl [OF 2(2)]] t(1) wake by auto }
  { case 3
    then obtain t where t: "taskm s j = Some t" "task_ok j t" "live t" "\<not> tr_acknowledged t" by (auto simp: pollable_def)
    consider (skip) n' where "poll_task now c d j next s = Ok (Skip n')" "poll_inbox now c d ks n' s = Ok (Inr (k, m, old, l, dt))"
      | (lease) "poll_task now c d j next s = Ok (Lease m old l dt)" "k = j"
      using 3(1) by (cases "poll_task now c d j next s") (auto split: poll_choice.split_asm)
    then show ?case
    proof cases
      case skip
      obtain u ks1 ks2 where u: "ks = ks1 @ k # ks2" "\<forall>i \<in> set ks1. \<exists>u. taskm s i = Some u \<and> leased_now now u"
        and rest: "taskm s k = Some u" "\<not> leased_now now u" "l = new_lease now c d u" "m = delivered_message u l"
          "old = map_option dl_delivery_id (tr_lease u)" "dt = durable_of k (leased_record l u)" "tr_state_version u + 1 \<le> u64_max"
        using Cons.IH(3) [OF skip(2) pl [OF 3(2)]] by (auto simp: first_offer_def)
      have "first_offer now s (j # ks) k u"
        unfolding first_offer_def using u rest t(1) poll_task_Ok(2) [OF t skip(1)]
        by (intro conjI exI [of _ "j # ks1"] exI [of _ ks2]) simp_all
      with rest show ?thesis by blast
    next
      case lease
      have "first_offer now s (j # ks) j t"
        unfolding first_offer_def using t(1) poll_task_Ok(3) [OF t lease(1)]
        by (intro conjI exI [of _ "[]"] exI [of _ ks]) simp_all
      with poll_task_Ok(3) [OF t lease(1)] lease(2) show ?thesis by blast
    qed }
qed

text \<open>
  A poll: nothing to deliver and the time to look again, or the first available task, leased to the
  caller for \<^const>\<open>DELIVERY_LEASE_MS\<close> and committed so before it is handed out.
\<close>

definition polled ::
    "('p \<Rightarrow> task_table \<Rightarrow> bool) \<Rightarrow> i64 \<Rightarrow> RegistrationCredentials \<Rightarrow> DeliveryId \<Rightarrow> 'p Broker \<Rightarrow> DeliveryPoll \<Rightarrow> 'p Broker \<Rightarrow> bool" where
  "polled holds now c d w res w' \<longleftrightarrow>
     binv holds now w' \<and> \<not> s_reconciliation_required (b_state w')
     \<and> (\<exists>w1 r. maintained_world holds now w w1 \<and> ready holds now c w1 r
          \<and> (case res of
               Pending n \<Rightarrow> w' = w1
                 \<and> (\<forall>k \<in> set (rs_inbox r). \<exists>t. taskm (b_state w1) k = Some t \<and> leased_now now t)
                 \<and> n = Min (insert (reg_expiry r) (all_wake_times (b_state w1) (rs_inbox r)))
             | Ready m \<Rightarrow> (\<exists>k t. let l = new_lease now c d t in
                 first_offer now (b_state w1) (rs_inbox r) k t \<and> m = delivered_message t l
                 \<and> regm (b_state w') = regm (b_state w1)
                 \<and> taskm (b_state w') = (taskm (b_state w1))(k \<mapsto> leased_record l t)
                 \<and> b_effects w' = b_effects w1
                     @ [Committed (single_task_batch (durable_of k (leased_record l t))) (Ok Complete)])))"

context persistence_contract
begin

lemma poll_commit:
  assumes mw: "maintained_world holds now w w1" and rd: "ready holds now c w1 r"
    and offer: "first_offer now (b_state w1) (rs_inbox r) k t" and l: "l = new_lease now c d t"
    and v: "tr_state_version t + 1 \<le> u64_max" and fresh: "delivm (b_state w1) d = None"
  shows "wp (commit_transition P (single_task_batch (durable_of k (leased_record l t))))
    (\<lambda>_. rejected_world holds now w)
    (\<lambda>_. wp (in_state (apply_lease k l (map_option dl_delivery_id (tr_lease t)))) (\<lambda>_. rejected_world holds now w)
       (\<lambda>_. polled holds now c d w (Ready (delivered_message t l)))) w1"
proof -
  let ?s = "b_state w1" and ?t' = "leased_record l t"
  have inv: "binv holds now w1" and nr: "\<not> s_reconciliation_required ?s" and r: "regm ?s (cr_id c) = Some r"
    "credentials (rs_registration r) = c"
    using rd by (simp_all add: ready_def)
  then have wf: "wf_state ?s" and inbox: "inbox_complete now (regm ?s) (taskm ?s)" by (simp_all add: binv_def)
  have k: "k \<in> set (rs_inbox r)" and t: "taskm ?s k = Some t" using offer by (auto simp: first_offer_def)
  with r(1) wf have aw: "awaits (taskm ?s) (reg_name r) k" by (auto simp: wf_state_def inbox_inv_def)
  have ld: "dl_delivery_id l = d" and lo: "dl_owner l = Some c" using l by (simp_all add: new_lease_def)
  obtain s' where s': "apply_lease k l (map_option dl_delivery_id (tr_lease t)) ?s = (Ok (), s')" "wf_state s'"
    "taskm s' = (taskm ?s)(k \<mapsto> ?t')" "s_registrations s' = s_registrations ?s" "frame s' = frame ?s"
    by (rule lease_effect [OF wf t, of l c r]) (use aw t v fresh ld lo r in \<open>simp_all add: awaits_def\<close>)
  have "same_core (taskm ?s) (taskm s')"
    unfolding s'(3) by (rule same_core_upd) (use t in simp_all)
  then have "inbox_complete now (regm s') (taskm s')"
    using inbox s'(4) inbox_complete_core by simp
  with s' nr have final: "polled holds now c d w (Ready (delivered_message t l)) w3"
    if "b_state w3 = s'" "holds (b_persistence w3) (mirror (taskm s'))"
      "b_effects w3 = b_effects w1 @ [Committed (single_task_batch (durable_of k ?t')) (Ok Complete)]" for w3
    unfolding polled_def Let_def DeliveryPoll.case using that mw rd offer l
    by (intro conjI exI [of _ w1] exI [of _ r] exI [of _ k] exI [of _ t]) (simp_all add: binv_def frame_def)
  show ?thesis
  proof (rule commit_rule [OF inv nr])
    fix p' assume "holds p' (apply_batch (single_task_batch (durable_of k ?t')) (mirror (taskm ?s)))"
    then have "holds p' (mirror (taskm s'))"
      by (simp add: apply_batch_single single_task_batch_def s'(3))
    then show "wp (in_state (apply_lease k l (map_option dl_delivery_id (tr_lease t)))) (\<lambda>_. rejected_world holds now w)
        (\<lambda>_. polled holds now c d w (Ready (delivered_message t l)))
        (w1\<lparr>b_persistence := p', b_effects := b_effects w1 @ [Committed (single_task_batch (durable_of k ?t')) (Ok Complete)]\<rparr>)"
      by (simp add: wp_total [of "apply_lease k l (map_option dl_delivery_id (tr_lease t))" ?s, OF s'(1)] final)
  qed (rule commit_rejected [OF mw])
qed

lemma poll_delivery_correct:
  assumes inv: "binv holds now w"
    and fresh: "delivm (b_state (snd (maintain_state P json_len now w))) d = None"
  shows "wp (poll_delivery P json_len now d c) (\<lambda>_. rejected_world holds now w) (polled holds now c d w) w"
  unfolding poll_delivery_def wp_bindM [of "validate_registration_and_maintain P json_len c now"]
proof (rule authenticated_state_rule [OF inv], goal_cases)
  case (1 w1 r)
  have new: "delivm (b_state w1) d = None" using fresh 1(3) by simp
  let ?poll = "poll_inbox now c d (rs_inbox r) (reg_expiry r) (b_state w1)"
  have wf: "wf_state (b_state w1)" and r: "regm (b_state w1) (cr_id c) = Some r"
    using 1(2) by (simp_all add: ready_def binv_def)
  note poll = poll_inbox_Ok [OF inbox_pollable [OF wf r]]
  have pending: "polled holds now c d w (Pending n) w1" if "?poll = Ok (Inl n)" for n
    unfolding polled_def using 1 poll(2) [OF that]
    by (intro conjI exI [of _ w1] exI [of _ r]) (simp_all add: ready_def)
  have offer: "wp (commit_transition P (single_task_batch dt)) (\<lambda>_. rejected_world holds now w)
      (\<lambda>_. wp (in_state (apply_lease k l old)) (\<lambda>_. rejected_world holds now w) (\<lambda>_. polled holds now c d w (Ready m))) w1"
    if "?poll = Ok (Inr (k, m, old, l, dt))" for k m old l dt
    using poll(3) [OF that] poll_commit [OF 1(1,2) _ refl _ new] by auto
  show ?case
    using poll(1) pending offer maintained_rejected [OF 1(1)]
    by (auto simp: wp_own_registration [OF 1(2)] wp_lift_res wp_bindM_ret split: sum.splits prod.splits simp del: wp_in_state)
qed

end

end
