(* ===== verification/Broker_Waits.thy ===== *)
theory Broker_Waits
  imports Broker_Exchange Broker_Delivery
begin

text \<open>
  The operations of \<^verbatim>\<open>herdr-a2a-core/src/broker.rs\<close> that are more than one critical section: recovery
  from a provider, and the waits.  A wait alternates between a critical section and a suspension, in
  which the rest of the system runs.  Each suspension is a \<open>turn\<close>: the clock reading of the section
  before it, the identifier the section may hand out, what the others do meanwhile, the event that
  ends the suspension and the clock reading then.  A wait consumes a list of turns and returns
  \<open>None\<close> when the list ends before the wait does, that is, while it is still suspended.
\<close>

section \<open>Recovery\<close>

definition recover :: "'p BrokerPersistence \<Rightarrow> (json \<Rightarrow> nat) \<Rightarrow> i64 \<Rightarrow> ('p, BrokerRecoveryReport) bop" where
  "recover P json_len now =
     bindM (persistence_load P now) (\<lambda>snap.
     bindM (lift_res (validate_and_reconcile_snapshot json_len (snap_tasks snap) now
              BrokerRecoveryReport_default)) (\<lambda>(tasks, batch, report).
     if snap_last_registration_epoch snap = u64_max then throw PersistenceUnavailable
     else
       bindM (commit_recovery P batch) (\<lambda>_.
       bindM (modify_state (\<lambda>_. State_default\<lparr>s_next_registration_epoch := snap_last_registration_epoch snap\<rparr>)) (\<lambda>_.
       let retained = restore_order (retained_after now tasks) in
       bindM (in_state (forM retained restore_next)) (\<lambda>_.
       ret (report\<lparr>rr_restored := rr_restored report + length retained\<rparr>))))))"

section \<open>Suspensions\<close>

datatype wake = Notified | BrokerDeadline | TimedOut | Received

record 'p turn =
  tn_now :: i64
  tn_fresh :: DeliveryId
  tn_others :: "'p Broker \<Rightarrow> 'p Broker"
  tn_wake :: wake
  tn_after :: i64

fun wait_for_agents ::
    "'p BrokerPersistence \<Rightarrow> (json \<Rightarrow> nat) \<Rightarrow> string list \<Rightarrow> 'p turn list \<Rightarrow> ('p, AgentDirectoryWait option) bop" where
  "wait_for_agents P json_len pane_ids [] = ret None"
| "wait_for_agents P json_len pane_ids (t # ts) =
     bindM (directory_snapshot P json_len (tn_now t) pane_ids) (\<lambda>snapshot.
     if length (adw_registrations snapshot) = length pane_ids then ret (Some snapshot)
     else
       bindM (modify (tn_others t)) (\<lambda>_.
       if tn_wake t = TimedOut
       then bindM (directory_snapshot P json_len (tn_after t) pane_ids) (\<lambda>final. ret (Some final))
       else wait_for_agents P json_len pane_ids ts))"

fun wait_next_loop ::
    "'p BrokerPersistence \<Rightarrow> (json \<Rightarrow> nat) \<Rightarrow> RegistrationCredentials \<Rightarrow> bool \<Rightarrow> 'p turn list \<Rightarrow>
     ('p, DeliveredMessage option) bop" where
  "wait_next_loop P json_len c timeout [] = ret None"
| "wait_next_loop P json_len c timeout (t # ts) =
     bindM (poll_delivery P json_len (tn_now t) (tn_fresh t) c) (\<lambda>poll.
     case poll of
       Ready delivery \<Rightarrow> ret (Some delivery)
     | Pending _ \<Rightarrow>
         bindM (modify (tn_others t)) (\<lambda>_.
         if timeout \<and> tn_wake t = TimedOut then throw WaitTimedOut
         else wait_next_loop P json_len c timeout ts))"

text \<open>The guard is dropped on every return; a wait that is still suspended holds it.\<close>

definition drop_guard :: "RegistrationId \<Rightarrow> ('p, 'a option) bop \<Rightarrow> ('p, 'a option) bop" where
  "drop_guard guard m w =
     (case m w of
        (Ok None, w') \<Rightarrow> (Ok None, w')
      | (r, w') \<Rightarrow> (r, WaitGuard_drop guard w'))"

definition wait_next ::
    "'p BrokerPersistence \<Rightarrow> (json \<Rightarrow> nat) \<Rightarrow> i64 \<Rightarrow> ('p Broker \<Rightarrow> 'p Broker) \<Rightarrow> RegistrationCredentials \<Rightarrow>
     bool \<Rightarrow> 'p turn list \<Rightarrow> ('p, DeliveredMessage option) bop" where
  "wait_next P json_len now others c timeout turns =
     bindM (begin_wait P json_len now c) (\<lambda>guard.
     bindM (modify others) (\<lambda>_.
     drop_guard guard
       (bindM (get_state (\<lambda>s. hm_get (s_registrations s) (cr_id c))) (\<lambda>r.
        bindM (lift_res (ok_or r RegistrationNotFound)) (\<lambda>_.
        wait_next_loop P json_len c timeout turns)))))"

section \<open>Waiting for a reply\<close>

text \<open>
  The first critical section: the result of a settled task, or a new waiter on a live one.  The
  senders whose receiver is gone are dropped from the task on this occasion.
\<close>

definition open_reply_wait ::
    "'p BrokerPersistence \<Rightarrow> (json \<Rightarrow> nat) \<Rightarrow> i64 \<Rightarrow> AgentName \<Rightarrow> TaskId \<Rightarrow> ('p, ReplyPayload + ReplyWaiter) bop" where
  "open_reply_wait P json_len now sender_name task_id =
     bindM (maintain_state P json_len now) (\<lambda>_.
     bindM (get_state (\<lambda>s. hm_get (s_tasks s) task_id)) (\<lambda>t_opt.
     bindM (lift_res (ok_or t_opt TaskNotFound)) (\<lambda>t.
     if tr_sender t \<noteq> sender_name then throw TaskNotOwned
     else
       (case reply_result_for_task t of
          Some result \<Rightarrow> bindM (lift_res result) (\<lambda>payload. ret (Inl payload))
        | None \<Rightarrow>
            bindM (gets b_next_waiter) (\<lambda>waiter.
            bindM (modify (\<lambda>w. w\<lparr>b_next_waiter := waiter + 1,
              b_state := (b_state w)\<lparr>s_tasks := hm_insert task_id
                (t\<lparr>tr_reply_waiters := filter (\<lambda>v. v \<notin> set (b_closed_waiters w)) (tr_reply_waiters t) @ [waiter]\<rparr>)
                (s_tasks (b_state w))\<rparr>\<rparr>)) (\<lambda>_.
            ret (Inr waiter)))))))"

text \<open>The section at the head of each iteration: a result, or the delivery deadline of a live task.\<close>

definition reply_wait_section :: "TaskId \<Rightarrow> ('p, ReplyPayload + i64 option) bop" where
  "reply_wait_section task_id =
     bindM (get_state (\<lambda>s. hm_get (s_tasks s) task_id)) (\<lambda>t_opt.
     bindM (lift_res (ok_or t_opt TaskNotFound)) (\<lambda>t.
     case reply_result_for_task t of
       Some result \<Rightarrow> bindM (lift_res result) (\<lambda>payload. ret (Inl payload))
     | None \<Rightarrow>
         (case tr_delivery t of
            None \<Rightarrow> ret (Inr None)
          | Some d \<Rightarrow>
              bindM (lift_res (ok_or (checked_add_i64 (qd_created_unix_ms d) DELIVERY_TTL_MS)
                       PersistenceUnavailable)) (\<lambda>deadline.
              ret (Inr (Some deadline))))))"

text \<open>What has been sent on the one-shot channel of a waiter.\<close>

fun received :: "ReplyWaiter \<Rightarrow> effect list \<Rightarrow> ReplyResult option" where
  "received v [] = None"
| "received v (SendReply u r # fx) = (if u = v then Some r else received v fx)"
| "received v (_ # fx) = received v fx"

definition resolve_reply_wait :: "TaskId \<Rightarrow> ReplyResult option \<Rightarrow> ('p, ReplyPayload) bop" where
  "resolve_reply_wait task_id result =
     (case result of
        Some r \<Rightarrow> lift_res r
      | None \<Rightarrow>
          bindM (get_state (\<lambda>s. hm_get (s_tasks s) task_id)) (\<lambda>t_opt.
          bindM (lift_res (ok_or t_opt TaskNotFound)) (\<lambda>t.
          case reply_result_for_task t of Some r \<Rightarrow> lift_res r | None \<Rightarrow> throw TaskNotFound)))"

definition receive_reply :: "TaskId \<Rightarrow> ReplyWaiter \<Rightarrow> ('p, ReplyPayload option) bop" where
  "receive_reply task_id waiter =
     bindM (gets (\<lambda>w. received waiter (b_effects w))) (\<lambda>result.
     bindM (resolve_reply_wait task_id result) (\<lambda>payload. ret (Some payload)))"

fun reply_wait_loop ::
    "'p BrokerPersistence \<Rightarrow> (json \<Rightarrow> nat) \<Rightarrow> TaskId \<Rightarrow> ReplyWaiter \<Rightarrow> 'p turn list \<Rightarrow> ('p, ReplyPayload option) bop" where
  "reply_wait_loop P json_len task_id waiter [] = ret None"
| "reply_wait_loop P json_len task_id waiter (t # ts) =
     bindM (reply_wait_section task_id) (\<lambda>found.
     case found of
       Inl payload \<Rightarrow> ret (Some payload)
     | Inr deadline \<Rightarrow>
         bindM (modify (tn_others t)) (\<lambda>_.
         if deadline = None \<or> tn_wake t = Received then receive_reply task_id waiter
         else
           bindM (maintain_state P json_len (tn_after t)) (\<lambda>_.
           reply_wait_loop P json_len task_id waiter ts)))"

text \<open>When the wait returns its receiver is dropped.\<close>

definition drop_receiver :: "ReplyWaiter \<Rightarrow> ('p, 'a option) bop \<Rightarrow> ('p, 'a option) bop" where
  "drop_receiver waiter m w =
     (case m w of
        (Ok None, w') \<Rightarrow> (Ok None, w')
      | (r, w') \<Rightarrow> (r, w'\<lparr>b_closed_waiters := waiter # b_closed_waiters w'\<rparr>))"

definition wait_for_reply_for_sender ::
    "'p BrokerPersistence \<Rightarrow> (json \<Rightarrow> nat) \<Rightarrow> i64 \<Rightarrow> ('p Broker \<Rightarrow> 'p Broker) \<Rightarrow> AgentName \<Rightarrow> TaskId \<Rightarrow>
     'p turn list \<Rightarrow> ('p, ReplyPayload option) bop" where
  "wait_for_reply_for_sender P json_len now others sender_name task_id turns =
     bindM (open_reply_wait P json_len now sender_name task_id) (\<lambda>opened.
     case opened of
       Inl payload \<Rightarrow> ret (Some payload)
     | Inr waiter \<Rightarrow>
         bindM (modify others) (\<lambda>_.
         drop_receiver waiter (reply_wait_loop P json_len task_id waiter turns)))"

definition wait_for_reply ::
    "'p BrokerPersistence \<Rightarrow> (json \<Rightarrow> nat) \<Rightarrow> i64 \<Rightarrow> ('p Broker \<Rightarrow> 'p Broker) \<Rightarrow> i64 \<Rightarrow> ('p Broker \<Rightarrow> 'p Broker) \<Rightarrow>
     RegistrationCredentials \<Rightarrow> TaskId \<Rightarrow> 'p turn list \<Rightarrow> ('p, ReplyPayload option) bop" where
  "wait_for_reply P json_len now others now' others' c task_id turns =
     bindM (validate_registration_and_maintain P json_len c now) (\<lambda>_.
     bindM (own_registration c) (\<lambda>r.
     bindM (modify others) (\<lambda>_.
     wait_for_reply_for_sender P json_len now' others' (va_name (rg_agent (rs_registration r))) task_id turns)))"

section \<open>A recovered broker\<close>

lemma wf_State_default [simp]: "wf_state (State_default\<lparr>s_next_registration_epoch := e\<rparr>)"
  by (simp add: wf_state_parts State_default_def tasks_inv_def seq_inv_def deliv_inv_def reg_inv_def
      inbox_inv_def owner_inv_def term_inv_def retired_inv_def indexes_ok_def sender_index.empty_index
      recipient_index.empty_index participant_index.empty_index)

lemma count_repair_restored [simp]: "rr_restored (fold (count_repair now) ds rep) = rr_restored rep"
  by (induction ds arbitrary: rep) (simp_all add: count_repair_def)

lemma dom_table_of: "dom (table_of ds) = dt_task_id ` set ds"
  using table_of_None [of ds] by (force simp: dom_def)

lemma dom_mirror [simp]: "dom (mirror T) = dom T"
  by (auto simp: mirror_def)

text \<open>
  The recovered broker holds the repaired tasks of the snapshot and no registration; the provider
  holds them too, and the report counts them.
\<close>

definition recovered ::
    "'p BrokerPersistence \<Rightarrow> ('p \<Rightarrow> task_table \<Rightarrow> bool) \<Rightarrow> i64 \<Rightarrow> 'p Broker \<Rightarrow> BrokerRecoveryReport \<Rightarrow> 'p Broker \<Rightarrow> bool" where
  "recovered P holds now w rep w' \<longleftrightarrow>
     (\<exists>snap p. bp_load P now (b_persistence w) = (Ok snap, p)
        \<and> s_next_registration_epoch (b_state w') = snap_last_registration_epoch snap
        \<and> mirror (taskm (b_state w')) = table_of (repaired now (snap_tasks snap))
        \<and> rep = (fold (count_repair now) (snap_tasks snap) BrokerRecoveryReport_default)
            \<lparr>rr_restored := card (dom (taskm (b_state w')))\<rparr>)
     \<and> regm (b_state w') = Map.empty \<and> \<not> s_reconciliation_required (b_state w')
     \<and> (\<forall>later. binv holds later w')"

lemma restored_count:
  assumes "mirror T = table_of ds" "distinct (map dt_task_id ds)"
  shows "card (dom T) = length ds"
proof -
  have "dom T = dt_task_id ` set ds"
    using arg_cong [OF assms(1), of dom] by (simp add: dom_table_of)
  moreover have "card (dt_task_id ` set ds) = length ds"
    using distinct_card [OF assms(2)] by simp
  ultimately show ?thesis by simp
qed

context persistence_contract
begin

lemma recover_correct:
  "wp (recover P json_len now) (\<lambda>_ _. True) (recovered P holds now w) w"
proof -
  have finish: "wp (commit_recovery P batch) (\<lambda>_ _. True) (\<lambda>_. wp (bindM (modify_state
        (\<lambda>_. State_default\<lparr>s_next_registration_epoch := snap_last_registration_epoch snap\<rparr>)) (\<lambda>_.
       bindM (in_state (forM (restore_order (retained_after now ts)) restore_next)) (\<lambda>_.
       ret (rep\<lparr>rr_restored := rr_restored rep + length (restore_order (retained_after now ts))\<rparr>))))
       (\<lambda>_ _. True) (recovered P holds now w)) w1"
    if load: "bp_load P now (b_persistence w) = (Ok snap, p)" and w1: "holds (b_persistence w1) (table_of (snap_tasks snap))"
      and v: "validate_and_reconcile_snapshot json_len (snap_tasks snap) now BrokerRecoveryReport_default = Ok (ts, batch, rep)"
    for snap p w1 ts batch rep
  proof -
    let ?ts = "restore_order (retained_after now ts)"
    let ?s0 = "State_default\<lparr>s_next_registration_epoch := snap_last_registration_epoch snap\<rparr>"
    note ok = repaired_restore_list [OF v]
    have rep: "rep = fold (count_repair now) (snap_tasks snap) BrokerRecoveryReport_default"
      and ts: "ts = repaired now (snap_tasks snap)" and batch: "batch = repair_batch now (snap_tasks snap)"
      and ids: "distinct (map dt_task_id (snap_tasks snap))"
      using v by (simp_all add: validate_and_reconcile_Ok)
    have tab: "table_of ?ts = table_of ts"
      using ok(2) repair_batch_table [OF ids] ts batch by simp
    have empty: "taskm ?s0 = Map.empty" "delivm ?s0 = Map.empty" "s_next_task_sequence ?s0 = 0"
      by (simp_all add: State_default_def)
    obtain s' where s': "forM ?ts restore_next ?s0 = (Ok (), s')" "wf_state s'" "bookkeeping s' = bookkeeping ?s0"
      "mirror (taskm s') = table_of ?ts"
      by (rule restore_from_empty [OF wf_State_default empty(1,2) ok(1) empty(3)]) blast
    have count: "card (dom (taskm s')) = length ?ts"
      by (rule restored_count [OF s'(4)]) (use ok(1) in \<open>simp add: restore_list_def\<close>)
    have final: "recovered P holds now w (rep\<lparr>rr_restored := rr_restored rep + length ?ts\<rparr>) w2"
      if "b_state w2 = s'" "holds (b_persistence w2) (table_of ?ts)" for w2
      unfolding recovered_def using that load s' rep tab ts count
      by (intro conjI exI [of _ snap] exI [of _ p])
        (simp_all add: bookkeeping_def State_default_def binv_def inbox_complete_def BrokerRecoveryReport_default_def)
    have body: "wp (bindM (modify_state (\<lambda>_. ?s0)) (\<lambda>_. bindM (in_state (forM ?ts restore_next)) (\<lambda>_.
       ret (rep\<lparr>rr_restored := rr_restored rep + length ?ts\<rparr>)))) (\<lambda>_ _. True) (recovered P holds now w) w2"
      if "holds (b_persistence w2) (table_of ?ts)" for w2
      using that by (simp add: wp_total [of "forM ?ts restore_next" ?s0, OF s'(1)] final)
    show ?thesis
    proof (cases "PersistenceBatch_is_empty batch")
      case True
      with body [of w1] w1 ok(2) show ?thesis by (simp add: commit_recovery_def apply_batch_empty)
    next
      case False
      show ?thesis
        unfolding commit_recovery_def wp_whenM wp_bindM [of "persistence_commit P batch"] if_P [OF False]
      proof (rule persistence_commit_rule, goal_cases)
        case (1 p')
        have "holds p' (table_of ?ts)" using commit_complete [OF 1 w1] ok(2) by simp
        with body show ?case by simp
      qed simp_all
    qed
  qed
  obtain r p where load: "bp_load P now (b_persistence w) = (r, p)" by fastforce
  then show ?thesis
    using load_no_panic finish load_table
    by (cases r) (auto simp: recover_def persistence_load_def wp_def [of "persistence_load P now"] wp_lift_res
        Let_def case_prod_unfold)
qed

end

section \<open>Reply waits\<close>

text \<open>
  Opening a wait on a settled task returns its result at once; on a live task it registers a new
  waiter, and nothing else about the tasks changes.
\<close>

definition opened_wait ::
    "('p \<Rightarrow> task_table \<Rightarrow> bool) \<Rightarrow> i64 \<Rightarrow> AgentName \<Rightarrow> TaskId \<Rightarrow> 'p Broker \<Rightarrow> ReplyPayload + ReplyWaiter \<Rightarrow> 'p Broker \<Rightarrow> bool" where
  "opened_wait holds now sender k w res w' \<longleftrightarrow>
     binv holds now w' \<and> \<not> s_reconciliation_required (b_state w')
     \<and> (\<exists>w1 t. maintained_world holds now w w1 \<and> taskm (b_state w1) k = Some t \<and> tr_sender t = sender
          \<and> (case res of
               Inl p \<Rightarrow> w' = w1 \<and> has_outcome (TerminalReplied p) t
             | Inr v \<Rightarrow> live t \<and> v = b_next_waiter w1 \<and> b_next_waiter w' = v + 1
                 \<and> s_registrations (b_state w') = s_registrations (b_state w1)
                 \<and> (\<exists>ws. set ws \<subseteq> set (tr_reply_waiters t)
                      \<and> taskm (b_state w') = (taskm (b_state w1))(k \<mapsto> t\<lparr>tr_reply_waiters := ws @ [v]\<rparr>))))"

lemma result_outcome:
  "reply_result_for_task t = Some (Ok p) \<Longrightarrow> has_outcome (TerminalReplied p) t"
  by (auto simp: reply_result_for_task_def has_outcome_def task_durable_state_def split: if_splits)

lemma result_not_Panic: "reply_result_for_task t \<noteq> Some Panic"
  by (auto simp: reply_result_for_task_def)

lemma wf_set_waiters:
  assumes wf: "wf_state s" and t: "taskm s k = Some t" "live t"
  shows "wf_state (s\<lparr>s_tasks := hm_insert k (t\<lparr>tr_reply_waiters := ws\<rparr>) (s_tasks s)\<rparr>)"
proof (rule wf_replace_tasks [OF wf])
  show "hm_keys (hm_insert k (t\<lparr>tr_reply_waiters := ws\<rparr>) (s_tasks s)) = hm_keys (s_tasks s)"
    using t by (simp add: keys_hm_insert_old)
  have ok: "taskm s j = Some u \<Longrightarrow> task_ok j u" for j u using wf by (simp add: wf_state_def tasks_inv_def)
  have "replaces k t (t\<lparr>tr_reply_waiters := ws\<rparr>)"
    using ok [OF t(1)] t(2) by (simp add: replaces_def core_def task_ok_waiters)
  then show "rel_option (replaces j) (taskm s j) (hm_get (hm_insert k (t\<lparr>tr_reply_waiters := ws\<rparr>) (s_tasks s)) j)" for j
    using t by (cases "taskm s j") auto
qed

lemma awaits_waiters:
  "T k = Some t \<Longrightarrow> awaits (T(k \<mapsto> t\<lparr>tr_reply_waiters := ws\<rparr>)) = awaits T"
  by (auto simp: awaits_def live_def fun_eq_iff)

lemma inbox_complete_waiters:
  "T k = Some t \<Longrightarrow> inbox_complete now R (T(k \<mapsto> t\<lparr>tr_reply_waiters := ws\<rparr>)) = inbox_complete now R T"
  by (simp add: inbox_complete_def awaits_waiters)

lemma mirror_same: "T k = Some t \<Longrightarrow> (mirror T)(k \<mapsto> durable_of k t) = mirror T"
  by (auto simp: mirror_def fun_eq_iff)

context persistence_contract
begin

lemma open_reply_wait_correct:
  assumes inv: "binv holds now w"
  shows "wp (open_reply_wait P json_len now sender k) (\<lambda>_. rejected_world holds now w) (opened_wait holds now sender k w) w"
  unfolding open_reply_wait_def wp_bindM [of "maintain_state P json_len now"]
proof (rule maintain_rule [OF inv], goal_cases)
  case (1 w1)
  let ?s = "b_state w1"
  have inv1: "binv holds now w1" and nr: "\<not> s_reconciliation_required ?s" using 1 by (simp_all add: maintained_world_def)
  then have wf: "wf_state ?s" by (simp add: binv_def)
  show ?case
  proof (cases "taskm ?s k")
    case None
    then show ?thesis using maintained_rejected [OF 1] by simp
  next
    case (Some t)
    have settled: "opened_wait holds now sender k w (Inl p) w1"
      if "tr_sender t = sender" "reply_result_for_task t = Some (Ok p)" for p
      unfolding opened_wait_def using 1 inv1 nr Some that result_outcome
      by (intro conjI exI [of _ w1] exI [of _ t]) simp_all
    have "opened_wait holds now sender k w (Inr (b_next_waiter w1)) (w1\<lparr>b_next_waiter := b_next_waiter w1 + 1,
        b_state := ?s\<lparr>s_tasks := hm_insert k (t\<lparr>tr_reply_waiters := ws @ [b_next_waiter w1]\<rparr>) (s_tasks ?s)\<rparr>\<rparr>)"
      if "tr_sender t = sender" "reply_result_for_task t = None" "set ws \<subseteq> set (tr_reply_waiters t)" for ws
    proof -
      have lv: "live t" using wf Some that(2) by (auto simp: wf_state_def tasks_inv_def intro: no_result_live)
      have "binv holds now (w1\<lparr>b_next_waiter := b_next_waiter w1 + 1,
          b_state := ?s\<lparr>s_tasks := hm_insert k (t\<lparr>tr_reply_waiters := ws @ [b_next_waiter w1]\<rparr>) (s_tasks ?s)\<rparr>\<rparr>)"
        using inv1 nr by (simp add: binv_def wf_set_waiters [OF wf Some lv] mirror_same [of "taskm ?s" k t, OF Some]
          inbox_complete_waiters [of "taskm ?s" k t, OF Some])
      with 1 nr Some that lv show ?thesis
        unfolding opened_wait_def by (intro conjI exI [of _ w1] exI [of _ t]) auto
    qed
    with Some settled maintained_rejected [OF 1] result_not_Panic [of t] show ?thesis
      by (auto simp: wp_lift_res split: option.splits)
  qed
qed (rule halted_rejected)

end

text \<open>
  A wait does not outlast the task's delivery deadline: once the clock has passed it, the section
  that follows the maintenance finds the task expired.
\<close>

lemma maintained_expires:
  assumes mw: "maintained_world holds later w w'" and nr: "\<not> s_reconciliation_required (b_state w)"
    and t: "taskm (b_state w) k = Some t" "live t"
    and late: "qd_created_unix_ms (tr_original_delivery t) + DELIVERY_TTL_MS \<le> later"
  obtains t' where "taskm (b_state w') k = Some t'" "reply_result_for_task t' = Some (Err TaskExpired)"
proof -
  have "maintained_state later (b_state w) (b_state w')"
    using mw nr by (auto simp: maintained_world_def reconciled_world_def)
  then have "taskm (b_state w') k = Some (terminated_record later TerminalExpired t)"
    using t late by (simp add: maintained_state_def maintained_def maintain_record_def due_now_def)
  then show thesis by (rule that) (simp add: terminated_record_def reply_result_for_task_def)
qed

context persistence_contract
begin

lemma reply_wait_expires:
  assumes inv: "binv holds (tn_after turn) w" and nr: "\<not> s_reconciliation_required (b_state w)"
    and t: "taskm (b_state w) k = Some t" "live t"
    and late: "qd_created_unix_ms (tr_original_delivery t) + DELIVERY_TTL_MS \<le> tn_after turn"
    and quiet: "tn_others turn = (\<lambda>w. w)" "tn_wake turn = BrokerDeadline"
  shows "wp (reply_wait_loop P json_len k v (turn # turn' # turns))
    (\<lambda>e w'. (e = TaskExpired \<and> maintained_world holds (tn_after turn) w w') \<or> halted_world holds (tn_after turn) w w')
    (\<lambda>_ _. False) w"
proof -
  have ok: "task_ok k t" using inv t(1) by (simp add: binv_def wf_state_def tasks_inv_def)
  then have "reply_result_for_task t = None" "tr_delivery t = Some (tr_original_delivery t)"
    "i64_range (qd_created_unix_ms (tr_original_delivery t) + DELIVERY_TTL_MS)"
    using t(2) by (auto simp: task_ok_def live_shape_def reply_result_for_task_def)
  moreover have "wp (maintain_state P json_len (tn_after turn))
      (\<lambda>e w'. (e = TaskExpired \<and> maintained_world holds (tn_after turn) w w') \<or> halted_world holds (tn_after turn) w w')
      (\<lambda>_. wp (reply_wait_loop P json_len k v (turn' # turns))
        (\<lambda>e w'. (e = TaskExpired \<and> maintained_world holds (tn_after turn) w w') \<or> halted_world holds (tn_after turn) w w')
        (\<lambda>_ _. False)) w"
  proof (rule maintain_rule [OF inv], goal_cases)
    case (1 w')
    then obtain t' where "taskm (b_state w') k = Some t'" "reply_result_for_task t' = Some (Err TaskExpired)"
      by (rule maintained_expires [OF _ nr t late]) blast+
    then show ?case using 1 by (simp add: reply_wait_section_def)
  qed simp
  ultimately show ?thesis
    using t(1) quiet by (simp add: reply_wait_section_def checked_add_i64_def)
qed

end

section \<open>Wait guards\<close>

text \<open>A wait for deliveries that returns leaves no wait flag behind, whatever ran meanwhile.\<close>

lemma drop_guard_flag:
  assumes "drop_guard i m w = (r, w')" "r \<noteq> Ok None" "regm (b_state w') i = Some reg"
  shows "\<not> rs_wait_active reg"
  using assms
  by (auto simp: drop_guard_def WaitGuard_drop_def split: prod.splits res.splits option.splits)

end
