(* ===== verification/Broker_System.thy ===== *)
theory Broker_System
  imports Broker_Waits
begin

text \<open>
  The broker as a transition system.  A request is one critical section of
  \<^verbatim>\<open>herdr-a2a-core/src/broker.rs\<close>; a run starts with a recovery and serves requests one after the
  other, each under the state mutex, with a clock that does not go back and identifiers that are
  fresh.  The invariant holds in every state of every run, no request panics, and tasks only evolve
  forward.
\<close>

section \<open>Requests\<close>

datatype request =
    Register RegistrationId VerifiedAgent string
  | Renew RegistrationCredentials
  | RemoveRegistration RegistrationCredentials
  | Authenticate RegistrationCredentials
  | ListAgents
  | OperationsSnapshot
  | DirectorySnapshot "string list"
  | TaskSnapshot RegistrationCredentials TaskId
  | TaskSnapshotForSender AgentName TaskId
  | Resume RegistrationCredentials QueuedDelivery
  | Enqueue RegistrationCredentials QueuedDelivery
  | BeginWait RegistrationCredentials
  | EndWait RegistrationId
  | PollDelivery DeliveryId RegistrationCredentials
  | AckDelivery RegistrationCredentials DeliveryId
  | OpenReplyWait AgentName TaskId
  | ReplyWaitSection TaskId
  | Maintain
  | CloseReplyWait ReplyWaiter
  | Reply RegistrationCredentials TaskId ReplyPayload
  | FailTask RegistrationCredentials TaskId ReplyPayload
  | RejectTask RegistrationCredentials TaskId ReplyPayload
  | CancelTask RegistrationCredentials TaskId

definition ignore :: "('p, 'a) bop \<Rightarrow> ('p, unit) bop" where
  "ignore m = bindM m (\<lambda>_. ret ())"

fun serve :: "'p BrokerPersistence \<Rightarrow> (json \<Rightarrow> nat) \<Rightarrow> i64 \<Rightarrow> request \<Rightarrow> ('p, unit) bop" where
  "serve P json_len now (Register i agent session) = ignore (register P json_len now i agent session)"
| "serve P json_len now (Renew c) = ignore (renew P json_len now c)"
| "serve P json_len now (RemoveRegistration c) = remove_registration P json_len now c"
| "serve P json_len now (Authenticate c) = ignore (authenticate P json_len now c)"
| "serve P json_len now ListAgents = ignore (list_agents P json_len now)"
| "serve P json_len now OperationsSnapshot = ignore (operations_snapshot P json_len now)"
| "serve P json_len now (DirectorySnapshot panes) = ignore (directory_snapshot P json_len now panes)"
| "serve P json_len now (TaskSnapshot c k) = ignore (task_snapshot P json_len now c k)"
| "serve P json_len now (TaskSnapshotForSender a k) = ignore (task_snapshot_for_sender P json_len now a k)"
| "serve P json_len now (Resume c d) = ignore (resume_section P json_len now c d)"
| "serve P json_len now (Enqueue c d) = ignore (enqueue P json_len now c d)"
| "serve P json_len now (BeginWait c) = ignore (begin_wait P json_len now c)"
| "serve P json_len now (EndWait i) = modify (WaitGuard_drop i)"
| "serve P json_len now (PollDelivery d c) = ignore (poll_delivery P json_len now d c)"
| "serve P json_len now (AckDelivery c d) = ack_delivery P json_len now c d"
| "serve P json_len now (OpenReplyWait a k) = ignore (open_reply_wait P json_len now a k)"
| "serve P json_len now (ReplyWaitSection k) = ignore (reply_wait_section k)"
| "serve P json_len now Maintain = maintain_state P json_len now"
| "serve P json_len now (CloseReplyWait v) = modify (\<lambda>w. w\<lparr>b_closed_waiters := v # b_closed_waiters w\<rparr>)"
| "serve P json_len now (Reply c k payload) = reply P json_len now c k payload"
| "serve P json_len now (FailTask c k m) = fail_task P json_len now c k m"
| "serve P json_len now (RejectTask c k m) = reject_task P json_len now c k m"
| "serve P json_len now (CancelTask c k) = cancel_task P json_len now c k"

text \<open>The credentials a request is made with.\<close>

fun caller :: "request \<Rightarrow> RegistrationCredentials option" where
  "caller (Renew c) = Some c"
| "caller (RemoveRegistration c) = Some c"
| "caller (Authenticate c) = Some c"
| "caller (TaskSnapshot c _) = Some c"
| "caller (Resume c _) = Some c"
| "caller (Enqueue c _) = Some c"
| "caller (BeginWait c) = Some c"
| "caller (PollDelivery _ c) = Some c"
| "caller (AckDelivery c _) = Some c"
| "caller (Reply c _ _) = Some c"
| "caller (FailTask c _ _) = Some c"
| "caller (RejectTask c _ _) = Some c"
| "caller (CancelTask c _) = Some c"
| "caller _ = None"

text \<open>What \<^verbatim>\<open>Uuid::now_v7\<close> is relied on for: a new identifier is not in use.\<close>

definition fresh_ids :: "'p BrokerPersistence \<Rightarrow> (json \<Rightarrow> nat) \<Rightarrow> i64 \<Rightarrow> request \<Rightarrow> 'p Broker \<Rightarrow> bool" where
  "fresh_ids P json_len now req w \<longleftrightarrow>
     (case req of
        Register i _ _ \<Rightarrow> hm_get (s_registrations (b_state w)) i = None
      | PollDelivery d _ \<Rightarrow>
          hm_get (s_tasks_by_delivery (b_state (snd (maintain_state P json_len now w)))) d = None
      | _ \<Rightarrow> True)"

inductive reachable :: "'p BrokerPersistence \<Rightarrow> (json \<Rightarrow> nat) \<Rightarrow> i64 \<Rightarrow> 'p Broker \<Rightarrow> bool"
  for P :: "'p BrokerPersistence" and json_len :: "json \<Rightarrow> nat" where
  recovered: "recover P json_len now (with_clock p) = (Ok report, w) \<Longrightarrow> reachable P json_len now w"
| served: "reachable P json_len now w \<Longrightarrow> now \<le> later \<Longrightarrow> fresh_ids P json_len later req w \<Longrightarrow>
    serve P json_len later req w = (r, w') \<Longrightarrow> reachable P json_len later w'"

section \<open>The evolution of tasks\<close>

text \<open>
  From one state to a later one a task keeps its identity and its parties, and a version that never
  goes back and rises whenever its durable form changes; a settled task does not change any more, and
  only a settled task past its retention goes away.
\<close>

definition steps_to :: "TaskId \<Rightarrow> TaskRecord \<Rightarrow> TaskRecord \<Rightarrow> bool" where
  "steps_to k t t' \<longleftrightarrow>
     tr_original_delivery t' = tr_original_delivery t
     \<and> tr_sender t' = tr_sender t \<and> tr_recipient t' = tr_recipient t
     \<and> tr_state_version t \<le> tr_state_version t'
     \<and> (durable_of k t' \<noteq> durable_of k t \<longrightarrow> tr_state_version t < tr_state_version t')
     \<and> (\<not> live t \<longrightarrow> t' = t)"

definition grows :: "task_map \<Rightarrow> task_map \<Rightarrow> bool" where
  "grows T T' \<longleftrightarrow> (\<forall>k t. T k = Some t \<longrightarrow> (\<exists>t'. T' k = Some t' \<and> steps_to k t t'))"

definition evolves :: "i64 \<Rightarrow> task_map \<Rightarrow> task_map \<Rightarrow> bool" where
  "evolves now T T' \<longleftrightarrow>
     (\<forall>k t. T k = Some t \<longrightarrow> due_for_pruning now t \<or> (\<exists>t'. T' k = Some t' \<and> steps_to k t t'))"

lemma steps_to_refl [simp]: "steps_to k t t"
  by (simp add: steps_to_def)

lemma steps_to_trans: "steps_to k t t' \<Longrightarrow> steps_to k t' t'' \<Longrightarrow> steps_to k t t''"
  by (auto simp: steps_to_def)

lemma grows_refl [simp]: "grows T T"
  by (simp add: grows_def)

lemma evolves_refl [simp]: "evolves now T T"
  by (simp add: evolves_def)

lemma evolves_grows: "evolves now T T' \<Longrightarrow> grows T' T'' \<Longrightarrow> evolves now T T''"
  unfolding evolves_def grows_def by (meson steps_to_trans)

lemma grows_upd: "T k = None \<or> (\<exists>t. T k = Some t \<and> steps_to k t t') \<Longrightarrow> grows T (T(k \<mapsto> t'))"
  by (auto simp: grows_def)

lemma grows_upd_old: "T k = Some t \<Longrightarrow> steps_to k t t' \<Longrightarrow> grows T (T(k \<mapsto> t'))"
  by (rule grows_upd) simp

lemma steps_to_records:
  "live t \<Longrightarrow> steps_to k t (terminated_record now ts t)"
  "live t \<Longrightarrow> steps_to k t (requeued_record t)"
  "live t \<Longrightarrow> steps_to k t (leased_record l t)"
  "live t \<Longrightarrow> steps_to k t (acknowledged_record now t)"
  "live t \<Longrightarrow> steps_to k t (t\<lparr>tr_reply_waiters := ws\<rparr>)"
  by (simp_all add: steps_to_def terminated_record_def requeued_record_def leased_record_def acknowledged_record_def)

lemma maintained_state_evolves:
  assumes "maintained_state now s s'" "wf_state s"
  shows "evolves now (taskm s) (taskm s')"
  unfolding evolves_def
proof (intro allI impI)
  fix k t assume t: "taskm s k = Some t"
  then have ok: "task_ok k t" using assms(2) by (simp add: wf_state_def tasks_inv_def)
  have "taskm s' k = maintain_record now (expired_credentials now s) t"
    using assms(1) t by (simp add: maintained_state_def maintained_def)
  then show "due_for_pruning now t \<or> (\<exists>t'. taskm s' k = Some t' \<and> steps_to k t t')"
    using steps_to_records(1,2) leased_any_live [OF ok]
    by (auto simp: maintain_record_def due_now_def split: if_splits)
qed

lemma maintained_evolves:
  assumes mw: "maintained_world holds now w w'" and inv: "binv holds now w" and nr: "\<not> s_reconciliation_required (b_state w)"
  shows "evolves now (taskm (b_state w)) (taskm (b_state w'))"
proof -
  have "maintained_state now (b_state w) (b_state w')"
    using mw nr by (auto simp: maintained_world_def reconciled_world_def)
  then show ?thesis by (rule maintained_state_evolves) (use inv in \<open>simp add: binv_def\<close>)
qed

lemma rejected_evolves:
  assumes rw: "rejected_world holds now w w'" and inv: "binv holds now w" and nr: "\<not> s_reconciliation_required (b_state w)"
  shows "evolves now (taskm (b_state w)) (taskm (b_state w'))"
proof -
  obtain w0 :: "'a Broker" where w0: "w0 = w \<or> reconciled_world holds now w w0 \<or> maintained_world holds now w w0"
    and st: "b_state w' = (b_state w0)\<lparr>s_reconciliation_required := s_reconciliation_required (b_state w')\<rparr>"
    using rw by (auto simp: rejected_world_def)
  have "taskm (b_state w') = taskm (b_state w0)" by (subst st) simp
  with w0 nr maintained_evolves [OF _ inv nr, of w0] show ?thesis by (auto simp: reconciled_world_def)
qed

lemma grows_requeued:
  assumes "wf_state s"
  shows "grows (taskm s) (requeued_map c (taskm s))"
proof -
  have "steps_to k t (requeue_by c t)" if "taskm s k = Some t" for k t
  proof -
    have "task_ok k t" using assms that by (simp add: wf_state_def tasks_inv_def)
    then have "leased_by c t \<Longrightarrow> live t" using leased_any_live [of k t "[c]"] by (simp add: leased_by_any_iff)
    then show ?thesis by (simp add: requeue_by_def steps_to_records)
  qed
  then show ?thesis by (auto simp: grows_def requeued_map_def)
qed

text \<open>Each operation's effect lets the tasks grow from the maintained state.\<close>

definition grown :: "('p \<Rightarrow> task_table \<Rightarrow> bool) \<Rightarrow> i64 \<Rightarrow> 'p Broker \<Rightarrow> 'p Broker \<Rightarrow> bool" where
  "grown holds now w w' \<longleftrightarrow> binv holds now w'
     \<and> (\<exists>w1. maintained_world holds now w w1 \<and> grows (taskm (b_state w1)) (taskm (b_state w')))"

lemma grown_evolves:
  assumes "grown holds now w w'" "binv holds now w" "\<not> s_reconciliation_required (b_state w)"
  shows "evolves now (taskm (b_state w)) (taskm (b_state w'))"
  using assms maintained_evolves evolves_grows by (fastforce simp: grown_def)

lemma maintained_grown: "maintained_world holds now w w' \<Longrightarrow> grown holds now w w'"
  unfolding grown_def by (metis grows_refl maintained_world_def)

lemma same_tasks_grown:
  "binv holds now w' \<Longrightarrow> maintained_world holds now w w1 \<Longrightarrow> taskm (b_state w') = taskm (b_state w1) \<Longrightarrow> grown holds now w w'"
  unfolding grown_def by (metis grows_refl)

lemma settles_grown: "settles holds now c k party ts result w w' \<Longrightarrow> grown holds now w w'"
  unfolding settles_def grown_def
  by (elim conjE exE, intro conjI, assumption, rule exI, rule conjI, assumption)
    (auto simp: settled_world_def steps_to_records(1) intro: grows_upd split: if_splits)

lemma deregistered_grown: "deregistered holds now c w w' \<Longrightarrow> grown holds now w w'"
  unfolding deregistered_def grown_def using grows_requeued
  by (metis binv_def ready_def)

lemma enqueued_grown: "enqueued holds now c d w w' \<Longrightarrow> grown holds now w w'"
  unfolding enqueued_def grown_def Let_def using grows_upd by metis

lemma registered_grown:
  assumes "registered holds now i agent session w g w'"
  shows "grown holds now w w'"
proof -
  obtain w1 where w1: "maintained_world holds now w w1"
    "taskm (b_state w') = handed_over (agentm (b_state w1) (va_name agent)) (b_state w1)" and inv: "binv holds now w'"
    using assms unfolding registered_def Let_def by blast
  then have "grows (taskm (b_state w1)) (taskm (b_state w'))"
    using grows_requeued [of "b_state w1"]
    by (simp add: handed_over_def maintained_world_def binv_def split: option.splits)
  with w1(1) inv show ?thesis unfolding grown_def by blast
qed

lemma acked_grown:
  assumes "acked holds now c d w w'"
  shows "grown holds now w w'"
proof -
  obtain w1 k t where w1: "maintained_world holds now w w1" "taskm (b_state w1) k = Some t" "live t"
    "w' = w1 \<or> taskm (b_state w') = (taskm (b_state w1))(k \<mapsto> acknowledged_record now t)" and inv: "binv holds now w'"
    using assms unfolding acked_def by metis
  then have "grows (taskm (b_state w1)) (taskm (b_state w'))"
    using steps_to_records(4) [OF w1(3)] grows_upd_old [of "taskm (b_state w1)" k t] by auto
  with w1(1) inv show ?thesis unfolding grown_def by blast
qed

lemma polled_grown:
  assumes "polled holds now c d w res w'"
  shows "grown holds now w w'"
proof -
  obtain w1 r where w1: "maintained_world holds now w w1" "ready holds now c w1 r" and inv: "binv holds now w'"
    and res: "w' = w1 \<or> (\<exists>k t l. first_offer now (b_state w1) (rs_inbox r) k t
       \<and> taskm (b_state w') = (taskm (b_state w1))(k \<mapsto> leased_record l t))"
    using assms unfolding polled_def Let_def by (cases res) fastforce+
  have "grows (taskm (b_state w1)) (taskm (b_state w'))"
  proof -
    have "live t \<and> taskm (b_state w1) k = Some t" if "first_offer now (b_state w1) (rs_inbox r) k t" for k t
      using that inbox_pollable [of "b_state w1" "cr_id c" r] w1(2)
      by (auto simp: first_offer_def pollable_def ready_def binv_def)
    with res show ?thesis using steps_to_records(3) grows_upd_old [of "taskm (b_state w1)"] by fastforce
  qed
  with w1(1) inv show ?thesis unfolding grown_def by blast
qed

lemma opened_grown:
  assumes "opened_wait holds now a k w res w'"
  shows "grown holds now w w'"
proof -
  obtain w1 t where w1: "maintained_world holds now w w1" "taskm (b_state w1) k = Some t" and inv: "binv holds now w'"
    and res: "w' = w1 \<or> live t \<and> (\<exists>ws. taskm (b_state w') = (taskm (b_state w1))(k \<mapsto> t\<lparr>tr_reply_waiters := ws\<rparr>))"
    using assms unfolding opened_wait_def by (cases res) auto
  then have "grows (taskm (b_state w1)) (taskm (b_state w'))"
    using steps_to_records(5) [of t k] grows_upd_old [of "taskm (b_state w1)" k t] by auto
  with w1(1) inv show ?thesis unfolding grown_def by blast
qed

lemmas grown_effects = settles_grown deregistered_grown enqueued_grown registered_grown acked_grown
  polled_grown opened_grown maintained_grown same_tasks_grown

section \<open>Every request\<close>

text \<open>What every request leaves: the invariant, and tasks that have only evolved forward.\<close>

definition sound_world :: "('p \<Rightarrow> task_table \<Rightarrow> bool) \<Rightarrow> i64 \<Rightarrow> 'p Broker \<Rightarrow> 'p Broker \<Rightarrow> bool" where
  "sound_world holds now w w' \<longleftrightarrow> binv holds now w'
     \<and> (\<not> s_reconciliation_required (b_state w) \<longrightarrow> evolves now (taskm (b_state w)) (taskm (b_state w')))"

lemma grown_sound: "binv holds now w \<Longrightarrow> grown holds now w w' \<Longrightarrow> sound_world holds now w w'"
  by (simp add: sound_world_def grown_evolves) (simp add: grown_def)

lemma rejected_sound: "binv holds now w \<Longrightarrow> rejected_world holds now w w' \<Longrightarrow> sound_world holds now w w'"
  by (simp add: sound_world_def rejected_evolves rejected_binv)

definition sound_op :: "('p \<Rightarrow> task_table \<Rightarrow> bool) \<Rightarrow> i64 \<Rightarrow> 'p Broker \<Rightarrow> ('p, 'a) bop \<Rightarrow> bool" where
  "sound_op holds now w m \<longleftrightarrow> wp m (\<lambda>_. sound_world holds now w) (\<lambda>_. sound_world holds now w) w"

lemma sound_ignore [simp]: "sound_op holds now w (ignore m) = sound_op holds now w m"
  by (simp add: sound_op_def ignore_def wp_bindM_ret del: wp_bindM)

lemma sound_by:
  assumes "wp m (\<lambda>_. rejected_world holds now w) Q w" "binv holds now w" "\<And>a w'. Q a w' \<Longrightarrow> grown holds now w w'"
  shows "sound_op holds now w m"
  unfolding sound_op_def
  by (rule wp_conseq [OF assms(1)]) (use assms(2,3) grown_sound rejected_sound in blast)+

context persistence_contract
begin

text \<open>Requests that only read after maintenance, which may have failed.\<close>

lemma list_agents_sound:
  assumes inv: "binv holds now w"
  shows "wp (list_agents P json_len now) (\<lambda>_. sound_world holds now w) (\<lambda>_. sound_world holds now w) w"
  by (rule wp_conseq [OF list_agents_correct [OF inv]])
    (use grown_sound [OF inv] maintained_grown rejected_sound [OF inv] halted_rejected in blast)+

lemma directory_snapshot_sound: "binv holds now w \<Longrightarrow> sound_op holds now w (directory_snapshot P json_len now panes)"
  unfolding sound_op_def directory_snapshot_def wp_bindM
  by (rule wp_conseq [OF list_agents_sound]) (simp_all add: Let_def)

lemma reply_wait_section_sound: "binv holds now w \<Longrightarrow> sound_op holds now w (reply_wait_section k)"
  using result_not_Panic
  by (auto simp: sound_op_def sound_world_def reply_wait_section_def wp_lift_res split: option.splits)

lemma end_wait_sound: "binv holds now w \<Longrightarrow> sound_op holds now w (modify (WaitGuard_drop i))"
  using WaitGuard_drop_binv [of holds now w i] by (simp add: sound_op_def sound_world_def WaitGuard_drop_def)

lemma reading_sound:
  assumes inv: "binv holds now w"
  shows "sound_op holds now w (list_agents P json_len now)"
    and "sound_op holds now w (maintain_state P json_len now)"
    and "sound_op holds now w (operations_snapshot P json_len now)"
    and "sound_op holds now w (resume_section P json_len now c d)"
proof -
  show "sound_op holds now w (list_agents P json_len now)"
    using list_agents_sound [OF inv] by (simp add: sound_op_def)
  have "wp (maintain_state P json_len now) (\<lambda>_. rejected_world holds now w) (\<lambda>_. maintained_world holds now w) w"
    by (rule maintain_rule [OF inv]) (simp_all add: halted_rejected)
  then show "sound_op holds now w (maintain_state P json_len now)"
    by (rule sound_by [OF _ inv]) (rule maintained_grown)
  show "sound_op holds now w (operations_snapshot P json_len now)"
    by (rule sound_by [OF operations_snapshot_correct [OF inv] inv]) (blast intro: maintained_grown)
  show "sound_op holds now w (resume_section P json_len now c d)"
    by (rule sound_by [OF resume_section_correct [OF inv] inv]) (rule maintained_grown)
qed

lemma snapshot_sound:
  assumes inv: "binv holds now w"
  shows "sound_op holds now w (authenticate P json_len now c)"
    and "sound_op holds now w (task_snapshot P json_len now c k)"
    and "sound_op holds now w (task_snapshot_for_sender P json_len now a k)"
  by (rule sound_by [OF authenticate_correct [OF inv] inv] sound_by [OF task_snapshot_correct [OF inv] inv]
      sound_by [OF task_snapshot_for_sender_correct [OF inv] inv]; blast intro: maintained_grown)+

lemma registering_sound:
  assumes inv: "binv holds now w"
  shows "regm (b_state w) i = None \<Longrightarrow> sound_op holds now w (register P json_len now i agent session)"
    and "sound_op holds now w (renew P json_len now c)"
    and "sound_op holds now w (remove_registration P json_len now c)"
    and "sound_op holds now w (begin_wait P json_len now c)"
proof -
  show "sound_op holds now w (register P json_len now i agent session)" if "regm (b_state w) i = None"
    by (rule sound_by [OF register_correct [OF inv that] inv]) (rule registered_grown)
  show "sound_op holds now w (renew P json_len now c)"
    by (rule sound_by [OF renew_correct [OF inv] inv]) (blast intro: same_tasks_grown)
  show "sound_op holds now w (remove_registration P json_len now c)"
    by (rule sound_by [OF remove_registration_correct [OF inv] inv]) (rule deregistered_grown)
  show "sound_op holds now w (begin_wait P json_len now c)"
    by (rule sound_by [OF begin_wait_correct [OF inv] inv]) (blast intro: same_tasks_grown)
qed

lemma delivering_sound:
  assumes inv: "binv holds now w"
  shows "sound_op holds now w (enqueue P json_len now c d)"
    and "delivm (b_state (snd (maintain_state P json_len now w))) e = None \<Longrightarrow>
      sound_op holds now w (poll_delivery P json_len now e c)"
    and "sound_op holds now w (ack_delivery P json_len now c e)"
    and "sound_op holds now w (open_reply_wait P json_len now a k)"
proof -
  show "sound_op holds now w (enqueue P json_len now c d)"
    by (rule sound_by [OF enqueue_correct [OF inv] inv]) (blast intro: enqueued_grown)
  show "sound_op holds now w (poll_delivery P json_len now e c)"
    if "delivm (b_state (snd (maintain_state P json_len now w))) e = None"
    by (rule sound_by [OF poll_delivery_correct [OF inv that] inv]) (rule polled_grown)
  show "sound_op holds now w (ack_delivery P json_len now c e)"
    by (rule sound_by [OF ack_delivery_correct [OF inv] inv]) (rule acked_grown)
  show "sound_op holds now w (open_reply_wait P json_len now a k)"
    by (rule sound_by [OF open_reply_wait_correct [OF inv] inv]) (rule opened_grown)
qed

lemma settling_sound:
  assumes inv: "binv holds now w"
  shows "sound_op holds now w (reply P json_len now c k payload)"
    and "sound_op holds now w (fail_task P json_len now c k payload)"
    and "sound_op holds now w (reject_task P json_len now c k payload)"
    and "sound_op holds now w (cancel_task P json_len now c k)"
  unfolding fail_task_def reject_task_def
  by (rule sound_by [OF reply_correct [OF inv] inv] sound_by [OF recipient_terminal_correct [OF inv] inv]
      sound_by [OF cancel_task_correct [OF inv] inv]; simp add: settles_grown)+

lemma serve_sound:
  assumes inv: "binv holds now w" and fresh: "fresh_ids P json_len now req w"
  shows "sound_op holds now w (serve P json_len now req)"
  using fresh
  by (cases req)
    (simp_all add: fresh_ids_def inv reading_sound snapshot_sound registering_sound delivering_sound settling_sound
      directory_snapshot_sound reply_wait_section_sound end_wait_sound, simp add: inv sound_op_def sound_world_def)

lemma reachable_invariant: "reachable P json_len now w \<Longrightarrow> binv holds now w"
proof (induction rule: reachable.induct)
  case (recovered now p report w)
  with wp_result(2) [OF recover_correct recovered refl] show ?case by (simp add: recovered_def)
next
  case (served now w later req r w')
  have "binv holds later w" using served by (blast intro: binv_mono)
  note sound = wp_result [OF serve_sound [OF this served(3), unfolded sound_op_def] served(4)]
  then show ?case by (cases r) (auto simp: sound_world_def)
qed

end

end
