(* ===== verification/Broker_Examples.thy ===== *)
theory Broker_Examples
  imports Broker_System "HOL-Library.Code_Target_Nat"
begin

text \<open>
  A run of the broker without a ledger on concrete requests: two agents register, the first sends a
  task to the second, the second polls it, acknowledges it and replies.  Every state of the run is
  reachable; the witnesses of the properties apply them there.
\<close>

definition sample_len :: "json \<Rightarrow> nat" where
  "sample_len _ = 2"

definition sample_agent :: "string \<Rightarrow> VerifiedAgent" where
  "sample_agent a = \<lparr>va_name = a, va_pane_id = ''pane-'' @ a, va_harness = ''pi'', va_workspace = ''/w''\<rparr>"

definition sample_payload :: ValidatedPayload where
  "sample_payload = \<lparr>vp_text = ''hello'', vp_metadata = JNull, vp_file_refs = []\<rparr>"

definition sample_delivery :: "TaskId \<Rightarrow> QueuedDelivery" where
  "sample_delivery k = \<lparr>qd_task_id = k, qd_context_id = ''c1'', qd_sender = ''alpha'', qd_recipient = ''beta'',
     qd_payload = sample_payload, qd_created_unix_ms = 0, qd_attempt = 1\<rparr>"

definition sample_reply :: ReplyPayload where
  "sample_reply = \<lparr>rp_text = ''done'', rp_metadata = JNull, rp_file_refs = []\<rparr>"

definition alpha :: RegistrationCredentials where "alpha = \<lparr>cr_id = ''r1'', cr_epoch = 1\<rparr>"

definition beta :: RegistrationCredentials where "beta = \<lparr>cr_id = ''r2'', cr_epoch = 2\<rparr>"

abbreviation any_table :: "unit \<Rightarrow> task_table \<Rightarrow> bool" where
  "any_table \<equiv> \<lambda>_ _. True"

fun run :: "request list \<Rightarrow> unit Broker \<Rightarrow> unit Broker" where
  "run [] w = w"
| "run (req # reqs) w = run reqs (snd (serve VolatilePersistence sample_len 1000 req w))"

definition started :: "unit Broker" where
  "started = snd (recover VolatilePersistence sample_len 1000 (with_clock ()))"

fun all_fresh :: "request list \<Rightarrow> unit Broker \<Rightarrow> bool" where
  "all_fresh [] w = True"
| "all_fresh (req # reqs) w \<longleftrightarrow> fresh_ids VolatilePersistence sample_len 1000 req w
     \<and> all_fresh reqs (snd (serve VolatilePersistence sample_len 1000 req w))"

definition registering :: "request list" where
  "registering = [Register ''r1'' (sample_agent ''alpha'') ''s1'', Register ''r2'' (sample_agent ''beta'') ''s2'']"

definition sending :: "request list" where
  "sending = registering @ [Enqueue alpha (sample_delivery ''t1'')]"

definition polling :: "request list" where
  "polling = sending @ [PollDelivery ''d1'' beta]"

definition acknowledging :: "request list" where
  "acknowledging = polling @ [AckDelivery beta ''d1'']"

definition replying :: "request list" where
  "replying = acknowledging @ [Reply beta ''t1'' sample_reply]"

lemma started_recovers:
  "recover VolatilePersistence sample_len 1000 (with_clock ()) = (Ok BrokerRecoveryReport_default, started)"
proof -
  have "fst (recover VolatilePersistence sample_len 1000 (with_clock ())) = Ok BrokerRecoveryReport_default"
    by code_simp
  then show ?thesis by (simp add: started_def prod_eq_iff)
qed

lemma started_reachable: "reachable VolatilePersistence sample_len 1000 started"
  by (rule reachable.recovered) (rule started_recovers)

lemma run_reachable:
  "reachable VolatilePersistence sample_len 1000 w \<Longrightarrow> all_fresh reqs w \<Longrightarrow>
     reachable VolatilePersistence sample_len 1000 (run reqs w)"
proof (induction reqs arbitrary: w)
  case (Cons req reqs)
  then have "reachable VolatilePersistence sample_len 1000 (snd (serve VolatilePersistence sample_len 1000 req w))"
    by (intro reachable.served [OF Cons.prems(1) order_refl _ prod.collapse [symmetric]]) simp
  with Cons show ?case by simp
qed simp

lemma replying_fresh: "all_fresh replying started"
  by code_simp

lemma all_fresh_append: "all_fresh (xs @ ys) w \<longleftrightarrow> all_fresh xs w \<and> all_fresh ys (run xs w)"
  by (induction xs arbitrary: w) simp_all

lemma sample_reachable:
  "reachable VolatilePersistence sample_len 1000 (run registering started)"
  "reachable VolatilePersistence sample_len 1000 (run sending started)"
  "reachable VolatilePersistence sample_len 1000 (run polling started)"
  "reachable VolatilePersistence sample_len 1000 (run acknowledging started)"
  "reachable VolatilePersistence sample_len 1000 (run replying started)"
  using replying_fresh
  by (auto intro!: run_reachable [OF started_reachable]
      simp: replying_def acknowledging_def polling_def sending_def all_fresh_append)

lemmas sample_inv = sample_reachable [THEN volatile.reachable_invariant]

lemma volatile_contract: "persistence_contract VolatilePersistence any_table"
  by (rule volatile.persistence_contract_axioms)

end
