(* ===== verification/Broker_Progress.thy ===== *)
theory Broker_Progress
  imports Broker_System
begin

text \<open>
  Operations of \<^verbatim>\<open>herdr-a2a-core/src/broker.rs\<close> that run several critical sections while the rest of
  the system goes on: \<^verbatim>\<open>start_or_resume\<close>, which starts a task or finds the one an earlier request of
  the same content started, and the waits for a reply, which end by the task's delivery deadline.
  What the others do between two sections is any function that keeps the invariant of the broker.
\<close>

section \<open>Starting or resuming a task\<close>

text \<open>What the section at the clock reading \<open>k\<close> may rely on: the others keep the invariant from one reading to the next.\<close>

definition interference :: "('p \<Rightarrow> task_table \<Rightarrow> bool) \<Rightarrow> (nat \<Rightarrow> i64) \<Rightarrow> (nat \<Rightarrow> 'p Broker \<Rightarrow> 'p Broker) \<Rightarrow> bool" where
  "interference holds clock others \<longleftrightarrow>
     (\<forall>k w. binv holds (clock k) w \<longrightarrow> binv holds (clock (Suc k)) (others k w))"

text \<open>The request a task was started with is the one of the delivery.\<close>

definition same_request :: "QueuedDelivery \<Rightarrow> TaskRecord \<Rightarrow> bool" where
  "same_request d t \<longleftrightarrow> tr_sender t = qd_sender d \<and> tr_recipient t = qd_recipient d
     \<and> qd_context_id (tr_original_delivery t) = qd_context_id d \<and> qd_payload (tr_original_delivery t) = qd_payload d"

text \<open>A task that is found: it has the same request, and is reported as it is, settled or not.\<close>

definition resumed ::
    "('p \<Rightarrow> task_table \<Rightarrow> bool) \<Rightarrow> i64 \<Rightarrow> RegistrationCredentials \<Rightarrow> QueuedDelivery \<Rightarrow> 'p Broker \<Rightarrow> StartOrResume \<Rightarrow> 'p Broker \<Rightarrow> bool" where
  "resumed holds now c d w res w' \<longleftrightarrow>
     maintained_world holds now w w'
     \<and> (\<exists>r t. ready holds now c w' r \<and> reg_name r = qd_sender d
          \<and> taskm (b_state w') (qd_task_id d) = Some t \<and> same_request d t
          \<and> res = (if is_terminal_state (dt_state (durable_of (qd_task_id d) t)) then Terminal else Active)
                (durable_of (qd_task_id d) t))"

text \<open>A task that is started: it is enqueued, and reported as it is after the others have gone on.\<close>

definition begun ::
    "('p \<Rightarrow> task_table \<Rightarrow> bool) \<Rightarrow> (nat \<Rightarrow> i64) \<Rightarrow> (nat \<Rightarrow> 'p Broker \<Rightarrow> 'p Broker) \<Rightarrow> nat \<Rightarrow> RegistrationCredentials \<Rightarrow>
     QueuedDelivery \<Rightarrow> 'p Broker \<Rightarrow> StartOrResume \<Rightarrow> 'p Broker \<Rightarrow> bool" where
  "begun holds clock others k c d w res w' \<longleftrightarrow>
     (\<exists>w1 w2 t. maintained_world holds (clock k) w w1 \<and> taskm (b_state w1) (qd_task_id d) = None
        \<and> enqueued holds (clock (Suc k)) c d (others k w1) w2
        \<and> maintained_world holds (clock (Suc (Suc k))) (others (Suc k) w2) w'
        \<and> (\<exists>r. ready holds (clock (Suc (Suc k))) c w' r \<and> tr_sender t = reg_name r)
        \<and> taskm (b_state w') (qd_task_id d) = Some t
        \<and> res = Started (durable_of (qd_task_id d) t))"

text \<open>
  An attempt finds the task, or starts it, or is overtaken by another that started a task of the same
  identifier.  The state in which the successful attempt began is the initial one for the first.
\<close>

definition started_or_resumed ::
    "('p \<Rightarrow> task_table \<Rightarrow> bool) \<Rightarrow> (nat \<Rightarrow> i64) \<Rightarrow> (nat \<Rightarrow> 'p Broker \<Rightarrow> 'p Broker) \<Rightarrow> nat \<Rightarrow> RegistrationCredentials \<Rightarrow>
     QueuedDelivery \<Rightarrow> 'p Broker \<Rightarrow> StartOrResume \<Rightarrow> 'p Broker \<Rightarrow> bool" where
  "started_or_resumed holds clock others k c d w res w' \<longleftrightarrow>
     (\<exists>j v. k \<le> j \<and> (j = k \<longrightarrow> v = w) \<and> binv holds (clock j) v
        \<and> (resumed holds (clock j) c d v res w' \<or> begun holds clock others j c d v res w'))"

lemma wp_caught:
  assumes m: "wp m E' Q' s"
    and ok: "\<And>a t. Q' a t \<Longrightarrow> wp (f a) E Q t" and dup: "\<And>t. E' DuplicateTask t \<Longrightarrow> wp g E Q t"
    and err: "\<And>e t. E' e t \<Longrightarrow> E e t"
  shows "wp (\<lambda>w. case m w of (Ok a, w') \<Rightarrow> f a w' | (Err DuplicateTask, w') \<Rightarrow> g w' | (Err e, w') \<Rightarrow> (Err e, w')
    | (Panic, w') \<Rightarrow> (Panic, w')) E Q s"
proof (cases "m s")
  case (Pair r t)
  with m have "r \<noteq> Panic" "\<And>a. r = Ok a \<Longrightarrow> Q' a t" "\<And>e. r = Err e \<Longrightarrow> E' e t" by (auto simp: wp_def)
  with Pair ok [of _ t] dup [of t] err [of _ t] show ?thesis
    by (cases r) (auto simp: wp_def split: DomainError.split)
qed

lemma started_later:
  "started_or_resumed holds clock others (Suc (Suc k)) c d v res w' \<Longrightarrow> started_or_resumed holds clock others k c d w res w'"
  unfolding started_or_resumed_def by (metis Suc_leD n_not_Suc_n not_less_eq_eq)

context persistence_contract
begin

lemma resume_section_resumes:
  assumes inv: "binv holds now w"
  shows "wp (resume_section P json_len now c d) (\<lambda>_. rejected_world holds now w)
    (\<lambda>found w'. case found of
        Some res \<Rightarrow> resumed holds now c d w res w'
      | None \<Rightarrow> maintained_world holds now w w' \<and> taskm (b_state w') (qd_task_id d) = None
          \<and> active_registration_id (b_state w') (qd_recipient d) now \<noteq> None) w"
  unfolding resume_section_def wp_bindM
proof (rule authenticated_rule [OF inv], goal_cases)
  case (1 w1 r)
  have found: "resumed holds now c d w ((if is_terminal_state (dt_state (durable_of (qd_task_id d) t)) then Terminal
      else Active) (durable_of (qd_task_id d) t)) w1"
    if "reg_name r = qd_sender d" "taskm (b_state w1) (qd_task_id d) = Some t" "same_request d t" for t
    unfolding resumed_def using 1 that by blast
  show ?case
    using 1(1) found
    by (auto simp: wp_own_registration [OF 1(2)] maintained_rejected [OF 1(1)] wp_lift_res same_request_def
        durable_task_of_ok [OF ready_task_ok [OF 1(2)]] split: option.splits)
qed

lemma begin_task:
  assumes rely: "interference holds clock others"
    and w1: "maintained_world holds (clock k) w w1" "taskm (b_state w1) (qd_task_id d) = None"
    and w2: "enqueued holds (clock (Suc k)) c d (others k w1) w2"
  shows "wp (bindM (modify (others (Suc k))) (\<lambda>_.
      bindM (task_snapshot P json_len (clock (Suc (Suc k))) c (qd_task_id d)) (\<lambda>snapshot. ret (Started snapshot))))
    (\<lambda>_ w'. \<exists>j. binv holds (clock j) w') (begun holds clock others k c d w) w2"
proof -
  have "binv holds (clock (Suc (Suc k))) (others (Suc k) w2)"
    using w2 rely by (simp add: enqueued_def interference_def)
  from task_snapshot_correct [OF this] show ?thesis
    unfolding wp_bindM wp_primitive
    by (rule wp_conseq) (use w1 w2 in \<open>auto simp: begun_def rejected_world_def\<close>)
qed

lemma attempts_correct:
  assumes rely: "interference holds clock others" and inv: "binv holds (clock k) w"
  shows "wp (start_or_resume_attempts P json_len clock others c d k n) (\<lambda>_ w'. \<exists>j. binv holds (clock j) w')
    (started_or_resumed holds clock others k c d w) w"
  using inv
proof (induction n arbitrary: k w)
  case 0
  then show ?case by auto
next
  case (Suc n)
  let ?E = "\<lambda>(_ :: DomainError) w'. \<exists>j. binv holds (clock j) w'"
  have here: "started_or_resumed holds clock others k c d w res w'"
    if "resumed holds (clock k) c d w res w' \<or> begun holds clock others k c d w res w'" for res w'
    unfolding started_or_resumed_def using that Suc.prems by blast
  show ?case
    unfolding start_or_resume_attempts.simps wp_bindM [of "resume_section P json_len (clock k) c d"]
  proof (rule wp_conseq [OF resume_section_resumes [OF Suc.prems]], goal_cases)
    case (1 found w1)
    show ?case
    proof (cases found)
      case None
      then have w1: "maintained_world holds (clock k) w w1" "taskm (b_state w1) (qd_task_id d) = None"
        using 1 by simp_all
      let ?v = "others k w1"
      have inv: "binv holds (clock (Suc k)) ?v"
        using w1(1) rely by (simp add: maintained_world_def interference_def)
      have retry: "wp (start_or_resume_attempts P json_len clock others c d (Suc (Suc k)) n) ?E
          (started_or_resumed holds clock others k c d w) (others (Suc k) w2)"
        if "rejected_world holds (clock (Suc k)) ?v w2" for w2
        by (rule wp_conseq [OF Suc.IH]) (use that rely in \<open>auto simp: rejected_world_def interference_def intro: started_later\<close>)
      have body: "wp (\<lambda>w. case enqueue P json_len (clock (Suc k)) c d w of
            (Ok _, w') \<Rightarrow> bindM (modify (others (Suc k))) (\<lambda>_. bindM (task_snapshot P json_len (clock (Suc (Suc k))) c
               (qd_task_id d)) (\<lambda>snapshot. ret (Started snapshot))) w'
          | (Err DuplicateTask, w') \<Rightarrow> bindM (modify (others (Suc k))) (\<lambda>_.
               start_or_resume_attempts P json_len clock others c d (Suc (Suc k)) n) w'
          | (Err e, w') \<Rightarrow> (Err e, w') | (Panic, w') \<Rightarrow> (Panic, w')) ?E (started_or_resumed holds clock others k c d w) ?v"
      proof (rule wp_caught [OF enqueue_correct [OF inv]], goal_cases)
        case (1 h w2)
        then show ?case
          by (intro wp_conseq [OF begin_task [OF rely w1], where E' = ?E]) (simp_all add: here)
      next
        case (2 w2)
        from retry [OF 2] show ?case by (simp add: wp_def bindM_def op_defs)
      qed (auto simp: rejected_world_def)
      with None show ?thesis
        unfolding add_2_eq_Suc' Suc_eq_plus1 [symmetric] by simp
    qed (use 1 here in simp)
  qed (auto simp: rejected_world_def)
qed

end

section \<open>Waits for a reply end\<close>

text \<open>
  The task under the identifier, if any, is due by \<open>deadline\<close>.  The others, between two sections of the
  wait, keep the invariant and the deadline, fail no commit half-way, and the clock does not go back.
\<close>

definition due_by :: "i64 \<Rightarrow> TaskId \<Rightarrow> 'p Broker \<Rightarrow> bool" where
  "due_by deadline k w \<longleftrightarrow> \<not> s_reconciliation_required (b_state w)
     \<and> (\<forall>t. taskm (b_state w) k = Some t \<longrightarrow> qd_created_unix_ms (tr_original_delivery t) + DELIVERY_TTL_MS \<le> deadline)"

definition calm :: "('p \<Rightarrow> task_table \<Rightarrow> bool) \<Rightarrow> i64 \<Rightarrow> TaskId \<Rightarrow> i64 \<Rightarrow> i64 \<Rightarrow> ('p Broker \<Rightarrow> 'p Broker) \<Rightarrow> bool" where
  "calm holds deadline k now later others \<longleftrightarrow> now \<le> later
     \<and> (\<forall>w. binv holds now w \<longrightarrow> due_by deadline k w \<longrightarrow> binv holds later (others w) \<and> due_by deadline k (others w))"

fun calm_turns :: "('p \<Rightarrow> task_table \<Rightarrow> bool) \<Rightarrow> i64 \<Rightarrow> TaskId \<Rightarrow> i64 \<Rightarrow> 'p turn list \<Rightarrow> bool" where
  "calm_turns holds deadline k now [] \<longleftrightarrow> True"
| "calm_turns holds deadline k now (t # ts) \<longleftrightarrow>
     calm holds deadline k now (tn_after t) (tn_others t) \<and> calm_turns holds deadline k (tn_after t) ts"

text \<open>Some turn other than the last ends at or after the deadline.\<close>

fun outlasts :: "i64 \<Rightarrow> 'p turn list \<Rightarrow> bool" where
  "outlasts deadline (t # t' # ts) \<longleftrightarrow> deadline \<le> tn_after t \<or> outlasts deadline (t' # ts)"
| "outlasts deadline _ \<longleftrightarrow> False"

lemma maintained_due_by:
  assumes mw: "maintained_world holds now w w'" and inv: "binv holds now w" and due: "due_by deadline k w"
  shows "due_by deadline k w'"
proof -
  have nr: "\<not> s_reconciliation_required (b_state w)" "\<not> s_reconciliation_required (b_state w')"
    using mw due by (simp_all add: due_by_def maintained_world_def)
  have "maintained_state now (b_state w) (b_state w')"
    using mw nr by (auto simp: maintained_world_def reconciled_world_def)
  then have m: "taskm (b_state w') k = Option.bind (taskm (b_state w) k)
      (maintain_record now (expired_credentials now (b_state w)))"
    by (simp add: maintained_state_def maintained_def)
  show ?thesis
    using due nr(2) unfolding due_by_def m
    by (cases "taskm (b_state w) k")
      (auto simp: maintain_record_def terminated_record_def requeued_record_def split: if_splits)
qed

text \<open>Maintenance at or after the deadline leaves the task settled, or gone.\<close>

lemma maintained_settled:
  assumes mw: "maintained_world holds now w w'" and inv: "binv holds now w" and due: "due_by deadline k w"
    and late: "deadline \<le> now" and t: "taskm (b_state w') k = Some t"
  shows "reply_result_for_task t \<noteq> None"
proof -
  have nr: "\<not> s_reconciliation_required (b_state w)" using due by (simp add: due_by_def)
  have wf: "wf_state (b_state w)" "wf_state (b_state w')" using inv mw by (simp_all add: binv_def maintained_world_def)
  have "maintained_state now (b_state w) (b_state w')"
    using mw nr by (auto simp: maintained_world_def reconciled_world_def)
  then obtain t0 where t0: "taskm (b_state w) k = Some t0"
    "maintain_record now (expired_credentials now (b_state w)) t0 = Some t"
    using t by (auto simp: maintained_state_def maintained_def bind_eq_Some_conv)
  have "qd_created_unix_ms (tr_original_delivery t0) + DELIVERY_TTL_MS \<le> now"
    using due late t0(1) by (auto simp: due_by_def)
  moreover have "task_ok k t0" "task_ok k t" using wf t0(1) t by (simp_all add: wf_state_def tasks_inv_def)
  ultimately have "\<not> live t"
    using t0(2) leased_any_live [of k t0]
    by (auto simp: maintain_record_def due_now_def terminated_record_def live_def split: if_splits)
  with no_result_live [OF \<open>task_ok k t\<close>] show ?thesis by blast
qed

lemma reply_wait_section_reads: "snd (reply_wait_section k w) = w"
  by (simp add: reply_wait_section_def get_state_def bindM_def op_defs split: option.split res.split)

lemma receive_reply_returns: "fst (receive_reply k v w) \<noteq> Ok None"
  by (auto simp: receive_reply_def bindM_def op_defs split: prod.splits res.splits)

lemma settled_section_returns:
  assumes "\<And>t. taskm (b_state w) k = Some t \<Longrightarrow> reply_result_for_task t \<noteq> None"
  shows "fst (reply_wait_loop P json_len k v (turn # turns) w) \<noteq> Ok None"
  using assms
  by (cases "taskm (b_state w) k")
    (auto simp: reply_wait_section_def get_state_def ok_or_def bindM_def op_defs split: option.splits res.splits prod.splits)

context persistence_contract
begin

lemma reply_wait_loop_ends:
  assumes "binv holds now w" "due_by deadline k w" "calm_turns holds deadline k now turns" "outlasts deadline turns"
  shows "fst (reply_wait_loop P json_len k v turns w) \<noteq> Ok None"
  using assms
proof (induction turns arbitrary: now w)
  case (Cons turn turns)
  let ?w = "tn_others turn w" and ?now = "tn_after turn"
  obtain turn' turns' where turns: "turns = turn' # turns'" using Cons.prems(4) by (cases turns) auto
  have w: "binv holds ?now ?w" "due_by deadline k ?w" using Cons.prems by (simp_all add: calm_def)
  have go_on: "fst (reply_wait_loop P json_len k v turns w1) \<noteq> Ok None" if mw: "maintained_world holds ?now ?w w1" for w1
  proof (cases "deadline \<le> ?now")
    case True
    then show ?thesis
      unfolding turns by (intro settled_section_returns maintained_settled [OF mw w])
  next
    case False
    moreover have "binv holds ?now w1" using mw by (simp add: maintained_world_def)
    ultimately show ?thesis
      using Cons.prems(3,4) turns maintained_due_by [OF mw w] by (intro Cons.IH) auto
  qed
  have "wp (maintain_state P json_len ?now) (\<lambda>_ _. True) (\<lambda>_ w1. maintained_world holds ?now ?w w1) ?w"
    by (rule maintain_rule [OF w(1)]) simp_all
  then have tail: "fst (bindM (maintain_state P json_len ?now) (\<lambda>_. reply_wait_loop P json_len k v turns) ?w) \<noteq> Ok None"
    using go_on by (auto simp: wp_def bindM_def split: prod.splits res.splits)
  obtain r where "reply_wait_section k w = (r, w)"
    using reply_wait_section_reads [of k w] by (metis prod.collapse)
  then show ?case
    using tail receive_reply_returns [of k v ?w]
    by (cases r) (auto simp: bindM_def [of "reply_wait_section k"] bindM_def [of "modify (tn_others turn)"] op_defs
        split: sum.splits)
qed simp

lemma opened_due_by:
  assumes "opened_wait holds now sender k w (Inr v) w'" "binv holds now w" "due_by deadline k w"
  shows "binv holds now w'" "due_by deadline k w'"
proof -
  obtain w1 t ws where w1: "maintained_world holds now w w1" "taskm (b_state w1) k = Some t"
    "taskm (b_state w') = (taskm (b_state w1))(k \<mapsto> t\<lparr>tr_reply_waiters := ws @ [v]\<rparr>)"
    and w': "binv holds now w'" "\<not> s_reconciliation_required (b_state w')"
    using assms(1) by (auto simp: opened_wait_def)
  show "binv holds now w'" by (rule w')
  show "due_by deadline k w'"
    using maintained_due_by [OF w1(1) assms(2,3)] w1(2,3) w'(2) by (simp add: due_by_def)
qed

lemma wait_for_reply_ends:
  assumes inv: "binv holds now w" and due: "due_by deadline k w" and calm: "calm holds deadline k now later others"
    and turns: "calm_turns holds deadline k later turns" "outlasts deadline turns"
  shows "fst (wait_for_reply_for_sender P json_len now others sender k turns w) \<noteq> Ok None"
proof -
  have "fst (drop_receiver v (reply_wait_loop P json_len k v turns) (others w')) \<noteq> Ok None"
    if "opened_wait holds now sender k w (Inr v) w'" for v w'
  proof -
    have "binv holds later (others w')" "due_by deadline k (others w')"
      using calm opened_due_by [OF that inv due] by (simp_all add: calm_def)
    from reply_wait_loop_ends [OF this turns, of json_len v] show ?thesis
      by (auto simp: drop_receiver_def split: prod.splits res.splits option.splits)
  qed
  then show ?thesis
    using open_reply_wait_correct [OF inv, of json_len sender k]
    by (auto simp: wait_for_reply_for_sender_def wp_def bindM_def op_defs split: prod.splits res.splits sum.splits)
qed

end

end
