(* ===== verification/Broker_Properties.thy ===== *)
theory Broker_Properties
  imports Broker_Examples Broker_Progress
begin

text \<open>
  The properties of the broker of \<^verbatim>\<open>herdr-a2a-core/src/broker.rs\<close>, over every persistence provider
  that keeps the contract and every state a run of requests reaches.  Each is followed by an instance
  on the run of theory \<open>Broker_Examples\<close>.
\<close>

lemma reachable_binv:
  assumes "persistence_contract P holds" "reachable P json_len now w" "now \<le> later"
  shows "binv holds later w"
  using persistence_contract.reachable_invariant [OF assms(1,2)] assms(3) by (rule binv_mono)

section \<open>Every request\<close>

text \<open>
  C3: in every state a run of the broker reaches, the invariant holds: the task, registration,
  delivery and inbox maps agree with one another, the capacity bounds hold, inboxes list in order of
  arrival exactly the tasks awaiting delivery, and, unless a reconciliation is due, the persistence
  provider answers for exactly the durable forms of the tasks in memory.
\<close>

theorem broker_invariant:
  assumes "persistence_contract P holds" "reachable P json_len now w"
  shows "binv holds now w"
  using assms by (rule persistence_contract.reachable_invariant)

theorem broker_invariant_witness: "binv any_table 1000 (run replying started)"
  by (rule broker_invariant [OF volatile_contract sample_reachable(5)])

text \<open>
  C4: no request panics.  Every \<^verbatim>\<open>expect\<close> of the operations is reached only when the value is
  there, whatever the credentials, identifiers and payloads of the request are.
\<close>

theorem no_request_panics:
  assumes "persistence_contract P holds" "reachable P json_len now w" "now \<le> later"
    and "fresh_ids P json_len later req w"
  shows "fst (serve P json_len later req w) \<noteq> Panic"
  using persistence_contract.serve_sound [OF assms(1) reachable_binv [OF assms(1-3)] assms(4)]
  by (auto simp: sound_op_def wp_def split: prod.splits)

theorem no_request_panics_witness:
  "fst (serve VolatilePersistence sample_len 2000 (Reply beta ''t1'' sample_reply) (run polling started)) \<noteq> Panic"
  by (rule no_request_panics [OF volatile_contract sample_reachable(3)]) (simp_all add: fresh_ids_def)



section \<open>Authorization\<close>

lemma authenticated_Ok:
  "bindM (validate_registration_and_maintain P json_len c now) f w = (Ok x, w') \<Longrightarrow>
     validate_active_registration (b_state w) c now = Ok ()"
  by (auto simp: validate_registration_and_maintain_def get_state_def bindM_def op_defs split: prod.splits res.splits)

lemma ignore_Ok: "ignore m w = (Ok x, w') \<Longrightarrow> \<exists>y. m w = (Ok y, w')"
  by (auto simp: ignore_def bindM_def op_defs split: prod.splits res.splits)

text \<open>
  C6: a request made with credentials succeeds only if a registration with exactly those credentials
  exists and has not expired.
\<close>

theorem only_registered_callers_succeed:
  assumes "persistence_contract P holds" "reachable P json_len now w" "now \<le> later"
    and "serve P json_len later req w = (Ok (), w')" and "caller req = Some c"
  shows "\<exists>r. hm_get (s_registrations (b_state w)) (cr_id c) = Some r \<and> credentials (rs_registration r) = c
           \<and> later < rg_expires_unix_ms (rs_registration r)"
proof -
  have wf: "wf_state (b_state w)" using reachable_binv [OF assms(1-3)] by (simp add: binv_def)
  have "validate_active_registration (b_state w) c later = Ok ()"
    using assms(4,5)
    by (cases req) (auto dest!: ignore_Ok authenticated_Ok simp: renew_def remove_registration_def authenticate_def
        task_snapshot_def resume_section_def enqueue_def begin_wait_def poll_delivery_def ack_delivery_def
        reply_def fail_task_def reject_task_def recipient_terminal_def cancel_task_def)
  with wf show ?thesis by (simp add: validate_active_Ok)
qed

theorem only_registered_callers_succeed_witness:
  "\<exists>r. hm_get (s_registrations (b_state (run polling started))) (cr_id beta) = Some r
     \<and> credentials (rs_registration r) = beta \<and> 1000 < rg_expires_unix_ms (rs_registration r)"
proof -
  let ?m = "serve VolatilePersistence sample_len 1000 (Reply beta ''t1'' sample_reply) (run polling started)"
  have "fst ?m = Ok ()" by code_simp
  then have "?m = (Ok (), snd ?m)" by (simp add: prod_eq_iff)
  from only_registered_callers_succeed [OF volatile_contract sample_reachable(3) order_refl this]
  show ?thesis by simp
qed

section \<open>Settling tasks\<close>

text \<open>
  C7: a reply.  On success the caller is the task's recipient, and either the task already had this
  very reply and nothing changed, or it was live and is now replied: its record is terminal, it has
  left the inbox, its durable form was committed and only then every waiter got the reply.  On an
  error nothing has changed but what maintenance changes.  There is no panic.
\<close>

theorem reply_settles_task:
  assumes "persistence_contract P holds" "reachable P json_len now w" "now \<le> later"
  shows "wp (reply P json_len later c k payload) (\<lambda>_. rejected_world holds later w)
    (\<lambda>_. settles holds later c k tr_recipient (TerminalReplied payload) (Ok payload) w) w"
  using assms(1) reachable_binv [OF assms] by (rule persistence_contract.reply_correct)

theorem reply_settles_task_witness:
  "fst (reply VolatilePersistence sample_len 1000 beta ''t1'' sample_reply (run acknowledging started)) = Ok ()
   \<and> wp (reply VolatilePersistence sample_len 1000 beta ''t1'' sample_reply)
       (\<lambda>_. rejected_world any_table 1000 (run acknowledging started))
       (\<lambda>_. settles any_table 1000 beta ''t1'' tr_recipient (TerminalReplied sample_reply) (Ok sample_reply)
          (run acknowledging started)) (run acknowledging started)"
proof
  show "fst (reply VolatilePersistence sample_len 1000 beta ''t1'' sample_reply (run acknowledging started)) = Ok ()"
    by code_simp
qed (rule reply_settles_task [OF volatile_contract sample_reachable(4) order_refl])

text \<open>
  C8: the recipient of a task fails or rejects it, with the same guarantees as a reply; the waiters
  get the corresponding error.
\<close>

theorem recipient_settles_task:
  assumes "persistence_contract P holds" "reachable P json_len now w" "now \<le> later"
  shows "wp (fail_task P json_len later c k m) (\<lambda>_. rejected_world holds later w)
      (\<lambda>_. settles holds later c k tr_recipient (TerminalFailed m) (Err TaskFailed) w) w
    \<and> wp (reject_task P json_len later c k m) (\<lambda>_. rejected_world holds later w)
      (\<lambda>_. settles holds later c k tr_recipient (TerminalRejected m) (Err TaskRejected) w) w"
  using persistence_contract.recipient_terminal_correct [OF assms(1) reachable_binv [OF assms], of json_len c k m]
  unfolding fail_task_def reject_task_def by (metis (no_types) RecipientTerminalState.simps(3,4))

theorem recipient_settles_task_witness:
  "fst (fail_task VolatilePersistence sample_len 1000 beta ''t1'' sample_reply (run polling started)) = Ok ()
   \<and> wp (fail_task VolatilePersistence sample_len 1000 beta ''t1'' sample_reply)
       (\<lambda>_. rejected_world any_table 1000 (run polling started))
       (\<lambda>_. settles any_table 1000 beta ''t1'' tr_recipient (TerminalFailed sample_reply) (Err TaskFailed)
          (run polling started)) (run polling started)"
proof
  show "fst (fail_task VolatilePersistence sample_len 1000 beta ''t1'' sample_reply (run polling started)) = Ok ()"
    by code_simp
qed (rule recipient_settles_task [OF volatile_contract sample_reachable(3) order_refl, THEN conjunct1])

text \<open>
  C9: the sender of a task cancels it, with the same guarantees as a reply; the waiters learn that it
  was canceled.
\<close>

theorem cancel_settles_task:
  assumes "persistence_contract P holds" "reachable P json_len now w" "now \<le> later"
  shows "wp (cancel_task P json_len later c k) (\<lambda>_. rejected_world holds later w)
    (\<lambda>_. settles holds later c k tr_sender TerminalCanceled (Err TaskCanceled) w) w"
  using assms(1) reachable_binv [OF assms] by (rule persistence_contract.cancel_task_correct)

theorem cancel_settles_task_witness:
  "fst (cancel_task VolatilePersistence sample_len 1000 alpha ''t1'' (run polling started)) = Ok ()
   \<and> wp (cancel_task VolatilePersistence sample_len 1000 alpha ''t1'')
       (\<lambda>_. rejected_world any_table 1000 (run polling started))
       (\<lambda>_. settles any_table 1000 alpha ''t1'' tr_sender TerminalCanceled (Err TaskCanceled) (run polling started))
       (run polling started)"
proof
  show "fst (cancel_task VolatilePersistence sample_len 1000 alpha ''t1'' (run polling started)) = Ok ()" by code_simp
qed (rule cancel_settles_task [OF volatile_contract sample_reachable(3) order_refl])

section \<open>Exchanging tasks\<close>

text \<open>
  C10: an enqueue.  On success the caller is the sender, the identifier was unused, neither the
  retained nor the sender's active tasks were at their limit, the recipient has an unexpired
  registration; the task is queued at version 1, stamped with the clock, put at the end of that
  registration's inbox, and committed before the recipient is notified.  On an error nothing has
  changed but what maintenance changes.
\<close>

theorem enqueue_queues_task:
  assumes "persistence_contract P holds" "reachable P json_len now w" "now \<le> later"
  shows "wp (enqueue P json_len later c d) (\<lambda>_. rejected_world holds later w)
    (\<lambda>h w'. h = \<lparr>dh_task_id = qd_task_id d, dh_context_id = qd_context_id d\<rparr> \<and> enqueued holds later c d w w') w"
  using assms(1) reachable_binv [OF assms] by (rule persistence_contract.enqueue_correct)

theorem enqueue_queues_task_witness:
  "fst (enqueue VolatilePersistence sample_len 1000 alpha (sample_delivery ''t1'') (run registering started)) =
     Ok \<lparr>dh_task_id = ''t1'', dh_context_id = ''c1''\<rparr>
   \<and> wp (enqueue VolatilePersistence sample_len 1000 alpha (sample_delivery ''t1''))
       (\<lambda>_. rejected_world any_table 1000 (run registering started))
       (\<lambda>h w'. h = \<lparr>dh_task_id = qd_task_id (sample_delivery ''t1''),
            dh_context_id = qd_context_id (sample_delivery ''t1'')\<rparr>
          \<and> enqueued any_table 1000 alpha (sample_delivery ''t1'') (run registering started) w')
       (run registering started)"
proof
  show "fst (enqueue VolatilePersistence sample_len 1000 alpha (sample_delivery ''t1'') (run registering started)) =
      Ok \<lparr>dh_task_id = ''t1'', dh_context_id = ''c1''\<rparr>" by code_simp
qed (rule enqueue_queues_task [OF volatile_contract sample_reachable(1) order_refl])

text \<open>
  C11: a poll.  It hands out the first task of the caller's inbox that is under no live lease, leased
  to the caller for the lease time with the next attempt number, its lease committed before the
  message is returned; when every task of the inbox is under a live lease it changes nothing and
  names the earliest time at which a lease, a delivery deadline or the registration runs out.  On an
  error nothing has changed but what maintenance changes.
\<close>

theorem poll_delivers_first_available:
  assumes "persistence_contract P holds" "reachable P json_len now w" "now \<le> later"
    and "hm_get (s_tasks_by_delivery (b_state (snd (maintain_state P json_len later w)))) d = None"
  shows "wp (poll_delivery P json_len later d c) (\<lambda>_. rejected_world holds later w) (polled holds later c d w) w"
  using assms(1) reachable_binv [OF assms(1-3)] assms(4) by (rule persistence_contract.poll_delivery_correct)

theorem poll_delivers_first_available_witness:
  "(case fst (poll_delivery VolatilePersistence sample_len 1000 ''d1'' beta (run sending started)) of
      Ok (Ready m) \<Rightarrow> dm_task_id m = ''t1'' \<and> dm_attempt m = 1 \<and> dm_leased_until_unix_ms m = 61000 | _ \<Rightarrow> False)
   \<and> wp (poll_delivery VolatilePersistence sample_len 1000 ''d1'' beta)
       (\<lambda>_. rejected_world any_table 1000 (run sending started))
       (polled any_table 1000 beta ''d1'' (run sending started)) (run sending started)"
proof
  show "case fst (poll_delivery VolatilePersistence sample_len 1000 ''d1'' beta (run sending started)) of
      Ok (Ready m) \<Rightarrow> dm_task_id m = ''t1'' \<and> dm_attempt m = 1 \<and> dm_leased_until_unix_ms m = 61000 | _ \<Rightarrow> False"
    by code_simp
  have "hm_get (s_tasks_by_delivery (b_state (snd (maintain_state VolatilePersistence sample_len 1000
      (run sending started))))) ''d1'' = None" by code_simp
  then show "wp (poll_delivery VolatilePersistence sample_len 1000 ''d1'' beta)
      (\<lambda>_. rejected_world any_table 1000 (run sending started))
      (polled any_table 1000 beta ''d1'' (run sending started)) (run sending started)"
    by (rule poll_delivers_first_available [OF volatile_contract sample_reachable(2) order_refl])
qed

text \<open>
  C12: an acknowledgement.  On success the delivery belongs to a live task addressed to the caller;
  either it was acknowledged before and nothing changed, or the caller holds its lease, which has not
  run out, and the task is now acknowledged, out of the inbox, and committed so.  On an error nothing
  has changed but what maintenance changes.
\<close>

theorem ack_acknowledges_delivery:
  assumes "persistence_contract P holds" "reachable P json_len now w" "now \<le> later"
  shows "wp (ack_delivery P json_len later c d) (\<lambda>_. rejected_world holds later w) (\<lambda>_. acked holds later c d w) w"
  using assms(1) reachable_binv [OF assms] by (rule persistence_contract.ack_delivery_correct)

theorem ack_acknowledges_delivery_witness:
  "fst (ack_delivery VolatilePersistence sample_len 1000 beta ''d1'' (run polling started)) = Ok ()
   \<and> wp (ack_delivery VolatilePersistence sample_len 1000 beta ''d1'')
       (\<lambda>_. rejected_world any_table 1000 (run polling started))
       (\<lambda>_. acked any_table 1000 beta ''d1'' (run polling started)) (run polling started)"
proof
  show "fst (ack_delivery VolatilePersistence sample_len 1000 beta ''d1'' (run polling started)) = Ok ()" by code_simp
qed (rule ack_acknowledges_delivery [OF volatile_contract sample_reachable(3) order_refl])

section \<open>Registrations and recovery\<close>

text \<open>
  C13: a registration.  The agent gets the next epoch, committed before it is handed out; its previous
  registration is gone and the leases that one held are given back; its inbox lists every task that
  awaits delivery to the agent.  On an error nothing has changed but what maintenance changes.
\<close>

theorem register_replaces_registration:
  assumes "persistence_contract P holds" "reachable P json_len now w" "now \<le> later"
    and "hm_get (s_registrations (b_state w)) i = None"
  shows "wp (register P json_len later i agent session) (\<lambda>_. rejected_world holds later w)
    (registered holds later i agent session w) w"
  using assms(1) reachable_binv [OF assms(1-3)] assms(4) by (rule persistence_contract.register_correct)

theorem register_replaces_registration_witness:
  "map_res (\<lambda>e. e) rg_epoch (fst (register VolatilePersistence sample_len 1000 ''r3'' (sample_agent ''beta'') ''s3''
      (run polling started))) = Ok 3
   \<and> wp (register VolatilePersistence sample_len 1000 ''r3'' (sample_agent ''beta'') ''s3'')
       (\<lambda>_. rejected_world any_table 1000 (run polling started))
       (registered any_table 1000 ''r3'' (sample_agent ''beta'') ''s3'' (run polling started)) (run polling started)"
proof
  show "map_res (\<lambda>e. e) rg_epoch (fst (register VolatilePersistence sample_len 1000 ''r3'' (sample_agent ''beta'') ''s3''
      (run polling started))) = Ok 3" by code_simp
  have "hm_get (s_registrations (b_state (run polling started))) ''r3'' = None" by code_simp
  then show "wp (register VolatilePersistence sample_len 1000 ''r3'' (sample_agent ''beta'') ''s3'')
       (\<lambda>_. rejected_world any_table 1000 (run polling started))
       (registered any_table 1000 ''r3'' (sample_agent ''beta'') ''s3'' (run polling started)) (run polling started)"
    by (rule register_replaces_registration [OF volatile_contract sample_reachable(3) order_refl])
qed

text \<open>
  C14: a removal takes the caller's registration and its agent's entry away and gives back exactly the
  leases it held, at a raised version.  On an error nothing has changed but what maintenance changes.
\<close>

theorem removal_gives_back_leases:
  assumes "persistence_contract P holds" "reachable P json_len now w" "now \<le> later"
  shows "wp (remove_registration P json_len later c) (\<lambda>_. rejected_world holds later w)
    (\<lambda>_. deregistered holds later c w) w"
  using assms(1) reachable_binv [OF assms] by (rule persistence_contract.remove_registration_correct)

theorem removal_gives_back_leases_witness:
  "fst (remove_registration VolatilePersistence sample_len 1000 beta (run polling started)) = Ok ()
   \<and> wp (remove_registration VolatilePersistence sample_len 1000 beta)
       (\<lambda>_. rejected_world any_table 1000 (run polling started))
       (\<lambda>_. deregistered any_table 1000 beta (run polling started)) (run polling started)"
proof
  show "fst (remove_registration VolatilePersistence sample_len 1000 beta (run polling started)) = Ok ()" by code_simp
qed (rule removal_gives_back_leases [OF volatile_contract sample_reachable(3) order_refl])

text \<open>
  C15: a recovery.  If it succeeds, memory holds the repaired tasks of the loaded snapshot (those past
  their retention dropped, those past their delivery deadline expired, leased ones queued again),
  there is no registration, the epochs go on from the loaded one, the report counts the repairs, and
  the invariant holds at every later time.
\<close>

theorem recover_restores_snapshot:
  assumes "persistence_contract P holds"
  shows "wp (recover P json_len now) (\<lambda>_ _. True) (recovered P holds now w) w"
  using assms by (rule persistence_contract.recover_correct)

theorem recover_restores_snapshot_witness:
  "recovered VolatilePersistence any_table 1000 (with_clock ()) BrokerRecoveryReport_default started"
  using recover_restores_snapshot [OF volatile_contract, of sample_len 1000 "with_clock ()"]
  by (simp add: wp_def started_recovers)

section \<open>Starting, resuming and waiting\<close>

text \<open>
  C33: starting or resuming a task, whatever the others do to the broker between its critical
  sections as long as they keep its invariant.  It does not panic.  When it succeeds, one of its two
  attempts either found a task with the identifier, of the same sender, recipient, context and payload,
  and returned it as it is without changing anything but what maintenance changes; or found none,
  enqueued the task, and returned it as it is after the others have gone on.  A repeated request thus
  never starts a second task.
\<close>

theorem start_or_resume_is_idempotent:
  assumes "persistence_contract P holds" "reachable P json_len now w" "now \<le> clock 0"
    and "interference holds clock others"
  shows "wp (start_or_resume P json_len clock others c d) (\<lambda>_ w'. \<exists>j. binv holds (clock j) w')
    (started_or_resumed holds clock others 0 c d w) w"
  unfolding start_or_resume_def
  by (rule persistence_contract.attempts_correct [OF assms(1,4) reachable_binv [OF assms(1-3)]])

theorem start_or_resume_is_idempotent_witness:
  "(case fst (start_or_resume VolatilePersistence sample_len (\<lambda>_. 1000) (\<lambda>_ w. w) alpha (sample_delivery ''t1'')
        (run registering started)) of Ok (Started t) \<Rightarrow> dt_task_id t = ''t1'' | _ \<Rightarrow> False)
   \<and> (case fst (start_or_resume VolatilePersistence sample_len (\<lambda>_. 1000) (\<lambda>_ w. w) alpha (sample_delivery ''t1'')
        (run sending started)) of Ok (Active t) \<Rightarrow> dt_task_id t = ''t1'' | _ \<Rightarrow> False)
   \<and> wp (start_or_resume VolatilePersistence sample_len (\<lambda>_. 1000) (\<lambda>_ w. w) alpha (sample_delivery ''t1''))
        (\<lambda>_ w'. \<exists>j :: nat. binv any_table 1000 w')
        (started_or_resumed any_table (\<lambda>_. 1000) (\<lambda>_ w. w) 0 alpha (sample_delivery ''t1'') (run sending started))
        (run sending started)"
proof (intro conjI)
  show "case fst (start_or_resume VolatilePersistence sample_len (\<lambda>_. 1000) (\<lambda>_ w. w) alpha (sample_delivery ''t1'')
        (run registering started)) of Ok (Started t) \<Rightarrow> dt_task_id t = ''t1'' | _ \<Rightarrow> False" by code_simp
  show "case fst (start_or_resume VolatilePersistence sample_len (\<lambda>_. 1000) (\<lambda>_ w. w) alpha (sample_delivery ''t1'')
        (run sending started)) of Ok (Active t) \<Rightarrow> dt_task_id t = ''t1'' | _ \<Rightarrow> False" by code_simp
qed (rule start_or_resume_is_idempotent [OF volatile_contract sample_reachable(2)]; simp add: interference_def)





end
