(* ===== verification/Store_Db.thy ===== *)
theory Store_Db
  imports A2A_Durability
begin

text \<open>
  The task store of \<^verbatim>\<open>herdr-a2a-broker/src/store.rs\<close>: its tables, its connection, and the values of
  the A2A SDK it projects tasks to.

  A table is the map of its primary key to the other columns.  A connection executes SQL statements
  one after the other; each may fail, which the list of faults decides, and then changes nothing.  A
  transaction remembers the database as it began; unless it was committed, leaving its scope restores
  it, as dropping a \<^verbatim>\<open>rusqlite::Transaction\<close> does.

  Code outside the repository enters through a \<open>codec\<close>: the serializers of \<^verbatim>\<open>serde_json\<close>, the
  timestamps of \<^verbatim>\<open>chrono\<close> and the parser of \<^verbatim>\<open>uuid\<close>.
\<close>

named_theorems keeps_intros

section \<open>SDK values\<close>

type_synonym DateTime = int

datatype Role = RoleUser | RoleAgent

datatype PartContent = Text string | OtherContent json

record Part =
  pt_content :: PartContent
  pt_filename :: "string option"
  pt_media_type :: "string option"
  pt_metadata :: "(string \<times> json) list option"

definition Part_text :: "string \<Rightarrow> Part" where
  "Part_text text = \<lparr>pt_content = Text text, pt_filename = None, pt_media_type = None, pt_metadata = None\<rparr>"

datatype TaskState =
    TsSubmitted | TsWorking | TsCompleted | TsFailed | TsRejected | TsCanceled | TsOther string

record Message =
  ms_message_id :: string
  ms_context_id :: "string option"
  ms_task_id :: "string option"
  ms_role :: Role
  ms_parts :: "Part list"
  ms_metadata :: "(string \<times> json) list option"
  ms_extensions :: "string list option"
  ms_reference_task_ids :: "string list option"

record TaskStatus =
  ts_state :: TaskState
  ts_message :: "Message option"
  ts_timestamp :: "DateTime option"

record Task =
  tk_id :: string
  tk_context_id :: string
  tk_status :: TaskStatus
  tk_artifacts :: "json list option"
  tk_history :: "Message list option"
  tk_metadata :: "json option"

record codec =
  cd_payload_json :: "ValidatedPayload \<Rightarrow> string option"
  cd_payload_parse :: "string \<Rightarrow> ValidatedPayload option"
  cd_reply_json :: "ReplyPayload \<Rightarrow> string option"
  cd_reply_parse :: "string \<Rightarrow> ReplyPayload option"
  cd_task_json :: "Task \<Rightarrow> string option"
  cd_task_parse :: "string \<Rightarrow> Task option"
  cd_state_string :: "TaskState \<Rightarrow> string option"
  cd_millis :: "DateTime \<Rightarrow> i64"
  cd_timestamp_millis :: "i64 \<Rightarrow> DateTime option"
  cd_rfc3339_nanos :: "DateTime \<Rightarrow> string"
  cd_parse_rfc3339 :: "string \<Rightarrow> DateTime option"
  cd_parse_uuid :: "string \<Rightarrow> (nat \<times> bool \<times> string) option"
  cd_json_len :: "json \<Rightarrow> nat"

text \<open>The error kinds of the SDK with their texts; \<open>WithDetails\<close> carries the type URLs of the attached details.\<close>

datatype A2AError =
    Internal string
  | InvalidParams string
  | InvalidRequest string
  | TaskNotFoundError string
  | TaskNotCancelable string
  | ContentTypeNotSupported
  | PushNotificationNotSupported
  | WithDetails A2AError "string list"

section \<open>Tables\<close>

record StoredTaskRow =
  row_task_id :: string
  row_context_id :: "string option"
  row_sender_agent :: "string option"
  row_recipient_agent :: string
  row_request_json :: "string option"
  row_created_unix_ms :: i64
  row_deadline_unix_ms :: i64
  row_state :: string
  row_state_version :: i64
  row_delivery_id :: "string option"
  row_lease_expires_unix_ms :: "i64 option"
  row_attempt :: i64
  row_acknowledged_unix_ms :: "i64 option"
  row_reply_json :: "string option"
  row_terminal_unix_ms :: "i64 option"
  row_retain_until_unix_ms :: "i64 option"
  row_legacy_quarantined :: i64

record TaskRow =
  pr_context_id :: string
  pr_state :: string
  pr_status_timestamp :: string
  pr_version :: i64
  pr_task_json :: string
  pr_rowid :: i64

record OwnerRow =
  ow_registration_id :: string
  ow_recipient :: "string option"

record OutboxRow =
  ob_state_version :: i64
  ob_task_json :: string

record BrokerMeta =
  bm_last_registration_epoch :: string
  bm_first_m2a_start_unix_ms :: i64

text \<open>The tables of \<^verbatim>\<open>M2A_SCHEMA\<close> exist once \<open>db_m2a\<close> is set.\<close>

record Database =
  db_user_version :: i64
  db_m2a :: bool
  db_delivery_tasks :: "(string, StoredTaskRow) hash_map"
  db_broker_meta :: "BrokerMeta option"
  db_projection_outbox :: "(string, OutboxRow) hash_map"
  db_tasks :: "(string, TaskRow) hash_map"
  db_task_owners :: "(string, OwnerRow) hash_map"

text \<open>\<^verbatim>\<open>SELECT .. ORDER BY task_id\<close>: the rows of a table in the order of their keys.\<close>

definition rows_by_key :: "('k :: linorder, 'v) hash_map \<Rightarrow> ('k \<times> 'v) list" where
  "rows_by_key m = List.map_filter (\<lambda>k. map_option (Pair k) (hm_get m k)) (sort (remdups (hm_keys m)))"

lemma rows_by_key_mem: "(k, v) \<in> set (rows_by_key m) \<longleftrightarrow> hm_get m k = Some v"
proof -
  have "hm_get m k = Some v \<Longrightarrow> k \<in> fst ` set m" by (force dest: map_of_SomeD)
  then show ?thesis by (force simp: rows_by_key_def map_filter_def)
qed

lemma rows_by_key_keys: "map fst (rows_by_key m) = sort (remdups (hm_keys m))"
proof -
  have "map fst (List.map_filter (\<lambda>k. map_option (Pair k) (hm_get m k)) ks) = ks"
    if "set ks \<subseteq> set (hm_keys m)" for ks
    using that
  proof (induction ks)
    case (Cons k ks)
    then have "hm_get m k \<noteq> None" by (simp add: map_of_eq_None_iff)
    then obtain v where "hm_get m k = Some v" by blast
    with Cons show ?case by (simp add: map_filter_simps)
  qed (simp add: map_filter_simps)
  then show ?thesis by (simp add: rows_by_key_def)
qed

lemma rows_by_key_distinct: "distinct (map fst (rows_by_key m))"
  by (simp add: rows_by_key_keys)

section \<open>The admissions of SDK projections\<close>

record TaskIncarnation =
  ti_context_id :: string
  ti_sender :: string
  ti_recipient :: string
  ti_created_unix_ms :: i64

definition TaskIncarnation_from :: "DurableTask \<Rightarrow> TaskIncarnation" where
  "TaskIncarnation_from t =
     \<lparr>ti_context_id = dt_context_id t, ti_sender = dt_sender t, ti_recipient = dt_recipient t,
      ti_created_unix_ms = dt_created_unix_ms t\<rparr>"

record SdkProjectionAdmission =
  ad_fingerprint :: string
  ad_version :: u64
  ad_incarnation :: TaskIncarnation
  ad_sequence :: u64

record SdkProjectionAdmissionRegistry =
  ar_by_task :: "(string, SdkProjectionAdmission list) hash_map"
  ar_total :: nat
  ar_next_sequence :: u64

definition remove_task :: "string \<Rightarrow> SdkProjectionAdmissionRegistry \<Rightarrow> SdkProjectionAdmissionRegistry" where
  "remove_task task_id r =
     (case hm_get (ar_by_task r) task_id of
        None \<Rightarrow> r
      | Some admissions \<Rightarrow>
          r\<lparr>ar_by_task := hm_remove task_id (ar_by_task r), ar_total := ar_total r - length admissions\<rparr>)"

section \<open>The store and its statements\<close>

datatype StoreError = Sqlite | InvalidData string | UnsafeFile string

record SqliteTaskStore =
  sq_database :: Database
  sq_transaction :: "Database option"
  sq_faults :: "bool list"
  sq_admissions :: SdkProjectionAdmissionRegistry

type_synonym 'a sop = "(SqliteTaskStore, StoreError, 'a) op"

text \<open>The next statement fails if the next fault says so; each statement uses one up.\<close>

definition faulty :: "SqliteTaskStore \<Rightarrow> bool" where
  "faulty s \<longleftrightarrow> (case sq_faults s of [] \<Rightarrow> False | b # _ \<Rightarrow> b)"

definition tick :: "SqliteTaskStore \<Rightarrow> SqliteTaskStore" where
  "tick s = s\<lparr>sq_faults := tl (sq_faults s)\<rparr>"

definition query :: "(Database \<Rightarrow> 'a) \<Rightarrow> 'a sop" where
  "query f s = (if faulty s then (Err Sqlite, tick s) else (Ok (f (sq_database s)), tick s))"

definition execute :: "(Database \<Rightarrow> Database) \<Rightarrow> unit sop" where
  "execute f s =
     (if faulty s then (Err Sqlite, tick s)
      else (Ok (), (tick s)\<lparr>sq_database := f (sq_database s)\<rparr>))"

text \<open>
  A query of one row fails where there is none, and a statement on a table of \<^verbatim>\<open>M2A_SCHEMA\<close> fails
  before the schema exists.
\<close>

definition query_row :: "(Database \<Rightarrow> 'a option) \<Rightarrow> 'a sop" where
  "query_row f = bindM (query f) (\<lambda>r. lift_res (ok_or r Sqlite))"

definition m2a_query :: "(Database \<Rightarrow> 'a) \<Rightarrow> 'a sop" where
  "m2a_query f = query_row (\<lambda>d. if db_m2a d then Some (f d) else None)"

definition m2a_execute :: "(Database \<Rightarrow> Database) \<Rightarrow> unit sop" where
  "m2a_execute f s = (if db_m2a (sq_database s) then execute f s else (Err Sqlite, tick s))"

definition begin_immediate :: "unit sop" where
  "begin_immediate = bindM (query (\<lambda>_. ())) (\<lambda>_. modify (\<lambda>s. s\<lparr>sq_transaction := Some (sq_database s)\<rparr>))"

definition commit_transaction :: "unit sop" where
  "commit_transaction = bindM (query (\<lambda>_. ())) (\<lambda>_. modify (\<lambda>s. s\<lparr>sq_transaction := None\<rparr>))"

definition drop_transaction :: "SqliteTaskStore \<Rightarrow> SqliteTaskStore" where
  "drop_transaction s =
     (case sq_transaction s of
        None \<Rightarrow> s
      | Some d \<Rightarrow> s\<lparr>sq_database := d, sq_transaction := None\<rparr>)"

definition transaction :: "(SqliteTaskStore, 'e, 'a) op \<Rightarrow> (StoreError \<Rightarrow> 'e) \<Rightarrow> (SqliteTaskStore, 'e, 'a) op" where
  "transaction body error s =
     (case begin_immediate s of
        (Ok _, s1) \<Rightarrow> (case body s1 of (r, s2) \<Rightarrow> (r, drop_transaction s2))
      | (Err e, s1) \<Rightarrow> (Err (error e), s1)
      | (Panic, s1) \<Rightarrow> (Panic, s1))"

text \<open>The outcome of an operation as a value, and the errors of the source's \<^verbatim>\<open>invalid\<close>.\<close>

definition attempt :: "('s, 'e, 'a) op \<Rightarrow> ('s, 'f, ('e, 'a) res) op" where
  "attempt m s = (case m s of (Panic, s') \<Rightarrow> (Panic, s') | (r, s') \<Rightarrow> (Ok r, s'))"

definition map_error :: "('e \<Rightarrow> 'f) \<Rightarrow> ('s, 'e, 'a) op \<Rightarrow> ('s, 'f, 'a) op" where
  "map_error f m s =
     (case m s of (Ok a, s') \<Rightarrow> (Ok a, s') | (Err e, s') \<Rightarrow> (Err (f e), s') | (Panic, s') \<Rightarrow> (Panic, s'))"

definition invalid :: "string \<Rightarrow> (StoreError, 'a) res" where
  "invalid message = Err (InvalidData message)"

definition or_invalid :: "'a option \<Rightarrow> string \<Rightarrow> (StoreError, 'a) res" where
  "or_invalid x message = ok_or x (InvalidData message)"

definition valid_or :: "('e, 'a) res \<Rightarrow> string \<Rightarrow> (StoreError, 'a) res" where
  "valid_or r message = map_err (InvalidData message) r"

definition require :: "bool \<Rightarrow> string \<Rightarrow> (StoreError, unit) res" where
  "require b message = (if b then Ok () else invalid message)"

section \<open>Columns of a projected task\<close>

record TaskColumns =
  tc_task_id :: string
  tc_context_id :: string
  tc_state :: string
  tc_status_timestamp :: string
  tc_task_json :: string

definition sortable_timestamp :: "codec \<Rightarrow> DateTime \<Rightarrow> string" where
  "sortable_timestamp cd t = cd_rfc3339_nanos cd t"

definition serialized_string :: "codec \<Rightarrow> TaskState \<Rightarrow> string \<Rightarrow> (A2AError, string) res" where
  "serialized_string cd state message = ok_or (cd_state_string cd state) (Internal message)"

definition TaskColumns_from_task :: "codec \<Rightarrow> Task \<Rightarrow> (A2AError, TaskColumns) res" where
  "TaskColumns_from_task cd task =
     res_bind (serialized_string cd (ts_state (tk_status task)) ''task state serialization failed'') (\<lambda>state.
     let status_timestamp =
           (case ts_timestamp (tk_status task) of None \<Rightarrow> [] | Some t \<Rightarrow> sortable_timestamp cd t)
     in
     res_bind (ok_or (cd_task_json cd task) (Internal ''task serialization failed'')) (\<lambda>task_json.
     Ok \<lparr>tc_task_id = tk_id task, tc_context_id = tk_context_id task, tc_state = state,
         tc_status_timestamp = status_timestamp, tc_task_json = task_json\<rparr>))"

section \<open>Rules\<close>

lemma tick_simps [simp]:
  "sq_database (tick s) = sq_database s" "sq_transaction (tick s) = sq_transaction s"
  "sq_admissions (tick s) = sq_admissions s"
  "tick (s\<lparr>sq_database := d\<rparr>) = (tick s)\<lparr>sq_database := d\<rparr>"
  "tick (s\<lparr>sq_transaction := t\<rparr>) = (tick s)\<lparr>sq_transaction := t\<rparr>"
  "tick (s\<lparr>sq_admissions := a\<rparr>) = (tick s)\<lparr>sq_admissions := a\<rparr>"
  by (simp_all add: tick_def)

lemma faulty_simps [simp]:
  "faulty (s\<lparr>sq_database := d\<rparr>) = faulty s" "faulty (s\<lparr>sq_transaction := t\<rparr>) = faulty s"
  "faulty (s\<lparr>sq_admissions := a\<rparr>) = faulty s"
  by (simp_all add: faulty_def)

lemma wp_statements [simp]:
  "wp (query f) E Q s = (if faulty s then E Sqlite (tick s) else Q (f (sq_database s)) (tick s))"
  "wp (execute g) E R s =
     (if faulty s then E Sqlite (tick s) else R () ((tick s)\<lparr>sq_database := g (sq_database s)\<rparr>))"
  by (simp_all add: wp_def query_def execute_def)

lemma wp_query_row [simp]:
  "wp (query_row f) E Q s =
     (if faulty s then E Sqlite (tick s)
      else case f (sq_database s) of None \<Rightarrow> E Sqlite (tick s) | Some a \<Rightarrow> Q a (tick s))"
  by (simp add: query_row_def)

lemma wp_m2a [simp]:
  "wp (m2a_query f) E Q s =
     (if faulty s \<or> \<not> db_m2a (sq_database s) then E Sqlite (tick s) else Q (f (sq_database s)) (tick s))"
  "wp (m2a_execute g) E R s =
     (if faulty s \<or> \<not> db_m2a (sq_database s) then E Sqlite (tick s)
      else R () ((tick s)\<lparr>sq_database := g (sq_database s)\<rparr>))"
proof -
  show "wp (m2a_query f) E Q s =
     (if faulty s \<or> \<not> db_m2a (sq_database s) then E Sqlite (tick s) else Q (f (sq_database s)) (tick s))"
    by (simp add: m2a_query_def)
  have "m2a_execute g s = (if faulty s \<or> \<not> db_m2a (sq_database s) then (Err Sqlite, tick s)
      else (Ok (), (tick s)\<lparr>sq_database := g (sq_database s)\<rparr>))"
    by (simp add: m2a_execute_def execute_def)
  then show "wp (m2a_execute g) E R s =
     (if faulty s \<or> \<not> db_m2a (sq_database s) then E Sqlite (tick s)
      else R () ((tick s)\<lparr>sq_database := g (sq_database s)\<rparr>))"
    by (simp add: wp_def)
qed

lemma wp_attempt [simp]: "wp (attempt m) E Q s = wp m (\<lambda>e. Q (Err e)) (\<lambda>a. Q (Ok a)) s"
  by (simp add: wp_def attempt_def split: prod.splits res.splits)

lemma wp_map_error [simp]: "wp (map_error f m) E Q s = wp m (\<lambda>e. E (f e)) Q s"
  by (simp add: wp_def map_error_def split: prod.splits res.splits)

text \<open>
  A transaction: its body runs on the database as it began, and unless it commits, the database is as
  it was.
\<close>

lemma wp_transaction:
  assumes fault: "E (error Sqlite) (tick s)"
    and body: "wp body (\<lambda>e s'. E e (drop_transaction s')) (\<lambda>a s'. Q a (drop_transaction s'))
      ((tick s)\<lparr>sq_transaction := Some (sq_database s)\<rparr>)"
  shows "wp (transaction body error) E Q s"
  using assms
  by (simp add: wp_def transaction_def begin_immediate_def bindM_def query_def modify_def split: prod.splits res.splits)

lemma wp_commit_transaction [simp]:
  "wp commit_transaction E Q s =
     (if faulty s then E Sqlite (tick s) else Q () ((tick s)\<lparr>sq_transaction := None\<rparr>))"
  by (simp add: commit_transaction_def)

lemma drop_transaction_simps [simp]:
  "sq_transaction (drop_transaction s) = None" "sq_admissions (drop_transaction s) = sq_admissions s"
  "sq_transaction s = None \<Longrightarrow> drop_transaction s = s"
  "sq_transaction s = Some d \<Longrightarrow> sq_database (drop_transaction s) = d"
  by (auto simp: drop_transaction_def split: option.splits)

lemma or_invalid_simps [simp]:
  "or_invalid x msg = Ok a \<longleftrightarrow> x = Some a" "or_invalid x msg \<noteq> Panic"
  by (simp_all add: or_invalid_def)

lemma valid_or_simps [simp]:
  "valid_or r msg = Ok a \<longleftrightarrow> r = Ok a" "valid_or r msg = Panic \<longleftrightarrow> r = Panic"
  by (simp_all add: valid_or_def)

lemma invalid_simps [simp]: "invalid msg \<noteq> Ok a" "invalid msg \<noteq> Panic"
  by (simp_all add: invalid_def)

lemma require_simps [simp]: "require b msg = Ok u \<longleftrightarrow> b" "require b msg \<noteq> Panic"
  by (simp_all add: require_def)

lemma wp_lift_checks [simp]:
  "wp (lift_res (require b msg)) E Q s = (if b then Q () s else E (InvalidData msg) s)"
  "wp (lift_res (or_invalid x msg)) E R s = (case x of None \<Rightarrow> E (InvalidData msg) s | Some a \<Rightarrow> R a s)"
  "wp (lift_res (invalid msg)) E T s = E (InvalidData msg) s"
  by (simp_all add: require_def invalid_def or_invalid_def)

text \<open>
  What an operation leaves alone: \<open>f\<close> of the state, on every outcome, none of which is a panic.
\<close>

definition keeps :: "(SqliteTaskStore \<Rightarrow> 'b) \<Rightarrow> (SqliteTaskStore, 'e, 'a) op \<Rightarrow> bool" where
  "keeps f m \<longleftrightarrow> (\<forall>s. wp m (\<lambda>_ s'. f s' = f s) (\<lambda>_ s'. f s' = f s) s)"

lemma keeps_wp:
  assumes "keeps f m" "\<And>e s'. f s' = f s \<Longrightarrow> E e s'" "\<And>a s'. f s' = f s \<Longrightarrow> Q a s'"
  shows "wp m E Q s"
proof (rule wp_conseq [of m "\<lambda>_ s'. f s' = f s" "\<lambda>_ s'. f s' = f s"])
  show "wp m (\<lambda>_ s'. f s' = f s) (\<lambda>_ s'. f s' = f s) s" using assms(1) by (simp add: keeps_def)
qed (use assms(2,3) in blast)+

lemma keeps_bindM [keeps_intros]:
  assumes m: "keeps f m" and k: "\<And>a. keeps f (k a)"
  shows "keeps f (bindM m k)"
proof -
  have "wp (k a) (\<lambda>_ s'. f s' = f s) (\<lambda>_ s'. f s' = f s) t" if "f t = f s" for a s t
    using k [of a, unfolded keeps_def, rule_format, of t] that by simp
  with m show ?thesis by (auto simp: keeps_def intro!: keeps_wp [OF m])
qed

lemma keeps_basic [keeps_intros]:
  "keeps f (ret a)" "keeps f (throw e)" "keeps f (gets g)" "r \<noteq> Panic \<Longrightarrow> keeps f (lift_res r)"
  "keeps f m \<Longrightarrow> keeps f (attempt m)" "keeps f m \<Longrightarrow> keeps f (map_error h m)"
  "(b \<Longrightarrow> keeps f m1) \<Longrightarrow> (\<not> b \<Longrightarrow> keeps f m2) \<Longrightarrow> keeps f (if b then m1 else m2)"
  by (auto simp: keeps_def wp_lift_res)

lemma keeps_forM [keeps_intros]: "(\<And>x. x \<in> set xs \<Longrightarrow> keeps f (g x)) \<Longrightarrow> keeps f (forM xs g)"
proof (induction xs)
  case Nil
  show ?case by (simp add: keeps_basic)
next
  case (Cons x xs)
  then show ?case by (auto intro!: keeps_bindM)
qed

lemma keeps_option [keeps_intros]:
  "(x = None \<Longrightarrow> keeps f m) \<Longrightarrow> (\<And>a. x = Some a \<Longrightarrow> keeps f (g a)) \<Longrightarrow> keeps f (case x of None \<Rightarrow> m | Some a \<Rightarrow> g a)"
  by (cases x) auto

text \<open>Operations that only read leave everything alone but the faults.\<close>

definition content :: "SqliteTaskStore \<Rightarrow> Database \<times> Database option \<times> SdkProjectionAdmissionRegistry" where
  "content s = (sq_database s, sq_transaction s, sq_admissions s)"

lemma keeps_queries [keeps_intros]:
  "keeps content (query f)" "keeps content (query_row g)" "keeps content (m2a_query f)"
  by (auto simp: keeps_def content_def split: option.splits)

lemma keeps_content:
  assumes m: "keeps content m" and f: "\<And>s s'. content s' = content s \<Longrightarrow> f s' = f s"
  shows "keeps f m"
  unfolding keeps_def by (rule allI, rule keeps_wp [OF m]) (rule f, assumption)+

end
