(* ===== verification/Ledger.thy ===== *)
theory Ledger
  imports Store_Db Broker_State
begin

text \<open>
  \<^verbatim>\<open>herdr-a2a-broker/src/ledger.rs\<close>: the SQLite ledger, the broker's durable persistence.  Encoding and
  decoding of rows, validation of the store, the projections of tasks for the SDK with their outbox,
  the migration of the schema, and the two operations of \<^verbatim>\<open>BrokerPersistence\<close>.
\<close>

definition SCHEMA_VERSION :: i64 where "SCHEMA_VERSION = 1"

definition PROJECTION_NOT_AUTHORIZED :: string where
  "PROJECTION_NOT_AUTHORIZED = ''task projection is not authorized''"

definition LEDGER_DELIVERY_TTL_MS :: i64 where "LEDGER_DELIVERY_TTL_MS = 24 * 60 * 60 * 1000"

definition LEDGER_DELIVERY_LEASE_MS :: i64 where "LEDGER_DELIVERY_LEASE_MS = 60000"

section \<open>Encoding\<close>

fun encode_state :: "DurableTaskState \<Rightarrow> string" where
  "encode_state Queued = ''queued''"
| "encode_state Leased = ''leased''"
| "encode_state Acknowledged = ''acknowledged''"
| "encode_state Replied = ''replied''"
| "encode_state Failed = ''failed''"
| "encode_state Rejected = ''rejected''"
| "encode_state Canceled = ''canceled''"
| "encode_state Expired = ''expired''"

definition decode_state :: "string \<Rightarrow> (StoreError, DurableTaskState) res" where
  "decode_state state =
     (if state = ''queued'' then Ok Queued
      else if state = ''leased'' then Ok Leased
      else if state = ''acknowledged'' then Ok Acknowledged
      else if state = ''replied'' then Ok Replied
      else if state = ''failed'' then Ok Failed
      else if state = ''rejected'' then Ok Rejected
      else if state = ''canceled'' then Ok Canceled
      else if state = ''expired'' then Ok Expired
      else invalid ''stored durable task state is invalid'')"

definition canonical_json :: "('a \<Rightarrow> string option) \<Rightarrow> 'a \<Rightarrow> string \<Rightarrow> (StoreError, string) res" where
  "canonical_json to_json value label = or_invalid (to_json value) (label @ '' is invalid'')"

definition canonical_decode ::
    "(string \<Rightarrow> 'a option) \<Rightarrow> ('a \<Rightarrow> string option) \<Rightarrow> string \<Rightarrow> string \<Rightarrow> (StoreError, 'a) res" where
  "canonical_decode of_json to_json value label =
     res_bind (or_invalid (of_json value) (label @ '' is invalid'')) (\<lambda>decoded.
     res_bind (canonical_json to_json decoded label) (\<lambda>text.
     if text \<noteq> value then invalid (label @ '' is not canonical JSON'') else Ok decoded))"

definition parse_canonical_u64 :: "string \<Rightarrow> string \<Rightarrow> (StoreError, u64) res" where
  "parse_canonical_u64 value label =
     (if value = [] \<or> \<not> list_all is_ascii_digit value \<or> (length value > 1 \<and> hd value = CHR ''0'')
      then invalid (label @ '' is not canonical unsigned decimal'')
      else or_invalid (parse_u64 value) (label @ '' exceeds u64''))"

definition usize_from_i64 :: "i64 \<Rightarrow> (StoreError, nat) res" where
  "usize_from_i64 v = (if v < 0 then invalid ''stored count is invalid'' else Ok (nat v))"

text \<open>\<^verbatim>\<open>u64::to_string\<close>.\<close>

fun decimal :: "nat \<Rightarrow> string" where
  "decimal n = (if n < 10 then [char_of (48 + n)] else decimal (n div 10) @ [char_of (48 + n mod 10)])"

declare decimal.simps [simp del]

definition i64_of_u64 :: "u64 \<Rightarrow> i64 option" where
  "i64_of_u64 n = (if int n \<le> i64_max then Some (int n) else None)"

definition json_object :: "json \<Rightarrow> string \<Rightarrow> (StoreError, (string \<times> json) list option) res" where
  "json_object value label =
     (case value of
        JNull \<Rightarrow> Ok None
      | JObject kvs \<Rightarrow> Ok (Some kvs)
      | _ \<Rightarrow> invalid (label @ '' is not an object''))"

section \<open>Validation of a durable task\<close>

fun stored_state_columns :: "DurableTaskState \<Rightarrow> DurableTask \<Rightarrow> bool" where
  "stored_state_columns Queued t \<longleftrightarrow> dt_lease t = None \<and> dt_acknowledged_unix_ms t = None
     \<and> dt_reply t = None \<and> dt_terminal_unix_ms t = None \<and> dt_retention_deadline_unix_ms t = None"
| "stored_state_columns Leased t \<longleftrightarrow> dt_lease t \<noteq> None \<and> dt_acknowledged_unix_ms t = None
     \<and> dt_reply t = None \<and> dt_terminal_unix_ms t = None \<and> dt_retention_deadline_unix_ms t = None"
| "stored_state_columns Acknowledged t \<longleftrightarrow> dt_lease t \<noteq> None \<and> dt_acknowledged_unix_ms t \<noteq> None
     \<and> dt_reply t = None \<and> dt_terminal_unix_ms t = None \<and> dt_retention_deadline_unix_ms t = None"
| "stored_state_columns Canceled t \<longleftrightarrow> dt_lease t = None \<and> dt_acknowledged_unix_ms t = None
     \<and> dt_reply t = None \<and> dt_terminal_unix_ms t \<noteq> None \<and> dt_retention_deadline_unix_ms t \<noteq> None"
| "stored_state_columns Expired t \<longleftrightarrow> dt_lease t = None \<and> dt_acknowledged_unix_ms t = None
     \<and> dt_reply t = None \<and> dt_terminal_unix_ms t \<noteq> None \<and> dt_retention_deadline_unix_ms t \<noteq> None"
| "stored_state_columns _ t \<longleftrightarrow> dt_lease t = None \<and> dt_acknowledged_unix_ms t = None
     \<and> dt_reply t \<noteq> None \<and> dt_terminal_unix_ms t \<noteq> None \<and> dt_retention_deadline_unix_ms t \<noteq> None"

definition validate_stored_reply :: "codec \<Rightarrow> ReplyPayload option \<Rightarrow> (StoreError, unit) res" where
  "validate_stored_reply cd r =
     (case r of
        None \<Rightarrow> Ok ()
      | Some reply \<Rightarrow>
          res_bind (valid_or (validate_persisted_payload (cd_json_len cd)
              \<lparr>vp_text = rp_text reply, vp_metadata = rp_metadata reply, vp_file_refs = rp_file_refs reply\<rparr>)
              ''reply payload violates persisted payload bounds'') (\<lambda>_.
          require (rp_file_refs reply = []) ''M2A reply payload cannot contain file references''))"

definition validate_stored_lease :: "DurableTask \<Rightarrow> (StoreError, unit) res" where
  "validate_stored_lease t =
     (case dt_lease t of
        None \<Rightarrow> Ok ()
      | Some lease \<Rightarrow>
          res_bind (or_invalid (checked_sub_i64 (dle_leased_until_unix_ms lease) LEDGER_DELIVERY_LEASE_MS)
              ''lease transition timestamp underflows'') (\<lambda>leased_unix_ms.
          require (\<not> (leased_unix_ms < dt_created_unix_ms t
              \<or> dle_owner lease \<noteq> dt_recipient t
              \<or> dle_attempt lease \<noteq> dt_attempt t
              \<or> (case dt_acknowledged_unix_ms t of
                   None \<Rightarrow> False
                 | Some a \<Rightarrow> a < leased_unix_ms \<or> a \<ge> dle_leased_until_unix_ms lease)))
            ''durable lease owner, attempt, or timestamp is invalid''))"

definition stored_terminal_times :: "DurableTask \<Rightarrow> bool" where
  "stored_terminal_times t =
     (case (dt_terminal_unix_ms t, dt_retention_deadline_unix_ms t) of
        (None, None) \<Rightarrow> True
      | (Some terminal, Some retention) \<Rightarrow>
          terminal \<ge> dt_created_unix_ms t \<and> checked_add_i64 terminal TERMINAL_RETENTION_MS = Some retention
      | _ \<Rightarrow> False)"

definition validate_durable_for_store :: "codec \<Rightarrow> DurableTask \<Rightarrow> (StoreError, unit) res" where
  "validate_durable_for_store cd t =
     res_bind (valid_or (validate_task_id (dt_task_id t)) ''task ID is invalid'') (\<lambda>_.
     res_bind (valid_or (validate_task_id (dt_context_id t)) ''context ID is invalid'') (\<lambda>_.
     res_bind (valid_or (AgentName_parse (dt_sender t)) ''sender is invalid'') (\<lambda>_.
     res_bind (valid_or (AgentName_parse (dt_recipient t)) ''recipient is invalid'') (\<lambda>_.
     res_bind (valid_or (validate_persisted_payload (cd_json_len cd) (dt_payload t))
       ''request payload violates persisted payload bounds'') (\<lambda>_.
     res_bind (require (vp_file_refs (dt_payload t) = []) ''M2A request payload cannot contain file references'') (\<lambda>_.
     res_bind (validate_stored_reply cd (dt_reply t)) (\<lambda>_.
     res_bind (or_invalid (checked_add_i64 (dt_created_unix_ms t) LEDGER_DELIVERY_TTL_MS)
       ''delivery deadline overflows'') (\<lambda>expected_deadline.
     res_bind (require (\<not> (dt_created_unix_ms t < 0 \<or> dt_delivery_deadline_unix_ms t \<noteq> expected_deadline
         \<or> dt_state_version t = 0)) ''durable task integer bounds are invalid'') (\<lambda>_.
     res_bind (require (\<not> (case dt_acknowledged_unix_ms t of
           None \<Rightarrow> False
         | Some a \<Rightarrow> a < dt_created_unix_ms t \<or> a > dt_delivery_deadline_unix_ms t))
       ''acknowledgement timestamp is out of bounds'') (\<lambda>_.
     res_bind (validate_stored_lease t) (\<lambda>_.
     res_bind (require (stored_terminal_times t) ''terminal retention timestamps are invalid'') (\<lambda>_.
     require (stored_state_columns (dt_state t) t) ''durable task state-specific columns are invalid''))))))))))))"

section \<open>Rows\<close>

text \<open>The columns \<^verbatim>\<open>commit\<close> binds to its upsert.\<close>

definition encode_durable_task :: "codec \<Rightarrow> DurableTask \<Rightarrow> (StoreError, StoredTaskRow) res" where
  "encode_durable_task cd t =
     res_bind (or_invalid (i64_of_u64 (dt_state_version t)) ''state version exceeds SQLite integer range'') (\<lambda>state_version.
     res_bind (canonical_json (cd_payload_json cd) (dt_payload t) ''request payload'') (\<lambda>request_json.
     res_bind (case dt_reply t of
                 None \<Rightarrow> Ok None
               | Some reply \<Rightarrow> res_bind (canonical_json (cd_reply_json cd) reply ''reply payload'') (\<lambda>j. Ok (Some j)))
       (\<lambda>reply_json.
     Ok \<lparr>row_task_id = dt_task_id t, row_context_id = Some (dt_context_id t), row_sender_agent = Some (dt_sender t),
         row_recipient_agent = dt_recipient t, row_request_json = Some request_json,
         row_created_unix_ms = dt_created_unix_ms t, row_deadline_unix_ms = dt_delivery_deadline_unix_ms t,
         row_state = encode_state (dt_state t), row_state_version = state_version,
         row_delivery_id = map_option dle_delivery_id (dt_lease t),
         row_lease_expires_unix_ms = map_option dle_leased_until_unix_ms (dt_lease t),
         row_attempt = int (dt_attempt t), row_acknowledged_unix_ms = dt_acknowledged_unix_ms t,
         row_reply_json = reply_json, row_terminal_unix_ms = dt_terminal_unix_ms t,
         row_retain_until_unix_ms = dt_retention_deadline_unix_ms t, row_legacy_quarantined = 0\<rparr>)))"

definition decode_lease :: "codec \<Rightarrow> StoredTaskRow \<Rightarrow> AgentName \<Rightarrow> u32 \<Rightarrow> (StoreError, DurableLease option) res" where
  "decode_lease cd row recipient delivery_attempt =
     (case (row_delivery_id row, row_lease_expires_unix_ms row) of
        (None, None) \<Rightarrow> Ok None
      | (Some delivery_id, Some leased_until) \<Rightarrow>
          res_bind (valid_or (DeliveryId_parse (cd_parse_uuid cd) delivery_id) ''stored delivery ID is invalid'') (\<lambda>d.
          Ok (Some \<lparr>dle_delivery_id = d, dle_owner = recipient, dle_leased_until_unix_ms = leased_until,
                    dle_attempt = delivery_attempt\<rparr>))
      | _ \<Rightarrow> invalid ''stored lease columns are incomplete'')"

definition decode_durable_task :: "codec \<Rightarrow> StoredTaskRow \<Rightarrow> (StoreError, DurableTask) res" where
  "decode_durable_task cd row =
     res_bind (require (row_legacy_quarantined row = 0) ''quarantined task entered recoverable load'') (\<lambda>_.
     res_bind (or_invalid (row_context_id row) ''task context ID is missing'') (\<lambda>context_id.
     res_bind (or_invalid (row_sender_agent row) ''task sender is missing'') (\<lambda>sender_text.
     res_bind (or_invalid (row_request_json row) ''task request is missing'') (\<lambda>request_json.
     res_bind (require (row_state_version row > 0) ''stored state version is invalid'') (\<lambda>_.
     res_bind (require (0 \<le> row_attempt row \<and> row_attempt row \<le> int u32_max) ''stored attempt is invalid'') (\<lambda>_.
     let state_version = nat (row_state_version row); delivery_attempt = nat (row_attempt row) in
     res_bind (valid_or (AgentName_parse sender_text) ''stored sender is invalid'') (\<lambda>sender.
     res_bind (valid_or (AgentName_parse (row_recipient_agent row)) ''stored recipient is invalid'') (\<lambda>recipient.
     res_bind (canonical_decode (cd_payload_parse cd) (cd_payload_json cd) request_json ''stored request payload'') (\<lambda>payload.
     res_bind (case row_reply_json row of
                 None \<Rightarrow> Ok None
               | Some j \<Rightarrow> res_bind (canonical_decode (cd_reply_parse cd) (cd_reply_json cd) j ''stored reply payload'')
                   (\<lambda>r. Ok (Some r))) (\<lambda>reply.
     res_bind (decode_state (row_state row)) (\<lambda>state.
     res_bind (decode_lease cd row recipient delivery_attempt) (\<lambda>lease.
     let task = \<lparr>dt_task_id = row_task_id row, dt_context_id = context_id, dt_sender = sender,
           dt_recipient = recipient, dt_payload = payload, dt_created_unix_ms = row_created_unix_ms row,
           dt_delivery_deadline_unix_ms = row_deadline_unix_ms row, dt_state_version = state_version,
           dt_state = state, dt_lease = lease, dt_attempt = delivery_attempt,
           dt_acknowledged_unix_ms = row_acknowledged_unix_ms row, dt_reply = reply,
           dt_terminal_unix_ms = row_terminal_unix_ms row,
           dt_retention_deadline_unix_ms = row_retain_until_unix_ms row\<rparr>
     in
     res_bind (validate_durable_for_store cd task) (\<lambda>_. Ok task)))))))))))))"

text \<open>\<^verbatim>\<open>StoredTaskRow::from_row\<close>: a row as a statement reads it, its key in its first column.\<close>

definition stored_row :: "Database \<Rightarrow> string \<Rightarrow> StoredTaskRow option" where
  "stored_row d k = map_option (\<lambda>row. row\<lparr>row_task_id := k\<rparr>) (hm_get (db_delivery_tasks d) k)"

definition stored_task_row :: "string \<Rightarrow> StoredTaskRow option sop" where
  "stored_task_row task_id = m2a_query (\<lambda>d. stored_row d task_id)"

definition retained_rows :: "Database \<Rightarrow> StoredTaskRow list" where
  "retained_rows d = filter (\<lambda>row. row_legacy_quarantined row = 0)
     (map (\<lambda>(k, row). row\<lparr>row_task_id := k\<rparr>) (rows_by_key (db_delivery_tasks d)))"

section \<open>Projections\<close>

definition transition_time :: "DurableTask \<Rightarrow> (StoreError, i64) res" where
  "transition_time t =
     (case dt_state t of
        Queued \<Rightarrow> Ok (dt_created_unix_ms t)
      | Leased \<Rightarrow>
          res_bind (or_invalid (dt_lease t) ''leased transition is missing its lease'') (\<lambda>lease.
          or_invalid (checked_sub_i64 (dle_leased_until_unix_ms lease) LEDGER_DELIVERY_LEASE_MS)
            ''lease transition timestamp underflows'')
      | Acknowledged \<Rightarrow> or_invalid (dt_acknowledged_unix_ms t) ''acknowledged transition timestamp is missing''
      | _ \<Rightarrow> or_invalid (dt_terminal_unix_ms t) ''terminal transition timestamp is missing'')"

fun projected_state :: "DurableTaskState \<Rightarrow> TaskState" where
  "projected_state Queued = TsSubmitted"
| "projected_state Leased = TsWorking"
| "projected_state Acknowledged = TsWorking"
| "projected_state Replied = TsCompleted"
| "projected_state Failed = TsFailed"
| "projected_state Rejected = TsRejected"
| "projected_state Canceled = TsCanceled"
| "projected_state Expired = TsFailed"

definition projected_message ::
    "DurableTask \<Rightarrow> string \<Rightarrow> Role \<Rightarrow> string \<Rightarrow> (string \<times> json) list option \<Rightarrow> Message" where
  "projected_message t tag role text metadata =
     \<lparr>ms_message_id = dt_task_id t @ tag, ms_context_id = Some (dt_context_id t), ms_task_id = Some (dt_task_id t),
      ms_role = role, ms_parts = [Part_text text], ms_metadata = metadata, ms_extensions = None,
      ms_reference_task_ids = None\<rparr>"

definition projection_json :: "codec \<Rightarrow> DurableTask \<Rightarrow> (StoreError, string) res" where
  "projection_json cd t =
     res_bind (validate_durable_for_store cd t) (\<lambda>_.
     res_bind (transition_time t) (\<lambda>timestamp_ms.
     res_bind (or_invalid (cd_timestamp_millis cd timestamp_ms) ''projection timestamp is invalid'') (\<lambda>timestamp.
     res_bind (json_object (vp_metadata (dt_payload t)) ''request metadata'') (\<lambda>request_metadata.
     let request = projected_message t ''-request'' RoleUser (vp_text (dt_payload t)) request_metadata in
     res_bind (case dt_reply t of
                 None \<Rightarrow> Ok None
               | Some reply \<Rightarrow>
                   res_bind (json_object (rp_metadata reply) ''reply metadata'') (\<lambda>reply_metadata.
                   Ok (Some (projected_message t ''-reply'' RoleAgent (rp_text reply) reply_metadata)))) (\<lambda>reply_message.
     canonical_json (cd_task_json cd)
       \<lparr>tk_id = dt_task_id t, tk_context_id = dt_context_id t,
        tk_status = \<lparr>ts_state = projected_state (dt_state t), ts_message = reply_message, ts_timestamp = Some timestamp\<rparr>,
        tk_artifacts = None, tk_history = Some [request], tk_metadata = None\<rparr>
       ''task projection'')))))"

definition validate_outbox_entry :: "codec \<Rightarrow> string \<Rightarrow> i64 \<Rightarrow> string \<Rightarrow> unit sop" where
  "validate_outbox_entry cd task_id state_version task_json =
     bindM (stored_task_row task_id) (\<lambda>row_opt.
     bindM (lift_res (or_invalid row_opt ''projection outbox has no retained ledger task'')) (\<lambda>row.
     bindM (lift_res (require (row_legacy_quarantined row = 0) ''projection outbox references a quarantined task'')) (\<lambda>_.
     bindM (lift_res (decode_durable_task cd row)) (\<lambda>durable.
     bindM (lift_res (or_invalid (i64_of_u64 (dt_state_version durable))
       ''ledger state version exceeds SQLite integer range'')) (\<lambda>durable_version.
     bindM (lift_res (require (state_version = durable_version) ''projection outbox state version differs from ledger'')) (\<lambda>_.
     bindM (lift_res (projection_json cd durable)) (\<lambda>expected.
     lift_res (require (task_json = expected) ''projection outbox JSON differs from ledger projection''))))))))"

text \<open>\<^verbatim>\<open>INSERT INTO tasks .. ON CONFLICT\<close>: a new row gets the next row number, an old one keeps its own.\<close>

definition next_rowid :: "(string, TaskRow) hash_map \<Rightarrow> i64" where
  "next_rowid m = 1 + fold (\<lambda>(_, row). max (pr_rowid row)) m 0"

definition upsert_projection :: "TaskColumns \<Rightarrow> i64 \<Rightarrow> Database \<Rightarrow> Database" where
  "upsert_projection columns version d =
     (let row = \<lambda>rowid. \<lparr>pr_context_id = tc_context_id columns, pr_state = tc_state columns,
            pr_status_timestamp = tc_status_timestamp columns, pr_version = version,
            pr_task_json = tc_task_json columns, pr_rowid = rowid\<rparr>
      in case hm_get (db_tasks d) (tc_task_id columns) of
           None \<Rightarrow> d\<lparr>db_tasks := hm_insert (tc_task_id columns) (row (next_rowid (db_tasks d))) (db_tasks d)\<rparr>
         | Some old \<Rightarrow>
             if version \<ge> pr_version old
             then d\<lparr>db_tasks := hm_insert (tc_task_id columns) (row (pr_rowid old)) (db_tasks d)\<rparr>
             else d)"

definition projection_current :: "TaskColumns \<Rightarrow> i64 \<Rightarrow> TaskRow \<Rightarrow> bool" where
  "projection_current columns version row \<longleftrightarrow>
     pr_context_id row = tc_context_id columns \<and> pr_state row = tc_state columns
     \<and> pr_status_timestamp row = tc_status_timestamp columns \<and> pr_version row = version
     \<and> pr_task_json row = tc_task_json columns"

definition delete_outbox :: "string \<Rightarrow> i64 \<Rightarrow> Database \<Rightarrow> Database" where
  "delete_outbox task_id version d =
     (case hm_get (db_projection_outbox d) task_id of
        Some row \<Rightarrow> if ob_state_version row = version
                    then d\<lparr>db_projection_outbox := hm_remove task_id (db_projection_outbox d)\<rparr> else d
      | None \<Rightarrow> d)"

definition apply_authorized_projection :: "codec \<Rightarrow> TaskColumns \<Rightarrow> u64 sop" where
  "apply_authorized_projection cd columns =
     bindM (m2a_query (\<lambda>d. hm_get (db_projection_outbox d) (tc_task_id columns))) (\<lambda>outbox.
     case outbox of
       None \<Rightarrow>
         bindM (query (\<lambda>d. hm_get (db_tasks d) (tc_task_id columns))) (\<lambda>stored.
         case stored of
           Some row \<Rightarrow>
             if pr_task_json row = tc_task_json columns
             then bindM (lift_res (require (pr_version row > 0) ''stored task version is invalid'')) (\<lambda>_.
                  ret (nat (pr_version row)))
             else lift_res (invalid PROJECTION_NOT_AUTHORIZED)
         | None \<Rightarrow> lift_res (invalid PROJECTION_NOT_AUTHORIZED))
     | Some entry \<Rightarrow>
         bindM (validate_outbox_entry cd (tc_task_id columns) (ob_state_version entry) (ob_task_json entry)) (\<lambda>_.
         bindM (lift_res (require (ob_task_json entry = tc_task_json columns) PROJECTION_NOT_AUTHORIZED)) (\<lambda>_.
         bindM (execute (upsert_projection columns (ob_state_version entry))) (\<lambda>_.
         bindM (query_row (\<lambda>d. hm_get (db_tasks d) (tc_task_id columns))) (\<lambda>applied.
         bindM (lift_res (require (projection_current columns (ob_state_version entry) applied)
           ''intended task projection was not applied'')) (\<lambda>_.
         bindM (m2a_execute (delete_outbox (tc_task_id columns) (ob_state_version entry))) (\<lambda>_.
         bindM (lift_res (require (ob_state_version entry > 0) ''projection state version is invalid'')) (\<lambda>_.
         ret (nat (ob_state_version entry))))))))))"

text \<open>Each pending projection, and the transaction over all of them.\<close>

definition apply_pending_projection :: "codec \<Rightarrow> string \<times> OutboxRow \<Rightarrow> unit sop" where
  "apply_pending_projection cd entry =
     bindM (lift_res (or_invalid (cd_task_parse cd (ob_task_json (snd entry)))
       ''projection outbox contains invalid task JSON'')) (\<lambda>task.
     bindM (lift_res (require (tk_id task = fst entry) ''projection task ID does not match outbox key'')) (\<lambda>_.
     bindM (lift_res (valid_or (TaskColumns_from_task cd task) ''projection task cannot be encoded'')) (\<lambda>columns.
     bindM (apply_authorized_projection cd columns) (\<lambda>applied_version.
     bindM (lift_res (require (ob_state_version (snd entry) \<ge> 0) ''projection state version is invalid'')) (\<lambda>_.
     lift_res (require (applied_version = nat (ob_state_version (snd entry)))
       ''intended task projection was not applied''))))))"

definition apply_pending_projections :: "codec \<Rightarrow> nat sop" where
  "apply_pending_projections cd =
     transaction
       (bindM (m2a_query (\<lambda>d. rows_by_key (db_projection_outbox d))) (\<lambda>pending.
        bindM (forM pending (apply_pending_projection cd)) (\<lambda>_.
        bindM commit_transaction (\<lambda>_. ret (length pending)))))
       id"

section \<open>The store as a whole\<close>

definition require_schema :: "unit sop" where
  "require_schema =
     bindM (query db_user_version) (\<lambda>version.
     lift_res (require (version = SCHEMA_VERSION) ''M2A schema has not been prepared''))"

definition invalid_quarantine :: "StoredTaskRow \<Rightarrow> bool" where
  "invalid_quarantine row \<longleftrightarrow> row_legacy_quarantined row = 1
     \<and> (row_sender_agent row \<noteq> None \<or> row_state row \<noteq> ''legacy_identity_unavailable''
        \<or> row_retain_until_unix_ms row = None)"

text \<open>The check of one retained row: its projection is the stored one, or is pending.\<close>

definition validate_retained_row :: "codec \<Rightarrow> string list \<Rightarrow> StoredTaskRow \<Rightarrow> unit sop" where
  "validate_retained_row cd pending row =
     bindM (lift_res (decode_durable_task cd row)) (\<lambda>durable.
     bindM (lift_res (projection_json cd durable)) (\<lambda>json.
     bindM (lift_res (or_invalid (cd_task_parse cd json) ''ledger task projection cannot be decoded'')) (\<lambda>projection.
     bindM (lift_res (valid_or (TaskColumns_from_task cd projection) ''ledger task projection cannot be encoded'')) (\<lambda>expected.
     bindM (lift_res (or_invalid (i64_of_u64 (dt_state_version durable))
       ''ledger state version exceeds SQLite integer range'')) (\<lambda>durable_version.
     bindM (query (\<lambda>d. hm_get (db_tasks d) (row_task_id row))) (\<lambda>stored.
     lift_res (require ((case stored of None \<Rightarrow> False | Some p \<Rightarrow> projection_current expected durable_version p)
         \<or> row_task_id row \<in> set pending)
       ''task projection differs from the retained ledger without a pending repair'')))))))"

definition validate_store :: "codec \<Rightarrow> unit sop" where
  "validate_store cd =
     bindM (query db_user_version) (\<lambda>version.
     bindM (lift_res (require (version = SCHEMA_VERSION) ''M2A schema has not been prepared'')) (\<lambda>_.
     bindM (m2a_query (\<lambda>d. length (db_delivery_tasks d))) (\<lambda>count.
     bindM (lift_res (require (\<not> count > MAX_RETAINED_TASKS) ''retained task capacity exceeds 4096'')) (\<lambda>_.
     bindM (m2a_query (\<lambda>d. length (filter (\<lambda>(_, row). invalid_quarantine row) (db_delivery_tasks d)))) (\<lambda>invalid_count.
     bindM (lift_res (require (invalid_count = 0) ''legacy quarantine invariant is invalid'')) (\<lambda>_.
     bindM (m2a_query (\<lambda>d. length (db_projection_outbox d))) (\<lambda>outbox_count.
     bindM (lift_res (require (\<not> outbox_count > count) ''projection outbox exceeds retained task count'')) (\<lambda>_.
     bindM (m2a_query (\<lambda>d. rows_by_key (db_projection_outbox d))) (\<lambda>outbox.
     bindM (forM outbox (\<lambda>(k, entry). validate_outbox_entry cd k (ob_state_version entry) (ob_task_json entry))) (\<lambda>_.
     bindM (m2a_query retained_rows) (\<lambda>retained.
     forM retained (validate_retained_row cd (map fst outbox)))))))))))))"

definition clean_authoritative_projection :: "codec \<Rightarrow> string \<Rightarrow> (DurableTask \<times> string) sop" where
  "clean_authoritative_projection cd task_id =
     bindM (m2a_query (\<lambda>d. hm_get (db_projection_outbox d) task_id)) (\<lambda>pending.
     bindM (lift_res (require (pending = None) ''task projection reconciliation is pending'')) (\<lambda>_.
     bindM (stored_task_row task_id) (\<lambda>row_opt.
     bindM (lift_res (or_invalid row_opt ''task projection has no retained ledger task'')) (\<lambda>row.
     bindM (lift_res (require (row_legacy_quarantined row = 0) ''task projection references a quarantined task'')) (\<lambda>_.
     bindM (lift_res (decode_durable_task cd row)) (\<lambda>durable.
     bindM (lift_res (or_invalid (i64_of_u64 (dt_state_version durable))
       ''ledger state version exceeds SQLite integer range'')) (\<lambda>expected_version.
     bindM (lift_res (projection_json cd durable)) (\<lambda>expected_json.
     bindM (lift_res (or_invalid (cd_task_parse cd expected_json) ''ledger task projection cannot be decoded'')) (\<lambda>projection.
     bindM (lift_res (valid_or (TaskColumns_from_task cd projection) ''ledger task projection cannot be encoded'')) (\<lambda>expected.
     bindM (query (\<lambda>d. hm_get (db_tasks d) task_id)) (\<lambda>stored.
     bindM (lift_res (require (case stored of None \<Rightarrow> False | Some p \<Rightarrow> projection_current expected expected_version p)
       ''task projection differs from the authoritative retained ledger'')) (\<lambda>_.
     ret (durable, expected_json)))))))))))))"

record TaskPrincipal =
  tp_sender :: AgentName
  tp_recipient :: AgentName

definition database_error :: A2AError where
  "database_error = Internal ''task store database operation failed''"

definition task_principal :: "string \<Rightarrow> (SqliteTaskStore, A2AError, TaskPrincipal option) op" where
  "task_principal task_id =
     bindM (map_error (\<lambda>_. database_error) (query db_user_version)) (\<lambda>version.
     if version \<noteq> SCHEMA_VERSION then ret None
     else
     bindM (map_error (\<lambda>_. database_error) (stored_task_row task_id)) (\<lambda>row_opt.
     case row_opt of
       None \<Rightarrow> ret None
     | Some row \<Rightarrow>
         if row_legacy_quarantined row \<noteq> 0 then ret None
         else
         bindM (lift_res (ok_or (row_sender_agent row) database_error)) (\<lambda>sender_text.
         bindM (lift_res (map_err (Internal ''stored task sender is invalid'') (AgentName_parse sender_text))) (\<lambda>sender.
         bindM (lift_res (map_err (Internal ''stored task recipient is invalid'')
           (AgentName_parse (row_recipient_agent row)))) (\<lambda>recipient.
         ret (Some \<lparr>tp_sender = sender, tp_recipient = recipient\<rparr>))))))"

section \<open>Starting up\<close>

text \<open>A row of the previous schema, kept in quarantine until its retention ends.\<close>

definition quarantine_row :: "string \<Rightarrow> string option \<Rightarrow> string \<Rightarrow> i64 \<Rightarrow> i64 \<Rightarrow> i64 \<Rightarrow> StoredTaskRow" where
  "quarantine_row task_id context_id recipient unix_ms version retain_until =
     \<lparr>row_task_id = task_id, row_context_id = context_id, row_sender_agent = None, row_recipient_agent = recipient,
      row_request_json = None, row_created_unix_ms = unix_ms, row_deadline_unix_ms = unix_ms,
      row_state = ''legacy_identity_unavailable'', row_state_version = version, row_delivery_id = None,
      row_lease_expires_unix_ms = None, row_attempt = 0, row_acknowledged_unix_ms = None, row_reply_json = None,
      row_terminal_unix_ms = Some unix_ms, row_retain_until_unix_ms = Some retain_until, row_legacy_quarantined = 1\<rparr>"

text \<open>\<^verbatim>\<open>INSERT\<close> without a conflict clause: an existing key is an error.\<close>

definition insert_task_row :: "StoredTaskRow \<Rightarrow> unit sop" where
  "insert_task_row row =
     bindM (m2a_query (\<lambda>d. hm_get (db_delivery_tasks d) (row_task_id row) = None)) (\<lambda>new.
     if \<not> new then throw Sqlite
     else modify (\<lambda>s. s\<lparr>sq_database := (sq_database s)\<lparr>db_delivery_tasks :=
            hm_insert (row_task_id row) row (db_delivery_tasks (sq_database s))\<rparr>\<rparr>))"

definition create_m2a_schema :: "unit sop" where
  "create_m2a_schema =
     bindM (query db_m2a) (\<lambda>exists.
     if exists then throw Sqlite
     else modify (\<lambda>s. s\<lparr>sq_database := (sq_database s)\<lparr>db_m2a := True, db_delivery_tasks := [],
            db_broker_meta := None, db_projection_outbox := []\<rparr>\<rparr>))"

definition migrate_legacy_task :: "codec \<Rightarrow> string \<times> TaskRow \<times> string option \<Rightarrow> unit sop" where
  "migrate_legacy_task cd legacy =
     (case legacy of (task_id, row, recipient_opt) \<Rightarrow>
     bindM (lift_res (valid_or (validate_task_id task_id) ''legacy task ID is invalid'')) (\<lambda>_.
     bindM (lift_res (valid_or (validate_task_id (pr_context_id row)) ''legacy context ID is invalid'')) (\<lambda>_.
     bindM (lift_res (or_invalid recipient_opt ''legacy task recipient is missing'')) (\<lambda>recipient.
     bindM (lift_res (valid_or (AgentName_parse recipient) ''legacy task recipient is invalid'')) (\<lambda>_.
     bindM (lift_res (require (\<not> pr_version row < 1) ''legacy task version is invalid'')) (\<lambda>_.
     bindM (lift_res (or_invalid (cd_task_parse cd (pr_task_json row)) ''legacy task JSON is invalid'')) (\<lambda>decoded.
     bindM (lift_res (require (tk_id decoded = task_id \<and> tk_context_id decoded = pr_context_id row)
       ''legacy task JSON identity does not match its columns'')) (\<lambda>_.
     bindM (lift_res (or_invalid (cd_parse_rfc3339 cd (pr_status_timestamp row))
       ''legacy task status timestamp is invalid'')) (\<lambda>timestamp.
     let status_unix_ms = cd_millis cd timestamp in
     bindM (lift_res (or_invalid (checked_add_i64 status_unix_ms TERMINAL_RETENTION_MS)
       ''legacy task retention timestamp overflows'')) (\<lambda>retain_until.
     insert_task_row (quarantine_row task_id (Some (pr_context_id row)) recipient status_unix_ms
       (pr_version row) retain_until)))))))))))"

definition quarantine_owner :: "i64 \<Rightarrow> i64 \<Rightarrow> string \<Rightarrow> string \<times> string option \<Rightarrow> unit sop" where
  "quarantine_owner unix_ms retain_until label owner =
     (case owner of (task_id, recipient_opt) \<Rightarrow>
     bindM (lift_res (valid_or (validate_task_id task_id) (label @ '' task ID is invalid''))) (\<lambda>_.
     bindM (lift_res (or_invalid recipient_opt (label @ '' recipient is missing''))) (\<lambda>recipient.
     bindM (lift_res (valid_or (AgentName_parse recipient) (label @ '' recipient is invalid''))) (\<lambda>_.
     insert_task_row (quarantine_row task_id None recipient unix_ms 1 retain_until)))))"

definition owners_without :: "(Database \<Rightarrow> string \<Rightarrow> bool) \<Rightarrow> Database \<Rightarrow> (string \<times> string option) list" where
  "owners_without present d =
     map (\<lambda>(k, ow). (k, ow_recipient ow)) (filter (\<lambda>(k, _). \<not> present d k) (rows_by_key (db_task_owners d)))"

definition migrate_schema :: "codec \<Rightarrow> i64 \<Rightarrow> nat sop" where
  "migrate_schema cd now =
     transaction
       (bindM (query db_user_version) (\<lambda>version.
        if version = SCHEMA_VERSION then bindM commit_transaction (\<lambda>_. ret 0)
        else
        bindM (lift_res (require (version = 0) ''unsupported SQLite schema version'')) (\<lambda>_.
        bindM create_m2a_schema (\<lambda>_.
        bindM (m2a_execute (\<lambda>d. d\<lparr>db_broker_meta := Some
          \<lparr>bm_last_registration_epoch = ''0'', bm_first_m2a_start_unix_ms = now\<rparr>\<rparr>)) (\<lambda>_.
        bindM (query (\<lambda>d. map (\<lambda>(k, row). (k, row, Option.bind (hm_get (db_task_owners d) k) ow_recipient))
          (rows_by_key (db_tasks d)))) (\<lambda>legacy_tasks.
        bindM (forM legacy_tasks (migrate_legacy_task cd)) (\<lambda>_.
        bindM (query (owners_without (\<lambda>d k. hm_get (db_tasks d) k \<noteq> None))) (\<lambda>owner_only.
        bindM (lift_res (or_invalid (checked_add_i64 now TERMINAL_RETENTION_MS)
          ''legacy tombstone retention timestamp overflows'')) (\<lambda>tombstone_retention.
        bindM (forM owner_only (quarantine_owner now tombstone_retention ''legacy owner'')) (\<lambda>_.
        bindM (m2a_query (\<lambda>d. length (db_delivery_tasks d))) (\<lambda>count.
        bindM (lift_res (require (\<not> count > MAX_RETAINED_TASKS) ''legacy retained task capacity exceeds 4096'')) (\<lambda>_.
        bindM (execute (\<lambda>d. d\<lparr>db_user_version := SCHEMA_VERSION\<rparr>)) (\<lambda>_.
        bindM commit_transaction (\<lambda>_.
        lift_res (usize_from_i64 (int count))))))))))))))))
       id"

definition quarantine_owner_only_rows :: "nat sop" where
  "quarantine_owner_only_rows =
     transaction
       (bindM require_schema (\<lambda>_.
        bindM (m2a_query db_broker_meta) (\<lambda>meta_opt.
        bindM (lift_res (ok_or meta_opt Sqlite)) (\<lambda>meta.
        let first_start = bm_first_m2a_start_unix_ms meta in
        bindM (lift_res (require (\<not> first_start < 0) ''first M2A start timestamp is negative'')) (\<lambda>_.
        bindM (lift_res (or_invalid (checked_add_i64 first_start TERMINAL_RETENTION_MS)
          ''legacy tombstone retention timestamp overflows'')) (\<lambda>retain_until.
        bindM (m2a_query (owners_without (\<lambda>d k. hm_get (db_tasks d) k \<noteq> None \<or> hm_get (db_delivery_tasks d) k \<noteq> None)))
          (\<lambda>owner_only.
        bindM (m2a_query (\<lambda>d. length (db_delivery_tasks d))) (\<lambda>retained.
        bindM (lift_res (require (\<not> retained + length owner_only > MAX_RETAINED_TASKS)
          ''retained task capacity is exhausted by owner quarantine'')) (\<lambda>_.
        bindM (forM owner_only (quarantine_owner first_start retain_until ''owner-only'')) (\<lambda>_.
        bindM commit_transaction (\<lambda>_.
        ret (length owner_only))))))))))))
       id"

definition prunable :: "i64 \<Rightarrow> StoredTaskRow \<Rightarrow> bool" where
  "prunable now row \<longleftrightarrow> row_legacy_quarantined row = 1
     \<and> (case row_retain_until_unix_ms row of None \<Rightarrow> False | Some u \<Rightarrow> u \<le> now)"

definition prune_quarantined_task :: "i64 \<Rightarrow> string \<Rightarrow> unit sop" where
  "prune_quarantined_task now task_id =
     bindM (m2a_execute (\<lambda>d. d\<lparr>db_projection_outbox := hm_remove task_id (db_projection_outbox d)\<rparr>)) (\<lambda>_.
     bindM (execute (\<lambda>d. d\<lparr>db_task_owners := hm_remove task_id (db_task_owners d)\<rparr>)) (\<lambda>_.
     bindM (execute (\<lambda>d. d\<lparr>db_tasks := hm_remove task_id (db_tasks d)\<rparr>)) (\<lambda>_.
     m2a_execute (\<lambda>d. case hm_get (db_delivery_tasks d) task_id of
         Some row \<Rightarrow> if prunable now row
                     then d\<lparr>db_delivery_tasks := hm_remove task_id (db_delivery_tasks d)\<rparr> else d
       | None \<Rightarrow> d))))"

definition prune_quarantined :: "i64 \<Rightarrow> nat sop" where
  "prune_quarantined now =
     transaction
       (bindM (m2a_query (\<lambda>d. map fst (filter (\<lambda>(_, row). prunable now row) (rows_by_key (db_delivery_tasks d))))) (\<lambda>task_ids.
        bindM (forM task_ids (prune_quarantined_task now)) (\<lambda>_.
        bindM commit_transaction (\<lambda>_.
        ret (length task_ids)))))
       id"

record StoreRecoveryReport =
  srr_pruned_quarantined_tasks :: nat
  srr_repaired_projections :: nat
  srr_quarantined_legacy_tasks :: nat

definition prepare_startup :: "codec \<Rightarrow> i64 \<Rightarrow> StoreRecoveryReport sop" where
  "prepare_startup cd now =
     bindM (lift_res (require (\<not> now < 0) ''startup timestamp is negative'')) (\<lambda>_.
     bindM (migrate_schema cd now) (\<lambda>migrated.
     bindM quarantine_owner_only_rows (\<lambda>newly_quarantined.
     bindM (prune_quarantined now) (\<lambda>pruned.
     bindM (validate_store cd) (\<lambda>_.
     bindM (if migrated > 0 \<or> newly_quarantined > 0
            then m2a_query (\<lambda>d. length (filter (\<lambda>(_, row). row_legacy_quarantined row = 1) (db_delivery_tasks d)))
            else ret 0) (\<lambda>retained_quarantine.
     bindM (lift_res (usize_from_i64 (int retained_quarantine))) (\<lambda>quarantined.
     bindM (apply_pending_projections cd) (\<lambda>repaired.
     ret \<lparr>srr_pruned_quarantined_tasks = pruned, srr_repaired_projections = repaired,
          srr_quarantined_legacy_tasks = quarantined\<rparr>))))))))"

section \<open>Committing\<close>

definition commit_epoch :: "RegistrationEpoch option \<Rightarrow> unit sop" where
  "commit_epoch watermark =
     (case watermark of
        None \<Rightarrow> ret ()
      | Some epoch \<Rightarrow>
          bindM (m2a_query db_broker_meta) (\<lambda>meta_opt.
          bindM (lift_res (ok_or meta_opt Sqlite)) (\<lambda>meta.
          bindM (lift_res (parse_canonical_u64 (bm_last_registration_epoch meta) ''registration epoch'')) (\<lambda>current.
          whenM (epoch > current)
            (m2a_execute (\<lambda>d. d\<lparr>db_broker_meta :=
               map_option (\<lambda>m. m\<lparr>bm_last_registration_epoch := decimal epoch\<rparr>) (db_broker_meta d)\<rparr>))))))"

definition delete_task :: "string \<Rightarrow> unit sop" where
  "delete_task task_id =
     bindM (lift_res (valid_or (validate_task_id task_id) ''delete task ID is invalid'')) (\<lambda>_.
     bindM (m2a_execute (\<lambda>d. d\<lparr>db_projection_outbox := hm_remove task_id (db_projection_outbox d)\<rparr>)) (\<lambda>_.
     bindM (m2a_execute (\<lambda>d. d\<lparr>db_delivery_tasks := hm_remove task_id (db_delivery_tasks d)\<rparr>)) (\<lambda>_.
     bindM (execute (\<lambda>d. d\<lparr>db_task_owners := hm_remove task_id (db_task_owners d)\<rparr>)) (\<lambda>_.
     execute (\<lambda>d. d\<lparr>db_tasks := hm_remove task_id (db_tasks d)\<rparr>)))))"

text \<open>Tasks and owners that count against the capacity.\<close>

definition retained_count :: "Database \<Rightarrow> nat" where
  "retained_count d = length (db_delivery_tasks d)
     + length (filter (\<lambda>(k, _). hm_get (db_delivery_tasks d) k = None) (db_task_owners d))"

definition known_id :: "Database \<Rightarrow> string \<Rightarrow> bool" where
  "known_id d k \<longleftrightarrow> hm_get (db_delivery_tasks d) k \<noteq> None \<or> hm_get (db_task_owners d) k \<noteq> None"

fun count_new_ids :: "string list \<Rightarrow> string list \<Rightarrow> nat \<Rightarrow> nat sop" where
  "count_new_ids seen [] count = ret count"
| "count_new_ids seen (k # ks) count =
     (if k \<in> set seen then count_new_ids seen ks count
      else bindM (m2a_query (\<lambda>d. known_id d k)) (\<lambda>exists.
           count_new_ids (k # seen) ks (count + (if exists then 0 else 1))))"

text \<open>
  \<^verbatim>\<open>INSERT INTO delivery_tasks .. ON CONFLICT\<close>: the number of affected rows, and the table after it.
  An existing row is replaced only by a higher version and not when it is quarantined.
\<close>

definition upsert_row :: "StoredTaskRow \<Rightarrow> Database \<Rightarrow> nat \<times> Database" where
  "upsert_row row d =
     (case hm_get (db_delivery_tasks d) (row_task_id row) of
        None \<Rightarrow> (1, d\<lparr>db_delivery_tasks := hm_insert (row_task_id row) row (db_delivery_tasks d)\<rparr>)
      | Some old \<Rightarrow>
          if row_state_version row > row_state_version old \<and> row_legacy_quarantined old = 0
          then (1, d\<lparr>db_delivery_tasks := hm_insert (row_task_id row)
                      (row\<lparr>row_legacy_quarantined := row_legacy_quarantined old\<rparr>) (db_delivery_tasks d)\<rparr>)
          else (0, d))"

definition upsert_outbox :: "string \<Rightarrow> i64 \<Rightarrow> string \<Rightarrow> Database \<Rightarrow> Database" where
  "upsert_outbox task_id version task_json d =
     (let row = \<lparr>ob_state_version = version, ob_task_json = task_json\<rparr> in
      case hm_get (db_projection_outbox d) task_id of
        None \<Rightarrow> d\<lparr>db_projection_outbox := hm_insert task_id row (db_projection_outbox d)\<rparr>
      | Some old \<Rightarrow> if version > ob_state_version old
                    then d\<lparr>db_projection_outbox := hm_insert task_id row (db_projection_outbox d)\<rparr>
                    else d)"

text \<open>One task of the batch; false means that the stored row conflicts with it.\<close>

definition upsert_task :: "codec \<Rightarrow> DurableTask \<times> string \<Rightarrow> bool sop" where
  "upsert_task cd encoded =
     (case encoded of (task, task_json) \<Rightarrow>
     bindM (lift_res (validate_durable_for_store cd task)) (\<lambda>_.
     bindM (m2a_query (\<lambda>d. map_option row_legacy_quarantined (hm_get (db_delivery_tasks d) (dt_task_id task)))) (\<lambda>quarantine.
     bindM (lift_res (require (quarantine \<noteq> Some 1) ''task ID belongs to a quarantined legacy row'')) (\<lambda>_.
     bindM (lift_res (encode_durable_task cd task)) (\<lambda>row.
     bindM (m2a_query (\<lambda>d. fst (upsert_row row d))) (\<lambda>affected.
     bindM (modify (\<lambda>s. s\<lparr>sq_database := snd (upsert_row row (sq_database s))\<rparr>)) (\<lambda>_.
     if affected = 0 then
       bindM (stored_task_row (dt_task_id task)) (\<lambda>stored_opt.
       bindM (lift_res (or_invalid stored_opt ''version-suppressed task row is missing'')) (\<lambda>stored.
       if row_legacy_quarantined stored \<noteq> 0 then ret False
       else bindM (lift_res (decode_durable_task cd stored)) (\<lambda>decoded. ret (decoded = task))))
     else
       bindM (m2a_execute (upsert_outbox (dt_task_id task) (row_state_version row) task_json)) (\<lambda>_.
       ret True))))))))"

fun upsert_tasks :: "codec \<Rightarrow> (DurableTask \<times> string) list \<Rightarrow> PersistenceCommitOutcome sop" where
  "upsert_tasks cd [] = ret Complete"
| "upsert_tasks cd (encoded # rest) =
     bindM (upsert_task cd encoded) (\<lambda>agreed.
     if agreed then upsert_tasks cd rest else ret ReconciliationRequired)"

text \<open>The changes of the batch inside the transaction, which only their success commits.\<close>

definition stage_batch ::
    "codec \<Rightarrow> PersistenceBatch \<Rightarrow> (DurableTask \<times> string) list \<Rightarrow> PersistenceCommitOutcome sop" where
  "stage_batch cd batch encoded =
     bindM require_schema (\<lambda>_.
     bindM (commit_epoch (pb_registration_epoch_high_watermark batch)) (\<lambda>_.
     bindM (forM (pb_delete_task_ids batch) delete_task) (\<lambda>_.
     bindM (m2a_query retained_count) (\<lambda>retained.
     bindM (count_new_ids [] (map (dt_task_id \<circ> fst) encoded) 0) (\<lambda>new_ids.
     bindM (lift_res (require (\<not> retained + new_ids > MAX_RETAINED_TASKS) ''retained task capacity is exhausted'')) (\<lambda>_.
     upsert_tasks cd encoded))))))"

definition commit_batch ::
    "codec \<Rightarrow> PersistenceBatch \<Rightarrow> (DurableTask \<times> string) list \<Rightarrow> PersistenceCommitOutcome sop" where
  "commit_batch cd batch encoded =
     bindM (stage_batch cd batch encoded) (\<lambda>outcome.
     bindM (whenM (outcome = Complete) commit_transaction) (\<lambda>_.
     ret outcome))"

definition retire_sdk_projection_admissions :: "string list \<Rightarrow> SqliteTaskStore \<Rightarrow> SqliteTaskStore" where
  "retire_sdk_projection_admissions task_ids s =
     s\<lparr>sq_admissions := fold remove_task task_ids (sq_admissions s)\<rparr>"

definition projection_outcome :: "(StoreError, nat) res \<Rightarrow> PersistenceCommitOutcome" where
  "projection_outcome r = (case r of Ok _ \<Rightarrow> Complete | _ \<Rightarrow> ReconciliationRequired)"

definition ledger_commit :: "codec \<Rightarrow> PersistenceBatch \<Rightarrow> (SqliteTaskStore, DomainError, PersistenceCommitOutcome) op" where
  "ledger_commit cd batch =
     bindM (lift_res (map_err PersistenceUnavailable
       (collect_res (\<lambda>t. res_bind (projection_json cd t) (\<lambda>j. Ok (t, j))) (pb_upsert_tasks batch)))) (\<lambda>encoded.
     bindM (map_error (\<lambda>_. PersistenceUnavailable)
       (bindM (transaction (commit_batch cd batch encoded) id) (\<lambda>outcome.
        if outcome = ReconciliationRequired then ret (ReconciliationRequired, None)
        else
          bindM (modify (retire_sdk_projection_admissions (pb_delete_task_ids batch))) (\<lambda>_.
          bindM (attempt (apply_pending_projections cd)) (\<lambda>r.
          ret (Complete, Some (projection_outcome r))))))) (\<lambda>(ledger_outcome, projected).
     bindM (case projected of
              Some outcome \<Rightarrow> ret outcome
            | None \<Rightarrow> bindM (attempt (apply_pending_projections cd)) (\<lambda>r. ret (projection_outcome r)))
       (\<lambda>projection.
     ret (if ledger_outcome = ReconciliationRequired \<or> projection = ReconciliationRequired
          then ReconciliationRequired else Complete))))"

section \<open>Loading\<close>

definition ledger_load :: "codec \<Rightarrow> i64 \<Rightarrow> (SqliteTaskStore, DomainError, DurableBrokerSnapshot) op" where
  "ledger_load cd now =
     map_error (\<lambda>_. PersistenceUnavailable)
       (bindM (validate_store cd) (\<lambda>_.
        bindM (m2a_query db_broker_meta) (\<lambda>meta_opt.
        bindM (lift_res (ok_or meta_opt Sqlite)) (\<lambda>meta.
        bindM (lift_res (parse_canonical_u64 (bm_last_registration_epoch meta) ''registration epoch'')) (\<lambda>epoch.
        bindM (m2a_query retained_rows) (\<lambda>rows.
        bindM (lift_res (collect_res (decode_durable_task cd) rows)) (\<lambda>tasks.
        ret \<lparr>snap_last_registration_epoch = epoch, snap_tasks = tasks\<rparr>)))))))"

definition SqlitePersistence :: "codec \<Rightarrow> SqliteTaskStore BrokerPersistence" where
  "SqlitePersistence cd = \<lparr>bp_load = ledger_load cd, bp_commit = ledger_commit cd\<rparr>"

end
