(* ===== verification/Ledger_Correct.thy ===== *)
theory Ledger_Correct
  imports Ledger
begin

text \<open>
  The ledger keeps the contract of the broker's persistence.  It answers for a table of durable tasks
  when each row that is not in quarantine represents the task of its key.  A commit is atomic: on an
  error the rows are as they were, and when it completes the batch has been applied, whatever
  statements fail in between; the projections it applies afterwards do not touch the rows.
\<close>

section \<open>What statements leave alone\<close>

lemma keeps_statement [keeps_intros]:
  "(\<And>s. f (tick s) = f s) \<Longrightarrow> keeps f (query g)"
  "(\<And>s. f (tick s) = f s) \<Longrightarrow> keeps f (query_row h)"
  "(\<And>s. f (tick s) = f s) \<Longrightarrow> keeps f (m2a_query g)"
  "(\<And>s. f (tick s) = f s) \<Longrightarrow> (\<And>s. f ((tick s)\<lparr>sq_database := e (sq_database s)\<rparr>) = f s) \<Longrightarrow> keeps f (execute e)"
  "(\<And>s. f (tick s) = f s) \<Longrightarrow> (\<And>s. f ((tick s)\<lparr>sq_database := e (sq_database s)\<rparr>) = f s) \<Longrightarrow> keeps f (m2a_execute e)"
  "(\<And>s. f (u s) = f s) \<Longrightarrow> keeps f (modify u)"
  by (auto simp: keeps_def split: option.splits)

lemma keeps_whenM [keeps_intros]: "(b \<Longrightarrow> keeps f m) \<Longrightarrow> keeps f (whenM b m)"
  by (auto simp: whenM_def keeps_basic)

lemma keeps_prod [keeps_intros]: "(\<And>a b. x = (a, b) \<Longrightarrow> keeps f (g a b)) \<Longrightarrow> keeps f (case x of (a, b) \<Rightarrow> g a b)"
  by (cases x) auto

lemma keeps_let [keeps_intros]: "(\<And>x. x = e \<Longrightarrow> keeps f (g x)) \<Longrightarrow> keeps f (let x = e in g x)"
  by simp

abbreviation tx :: "SqliteTaskStore \<Rightarrow> Database option \<times> SdkProjectionAdmissionRegistry" where
  "tx s \<equiv> (sq_transaction s, sq_admissions s)"

text \<open>The checks of rows and columns never panic.\<close>

lemma no_panic_checks [simp]:
  "decode_state x \<noteq> Panic" "canonical_json f a label \<noteq> Panic" "parse_canonical_u64 v label \<noteq> Panic"
  "usize_from_i64 i \<noteq> Panic" "json_object j label \<noteq> Panic" "transition_time t \<noteq> Panic"
  by (simp_all add: decode_state_def canonical_json_def parse_canonical_u64_def usize_from_i64_def json_object_def
      transition_time_def res_bind_eq_Panic split: json.splits DurableTaskState.splits)

lemma no_panic_decode [simp]:
  "canonical_decode f g j label \<noteq> Panic" "DeliveryId_parse p v \<noteq> Panic"
  "validate_stored_reply cd r \<noteq> Panic" "validate_stored_lease t \<noteq> Panic" "decode_lease cd row a n \<noteq> Panic"
  by (auto simp: canonical_decode_def res_bind_eq_Panic DeliveryId_parse_def parse_uuid_v7_def validate_stored_reply_def
      validate_stored_lease_def decode_lease_def split: option.splits)

lemma no_panic_tasks [simp]:
  "validate_durable_for_store cd t \<noteq> Panic" "encode_durable_task cd t \<noteq> Panic" "decode_durable_task cd row \<noteq> Panic"
  "projection_json cd t \<noteq> Panic" "TaskColumns_from_task cd task \<noteq> Panic"
  by (auto simp: validate_durable_for_store_def encode_durable_task_def decode_durable_task_def projection_json_def
      TaskColumns_from_task_def serialized_string_def res_bind_eq_Panic Let_def split: option.splits)

lemma validate_outbox_entry_reads [keeps_intros]:
  "(\<And>s. f (tick s) = f s) \<Longrightarrow> keeps f (validate_outbox_entry cd k v j)"
  unfolding validate_outbox_entry_def stored_task_row_def by (intro keeps_intros) simp_all

lemma validate_store_reads [keeps_intros]:
  "(\<And>s. f (tick s) = f s) \<Longrightarrow> keeps f (validate_store cd)"
  unfolding validate_store_def validate_retained_row_def by (intro keeps_intros) simp_all

lemma require_schema_reads [keeps_intros]: "(\<And>s. f (tick s) = f s) \<Longrightarrow> keeps f require_schema"
  unfolding require_schema_def by (intro keeps_intros) simp_all

text \<open>Projections touch neither the ledger's rows nor the epoch.\<close>

definition ledger_part :: "Database \<Rightarrow> (string, StoredTaskRow) hash_map \<times> BrokerMeta option" where
  "ledger_part d = (db_delivery_tasks d, db_broker_meta d)"

lemma ledger_part_projections [simp]:
  "ledger_part (upsert_projection c v d) = ledger_part d" "ledger_part (delete_outbox k v d) = ledger_part d"
  "ledger_part (upsert_outbox k v j d) = ledger_part d"
  by (simp_all add: ledger_part_def upsert_projection_def delete_outbox_def upsert_outbox_def Let_def split: option.splits)

lemma apply_pending_keeps_part:
  "keeps (\<lambda>s. (ledger_part (sq_database s), tx s)) (apply_pending_projection cd entry)"
  unfolding apply_pending_projection_def apply_authorized_projection_def
  by (intro keeps_intros) simp_all

text \<open>
  A transaction whose body ends with its commit: what the changes before the commit leave alone, the
  transaction leaves alone.
\<close>

lemma transaction_keeps:
  assumes "keeps (\<lambda>s. (f (sq_database s), tx s)) m"
  shows "keeps (\<lambda>s. (f (sq_database s), sq_admissions s)) (transaction (bindM m (\<lambda>a. bindM commit_transaction (\<lambda>_. ret (g a)))) id)"
  unfolding keeps_def
proof (intro allI wp_transaction)
  fix s
  let ?s = "(tick s)\<lparr>sq_transaction := Some (sq_database s)\<rparr>"
  show "wp (bindM m (\<lambda>a. bindM commit_transaction (\<lambda>_. ret (g a))))
      (\<lambda>_ s'. (f (sq_database (drop_transaction s')), sq_admissions (drop_transaction s')) = (f (sq_database s), sq_admissions s))
      (\<lambda>_ s'. (f (sq_database (drop_transaction s')), sq_admissions (drop_transaction s')) = (f (sq_database s), sq_admissions s)) ?s"
    unfolding wp_bindM by (rule keeps_wp [OF assms]) simp_all
qed simp

lemma bindM_assoc: "bindM (bindM m k) h = bindM m (\<lambda>a. bindM (k a) h)"
  by (rule ext) (simp add: bindM_def split: prod.splits res.splits)

lemma bindM_ret_left: "bindM (ret a) k = k a"
  by (rule ext) simp

lemma apply_pending_keeps:
  "keeps (\<lambda>s. (ledger_part (sq_database s), sq_admissions s)) (apply_pending_projections cd)"
proof -
  let ?m = "bindM (m2a_query (\<lambda>d. rows_by_key (db_projection_outbox d))) (\<lambda>pending.
      bindM (forM pending (apply_pending_projection cd)) (\<lambda>_. ret pending))"
  have "keeps (\<lambda>s. (ledger_part (sq_database s), tx s)) ?m"
    by (intro keeps_intros apply_pending_keeps_part) simp
  from transaction_keeps [OF this, of length] show ?thesis
    by (simp add: apply_pending_projections_def bindM_assoc bindM_ret_left)
qed

section \<open>The table of a ledger\<close>

text \<open>
  A row represents a valid task if it is the task's encoding or decodes to it.  The ledger answers for a
  table if the rows that are not in quarantine represent its tasks.
\<close>

definition represents :: "codec \<Rightarrow> StoredTaskRow \<Rightarrow> DurableTask \<Rightarrow> bool" where
  "represents cd row t \<longleftrightarrow> validate_durable_for_store cd t = Ok ()
     \<and> (encode_durable_task cd t = Ok row \<or> decode_durable_task cd row = Ok t)"

definition keyed :: "string \<Rightarrow> StoredTaskRow \<Rightarrow> StoredTaskRow" where
  "keyed k row = row\<lparr>row_task_id := k\<rparr>"

definition row_holds :: "codec \<Rightarrow> string \<Rightarrow> StoredTaskRow option \<Rightarrow> DurableTask option \<Rightarrow> bool" where
  "row_holds cd k r v \<longleftrightarrow>
     (case v of
        None \<Rightarrow> (\<forall>row. r = Some row \<longrightarrow> row_legacy_quarantined row \<noteq> 0)
      | Some t \<Rightarrow> (\<exists>row. r = Some row \<and> row_legacy_quarantined row = 0 \<and> represents cd (keyed k row) t))"

definition rows_hold :: "codec \<Rightarrow> (string \<rightharpoonup> StoredTaskRow) \<Rightarrow> task_table \<Rightarrow> bool" where
  "rows_hold cd R V \<longleftrightarrow> (\<forall>k. row_holds cd k (R k) (V k))"

definition ledger_holds :: "codec \<Rightarrow> SqliteTaskStore \<Rightarrow> task_table \<Rightarrow> bool" where
  "ledger_holds cd s V \<longleftrightarrow> rows_hold cd (hm_get (db_delivery_tasks (sq_database s))) V"

lemma rows_hold_delete: "rows_hold cd R V \<Longrightarrow> rows_hold cd (R(k := None)) (V(k := None))"
  by (simp add: rows_hold_def) (simp add: row_holds_def)

lemma rows_hold_upd:
  assumes "rows_hold cd R V" "row_legacy_quarantined row = 0" "represents cd (keyed k row) t"
  shows "rows_hold cd (R(k \<mapsto> row)) (V(k \<mapsto> t))"
  using assms by (simp add: rows_hold_def) (simp add: row_holds_def)

lemma rows_hold_same:
  assumes "rows_hold cd R V" "R k = Some row" "row_legacy_quarantined row = 0" "represents cd (keyed k row) t"
  shows "rows_hold cd R (V(k \<mapsto> t))"
  using assms by (simp add: rows_hold_def) (simp add: row_holds_def)

lemma encode_fields:
  assumes "encode_durable_task cd t = Ok row"
  shows "row_task_id row = dt_task_id t" "row_legacy_quarantined row = 0"
    "row_state_version row = int (dt_state_version t)" "keyed (dt_task_id t) row = row"
  using assms by (auto simp: encode_durable_task_def keyed_def res_bind_eq_Ok i64_of_u64_def split: if_splits)

lemma upsert_row_holds:
  assumes V: "rows_hold cd (hm_get (db_delivery_tasks d)) V" and valid: "validate_durable_for_store cd t = Ok ()"
    and enc: "encode_durable_task cd t = Ok row" and aff: "fst (upsert_row row d) \<noteq> 0"
  shows "rows_hold cd (hm_get (db_delivery_tasks (snd (upsert_row row d)))) (V(dt_task_id t \<mapsto> t))"
proof -
  note f = encode_fields [OF enc]
  have same: "row\<lparr>row_legacy_quarantined := 0\<rparr> = row" using f(2) by (cases row) simp
  have "hm_get (db_delivery_tasks (snd (upsert_row row d))) = (hm_get (db_delivery_tasks d))(dt_task_id t \<mapsto> row)"
    using aff f(1) by (cases "hm_get (db_delivery_tasks d) (dt_task_id t)") (auto simp: upsert_row_def same split: if_splits)
  with rows_hold_upd [OF V f(2), of "dt_task_id t" t] enc valid f(4) show ?thesis by (simp add: represents_def)
qed

lemma upsert_row_suppressed: "fst (upsert_row row d) = 0 \<Longrightarrow> snd (upsert_row row d) = d"
  by (cases "hm_get (db_delivery_tasks d) (row_task_id row)") (auto simp: upsert_row_def split: if_splits)

abbreviation holds_now :: "codec \<Rightarrow> SqliteTaskStore \<Rightarrow> task_table \<Rightarrow> bool" where
  "holds_now cd s V \<equiv> rows_hold cd (hm_get (db_delivery_tasks (sq_database s))) V"

lemma delivery_tasks_outbox [simp]: "db_delivery_tasks (upsert_outbox k v j d) = db_delivery_tasks d"
  by (simp add: upsert_outbox_def Let_def split: option.splits)

lemma upsert_task_holds:
  assumes V: "holds_now cd s V"
  shows "wp (upsert_task cd (t, j)) (\<lambda>_ _. True) (\<lambda>agreed s'. agreed \<longrightarrow> holds_now cd s' (V(dt_task_id t \<mapsto> t))) s"
proof -
  have suppressed: "rows_hold cd (hm_get (db_delivery_tasks (sq_database s))) (V(dt_task_id t \<mapsto> t))"
    if "stored_row (sq_database s) (dt_task_id t) = Some row" "row_legacy_quarantined row = 0"
      "decode_durable_task cd row = Ok t" "validate_durable_for_store cd t = Ok ()" for row
    using that by (auto simp: stored_row_def keyed_def represents_def intro!: rows_hold_same [OF V])
  show ?thesis
    unfolding upsert_task_def stored_task_row_def prod.case wp_bindM wp_lift_res
    using upsert_row_holds [OF V] suppressed
    by (auto simp: wp_lift_res upsert_row_suppressed split: option.splits)
qed

lemma upsert_tasks_hold:
  "holds_now cd s V \<Longrightarrow> wp (upsert_tasks cd encoded) (\<lambda>_ _. True)
     (\<lambda>outcome s'. outcome = Complete \<longrightarrow> holds_now cd s' (upsert_all (map fst encoded) V)) s"
proof (induction encoded arbitrary: s V)
  case (Cons e encoded)
  obtain t j where e: "e = (t, j)" by force
  show ?case
    unfolding e upsert_tasks.simps wp_bindM
    by (rule wp_conseq [OF upsert_task_holds [OF Cons.prems]]) (auto intro!: Cons.IH)
qed simp

lemma delete_tasks_hold:
  "holds_now cd s V \<Longrightarrow> wp (forM ks delete_task) (\<lambda>_ _. True) (\<lambda>_ s'. holds_now cd s' (V |` (- set ks))) s"
proof (induction ks arbitrary: s V)
  case (Cons k ks)
  have V': "V(k := None) |` (- set ks) = V |` (- set (k # ks))" by (auto simp: restrict_map_def)
  have "wp (delete_task k) (\<lambda>_ _. True) (\<lambda>_ s'. holds_now cd s' (V(k := None))) s"
    using rows_hold_delete [OF Cons.prems, of k] by (simp add: delete_task_def wp_lift_res)
  moreover have "wp (forM ks delete_task) (\<lambda>_ _. True) (\<lambda>_ s'. holds_now cd s' (V |` (- set (k # ks)))) s'"
    if "holds_now cd s' (V(k := None))" for s'
    using Cons.IH [OF that] unfolding V' .
  ultimately show ?case unfolding forM.simps wp_bindM by (rule wp_conseq)
qed simp

lemma count_new_ids_reads [keeps_intros]:
  "(\<And>s. f (tick s) = f s) \<Longrightarrow> keeps f (count_new_ids seen ks n)"
  by (induction seen ks n rule: count_new_ids.induct) (auto intro!: keeps_intros)

lemma commit_epoch_rows: "keeps (\<lambda>s. (db_delivery_tasks (sq_database s), tx s)) (commit_epoch e)"
  unfolding commit_epoch_def by (intro keeps_intros) simp_all

lemma stage_holds:
  assumes V: "holds_now cd s V" and enc: "map fst encoded = pb_upsert_tasks batch"
  shows "wp (stage_batch cd batch encoded) (\<lambda>_ _. True)
    (\<lambda>outcome s'. outcome = Complete \<longrightarrow> holds_now cd s' (apply_batch batch V)) s"
proof -
  let ?f = "\<lambda>s. db_delivery_tasks (sq_database s)"
  have reads: "keeps ?f require_schema" "keeps ?f (m2a_query g)" "keeps ?f (count_new_ids seen ks n)"
    "keeps ?f (lift_res (require c msg))" for g seen ks n c msg
    by (intro keeps_intros; simp)+
  have upserts: "wp (upsert_tasks cd encoded) (\<lambda>_ _. True)
      (\<lambda>outcome s'. outcome = Complete \<longrightarrow> holds_now cd s' (apply_batch batch V)) s'"
    if "holds_now cd s' (V |` (- set (pb_delete_task_ids batch)))" for s'
    using upsert_tasks_hold [OF that, of encoded] by (simp add: apply_batch_def enc)
  show ?thesis
    unfolding stage_batch_def wp_bindM
  proof (rule keeps_wp [OF reads(1)], rule TrueI, rule keeps_wp [OF commit_epoch_rows], rule TrueI, goal_cases)
    case (1 _ s1 _ s2)
    then have "holds_now cd s2 V" using V by simp
    from delete_tasks_hold [OF this, of "pb_delete_task_ids batch"] show ?case
    proof (rule wp_conseq, goal_cases)
      case (1 _ s3)
      show ?case
        by (rule keeps_wp [OF reads(2)], rule TrueI, rule keeps_wp [OF reads(3)], rule TrueI,
            rule keeps_wp [OF reads(4)], rule TrueI, rule upserts) (use 1 in simp)
    qed simp
  qed
qed

section \<open>The contract\<close>

lemma delete_task_tx: "keeps tx (delete_task k)"
  unfolding delete_task_def by (intro keeps_intros) simp_all

lemma upsert_tasks_tx: "keeps tx (upsert_tasks cd encoded)"
proof (induction encoded)
  case (Cons e encoded)
  have "keeps tx (upsert_task cd e)"
    unfolding upsert_task_def stored_task_row_def by (intro keeps_intros) simp_all
  with Cons show ?case by (auto intro!: keeps_intros)
qed (simp add: keeps_basic)

lemma stage_tx: "keeps tx (stage_batch cd batch encoded)"
proof -
  have "keeps tx (commit_epoch e)" for e
    unfolding commit_epoch_def by (intro keeps_intros) simp_all
  then show ?thesis
    unfolding stage_batch_def by (intro keeps_intros delete_task_tx upsert_tasks_tx) simp_all
qed

lemma stage_total: "wp (stage_batch cd batch encoded) (\<lambda>_ _. True) (\<lambda>_ _. True) s"
  by (rule keeps_wp [OF stage_tx]) simp_all

text \<open>
  A commit as a whole, for any property \<open>R\<close> of the rows and the epoch that the staged changes
  establish: an error leaves both as they were, a completed commit establishes \<open>R\<close>, and one that
  asks for reconciliation does one of the two.
\<close>

abbreviation part :: "SqliteTaskStore \<Rightarrow> (string, StoredTaskRow) hash_map \<times> BrokerMeta option" where
  "part s \<equiv> ledger_part (sq_database s)"

lemma not_Complete: "outcome \<noteq> Complete \<longleftrightarrow> outcome = ReconciliationRequired"
  by (cases outcome) simp_all

lemma collect_encoded:
  "collect_res (\<lambda>t. res_bind (projection_json cd t) (\<lambda>j. Ok (t, j))) ts = Ok encoded \<Longrightarrow> map fst encoded = ts"
  by (induction ts arbitrary: encoded) (auto simp: res_bind_eq_Ok)

lemma transaction_commit:
  assumes stage: "\<And>s1. sq_database s1 = sq_database s \<Longrightarrow>
      wp (stage_batch cd batch encoded) (\<lambda>_ _. True) (\<lambda>outcome s'. outcome = Complete \<longrightarrow> R (part s')) s1"
  shows "wp (transaction (commit_batch cd batch encoded) id) (\<lambda>_ s'. part s' = part s)
    (\<lambda>outcome s'. if outcome = Complete then R (part s') else part s' = part s) s"
proof (rule wp_transaction)
  let ?s = "(tick s)\<lparr>sq_transaction := Some (sq_database s)\<rparr>"
  have "wp (stage_batch cd batch encoded) (\<lambda>_ s'. tx s' = tx ?s)
      (\<lambda>outcome s'. tx s' = tx ?s \<and> (outcome = Complete \<longrightarrow> R (part s'))) ?s"
    using wp_conj [OF stage_tx [unfolded keeps_def, rule_format, of cd batch encoded ?s] stage [of ?s]] by simp
  then show "wp (commit_batch cd batch encoded) (\<lambda>e s'. part (drop_transaction s') = part s)
      (\<lambda>outcome s'. if outcome = Complete then R (part (drop_transaction s')) else part (drop_transaction s') = part s) ?s"
    unfolding commit_batch_def wp_bindM by (rule wp_conseq) auto
qed simp

lemma ledger_commit_rule:
  assumes stage: "\<And>encoded s1. map fst encoded = pb_upsert_tasks batch \<Longrightarrow> sq_database s1 = sq_database s \<Longrightarrow>
      wp (stage_batch cd batch encoded) (\<lambda>_ _. True) (\<lambda>outcome s'. outcome = Complete \<longrightarrow> R (part s')) s1"
  shows "wp (ledger_commit cd batch) (\<lambda>_ s'. part s' = part s)
    (\<lambda>outcome s'. R (part s') \<or> outcome = ReconciliationRequired \<and> part s' = part s) s"
proof -
  note kept = keeps_wp [OF apply_pending_keeps]
  show ?thesis
    unfolding ledger_commit_def wp_bindM wp_lift_res map_err_eq_Panic map_err_eq_Ok
  proof (intro conjI allI impI, goal_cases)
    case 1
    show ?case by (rule collect_res_not_Panic) (simp add: res_bind_eq_Panic)
  next
    case (2 encoded)
    have "wp (transaction (commit_batch cd batch encoded) id) (\<lambda>_ s'. part s' = part s)
        (\<lambda>outcome s'. if outcome = Complete then R (part s') else part s' = part s) s"
      by (rule transaction_commit, rule stage) (use 2 collect_encoded in auto)
    then show ?case
      unfolding wp_map_error wp_bindM
      by (rule wp_conseq)
        (auto simp: retire_sdk_projection_admissions_def not_Complete intro!: kept split: if_splits)
  next
    case (3 e)
    then show ?case by simp
  qed
qed

text \<open>A load reads the rows that are not in quarantine, decodes them, and changes nothing.\<close>

lemma decode_fields:
  assumes "decode_durable_task cd row = Ok t"
  shows "dt_task_id t = row_task_id row" "row_legacy_quarantined row = 0" "validate_durable_for_store cd t = Ok ()"
  using assms by (auto simp: decode_durable_task_def res_bind_eq_Ok Let_def)

lemma retained_rows_mem:
  "row \<in> set (retained_rows d) \<longleftrightarrow>
     row_legacy_quarantined row = 0 \<and> (\<exists>k r. hm_get (db_delivery_tasks d) k = Some r \<and> row = keyed k r)"
  using rows_by_key_mem [of _ _ "db_delivery_tasks d"] by (force simp: retained_rows_def keyed_def)

lemma retained_rows_distinct: "distinct (map row_task_id (retained_rows d))"
proof -
  have "map row_task_id (map (\<lambda>(k, row). row\<lparr>row_task_id := k\<rparr>) (rows_by_key (db_delivery_tasks d)))
      = map fst (rows_by_key (db_delivery_tasks d))"
    by (auto simp: comp_def case_prod_beta)
  then show ?thesis
    unfolding retained_rows_def by (metis distinct_map_filter rows_by_key_distinct)
qed

lemma decoded_rows:
  assumes dec: "collect_res (decode_durable_task cd) (retained_rows d) = Ok ts"
  shows "distinct (map dt_task_id ts)" and "rows_hold cd (hm_get (db_delivery_tasks d)) (table_of ts)"
proof -
  have all: "list_all2 (\<lambda>row t. decode_durable_task cd row = Ok t) (retained_rows d) ts"
    using dec by (simp add: collect_res_Ok)
  then have "list_all2 (\<lambda>row t. row_task_id row = dt_task_id t) (retained_rows d) ts"
    by (rule list_all2_mono) (simp add: decode_fields)
  then have ids: "map dt_task_id ts = map row_task_id (retained_rows d)"
    by (induction rule: list_all2_induct) simp_all
  then show dist: "distinct (map dt_task_id ts)" using retained_rows_distinct by simp
  have "row_holds cd k (hm_get (db_delivery_tasks d) k) (table_of ts k)" for k
  proof (cases "table_of ts k")
    case (Some t)
    then have "t \<in> set ts" "dt_task_id t = k" using table_of_mem [OF dist] by auto
    then obtain i where "i < length ts" "ts ! i = t" by (auto simp: in_set_conv_nth)
    then have "retained_rows d ! i \<in> set (retained_rows d)" and row: "decode_durable_task cd (retained_rows d ! i) = Ok t"
      using all by (auto simp: list_all2_conv_all_nth)
    then obtain j r where r: "hm_get (db_delivery_tasks d) j = Some r" "retained_rows d ! i = keyed j r"
      "row_legacy_quarantined (keyed j r) = 0"
      by (auto simp: retained_rows_mem)
    moreover have "j = k" using decode_fields(1) [OF row] r(2) \<open>dt_task_id t = k\<close> by (simp add: keyed_def)
    ultimately show ?thesis using Some row decode_fields(3) [OF row] by (simp add: row_holds_def represents_def) (simp add: keyed_def)
  next
    case None
    then have "k \<notin> row_task_id ` set (retained_rows d)"
      using ids table_of_None [of ts k] by (metis image_set)
    moreover have "keyed k row \<in> set (retained_rows d)"
      if "hm_get (db_delivery_tasks d) k = Some row" "row_legacy_quarantined row = 0" for row
      using that by (auto simp: retained_rows_mem keyed_def)
    ultimately have "row_legacy_quarantined row \<noteq> 0" if "hm_get (db_delivery_tasks d) k = Some row" for row
      using that by (force simp: keyed_def)
    with None show ?thesis by (simp add: row_holds_def)
  qed
  then show "rows_hold cd (hm_get (db_delivery_tasks d)) (table_of ts)" by (simp add: rows_hold_def)
qed

definition meta_epoch :: "BrokerMeta option \<Rightarrow> u64" where
  "meta_epoch meta_opt =
     (case meta_opt of
        None \<Rightarrow> 0
      | Some meta \<Rightarrow> (case parse_canonical_u64 (bm_last_registration_epoch meta) ''registration epoch'' of
                        Ok n \<Rightarrow> n | _ \<Rightarrow> 0))"

definition ledger_epoch :: "SqliteTaskStore \<Rightarrow> u64" where
  "ledger_epoch s = meta_epoch (db_broker_meta (sq_database s))"

lemma ledger_load_rule:
  "wp (ledger_load cd now) (\<lambda>_ s'. sq_database s' = sq_database s)
     (\<lambda>snap s'. sq_database s' = sq_database s \<and> snap_last_registration_epoch snap = ledger_epoch s
        \<and> collect_res (decode_durable_task cd) (retained_rows (sq_database s)) = Ok (snap_tasks snap)) s"
  unfolding ledger_load_def wp_map_error wp_bindM
proof (rule keeps_wp [OF validate_store_reads [of sq_database]], goal_cases)
  case (3 _ s1)
  then show ?case
    by (auto simp: wp_lift_res ledger_epoch_def meta_epoch_def collect_res_not_Panic split: option.splits)
qed simp_all

section \<open>Epochs\<close>

text \<open>Printing a number in decimal and parsing it back.\<close>

lemma digit_char: "(n :: nat) < 10 \<Longrightarrow> byte (char_of (48 + n)) = 48 + n"
  by (simp add: byte_def)

lemma digit_char_digit: "(n :: nat) < 10 \<Longrightarrow> is_ascii_digit (char_of (48 + n))"
  by (simp add: is_ascii_digit_def digit_char)

lemma decimal_value_append: "decimal_value acc (xs @ [c]) = 10 * decimal_value acc xs + (byte c - 48)"
  by (induction xs arbitrary: acc) simp_all

lemma decimal_value_decimal: "decimal_value 0 (decimal n) = n"
proof (induction n rule: decimal.induct)
  case (1 n)
  then show ?case
    by (subst decimal.simps) (auto simp: decimal_value_append digit_char)
qed

lemma decimal_digits: "list_all is_ascii_digit (decimal n) \<and> decimal n \<noteq> []"
proof (induction n rule: decimal.induct)
  case (1 n)
  then show ?case
    by (subst (1 2) decimal.simps) (auto simp: digit_char_digit)
qed

lemma decimal_leading: "0 < n \<Longrightarrow> hd (decimal n) \<noteq> CHR ''0''"
proof (induction n rule: decimal.induct)
  case (1 n)
  have "byte CHR ''0'' = 48" by (simp add: byte_def)
  then have "n < 10 \<Longrightarrow> char_of (48 + n) \<noteq> CHR ''0''"
    using digit_char [of n] 1(2) by auto
  with 1 decimal_digits [of "n div 10"] show ?case
    by (subst decimal.simps) (auto simp: hd_append)
qed

lemma parse_decimal: "n \<le> u64_max \<Longrightarrow> parse_canonical_u64 (decimal n) label = Ok n"
proof -
  assume n: "n \<le> u64_max"
  have "length (decimal n) > 1 \<Longrightarrow> hd (decimal n) \<noteq> CHR ''0''"
    using decimal_leading [of n] by (cases "n = 0") (simp_all add: decimal.simps [of 0])
  with n decimal_digits [of n] show ?thesis
    by (auto simp: parse_canonical_u64_def parse_u64_def decimal_value_decimal or_invalid_def Let_def)
qed

text \<open>A completed commit raises the epoch to its high watermark.\<close>

lemma commit_epoch_effect:
  assumes "\<And>n. e = Some n \<Longrightarrow> n \<le> u64_max"
  shows "wp (commit_epoch e) (\<lambda>_ _. True)
    (\<lambda>_ s'. ledger_epoch s' = (case e of None \<Rightarrow> ledger_epoch s | Some n \<Rightarrow> max (ledger_epoch s) n)) s"
  using assms by (cases e) (auto simp: commit_epoch_def ledger_epoch_def meta_epoch_def wp_lift_res parse_decimal
      split: option.splits)

lemma stage_epoch:
  assumes e: "\<And>n. pb_registration_epoch_high_watermark batch = Some n \<Longrightarrow> n \<le> u64_max"
  shows "wp (stage_batch cd batch encoded) (\<lambda>_ _. True)
    (\<lambda>outcome s'. ledger_epoch s' = (case pb_registration_epoch_high_watermark batch of
        None \<Rightarrow> ledger_epoch s | Some n \<Rightarrow> max (ledger_epoch s) n)) s"
proof -
  have tasks: "keeps ledger_epoch (upsert_tasks cd encoded)" for encoded
  proof (induction encoded)
    case (Cons t encoded)
    have "keeps ledger_epoch (upsert_task cd t)"
      unfolding upsert_task_def stored_task_row_def
      by (intro keeps_intros) (simp_all add: ledger_epoch_def upsert_row_def upsert_outbox_def Let_def split: option.splits)
    with Cons show ?case by (auto intro!: keeps_intros)
  qed (simp add: keeps_basic)
  have rest: "keeps ledger_epoch (bindM (forM (pb_delete_task_ids batch) delete_task) (\<lambda>_.
     bindM (m2a_query retained_count) (\<lambda>retained.
     bindM (count_new_ids [] (map (dt_task_id \<circ> fst) encoded) 0) (\<lambda>new_ids.
     bindM (lift_res (require (\<not> retained + new_ids > MAX_RETAINED_TASKS) ''retained task capacity is exhausted'')) (\<lambda>_.
     upsert_tasks cd encoded)))))"
    unfolding delete_task_def by (intro keeps_intros tasks) (simp_all add: ledger_epoch_def)
  have schema: "keeps ledger_epoch require_schema" by (intro keeps_intros) (simp add: ledger_epoch_def)
  show ?thesis
    unfolding stage_batch_def wp_bindM [of require_schema] wp_bindM [of "commit_epoch _"]
    by (rule keeps_wp [OF schema], rule TrueI, rule wp_conseq [OF commit_epoch_effect [OF e]], assumption,
        rule keeps_wp [OF rest]) (auto split: option.split)
qed

section \<open>The ledger as a provider\<close>

interpretation ledger: persistence_contract "SqlitePersistence cd" "ledger_holds cd" for cd
proof (unfold_locales, goal_cases)
  case (1 b p p' V)
  have "wp (ledger_commit cd b) (\<lambda>_ s'. part s' = part p)
      (\<lambda>outcome s'. rows_hold cd (hm_get (fst (part s'))) (apply_batch b V) \<or> outcome = ReconciliationRequired \<and> part s' = part p) p"
    by (rule ledger_commit_rule, rule wp_conseq [OF stage_holds [of cd _ V]])
      (use 1(2) in \<open>simp_all add: ledger_holds_def ledger_part_def\<close>)
  with 1(1) show ?case by (auto simp: SqlitePersistence_def wp_def ledger_holds_def ledger_part_def)
next
  case (2 b p e p' V)
  have "wp (ledger_commit cd b) (\<lambda>_ s'. part s' = part p)
      (\<lambda>outcome s'. True \<or> outcome = ReconciliationRequired \<and> part s' = part p) p"
    by (rule ledger_commit_rule) (simp add: stage_total)
  with 2 show ?case by (auto simp: SqlitePersistence_def wp_def ledger_holds_def ledger_part_def)
next
  case (3 b p p')
  have "wp (ledger_commit cd b) (\<lambda>_ s'. part s' = part p)
      (\<lambda>outcome s'. True \<or> outcome = ReconciliationRequired \<and> part s' = part p) p"
    by (rule ledger_commit_rule) (simp add: stage_total)
  then show ?case by (auto simp: SqlitePersistence_def wp_def)
next
  case (4 now p snap p')
  with ledger_load_rule [of cd now p] decoded_rows [of cd "sq_database p" "snap_tasks snap"] show ?case
    by (simp add: SqlitePersistence_def wp_def ledger_holds_def)
next
  case (5 now p l p' V)
  with ledger_load_rule [of cd now p] show ?case
    by (auto simp: SqlitePersistence_def wp_def ledger_holds_def split: res.splits)
next
  case (6 now p p')
  with ledger_load_rule [of cd now p] show ?case by (auto simp: SqlitePersistence_def wp_def)
qed

text \<open>The epoch of the ledger never goes back and reaches what a completed commit asks for.\<close>

lemma ledger_commit_epoch:
  assumes e: "\<And>n. pb_registration_epoch_high_watermark b = Some n \<Longrightarrow> n \<le> u64_max"
  shows "wp (ledger_commit cd b) (\<lambda>_ s'. ledger_epoch s' = ledger_epoch s)
    (\<lambda>outcome s'. ledger_epoch s \<le> ledger_epoch s'
       \<and> (outcome = Complete \<longrightarrow> (\<forall>n. pb_registration_epoch_high_watermark b = Some n \<longrightarrow> n \<le> ledger_epoch s'))) s"
proof -
  let ?e = "\<lambda>s. meta_epoch (snd (part s))"
  have part: "ledger_epoch s' = ?e s'" for s' by (simp add: ledger_epoch_def ledger_part_def)
  let ?up = "\<lambda>p. meta_epoch (snd p) = (case pb_registration_epoch_high_watermark b of
        None \<Rightarrow> ledger_epoch s | Some n \<Rightarrow> max (ledger_epoch s) n)"
  have "wp (ledger_commit cd b) (\<lambda>_ s'. part s' = part s)
      (\<lambda>outcome s'. ?up (part s') \<or> outcome = ReconciliationRequired \<and> part s' = part s) s"
    by (rule ledger_commit_rule, rule wp_conseq [OF stage_epoch [OF e]])
      (auto simp: ledger_epoch_def ledger_part_def split: option.splits)
  then show ?thesis
    by (rule wp_conseq) (auto simp: part split: option.splits)
qed

interpretation ledger: durable_contract "SqlitePersistence cd" "ledger_holds cd" ledger_epoch for cd
proof (unfold_locales, goal_cases)
  case (1 b p r p')
  with ledger_commit_epoch [of b cd p] show ?case
    by (auto simp: SqlitePersistence_def wp_def split: res.splits)
next
  case (2 b p p' n)
  with ledger_commit_epoch [of b cd p] show ?case by (simp add: SqlitePersistence_def wp_def)
next
  case (3 now p snap p')
  with ledger_load_rule [of cd now p] show ?case by (simp add: SqlitePersistence_def wp_def ledger_epoch_def)
next
  case (4 now p l p')
  with ledger_load_rule [of cd now p] show ?case
    by (auto simp: SqlitePersistence_def wp_def ledger_epoch_def split: res.splits)
qed

end
