(* ===== verification/Ledger_Facts.thy ===== *)
theory Ledger_Facts
  imports Ledger_Correct Broker_Snapshot
begin

text \<open>
  More about \<^verbatim>\<open>herdr-a2a-broker/src/ledger.rs\<close>: rows decode to the tasks they encode, so a load
  returns what was committed; what the ledger accepts the broker accepts; a completed commit keeps the
  capacity and leaves no projection pending.
\<close>

section \<open>Round trips\<close>

lemma decode_encode_state [simp]: "decode_state (encode_state st) = Ok st"
  by (cases st) (simp_all add: decode_state_def)

text \<open>What is relied on of \<^verbatim>\<open>serde_json\<close>: a serialized value parses to itself.\<close>

definition serde_round_trip :: "codec \<Rightarrow> bool" where
  "serde_round_trip cd \<longleftrightarrow>
     (\<forall>p j. cd_payload_json cd p = Some j \<longrightarrow> cd_payload_parse cd j = Some p)
     \<and> (\<forall>r j. cd_reply_json cd r = Some j \<longrightarrow> cd_reply_parse cd j = Some r)
     \<and> (\<forall>t j. cd_task_json cd t = Some j \<longrightarrow> cd_task_parse cd j = Some t)"

text \<open>What the types of a task guarantee: a parsed delivery identifier and a 32-bit counter.\<close>

definition well_typed :: "codec \<Rightarrow> DurableTask \<Rightarrow> bool" where
  "well_typed cd t \<longleftrightarrow> dt_attempt t \<le> u32_max
     \<and> (\<forall>l. dt_lease t = Some l \<longrightarrow> DeliveryId_parse (cd_parse_uuid cd) (dle_delivery_id l) = Ok (dle_delivery_id l))"

lemma canonical_decode_encoded:
  "to_json v = Some j \<Longrightarrow> of_json j = Some v \<Longrightarrow> canonical_decode of_json to_json j label = Ok v"
  by (simp add: canonical_decode_def canonical_json_def or_invalid_def)

lemma validated_for_store:
  assumes "validate_durable_for_store cd t = Ok ()"
  shows "AgentName_parse (dt_sender t) = Ok (dt_sender t)" "AgentName_parse (dt_recipient t) = Ok (dt_recipient t)"
    "0 < dt_state_version t" "\<And>l. dt_lease t = Some l \<Longrightarrow> dle_owner l = dt_recipient t \<and> dle_attempt l = dt_attempt t"
  using assms AgentName_parse_Ok [of "dt_sender t"] AgentName_parse_Ok [of "dt_recipient t"]
  by (auto simp: validate_durable_for_store_def validate_stored_lease_def res_bind_eq_Ok)

lemma decode_encoded_lease:
  assumes "well_typed cd t" "\<And>l. dt_lease t = Some l \<Longrightarrow> dle_owner l = dt_recipient t \<and> dle_attempt l = dt_attempt t"
    and "row_delivery_id row = map_option dle_delivery_id (dt_lease t)"
    "row_lease_expires_unix_ms row = map_option dle_leased_until_unix_ms (dt_lease t)"
  shows "decode_lease cd row (dt_recipient t) (dt_attempt t) = Ok (dt_lease t)"
  using assms by (cases "dt_lease t") (auto simp: decode_lease_def well_typed_def valid_or_def)

lemma decode_encode:
  assumes laws: "serde_round_trip cd" and typed: "well_typed cd t"
    and valid: "validate_durable_for_store cd t = Ok ()" and enc: "encode_durable_task cd t = Ok row"
  shows "decode_durable_task cd row = Ok t"
proof -
  note f = validated_for_store [OF valid]
  obtain j where j: "cd_payload_json cd (dt_payload t) = Some j" "row_request_json row = Some j"
    using enc by (auto simp: encode_durable_task_def canonical_json_def res_bind_eq_Ok)
  have payload: "canonical_decode (cd_payload_parse cd) (cd_payload_json cd) j label = Ok (dt_payload t)" for label
    using laws j(1) by (auto simp: serde_round_trip_def intro!: canonical_decode_encoded)
  have reply: "(case row_reply_json row of None \<Rightarrow> Ok None
      | Some j \<Rightarrow> res_bind (canonical_decode (cd_reply_parse cd) (cd_reply_json cd) j label) (\<lambda>r. Ok (Some r))) = Ok (dt_reply t)" for label
    using laws enc canonical_decode_encoded [of "cd_reply_json cd" _ _ "cd_reply_parse cd" label]
    by (auto simp: encode_durable_task_def serde_round_trip_def canonical_json_def res_bind_eq_Ok split: option.splits)
  have lease: "decode_lease cd row (dt_recipient t) (dt_attempt t) = Ok (dt_lease t)"
    using typed f(4) by (rule decode_encoded_lease) (use enc in \<open>auto simp: encode_durable_task_def res_bind_eq_Ok\<close>)
  have row: "row_legacy_quarantined row = 0" "row_context_id row = Some (dt_context_id t)" "row_sender_agent row = Some (dt_sender t)"
    "row_recipient_agent row = dt_recipient t" "row_state_version row = int (dt_state_version t)" "row_attempt row = int (dt_attempt t)"
    "row_state row = encode_state (dt_state t)" "row_task_id row = dt_task_id t" "row_created_unix_ms row = dt_created_unix_ms t"
    "row_deadline_unix_ms row = dt_delivery_deadline_unix_ms t" "row_acknowledged_unix_ms row = dt_acknowledged_unix_ms t"
    "row_terminal_unix_ms row = dt_terminal_unix_ms t" "row_retain_until_unix_ms row = dt_retention_deadline_unix_ms t"
    using enc by (auto simp: encode_durable_task_def i64_of_u64_def res_bind_eq_Ok split: if_splits)
  have t: "\<lparr>dt_task_id = dt_task_id t, dt_context_id = dt_context_id t, dt_sender = dt_sender t,
           dt_recipient = dt_recipient t, dt_payload = dt_payload t, dt_created_unix_ms = dt_created_unix_ms t,
           dt_delivery_deadline_unix_ms = dt_delivery_deadline_unix_ms t, dt_state_version = dt_state_version t,
           dt_state = dt_state t, dt_lease = dt_lease t, dt_attempt = dt_attempt t,
           dt_acknowledged_unix_ms = dt_acknowledged_unix_ms t, dt_reply = dt_reply t,
           dt_terminal_unix_ms = dt_terminal_unix_ms t,
           dt_retention_deadline_unix_ms = dt_retention_deadline_unix_ms t\<rparr> = t" by simp
  from typed f payload reply lease valid show ?thesis
    by (simp add: decode_durable_task_def row j(2) t Let_def require_def or_invalid_def valid_or_def well_typed_def)
qed

section \<open>What the ledger accepts the broker accepts\<close>

lemma stored_terminal_times_valid: "stored_terminal_times t = terminal_times_valid t"
  by (simp add: stored_terminal_times_def terminal_times_valid_def split: option.splits)

lemma ledger_valid_core:
  assumes "validate_durable_for_store cd t = Ok ()"
  shows "validate_durable_task (cd_json_len cd) t = Ok ()"
proof -
  have cols: "valid_state_columns (dt_state t) t" if "stored_state_columns (dt_state t) t"
    using that by (cases "dt_state t") auto
  show ?thesis
    using assms cols AgentName_parse_Ok [of "dt_sender t"] AgentName_parse_Ok [of "dt_recipient t"]
    by (auto simp: validate_durable_task_Ok durable_ok_def durable_names_ok_def validate_durable_for_store_def
        validate_stored_reply_def validate_stored_lease_def res_bind_eq_Ok stored_terminal_times_valid
        persisted_reply_def LEDGER_DELIVERY_TTL_MS_def DELIVERY_TTL_MS_def LEDGER_DELIVERY_LEASE_MS_def checked_Some
        split: option.splits)
qed

section \<open>A load returns what was committed\<close>

lemma held_valid: "rows_hold cd R V \<Longrightarrow> t \<in> ran V \<Longrightarrow> validate_durable_for_store cd t = Ok ()"
  by (auto simp: rows_hold_def row_holds_def represents_def ran_def split: option.splits)

lemma held_decoded:
  assumes held: "rows_hold cd R V" "serde_round_trip cd" "\<And>t. t \<in> ran V \<Longrightarrow> well_typed cd t" and t: "V k = Some t"
  shows "\<exists>row. R k = Some row \<and> row_legacy_quarantined row = 0 \<and> decode_durable_task cd (keyed k row) = Ok t"
proof -
  have "row_holds cd k (R k) (V k)" using held(1) by (simp add: rows_hold_def)
  moreover have "well_typed cd t" using held(3) t by (auto simp: ran_def)
  ultimately show ?thesis
    using decode_encode [OF held(2)] t by (auto simp: row_holds_def represents_def)
qed

lemma load_determined:
  assumes dec: "collect_res (decode_durable_task cd) (retained_rows d) = Ok ts"
    and held: "rows_hold cd (hm_get (db_delivery_tasks d)) V" "serde_round_trip cd" "\<And>t. t \<in> ran V \<Longrightarrow> well_typed cd t"
  shows "table_of ts = V"
proof
  fix k
  note ts = decoded_rows [OF dec]
  show "table_of ts k = V k"
  proof (cases "V k")
    case (Some t)
    with held_decoded [OF held, of k t] obtain row where row: "hm_get (db_delivery_tasks d) k = Some row"
      "row_legacy_quarantined row = 0" "decode_durable_task cd (keyed k row) = Ok t" by blast
    then have "keyed k row \<in> set (retained_rows d)" by (auto simp: retained_rows_mem keyed_def)
    then obtain i where "i < length (retained_rows d)" "retained_rows d ! i = keyed k row" by (auto simp: in_set_conv_nth)
    then have "i < length ts \<and> ts ! i = t" using dec row(3) by (force simp: collect_res_Ok list_all2_conv_all_nth)
    then have "t \<in> set ts" by (auto simp: in_set_conv_nth)
    moreover have "dt_task_id t = k" using decode_fields(1) [OF row(3)] by (simp add: keyed_def)
    ultimately show ?thesis using Some table_of_mem [OF ts(1)] by simp
  next
    case None
    have "row_holds cd k (hm_get (db_delivery_tasks d) k) (table_of ts k)" "row_holds cd k (hm_get (db_delivery_tasks d) k) (V k)"
      using ts(2) held(1) by (simp_all add: rows_hold_def)
    with None show ?thesis by (cases "table_of ts k") (auto simp: row_holds_def)
  qed
qed

lemma ran_upsert_all: "t \<in> ran (upsert_all ts V) \<Longrightarrow> t \<in> set ts \<or> t \<in> ran V"
proof (induction ts arbitrary: V)
  case (Cons u ts)
  from Cons.IH [OF Cons.prems [unfolded upsert_all_Cons]] show ?case by (auto simp: ran_def split: if_splits)
qed simp

lemma ran_apply_batch: "t \<in> ran (apply_batch b V) \<Longrightarrow> t \<in> set (pb_upsert_tasks b) \<or> t \<in> ran V"
  unfolding apply_batch_def by (drule ran_upsert_all) (auto simp: ran_def restrict_map_def split: if_splits)

lemma commit_then_load:
  assumes held: "ledger_holds cd s V" "serde_round_trip cd" "\<And>t. t \<in> ran V \<Longrightarrow> well_typed cd t"
    and typed: "\<And>t. t \<in> set (pb_upsert_tasks b) \<Longrightarrow> well_typed cd t"
    and commit: "ledger_commit cd b s = (Ok Complete, s1)" and load: "ledger_load cd now s1 = (Ok snap, s2)"
  shows "table_of (snap_tasks snap) = apply_batch b V"
proof (rule load_determined)
  show "collect_res (decode_durable_task cd) (retained_rows (sq_database s1)) = Ok (snap_tasks snap)"
    using ledger_load_rule [of cd now s1] load by (simp add: wp_def)
  show "rows_hold cd (hm_get (db_delivery_tasks (sq_database s1))) (apply_batch b V)"
    using ledger.commit_complete [of cd b s s1 V] commit held(1) by (simp add: SqlitePersistence_def ledger_holds_def)
  show "well_typed cd t" if "t \<in> ran (apply_batch b V)" for t
    using ran_apply_batch [OF that] held(3) typed by auto
qed (rule held(2))

end
