(* ===== verification/Ledger_Commit.thy ===== *)
theory Ledger_Commit
  imports Ledger_Facts
begin

text \<open>
  What a completed \<^verbatim>\<open>commit\<close> of \<^verbatim>\<open>herdr-a2a-broker/src/ledger.rs\<close> leaves beside the rows of its batch: an
  empty outbox, projections that match the rows, at most \<^verbatim>\<open>MAX_RETAINED_TASKS\<close> retained identifiers,
  and versions that have not gone back.
\<close>

section \<open>Pending projections\<close>

lemma rows_by_key_dom: "fst ` set (rows_by_key m) = dom (hm_get m)"
  by (metis rows_by_key_keys set_map set_sort set_remdups dom_map_of_conv_image_fst)

text \<open>What a pending projection that was applied has done: the task's row is current, its entry gone.\<close>

definition projected :: "codec \<Rightarrow> string \<Rightarrow> OutboxRow \<Rightarrow> Database \<Rightarrow> bool" where
  "projected cd k entry d \<longleftrightarrow>
     (\<exists>task columns row. cd_task_parse cd (ob_task_json entry) = Some task \<and> tk_id task = k
        \<and> TaskColumns_from_task cd task = Ok columns \<and> hm_get (db_tasks d) k = Some row
        \<and> projection_current columns (ob_state_version entry) row)"

lemma columns_task_id: "TaskColumns_from_task cd task = Ok columns \<Longrightarrow> tc_task_id columns = tk_id task"
  by (auto simp: TaskColumns_from_task_def res_bind_eq_Ok Let_def)

lemma delete_outbox_get:
  "hm_get (db_projection_outbox d) k = Some entry \<Longrightarrow>
     hm_get (db_projection_outbox (delete_outbox k (ob_state_version entry) d)) = (hm_get (db_projection_outbox d))(k := None)"
  by (simp add: delete_outbox_def)

lemma projection_tables [simp]:
  "db_projection_outbox (upsert_projection c v d) = db_projection_outbox d"
  "db_tasks (delete_outbox k v d) = db_tasks d" "db_m2a (upsert_projection c v d) = db_m2a d"
  "db_m2a (delete_outbox k v d) = db_m2a d"
  "k \<noteq> tc_task_id c \<Longrightarrow> hm_get (db_tasks (upsert_projection c v d)) k = hm_get (db_tasks d) k"
  by (auto simp: upsert_projection_def delete_outbox_def Let_def split: option.splits)

lemma apply_pending_projection_rule:
  assumes "hm_get (db_projection_outbox (sq_database s)) k = Some entry"
  shows "wp (apply_pending_projection cd (k, entry)) (\<lambda>_ _. True)
    (\<lambda>_ s'. hm_get (db_projection_outbox (sq_database s')) = (hm_get (db_projection_outbox (sq_database s)))(k := None)
       \<and> projected cd k entry (sq_database s')
       \<and> (\<forall>k'. k' \<noteq> k \<longrightarrow> hm_get (db_tasks (sq_database s')) k' = hm_get (db_tasks (sq_database s)) k')) s"
proof -
  have reads: "keeps sq_database (validate_outbox_entry cd i v j)" for i v j
    by (intro keeps_intros) simp
  show ?thesis
    using assms unfolding apply_pending_projection_def apply_authorized_projection_def
    by (auto simp: wp_lift_res columns_task_id projected_def delete_outbox_get intro!: keeps_wp [OF reads] split: option.splits)
qed

text \<open>All of them, in the order of their keys.\<close>

lemma projected_frame:
  "projected cd k entry d \<Longrightarrow> hm_get (db_tasks d') k = hm_get (db_tasks d) k \<Longrightarrow> projected cd k entry d'"
  by (simp add: projected_def)

lemma apply_pending_loop:
  assumes "distinct (map fst pending)"
    and "\<And>k entry. (k, entry) \<in> set pending \<Longrightarrow> hm_get (db_projection_outbox (sq_database s)) k = Some entry"
  shows "wp (forM pending (apply_pending_projection cd)) (\<lambda>_ _. True)
    (\<lambda>_ s'. hm_get (db_projection_outbox (sq_database s')) = (hm_get (db_projection_outbox (sq_database s))) |` (- fst ` set pending)
       \<and> (\<forall>(k, entry) \<in> set pending. projected cd k entry (sq_database s'))
       \<and> (\<forall>k. k \<notin> fst ` set pending \<longrightarrow> hm_get (db_tasks (sq_database s')) k = hm_get (db_tasks (sq_database s)) k)) s"
  using assms
proof (induction pending arbitrary: s)
  case Nil
  show ?case by simp
next
  case (Cons p pending)
  obtain k entry where p: "p = (k, entry)" by force
  have k: "hm_get (db_projection_outbox (sq_database s)) k = Some entry" "k \<notin> fst ` set pending"
    using Cons.prems p by auto
  show ?case
    unfolding p forM.simps wp_bindM
  proof (rule wp_conseq [OF apply_pending_projection_rule [OF k(1)]], goal_cases)
    case (1 _ s1)
    note first = this
    have "hm_get (db_projection_outbox (sq_database s1)) k' = Some entry'" if "(k', entry') \<in> set pending" for k' entry'
      using Cons.prems(2) [of k' entry'] that 1 k(2) p by (force simp: image_iff)
    with Cons.IH [of s1] Cons.prems(1) p
    have "wp (forM pending (apply_pending_projection cd)) (\<lambda>_ _. True)
      (\<lambda>_ s'. hm_get (db_projection_outbox (sq_database s')) = (hm_get (db_projection_outbox (sq_database s1))) |` (- fst ` set pending)
       \<and> (\<forall>(k, entry) \<in> set pending. projected cd k entry (sq_database s'))
       \<and> (\<forall>k. k \<notin> fst ` set pending \<longrightarrow> hm_get (db_tasks (sq_database s')) k = hm_get (db_tasks (sq_database s1)) k)) s1"
      by simp
    then show ?case
    proof (rule wp_conseq, goal_cases)
      case (1 _ s2)
      with first k(2) show ?case
        by (auto simp: restrict_map_def fun_eq_iff intro: projected_frame)
    qed simp
  qed simp
qed

lemma apply_pending_rule:
  "wp (apply_pending_projections cd) (\<lambda>_ _. True)
     (\<lambda>n s'. db_projection_outbox (sq_database s') = []
        \<and> (\<forall>k entry. hm_get (db_projection_outbox (sq_database s)) k = Some entry \<longrightarrow> projected cd k entry (sq_database s'))) s"
  unfolding apply_pending_projections_def
proof (rule wp_transaction, simp)
  let ?s = "tick ((tick s)\<lparr>sq_transaction := Some (sq_database s)\<rparr>)"
  let ?pending = "rows_by_key (db_projection_outbox (sq_database s))"
  have loop: "wp (forM ?pending (apply_pending_projection cd)) (\<lambda>_ _. True)
    (\<lambda>_ s'. hm_get (db_projection_outbox (sq_database s')) = (hm_get (db_projection_outbox (sq_database ?s))) |` (- fst ` set ?pending)
       \<and> (\<forall>(k, entry) \<in> set ?pending. projected cd k entry (sq_database s'))
       \<and> (\<forall>k. k \<notin> fst ` set ?pending \<longrightarrow> hm_get (db_tasks (sq_database s')) k = hm_get (db_tasks (sq_database ?s)) k)) ?s"
    by (rule apply_pending_loop) (simp_all add: rows_by_key_distinct rows_by_key_mem)
  have keys: "fst ` set ?pending = dom (hm_get (db_projection_outbox (sq_database s)))"
    by (rule rows_by_key_dom)
  have empty: "m = []" if "hm_get m = V |` (- dom V)" for m :: "(string, OutboxRow) hash_map" and V
  proof -
    have "hm_get m = Map.empty" using that by (auto simp: restrict_map_def fun_eq_iff dom_def)
    then show ?thesis by simp
  qed
  show "wp (bindM (m2a_query (\<lambda>d. rows_by_key (db_projection_outbox d))) (\<lambda>pending.
        bindM (forM pending (apply_pending_projection cd)) (\<lambda>_.
        bindM commit_transaction (\<lambda>_. ret (length pending))))) (\<lambda>_ _. True)
     (\<lambda>n s'. db_projection_outbox (sq_database (drop_transaction s')) = []
        \<and> (\<forall>k entry. hm_get (db_projection_outbox (sq_database s)) k = Some entry \<longrightarrow>
             projected cd k entry (sq_database (drop_transaction s'))))
     ((tick s)\<lparr>sq_transaction := Some (sq_database s)\<rparr>)"
    using loop
    by (auto simp: keys elim!: wp_conseq dest!: empty) (force simp: rows_by_key_mem [symmetric])
qed

text \<open>A completed commit has applied every pending projection, its own included.\<close>

lemma ledger_commit_outbox:
  "wp (ledger_commit cd b) (\<lambda>_ _. True)
     (\<lambda>outcome s'. outcome = Complete \<longrightarrow> db_projection_outbox (sq_database s') = []) s"
proof -
  have tx: "wp (transaction (commit_batch cd b encoded) id) (\<lambda>_ _. True) (\<lambda>_ _. True) s" for encoded
    by (rule wp_conseq [OF transaction_commit [where R = "\<lambda>_. True"]]) (simp_all add: stage_total)
  have pending: "wp (apply_pending_projections cd) (\<lambda>_ _. True) (\<lambda>_ s'. db_projection_outbox (sq_database s') = []) s" for s
    by (rule wp_conseq [OF apply_pending_rule]) simp_all
  show ?thesis
    unfolding ledger_commit_def wp_bindM wp_lift_res map_err_eq_Panic map_err_eq_Ok wp_map_error
    apply (intro conjI allI impI)
    subgoal by (rule collect_res_not_Panic) (simp add: res_bind_eq_Panic)
    subgoal for encoded
      by (rule wp_conseq [OF tx])
        (auto simp: projection_outcome_def intro!: wp_conseq [OF pending])
    subgoal by simp
    done
qed

section \<open>A validated store\<close>

text \<open>A loop of checks that only read: each of them has succeeded on the same database.\<close>

lemma wp_forM_checks:
  assumes "\<And>x s. x \<in> set xs \<Longrightarrow>
      wp (g x) (\<lambda>_ _. True) (\<lambda>_ s'. sq_database s' = sq_database s \<and> C x (sq_database s)) s"
  shows "wp (forM xs g) (\<lambda>_ _. True) (\<lambda>_ s'. sq_database s' = sq_database s \<and> (\<forall>x \<in> set xs. C x (sq_database s))) s"
  using assms
proof (induction xs arbitrary: s)
  case (Cons x xs)
  have "wp (forM xs g) (\<lambda>_ _. True) (\<lambda>_ s''. sq_database s'' = sq_database s \<and> (\<forall>y \<in> set (x # xs). C y (sq_database s))) s'"
    if "sq_database s' = sq_database s \<and> C x (sq_database s)" for s'
    by (rule wp_conseq [OF Cons.IH]) (use Cons.prems that in simp_all)
  then show ?case
    unfolding forM.simps wp_bindM
    by (intro wp_conseq [OF Cons.prems [of x s]]) simp_all
qed simp

text \<open>A row whose projection is the stored one.\<close>

definition projection_matches :: "codec \<Rightarrow> StoredTaskRow \<Rightarrow> Database \<Rightarrow> bool" where
  "projection_matches cd row d \<longleftrightarrow>
     (\<exists>t json projection columns p. decode_durable_task cd row = Ok t \<and> projection_json cd t = Ok json
        \<and> cd_task_parse cd json = Some projection \<and> TaskColumns_from_task cd projection = Ok columns
        \<and> hm_get (db_tasks d) (row_task_id row) = Some p \<and> projection_current columns (int (dt_state_version t)) p)"

lemma validate_retained_row_rule:
  "wp (validate_retained_row cd pending row) (\<lambda>_ _. True)
     (\<lambda>_ s'. sq_database s' = sq_database s \<and> (row_task_id row \<in> set pending \<or> projection_matches cd row (sq_database s))) s"
  unfolding validate_retained_row_def
  by (auto simp: wp_lift_res projection_matches_def i64_of_u64_def split: option.splits if_splits)

lemma validate_store_rule:
  "wp (validate_store cd) (\<lambda>_ _. True)
     (\<lambda>_ s'. sq_database s' = sq_database s \<and> length (db_delivery_tasks (sq_database s)) \<le> MAX_RETAINED_TASKS
        \<and> (\<forall>row \<in> set (retained_rows (sq_database s)).
             hm_get (db_projection_outbox (sq_database s)) (row_task_id row) \<noteq> None \<or> projection_matches cd row (sq_database s))) s"
proof -
  let ?out = "rows_by_key (db_projection_outbox (sq_database s))"
  have reads: "keeps sq_database (forM ?out (\<lambda>(k, entry). validate_outbox_entry cd k (ob_state_version entry) (ob_task_json entry)))"
    by (intro keeps_intros) simp
  have keys: "k \<in> fst ` set ?out \<longleftrightarrow> hm_get (db_projection_outbox (sq_database s)) k \<noteq> None" for k
    by (auto simp: rows_by_key_dom)
  show ?thesis
    unfolding validate_store_def
    by (auto intro!: keeps_wp [OF reads] wp_conseq [OF wp_forM_checks [OF validate_retained_row_rule]])
      (use keys in auto)
qed

text \<open>When nothing is pending, a load vouches for the projection of every task it returns.\<close>

lemma projection_matches_json:
  assumes laws: "serde_round_trip cd" and matches: "projection_matches cd row d" and t: "decode_durable_task cd row = Ok t"
  shows "\<exists>json p. projection_json cd t = Ok json \<and> hm_get (db_tasks d) (dt_task_id t) = Some p
    \<and> pr_task_json p = json \<and> pr_version p = int (dt_state_version t)"
proof -
  obtain json projection columns p where j: "projection_json cd t = Ok json" and p: "cd_task_parse cd json = Some projection"
    "TaskColumns_from_task cd projection = Ok columns" "hm_get (db_tasks d) (row_task_id row) = Some p"
    "projection_current columns (int (dt_state_version t)) p"
    using matches t by (auto simp: projection_matches_def)
  obtain task where "cd_task_json cd task = Some json"
    using j by (auto simp: projection_json_def canonical_json_def res_bind_eq_Ok Let_def)
  moreover from this have "projection = task" using laws p(1) by (simp add: serde_round_trip_def)
  ultimately have "tc_task_json columns = json"
    using p(2) by (auto simp: TaskColumns_from_task_def res_bind_eq_Ok Let_def)
  with j p decode_fields(1) [OF t] show ?thesis by (auto simp: projection_current_def)
qed

lemma load_projections:
  assumes laws: "serde_round_trip cd" and empty: "db_projection_outbox (sq_database s) = []"
    and load: "ledger_load cd now s = (Ok snap, s')" and t: "t \<in> set (snap_tasks snap)"
  shows "\<exists>json p. projection_json cd t = Ok json \<and> hm_get (db_tasks (sq_database s')) (dt_task_id t) = Some p
    \<and> pr_task_json p = json \<and> pr_version p = int (dt_state_version t)"
proof -
  have "wp (ledger_load cd now) (\<lambda>_ _. True)
      (\<lambda>_ s'. \<forall>row \<in> set (retained_rows (sq_database s)). projection_matches cd row (sq_database s)) s"
    unfolding ledger_load_def wp_map_error wp_bindM
    by (rule wp_conseq [OF validate_store_rule])
      (auto simp: wp_lift_res empty collect_res_not_Panic split: option.splits)
  with load have all: "row \<in> set (retained_rows (sq_database s)) \<Longrightarrow> projection_matches cd row (sq_database s)" for row
    by (simp add: wp_def)
  have same: "sq_database s' = sq_database s"
    and dec: "collect_res (decode_durable_task cd) (retained_rows (sq_database s)) = Ok (snap_tasks snap)"
    using ledger_load_rule [of cd now s] load by (simp_all add: wp_def)
  obtain i where "i < length (snap_tasks snap)" "snap_tasks snap ! i = t" using t by (auto simp: in_set_conv_nth)
  then have "retained_rows (sq_database s) ! i \<in> set (retained_rows (sq_database s))"
    "decode_durable_task cd (retained_rows (sq_database s) ! i) = Ok t"
    using dec by (auto simp: collect_res_Ok list_all2_conv_all_nth)
  with projection_matches_json [OF laws all] same show ?thesis by simp
qed

section \<open>Versions\<close>

text \<open>
  A row keeps its place unless it is deleted: its version does not go back, and a row in quarantine
  does not change at all.
\<close>

definition row_advances :: "StoredTaskRow option \<Rightarrow> StoredTaskRow option \<Rightarrow> bool" where
  "row_advances r r' \<longleftrightarrow> (\<forall>old. r = Some old \<longrightarrow>
     (\<exists>new. r' = Some new \<and> row_state_version old \<le> row_state_version new
        \<and> row_legacy_quarantined new = row_legacy_quarantined old \<and> (row_legacy_quarantined old \<noteq> 0 \<longrightarrow> new = old)))"

lemma row_advances_refl [simp]: "row_advances r r"
  by (simp add: row_advances_def)

lemma row_advances_trans: "row_advances r r' \<Longrightarrow> row_advances r' r'' \<Longrightarrow> row_advances r r''"
  unfolding row_advances_def by (metis order_trans)

lemma upsert_row_advances:
  "row_advances (hm_get (db_delivery_tasks d) k) (hm_get (db_delivery_tasks (snd (upsert_row row d))) k)"
  by (auto simp: upsert_row_def row_advances_def split: option.splits)

lemma upsert_tasks_advance:
  "wp (upsert_tasks cd encoded) (\<lambda>_ _. True) (\<lambda>_ s'. \<forall>k. row_advances (hm_get (db_delivery_tasks (sq_database s)) k)
     (hm_get (db_delivery_tasks (sq_database s')) k)) s"
proof (induction encoded arbitrary: s)
  case (Cons e encoded)
  have "wp (upsert_task cd e) (\<lambda>_ _. True) (\<lambda>_ s'. \<forall>k. row_advances (hm_get (db_delivery_tasks (sq_database s)) k)
     (hm_get (db_delivery_tasks (sq_database s')) k)) s"
    unfolding upsert_task_def stored_task_row_def
    by (auto simp: wp_lift_res upsert_row_advances split: prod.splits option.splits)
  then show ?case
    unfolding upsert_tasks.simps wp_bindM
    by (rule wp_conseq) (auto intro!: wp_conseq [OF Cons], blast intro: row_advances_trans)
qed simp

lemma delete_tasks_advance:
  "wp (forM ks delete_task) (\<lambda>_ _. True) (\<lambda>_ s'. \<forall>k. k \<notin> set ks \<longrightarrow> 
     hm_get (db_delivery_tasks (sq_database s')) k = hm_get (db_delivery_tasks (sq_database s)) k) s"
proof (induction ks arbitrary: s)
  case (Cons i ks)
  have "wp (delete_task i) (\<lambda>_ _. True) (\<lambda>_ s'. \<forall>k. k \<noteq> i \<longrightarrow> 
     hm_get (db_delivery_tasks (sq_database s')) k = hm_get (db_delivery_tasks (sq_database s)) k) s"
    by (simp add: delete_task_def wp_lift_res)
  then show ?case
    unfolding forM.simps wp_bindM by (rule wp_conseq) (auto intro!: wp_conseq [OF Cons])
qed simp

lemma stage_advances:
  "wp (stage_batch cd batch encoded) (\<lambda>_ _. True) (\<lambda>_ s'. \<forall>k. k \<notin> set (pb_delete_task_ids batch) \<longrightarrow>
     row_advances (hm_get (db_delivery_tasks (sq_database s)) k) (hm_get (db_delivery_tasks (sq_database s')) k)) s"
proof -
  let ?f = "\<lambda>s. db_delivery_tasks (sq_database s)"
  have reads: "keeps ?f require_schema" "keeps ?f (count_new_ids seen ks n)" for seen ks n
    by (intro keeps_intros; simp)+
  show ?thesis
    unfolding stage_batch_def wp_bindM
  proof (rule keeps_wp [OF reads(1)], rule TrueI, rule keeps_wp [OF commit_epoch_rows], rule TrueI,
      rule wp_conseq [OF delete_tasks_advance], goal_cases)
    case (1 _ s1 _ s2 _ s3)
    have "wp (upsert_tasks cd encoded) (\<lambda>_ _. True) (\<lambda>_ s'. \<forall>k. k \<notin> set (pb_delete_task_ids batch) \<longrightarrow>
       row_advances (hm_get (db_delivery_tasks (sq_database s)) k) (hm_get (db_delivery_tasks (sq_database s')) k)) s4"
      if "?f s4 = ?f s3" for s4
      by (rule wp_conseq [OF upsert_tasks_advance]) (use 1 that in \<open>auto, metis\<close>)
    then show ?case by (auto intro!: keeps_wp [OF reads(2)])
  qed simp
qed

lemma ledger_commit_advances:
  "wp (ledger_commit cd b) (\<lambda>_ s'. db_delivery_tasks (sq_database s') = db_delivery_tasks (sq_database s))
     (\<lambda>_ s'. \<forall>k. k \<notin> set (pb_delete_task_ids b) \<longrightarrow>
        row_advances (hm_get (db_delivery_tasks (sq_database s)) k) (hm_get (db_delivery_tasks (sq_database s')) k)) s"
proof -
  let ?R = "\<lambda>p. \<forall>k. k \<notin> set (pb_delete_task_ids b) \<longrightarrow>
      row_advances (hm_get (db_delivery_tasks (sq_database s)) k) (hm_get (fst p) k)"
  have "wp (ledger_commit cd b) (\<lambda>_ s'. part s' = part s)
      (\<lambda>outcome s'. ?R (part s') \<or> outcome = ReconciliationRequired \<and> part s' = part s) s"
    by (rule ledger_commit_rule, rule wp_conseq [OF stage_advances]) (simp_all add: ledger_part_def)
  then show ?thesis by (rule wp_conseq) (auto simp: ledger_part_def)
qed

section \<open>Capacity\<close>

text \<open>Upserting a row adds at most one retained identifier, and none that was known.\<close>

lemma length_hm_insert_le: "length (hm_insert k v m) \<le> length m + (if hm_get m k = None then 1 else 0)"
  by (induction m) auto

definition owners_only :: "(string, StoredTaskRow) hash_map \<Rightarrow> (string, OwnerRow) hash_map \<Rightarrow> nat" where
  "owners_only tasks owners = length (filter (\<lambda>(k, _). hm_get tasks k = None) owners)"

lemma owners_only_insert:
  "owners_only (hm_insert k row tasks) owners
     + (if hm_get tasks k = None \<and> hm_get owners k \<noteq> None then 1 else 0) \<le> owners_only tasks owners"
proof (induction owners)
  case (Cons x owners)
  then show ?case by (cases x) (auto simp: owners_only_def split: if_splits)
qed (simp add: owners_only_def)

lemma retained_count_insert:
  assumes "db_delivery_tasks d' = hm_insert k row (db_delivery_tasks d)" "db_task_owners d' = db_task_owners d"
  shows "retained_count d' \<le> retained_count d + (if known_id d k then 0 else 1)"
  using length_hm_insert_le [of k row "db_delivery_tasks d"] owners_only_insert [of k row "db_delivery_tasks d" "db_task_owners d"]
  by (auto simp: retained_count_def known_id_def assms owners_only_def split: if_splits)

lemma upsert_row_cases:
  "snd (upsert_row row d) = d \<or>
     (\<exists>row'. snd (upsert_row row d) = d\<lparr>db_delivery_tasks := hm_insert (row_task_id row) row' (db_delivery_tasks d)\<rparr>)"
  by (auto simp: upsert_row_def split: option.splits)

lemma upsert_row_count:
  "retained_count (snd (upsert_row row d)) \<le> retained_count d + (if known_id d (row_task_id row) then 0 else 1)"
  using upsert_row_cases [of row d] by (elim disjE exE) (simp, rule retained_count_insert, simp_all)

lemma upsert_row_known:
  "known_id d k \<or> k = row_task_id row \<Longrightarrow> known_id (snd (upsert_row row d)) k"
  by (auto simp: upsert_row_def known_id_def split: option.splits)

lemma count_outbox [simp]:
  "retained_count (upsert_outbox k v j d) = retained_count d" "known_id (upsert_outbox k v j d) = known_id d"
  by (auto simp: fun_eq_iff upsert_outbox_def retained_count_def known_id_def Let_def split: option.splits)

definition task_counted :: "string \<Rightarrow> Database \<Rightarrow> Database \<Rightarrow> bool" where
  "task_counted k d d' \<longleftrightarrow> retained_count d' \<le> retained_count d + (if known_id d k then 0 else 1)
     \<and> (\<forall>i. known_id d i \<or> i = k \<longrightarrow> known_id d' i)"

lemma upsert_task_count:
  "wp (upsert_task cd (t, j)) (\<lambda>_ _. True) (\<lambda>_ s'. task_counted (dt_task_id t) (sq_database s) (sq_database s')) s"
proof -
  have step: "task_counted (dt_task_id t) d (snd (upsert_row row d))" if "encode_durable_task cd t = Ok row" for row d
    using encode_fields(1) [OF that] upsert_row_count [of row d] upsert_row_known [of d _ row]
    by (simp add: task_counted_def)
  have outbox: "task_counted k d (upsert_outbox i v j' d') = task_counted k d d'" for k d d' i v j'
    by (simp add: task_counted_def)
  show ?thesis
    unfolding upsert_task_def stored_task_row_def prod.case wp_bindM
    by (auto simp: wp_lift_res step outbox split: option.splits)
qed

lemma upsert_tasks_count:
  "wp (upsert_tasks cd encoded) (\<lambda>_ _. True) (\<lambda>_ s'. retained_count (sq_database s') \<le> retained_count (sq_database s)
     + card (set (map (dt_task_id \<circ> fst) encoded) - {k. known_id (sq_database s) k})) s"
proof (induction encoded arbitrary: s)
  case (Cons e encoded)
  obtain t j where e: "e = (t, j)" by force
  let ?ids = "set (map (dt_task_id \<circ> fst) encoded)"
  have fewer: "card (?ids - {i. known_id d' i}) + (if known_id d k then 0 else 1) \<le> card (insert k ?ids - {i. known_id d i})"
    if "\<forall>i. known_id d i \<or> i = k \<longrightarrow> known_id d' i" for d d' k
  proof -
    have "card (?ids - {i. known_id d' i}) \<le> card (insert k ?ids - {i. known_id d i} - {k})"
      by (rule card_mono) (use that in auto)
    also have "\<dots> + (if known_id d k then 0 else 1) \<le> card (insert k ?ids - {i. known_id d i})"
      by (cases "known_id d k") (auto simp: card_Diff_singleton_if card_gt_0_iff Suc_le_eq)
    finally show ?thesis by simp
  qed
  show ?case
    unfolding e upsert_tasks.simps wp_bindM
  proof (rule wp_conseq [OF upsert_task_count], goal_cases)
    case (1 agreed s1)
    with fewer [of "sq_database s" "dt_task_id t" "sq_database s1"] show ?case
      by (auto simp: task_counted_def intro!: wp_conseq [OF Cons])
  qed simp
qed simp

lemma count_new_ids_rule:
  "wp (count_new_ids seen ks n) (\<lambda>_ _. True) (\<lambda>m s'. sq_database s' = sq_database s
     \<and> m = n + card (set ks - set seen - {k. known_id (sq_database s) k})) s"
proof (induction seen ks n arbitrary: s rule: count_new_ids.induct)
  case (2 seen k ks count)
  have "insert k (set ks) - set seen = set ks - set seen" if "k \<in> set seen" using that by auto
  moreover have "card (insert k (set ks) - set seen - {i. known_id d i})
      = (if known_id d k then 0 else 1) + card (set ks - set (k # seen) - {i. known_id d i})" if "k \<notin> set seen" for d
  proof -
    have "insert k (set ks) - set seen - {i. known_id d i}
        = (if known_id d k then {} else {k}) \<union> (set ks - set (k # seen) - {i. known_id d i})" using that by auto
    then show ?thesis by (simp add: card_insert_if)
  qed
  ultimately show ?case
    using 2(1) [of s] 2(2) [of "known_id (sq_database s) k" "tick s"]
    by (cases "k \<in> set seen"; cases "known_id (sq_database s) k") simp_all
qed simp

lemma stage_capacity:
  "wp (stage_batch cd batch encoded) (\<lambda>_ _. True) (\<lambda>_ s'. retained_count (sq_database s') \<le> MAX_RETAINED_TASKS) s"
proof -
  have reads: "keeps sq_database require_schema" by (intro keeps_intros) simp
  have epoch: "keeps (\<lambda>s. ()) (commit_epoch e)" "keeps (\<lambda>s. ()) (forM ks delete_task)" for e ks
    unfolding commit_epoch_def delete_task_def by (intro keeps_intros; simp)+
  show ?thesis
    unfolding stage_batch_def wp_bindM
  proof (rule keeps_wp [OF reads], rule TrueI, rule keeps_wp [OF epoch(1)], rule TrueI, rule keeps_wp [OF epoch(2)],
      rule TrueI, goal_cases)
    case (1 _ s1 _ s2 _ s3)
    show ?case by (auto intro!: wp_conseq [OF count_new_ids_rule] wp_conseq [OF upsert_tasks_count])
  qed
qed

end
