(* ===== verification/Ledger_Startup.thy ===== *)
theory Ledger_Startup
  imports Ledger_Commit
begin

text \<open>
  \<^verbatim>\<open>prepare_startup\<close> of \<^verbatim>\<open>herdr-a2a-broker/src/ledger.rs\<close>: on a ledger of the current schema it may
  quarantine owners without a task and prune what was in quarantine, but it never touches a live row;
  on a legacy store it puts every task in quarantine; and when it succeeds no projection is pending.
\<close>

section \<open>Live rows\<close>

definition live_rows :: "Database \<Rightarrow> string \<rightharpoonup> StoredTaskRow" where
  "live_rows d k =
     (case hm_get (db_delivery_tasks d) k of
        Some row \<Rightarrow> if row_legacy_quarantined row = 0 then Some row else None
      | None \<Rightarrow> None)"

lemma live_rows_part: "ledger_part d' = ledger_part d \<Longrightarrow> live_rows d' = live_rows d"
  by (simp add: fun_eq_iff live_rows_def ledger_part_def)

lemma live_rows_hold:
  assumes "live_rows d' = live_rows d" "rows_hold cd (hm_get (db_delivery_tasks d)) V"
  shows "rows_hold cd (hm_get (db_delivery_tasks d')) V"
proof -
  have "row_holds cd k (hm_get (db_delivery_tasks d) k) v \<longleftrightarrow> row_holds cd k (live_rows d k) v" for d k v
    by (auto simp: row_holds_def live_rows_def split: option.splits)
  with assms show ?thesis by (simp add: rows_hold_def)
qed

lemma live_rows_quarantine:
  "hm_get (db_delivery_tasks d) k = None \<Longrightarrow> row_legacy_quarantined row \<noteq> 0 \<Longrightarrow>
     live_rows (d\<lparr>db_delivery_tasks := hm_insert k row (db_delivery_tasks d)\<rparr>) = live_rows d"
  by (auto simp: fun_eq_iff live_rows_def)

lemma live_rows_other [simp]:
  "live_rows (d\<lparr>db_projection_outbox := o'\<rparr>) = live_rows d" "live_rows (d\<lparr>db_task_owners := ow\<rparr>) = live_rows d"
  "live_rows (d\<lparr>db_tasks := ts\<rparr>) = live_rows d" "live_rows (d\<lparr>db_broker_meta := bm\<rparr>) = live_rows d"
  "live_rows (d\<lparr>db_user_version := v\<rparr>) = live_rows d"
  by (simp_all add: fun_eq_iff live_rows_def)

text \<open>The part of the ledger that the steps of a startup leave alone, once its schema is current.\<close>

definition kept :: "Database \<Rightarrow> (string \<rightharpoonup> StoredTaskRow) \<times> BrokerMeta option \<times> i64 \<times> bool" where
  "kept d = (live_rows d, db_broker_meta d, db_user_version d, db_m2a d)"

abbreviation kept_tx where
  "kept_tx \<equiv> \<lambda>s. (kept (sq_database s), tx s)"

lemma kept_updates [simp]:
  "kept (d\<lparr>db_projection_outbox := o'\<rparr>) = kept d" "kept (d\<lparr>db_task_owners := ow\<rparr>) = kept d"
  "kept (d\<lparr>db_tasks := ts\<rparr>) = kept d" "kept (upsert_projection c v d) = kept d" "kept (delete_outbox k v d) = kept d"
  using live_rows_part [of "upsert_projection c v d" d] live_rows_part [of "delete_outbox k v d" d]
  by (auto simp: kept_def upsert_projection_def delete_outbox_def Let_def split: option.splits)

section \<open>The steps\<close>

lemma insert_quarantined_keeps:
  "row_legacy_quarantined row \<noteq> 0 \<Longrightarrow> keeps kept_tx (insert_task_row row)"
  by (auto simp: keeps_def insert_task_row_def kept_def live_rows_quarantine)

lemma quarantine_owner_keeps: "keeps kept_tx (quarantine_owner u r label owner)"
  unfolding quarantine_owner_def
  by (intro keeps_intros insert_quarantined_keeps) (simp_all add: quarantine_row_def)

lemma quarantine_owners_keep: "keeps (\<lambda>s. (kept (sq_database s), sq_admissions s)) quarantine_owner_only_rows"
proof -
  let ?m = "bindM require_schema (\<lambda>_.
        bindM (m2a_query db_broker_meta) (\<lambda>meta_opt.
        bindM (lift_res (ok_or meta_opt Sqlite)) (\<lambda>meta.
        let first_start = bm_first_m2a_start_unix_ms meta in
        bindM (lift_res (require (\<not> first_start < 0) ''first M2A start timestamp is negative'')) (\<lambda>_.
        bindM (lift_res (or_invalid (checked_add_i64 first_start TERMINAL_RETENTION_MS)
          ''legacy tombstone retention timestamp overflows'')) (\<lambda>retain_until.
        bindM (m2a_query (owners_without (\<lambda>d k. hm_get (db_tasks d) k \<noteq> None \<or> hm_get (db_delivery_tasks d) k \<noteq> None)))
          (\<lambda>owner_only.
        bindM (m2a_query (\<lambda>d. length (db_delivery_tasks d))) (\<lambda>retained.
        bindM (lift_res (require (\<not> retained + length owner_only > MAX_RETAINED_TASKS)
          ''retained task capacity is exhausted by owner quarantine'')) (\<lambda>_.
        bindM (forM owner_only (quarantine_owner first_start retain_until ''owner-only'')) (\<lambda>_.
        ret owner_only)))))))))"
  have "keeps kept_tx ?m"
    by (intro keeps_intros quarantine_owner_keeps) (simp_all add: ok_or_def split: option.splits)
  from transaction_keeps [OF this, of length] show ?thesis
    by (simp add: quarantine_owner_only_rows_def bindM_assoc bindM_ret_left Let_def)
qed

lemma prune_keeps: "keeps (\<lambda>s. (kept (sq_database s), sq_admissions s)) (prune_quarantined now)"
proof -
  have "live_rows (case hm_get (db_delivery_tasks d) k of
         Some row \<Rightarrow> if prunable now row then d\<lparr>db_delivery_tasks := hm_remove k (db_delivery_tasks d)\<rparr> else d
       | None \<Rightarrow> d) = live_rows d" for d k
    by (auto simp: fun_eq_iff live_rows_def prunable_def split: option.splits)
  then have "keeps kept_tx (prune_quarantined_task now k)" for k
    unfolding prune_quarantined_task_def
    by (intro keeps_intros) (auto simp: kept_def split: option.splits)
  then have "keeps kept_tx (bindM (m2a_query (\<lambda>d. map fst (filter (\<lambda>(_, row). prunable now row) (rows_by_key (db_delivery_tasks d)))))
      (\<lambda>task_ids. bindM (forM task_ids (prune_quarantined_task now)) (\<lambda>_. ret task_ids)))"
    by (intro keeps_intros) simp_all
  from transaction_keeps [OF this, of length] show ?thesis
    by (simp add: prune_quarantined_def bindM_assoc bindM_ret_left)
qed

lemma apply_pending_kept: "keeps (\<lambda>s. (kept (sq_database s), sq_admissions s)) (apply_pending_projections cd)"
proof -
  have "keeps kept_tx (apply_pending_projection cd entry)" for entry
    unfolding apply_pending_projection_def apply_authorized_projection_def by (intro keeps_intros) simp_all
  then have "keeps kept_tx (bindM (m2a_query (\<lambda>d. rows_by_key (db_projection_outbox d))) (\<lambda>pending.
      bindM (forM pending (apply_pending_projection cd)) (\<lambda>_. ret pending)))"
    by (intro keeps_intros) simp_all
  from transaction_keeps [OF this, of length] show ?thesis
    by (simp add: apply_pending_projections_def bindM_assoc bindM_ret_left)
qed

lemma migrate_current:
  assumes "db_user_version (sq_database s) = SCHEMA_VERSION"
  shows "wp (migrate_schema cd now) (\<lambda>_ s'. sq_database s' = sq_database s) (\<lambda>n s'. n = 0 \<and> sq_database s' = sq_database s) s"
  unfolding migrate_schema_def by (rule wp_transaction) (use assms in simp_all)

section \<open>Migration of a legacy store\<close>

abbreviation row_present :: "SqliteTaskStore \<Rightarrow> string \<Rightarrow> bool" where
  "row_present s k \<equiv> hm_get (db_delivery_tasks (sq_database s)) k \<noteq> None"

lemma insert_rows_present:
  assumes "\<And>x s. x \<in> set xs \<Longrightarrow> wp (g x) (\<lambda>_ _. True) (\<lambda>_ s'. \<forall>k. row_present s k \<or> k = f x \<longrightarrow> row_present s' k) s"
  shows "wp (forM xs g) (\<lambda>_ _. True) (\<lambda>_ s'. \<forall>k. row_present s k \<or> k \<in> f ` set xs \<longrightarrow> row_present s' k) s"
  using assms
proof (induction xs arbitrary: s)
  case (Cons x xs)
  show ?case
    unfolding forM.simps wp_bindM
    by (rule wp_conseq [OF Cons.prems [of x]], simp, rule wp_conseq [OF Cons.IH]) (use Cons.prems in auto)
qed simp

lemma insert_task_row_present:
  "wp (insert_task_row row) (\<lambda>_ _. True) (\<lambda>_ s'. \<forall>k. row_present s k \<or> k = row_task_id row \<longrightarrow> row_present s' k) s"
  by (auto simp: insert_task_row_def)

lemma migrate_task_present:
  "wp (migrate_legacy_task cd x) (\<lambda>_ _. True) (\<lambda>_ s'. \<forall>k. row_present s k \<or> k = fst x \<longrightarrow> row_present s' k) s"
  "wp (quarantine_owner u r label y) (\<lambda>_ _. True) (\<lambda>_ s'. \<forall>k. row_present s k \<or> k = fst y \<longrightarrow> row_present s' k) s"
  unfolding migrate_legacy_task_def quarantine_owner_def Let_def
  by (auto simp: wp_lift_res quarantine_row_def split: prod.splits option.splits intro!: wp_conseq [OF insert_task_row_present])

lemma migrate_task_keeps:
  "keeps (\<lambda>s. (live_rows (sq_database s), db_broker_meta (sq_database s), db_tasks (sq_database s),
     db_task_owners (sq_database s), tx s)) (migrate_legacy_task cd x)"
  "keeps (\<lambda>s. (live_rows (sq_database s), db_broker_meta (sq_database s), db_tasks (sq_database s),
     db_task_owners (sq_database s), tx s)) (quarantine_owner u r label y)"
proof -
  have "keeps (\<lambda>s. (live_rows (sq_database s), db_broker_meta (sq_database s), db_tasks (sq_database s),
     db_task_owners (sq_database s), tx s)) (insert_task_row row)" if "row_legacy_quarantined row \<noteq> 0" for row
    using that by (auto simp: keeps_def insert_task_row_def live_rows_quarantine)
  note insert = this
  show "keeps (\<lambda>s. (live_rows (sq_database s), db_broker_meta (sq_database s), db_tasks (sq_database s),
     db_task_owners (sq_database s), tx s)) (migrate_legacy_task cd x)"
    unfolding migrate_legacy_task_def by (intro keeps_intros insert) (simp_all add: quarantine_row_def)
  show "keeps (\<lambda>s. (live_rows (sq_database s), db_broker_meta (sq_database s), db_tasks (sq_database s),
     db_task_owners (sq_database s), tx s)) (quarantine_owner u r label y)"
    unfolding quarantine_owner_def by (intro keeps_intros insert) (simp_all add: quarantine_row_def)
qed

definition legacy_view where
  "legacy_view s = (live_rows (sq_database s), db_broker_meta (sq_database s), db_tasks (sq_database s),
     db_task_owners (sq_database s), tx s)"

lemma quarantine_loop:
  assumes "\<And>x. keeps legacy_view (g x)"
    and "\<And>x s. wp (g x) (\<lambda>_ _. True) (\<lambda>_ s'. \<forall>k. row_present s k \<or> k = f x \<longrightarrow> row_present s' k) s"
  shows "wp (forM xs g) (\<lambda>_ s'. legacy_view s' = legacy_view s)
    (\<lambda>_ s'. legacy_view s' = legacy_view s \<and> (\<forall>k. row_present s k \<or> k \<in> f ` set xs \<longrightarrow> row_present s' k)) s"
proof -
  have "keeps legacy_view (forM xs g)" by (intro keeps_forM assms(1))
  then show ?thesis
    using wp_conj [OF _ insert_rows_present [of xs g f, OF assms(2)]] by (auto simp: keeps_def)
qed

lemma migrate_loop:
  "wp (forM (map (\<lambda>(k, row). (k, row, h k)) (rows_by_key m)) (migrate_legacy_task cd)) (\<lambda>_ s'. legacy_view s' = legacy_view s)
    (\<lambda>_ s'. legacy_view s' = legacy_view s \<and> (\<forall>k. row_present s k \<or> hm_get m k \<noteq> None \<longrightarrow> row_present s' k)) s"
proof -
  have "fst ` set (map (\<lambda>(k, row). (k, row, h k)) (rows_by_key m)) = dom (hm_get m)"
    by (force simp: rows_by_key_dom [symmetric])
  then show ?thesis
    by (intro wp_conseq [OF quarantine_loop [OF migrate_task_keeps(1) [folded legacy_view_def] migrate_task_present(1)]]) auto
qed

lemma owners_loop:
  "wp (forM (owners_without present d) (quarantine_owner u r label)) (\<lambda>_ s'. legacy_view s' = legacy_view s)
    (\<lambda>_ s'. legacy_view s' = legacy_view s
       \<and> (\<forall>k. row_present s k \<or> hm_get (db_task_owners d) k \<noteq> None \<and> \<not> present d k \<longrightarrow> row_present s' k)) s"
proof -
  have "k \<in> fst ` set (owners_without present d)" if "hm_get (db_task_owners d) k \<noteq> None" "\<not> present d k" for k
    using that by (force simp: owners_without_def rows_by_key_mem image_iff)
  then show ?thesis
    by (intro wp_conseq [OF quarantine_loop [OF migrate_task_keeps(2) [folded legacy_view_def] migrate_task_present(2)]]) auto
qed

lemma live_rows_empty [simp]: "live_rows (d\<lparr>db_delivery_tasks := []\<rparr>) = Map.empty"
  by (simp add: fun_eq_iff live_rows_def)

lemma legacy_view_eq:
  "legacy_view s' = legacy_view s \<longleftrightarrow> live_rows (sq_database s') = live_rows (sq_database s)
     \<and> db_broker_meta (sq_database s') = db_broker_meta (sq_database s) \<and> db_tasks (sq_database s') = db_tasks (sq_database s)
     \<and> db_task_owners (sq_database s') = db_task_owners (sq_database s) \<and> tx s' = tx s"
  by (simp add: legacy_view_def)

text \<open>
  The migration of a legacy store is all or nothing; when it succeeds no row is live, and every task
  and every owner of the store has a row in quarantine.
\<close>

definition migrated :: "i64 \<Rightarrow> Database \<Rightarrow> Database \<Rightarrow> bool" where
  "migrated now d d' \<longleftrightarrow> db_user_version d' = SCHEMA_VERSION \<and> db_tasks d' = db_tasks d \<and> db_task_owners d' = db_task_owners d
     \<and> db_broker_meta d' = Some \<lparr>bm_last_registration_epoch = ''0'', bm_first_m2a_start_unix_ms = now\<rparr>
     \<and> live_rows d' = Map.empty \<and> length (db_delivery_tasks d') \<le> MAX_RETAINED_TASKS
     \<and> (\<forall>k. hm_get (db_tasks d) k \<noteq> None \<or> hm_get (db_task_owners d) k \<noteq> None \<longrightarrow> hm_get (db_delivery_tasks d') k \<noteq> None)"

lemma migrate_legacy:
  assumes "db_user_version (sq_database s) = 0"
  shows "wp (migrate_schema cd now) (\<lambda>_ s'. sq_database s' = sq_database s)
    (\<lambda>_ s'. migrated now (sq_database s) (sq_database s')) s"
  unfolding migrate_schema_def
proof (rule wp_transaction, simp, goal_cases)
  case 1
  have version: "(0 :: i64) \<noteq> SCHEMA_VERSION" by (simp add: SCHEMA_VERSION_def)
  show ?case
    using assms version
    by (auto simp: create_m2a_schema_def legacy_view_eq usize_from_i64_def wp_lift_res
        simp del: not_None_eq not_Some_eq
        intro!: wp_conseq [OF migrate_loop] wp_conseq [OF owners_loop] split: option.splits)
      (simp add: migrated_def del: not_None_eq not_Some_eq, blast)
qed

section \<open>A startup\<close>

text \<open>The steps after the migration.\<close>

lemma startup_steps:
  "wp (bindM quarantine_owner_only_rows (\<lambda>newly_quarantined.
     bindM (prune_quarantined now) (\<lambda>pruned.
     bindM (validate_store cd) (\<lambda>_.
     bindM (if n > 0 \<or> newly_quarantined > 0
            then m2a_query (\<lambda>d. length (filter (\<lambda>(_, row). row_legacy_quarantined row = 1) (db_delivery_tasks d)))
            else ret 0) (\<lambda>retained_quarantine.
     bindM (lift_res (usize_from_i64 (int retained_quarantine))) (\<lambda>quarantined.
     bindM (apply_pending_projections cd) (\<lambda>repaired.
     ret \<lparr>srr_pruned_quarantined_tasks = pruned, srr_repaired_projections = repaired,
          srr_quarantined_legacy_tasks = quarantined\<rparr>)))))))
   (\<lambda>_ s'. kept (sq_database s') = kept (sq_database s))
   (\<lambda>_ s'. kept (sq_database s') = kept (sq_database s) \<and> db_projection_outbox (sq_database s') = []) s"
proof -
  have pending: "wp (apply_pending_projections cd) (\<lambda>_ s'. kept (sq_database s') = kept (sq_database s))
      (\<lambda>_ s'. kept (sq_database s') = kept (sq_database s) \<and> db_projection_outbox (sq_database s') = []) s1"
    if "kept (sq_database s1) = kept (sq_database s)" for s1
    using wp_conj [OF apply_pending_kept [unfolded keeps_def, rule_format, of cd s1] apply_pending_rule [of cd s1]]
    by (rule wp_conseq) (use that in simp_all)
  have reads: "keeps sq_database (validate_store cd)" by (intro keeps_intros) simp
  show ?thesis
    unfolding wp_bindM
  proof (rule keeps_wp [OF quarantine_owners_keep], simp, rule keeps_wp [OF prune_keeps], simp,
      rule keeps_wp [OF reads], simp, goal_cases)
    case (1 newly s1 pruned s2 _ s3)
    then show ?case by (auto simp: usize_from_i64_def intro!: wp_conseq [OF pending])
  qed
qed

lemma startup_after:
  assumes migrate: "wp (migrate_schema cd now) (\<lambda>_. E) (\<lambda>_ s1. M (kept (sq_database s1))) s"
    and stop: "E s" "\<And>s1. M (kept (sq_database s1)) \<Longrightarrow> E s1"
  shows "wp (prepare_startup cd now) (\<lambda>_. E)
    (\<lambda>_ s'. M (kept (sq_database s')) \<and> db_projection_outbox (sq_database s') = []) s"
proof (cases "now < 0")
  case False
  show ?thesis
    unfolding prepare_startup_def wp_bindM [of "lift_res _"] wp_lift_checks wp_bindM [of "migrate_schema cd now"]
    using False
  proof (simp del: wp_bindM, intro wp_conseq [OF migrate], goal_cases)
    case (1 n s1)
    then show ?case by (intro wp_conseq [OF startup_steps]) (simp_all add: stop(2))
  qed
qed (simp add: prepare_startup_def stop(1))

text \<open>On a ledger of the current schema, and on a legacy store.\<close>

lemma startup_current:
  assumes "db_user_version (sq_database s) = SCHEMA_VERSION"
  shows "wp (prepare_startup cd now) (\<lambda>_ s'. kept (sq_database s') = kept (sq_database s))
    (\<lambda>_ s'. kept (sq_database s') = kept (sq_database s) \<and> db_projection_outbox (sq_database s') = []) s"
  by (rule startup_after [where M = "\<lambda>x. x = kept (sq_database s)"], rule wp_conseq [OF migrate_current [OF assms]]) simp_all

lemma startup_legacy:
  assumes "db_user_version (sq_database s) = 0"
  shows "wp (prepare_startup cd now) (\<lambda>_ _. True)
    (\<lambda>_ s'. live_rows (sq_database s') = Map.empty \<and> db_user_version (sq_database s') = SCHEMA_VERSION
       \<and> ledger_epoch s' = 0 \<and> db_projection_outbox (sq_database s') = []) s"
proof -
  have epoch: "parse_canonical_u64 ''0'' label = Ok 0" for label
    by (simp add: parse_canonical_u64_def parse_u64_def is_ascii_digit_def byte_def or_invalid_def)
  have "wp (prepare_startup cd now) (\<lambda>_ _. True)
    (\<lambda>_ s'. (\<lambda>(live, meta, version, _). live = Map.empty \<and> meta_epoch meta = 0 \<and> version = SCHEMA_VERSION) (kept (sq_database s'))
       \<and> db_projection_outbox (sq_database s') = []) s"
    by (rule startup_after, rule wp_conseq [OF migrate_legacy [OF assms]])
      (auto simp: kept_def migrated_def meta_epoch_def epoch)
  then show ?thesis by (rule wp_conseq) (auto simp: kept_def ledger_epoch_def)
qed

end
