(* ===== verification/Broker_Epochs.thy ===== *)
theory Broker_Epochs
  imports Broker_System
begin

text \<open>
  Registration epochs of \<^verbatim>\<open>herdr-a2a-core/src/broker.rs\<close> across restarts.  \<^verbatim>\<open>register\<close> commits the
  next epoch as a high watermark before it hands it out, and \<^verbatim>\<open>recover\<close> continues from the watermark
  it loads; over a provider that keeps the watermark (\<open>durable_contract\<close>) the epochs handed out over
  any number of crashes and restarts only grow.
\<close>

section \<open>Operations that follow a preorder\<close>

text \<open>Whatever the operation returns, it leaves a state that \<open>R\<close> relates to the one before.\<close>

definition moves :: "('s \<Rightarrow> 's \<Rightarrow> bool) \<Rightarrow> ('s, 'e, 'a) op \<Rightarrow> bool" where
  "moves R m \<longleftrightarrow> (\<forall>s. R s (snd (m s)))"

named_theorems moves_intros

lemma moves_basic [moves_intros]:
  assumes "reflp R"
  shows "moves R (ret a)" "moves R (throw e)" "moves R (lift_res r)" "moves R (gets f)"
  using assms by (auto simp: moves_def reflp_def ret_def throw_def lift_res_def gets_def)

lemma moves_get_state [moves_intros]: "reflp R \<Longrightarrow> moves R (get_state f)"
  by (simp add: get_state_def moves_basic)

lemma moves_bindM [moves_intros]:
  assumes "transp R" "moves R m" "\<And>a. moves R (k a)"
  shows "moves R (bindM m k)"
  using assms by (auto simp: moves_def transp_def bindM_def split: prod.split res.split) (metis snd_conv)+

lemma moves_whenM [moves_intros]: "reflp R \<Longrightarrow> (b \<Longrightarrow> moves R m) \<Longrightarrow> moves R (whenM b m)"
  by (auto simp: whenM_def moves_basic)

lemma moves_if [moves_intros]:
  "(b \<Longrightarrow> moves R m) \<Longrightarrow> (\<not> b \<Longrightarrow> moves R n) \<Longrightarrow> moves R (if b then m else n)"
  by simp

lemma moves_case [moves_intros]:
  "(x = None \<Longrightarrow> moves R m) \<Longrightarrow> (\<And>a. x = Some a \<Longrightarrow> moves R (f a)) \<Longrightarrow>
     moves R (case x of None \<Rightarrow> m | Some a \<Rightarrow> f a)"
  "(\<And>b. y = Inl b \<Longrightarrow> moves R (g b)) \<Longrightarrow> (\<And>c. y = Inr c \<Longrightarrow> moves R (h c)) \<Longrightarrow>
     moves R (case y of Inl b \<Rightarrow> g b | Inr c \<Rightarrow> h c)"
  "(\<And>d e. z = (d, e) \<Longrightarrow> moves R (k d e)) \<Longrightarrow> moves R (case z of (d, e) \<Rightarrow> k d e)"
  "moves R m \<Longrightarrow> moves R n \<Longrightarrow> moves R (case out of Complete \<Rightarrow> m | ReconciliationRequired \<Rightarrow> n)"
  "moves R m \<Longrightarrow> moves R n \<Longrightarrow> moves R (case rt of RecipientFailed \<Rightarrow> m | RecipientRejected \<Rightarrow> n)"
  by (auto split: option.split sum.split prod.split PersistenceCommitOutcome.split RecipientTerminalState.split)

lemma moves_let [moves_intros]: "(\<And>x. x = e \<Longrightarrow> moves R (g x)) \<Longrightarrow> moves R (let x = e in g x)"
  by simp

lemma moves_forM [moves_intros]:
  assumes "reflp R" "transp R" "\<And>x. moves R (f x)"
  shows "moves R (forM xs f)"
  using assms by (induction xs) (auto intro!: moves_intros)

text \<open>Binds that remember where their value comes from; they take precedence over \<open>moves_bindM\<close>.\<close>

lemma moves_bind_pure:
  assumes "reflp R"
  shows "(\<And>a. r = Ok a \<Longrightarrow> moves R (k a)) \<Longrightarrow> moves R (bindM (lift_res r) k)"
  using assms by (auto simp: moves_def reflp_def bindM_def lift_res_def split: res.split)

lemma moves_bind_get:
  assumes "reflp R"
  shows "(\<And>s. moves R (k (f s))) \<Longrightarrow> moves R (bindM (get_state f) k)"
  using assms by (auto simp: moves_def reflp_def bindM_def get_state_def gets_def)

text \<open>A postcondition for every outcome, a panic included.\<close>

definition leads :: "('s, 'e, 'a) op \<Rightarrow> (('e, 'a) res \<Rightarrow> 's \<Rightarrow> bool) \<Rightarrow> 's \<Rightarrow> bool" where
  "leads m Q s \<longleftrightarrow> Q (fst (m s)) (snd (m s))"

definition after :: "('a \<Rightarrow> ('s, 'e, 'b) op) \<Rightarrow> (('e, 'b) res \<Rightarrow> 's \<Rightarrow> bool) \<Rightarrow> ('e, 'a) res \<Rightarrow> 's \<Rightarrow> bool" where
  "after k Q r s \<longleftrightarrow> (case r of Ok a \<Rightarrow> leads (k a) Q s | Err e \<Rightarrow> Q (Err e) s | Panic \<Rightarrow> Q Panic s)"

lemma after_simps [simp]:
  "after k Q (Ok a) s = leads (k a) Q s" "after k Q (Err e) s = Q (Err e) s" "after k Q Panic s = Q Panic s"
  by (simp_all add: after_def)

lemma leads_bindM [simp]: "leads (bindM m k) Q s = leads m (after k Q) s"
  by (auto simp: leads_def after_def bindM_def split: prod.split res.split)

lemma leads_pure [simp]:
  "leads (ret a) Q s = Q (Ok a) s" "leads (throw e) Q s = Q (Err e) s" "leads (lift_res r) Q s = Q r s"
  "leads (gets g) Q s = Q (Ok (g s)) s" "leads (modify f) Q' s = Q' (Ok ()) (f s)"
  by (simp_all add: leads_def ret_def throw_def lift_res_def modify_def gets_def)

lemma leads_state [simp]:
  "leads (get_state f) Q w = Q (Ok (f (b_state w))) w"
  "leads (modify_state h) Q' w = Q' (Ok ()) (w\<lparr>b_state := h (b_state w)\<rparr>)"
  by (simp_all add: get_state_def modify_state_def)

lemma leads_moves: "moves R m \<Longrightarrow> (\<And>r s'. R s s' \<Longrightarrow> Q r s') \<Longrightarrow> leads m Q s"
  by (simp add: moves_def leads_def)

lemma leads_conseq: "leads m Q s \<Longrightarrow> (\<And>r s'. Q r s' \<Longrightarrow> Q' r s') \<Longrightarrow> leads m Q' s"
  by (simp add: leads_def)

lemma leads_run: "leads m Q s \<Longrightarrow> m s = (r, s') \<Longrightarrow> Q r s'"
  by (simp add: leads_def)

section \<open>What leaves the epoch counter alone\<close>

definition same_epoch :: "State \<Rightarrow> State \<Rightarrow> bool" where
  "same_epoch s s' \<longleftrightarrow> s_next_registration_epoch s' = s_next_registration_epoch s"

lemma same_epoch_order [simp]: "reflp same_epoch" "transp same_epoch"
  by (auto simp: same_epoch_def reflp_def transp_def)

lemma same_epoch_updates [simp]:
  "s_next_registration_epoch (release_delivery k d s) = s_next_registration_epoch s"
  "s_next_registration_epoch (take_lease k s) = s_next_registration_epoch s"
  "s_next_registration_epoch (remove_from_inbox a k s) = s_next_registration_epoch s"
  "s_next_registration_epoch (unindex_task a b k s) = s_next_registration_epoch s"
  "s_next_registration_epoch (index_task a b k s) = s_next_registration_epoch s"
  "s_next_registration_epoch (record_status_event kind a now s) = s_next_registration_epoch s"
  "s_next_registration_epoch (retire_registration_id i s) = s_next_registration_epoch s"
  "s_next_registration_epoch (insert_enqueued n dl a q now s) = s_next_registration_epoch s"
  "s_next_registration_epoch (prune_terminal_tasks now s) = s_next_registration_epoch s"
  "s_next_registration_epoch (prune_delivery_deadlines now s) = s_next_registration_epoch s"
  "s_next_registration_epoch (rebind_leases now s) = s_next_registration_epoch s"
  by (auto simp: release_delivery_def take_lease_def remove_from_inbox_def unindex_task_def index_task_def
      record_status_event_def retire_registration_id_def insert_enqueued_def prune_terminal_tasks_def
      prune_delivery_deadlines_def rebind_leases_def Let_def split: option.split prod.split)

lemma same_epoch_fold [simp]: "s_next_registration_epoch (fold take_lease ks s) = s_next_registration_epoch s"
  by (induction ks arbitrary: s) simp_all

lemma same_epoch_detach [simp]: "s_next_registration_epoch (snd (detach_registration i b s)) = s_next_registration_epoch s"
  by (simp add: detach_registration_def Let_def split: option.split)

lemma same_epoch_lists [simp]:
  "s_next_registration_epoch (snd (detach_expired is s)) = s_next_registration_epoch s"
  "s_next_registration_epoch (snd (reattach_waiters ws s)) = s_next_registration_epoch s"
  "s_next_registration_epoch (snd (push_inbox_entries es s)) = s_next_registration_epoch s"
proof -
  show "s_next_registration_epoch (snd (detach_expired is s)) = s_next_registration_epoch s"
    by (induction "is" arbitrary: s) (auto split: prod.split, metis same_epoch_detach snd_conv)
  show "s_next_registration_epoch (snd (reattach_waiters ws s)) = s_next_registration_epoch s"
    by (induction ws s rule: reattach_waiters.induct) (auto split: option.split prod.split)
  show "s_next_registration_epoch (snd (push_inbox_entries es s)) = s_next_registration_epoch s"
    by (induction es s rule: push_inbox_entries.induct) (auto split: option.split prod.split)
qed

lemma same_epoch_ops [moves_intros]:
  "moves same_epoch (terminalize_task k now ts)"
  "moves same_epoch (bump_requeued_versions_for_credentials c)"
  "moves same_epoch (restore_next d)"
  "moves same_epoch (apply_lease k l old)"
  "moves same_epoch (apply_ack k now i)"
  by (auto simp: moves_def same_epoch_def terminalize_task_def bump_requeued_versions_for_credentials_def
      restore_next_def restore_task_def apply_lease_def apply_ack_def Let_def split: option.split res.split)

lemma same_epoch_pairs [moves_intros]:
  "moves same_epoch (\<lambda>s. case detach_registration i b s of (r, s') \<Rightarrow> (Ok r, s'))"
  "moves same_epoch (\<lambda>s. case detach_expired is s of (ns, s') \<Rightarrow> (Ok ns, s'))"
  "moves same_epoch (\<lambda>s. case reattach_waiters ws s of (rs, s') \<Rightarrow> (Ok rs, s'))"
  "moves same_epoch (\<lambda>s. case push_inbox_entries (f s) s of (ns, s') \<Rightarrow> (Ok ns, s'))"
  by (auto simp: moves_def same_epoch_def case_prod_beta)

lemma same_epoch_expire [moves_intros]: "moves same_epoch (expire_tasks now ks)"
  by (induction ks) (auto intro!: moves_intros)

lemma same_epoch_replace [moves_intros]: "moves same_epoch (replace_registration old)"
  unfolding replace_registration_def by (intro moves_intros) simp_all

section \<open>The counter and the watermark\<close>

context durable_contract
begin

text \<open>
  Neither the broker's counter nor the provider's watermark goes back, and the counter stays at or
  below the watermark.
\<close>

definition advances :: "'p Broker \<Rightarrow> 'p Broker \<Rightarrow> bool" where
  "advances w w' \<longleftrightarrow>
     s_next_registration_epoch (b_state w) \<le> s_next_registration_epoch (b_state w')
     \<and> epoch (b_persistence w) \<le> epoch (b_persistence w')
     \<and> (s_next_registration_epoch (b_state w) \<le> epoch (b_persistence w) \<longrightarrow>
        s_next_registration_epoch (b_state w') \<le> epoch (b_persistence w'))"

lemma advances_order [simp]: "reflp advances" "transp advances"
  by (auto simp: advances_def reflp_def transp_def)

lemma advances_in_state [moves_intros]: "moves same_epoch f \<Longrightarrow> moves advances (in_state f)"
  unfolding moves_def same_epoch_def advances_def in_state_def by (auto split: prod.split) (metis order_refl snd_conv)+

lemma advances_modify_state [moves_intros]:
  "(\<And>s. s_next_registration_epoch (f s) = s_next_registration_epoch s) \<Longrightarrow> moves advances (modify_state f)"
  by (auto simp: moves_def advances_def modify_state_def modify_def)

lemma advances_emit [moves_intros]:
  "moves advances (emit fx)" "moves advances DirectoryChanges_record" "moves advances (resolve_reply_waiters rs)"
  by (auto simp: moves_def advances_def emit_def DirectoryChanges_record_def resolve_reply_waiters_def modify_def)

lemma advances_commit [moves_intros]:
  assumes "\<And>n. pb_registration_epoch_high_watermark b = Some n \<Longrightarrow> n \<le> u64_max"
  shows "moves advances (persistence_commit P b)"
proof -
  have "epoch p \<le> epoch (snd (bp_commit P b p))" for p
    using commit_epoch_mono [of b p "fst (bp_commit P b p)" "snd (bp_commit P b p)"] assms by simp
  then show ?thesis
    unfolding moves_def advances_def persistence_commit_def by (auto split: prod.split) (metis snd_conv order_trans)+
qed

lemma advances_load [moves_intros]: "moves advances (persistence_load P now)"
proof -
  have "epoch (snd (bp_load P now p)) = epoch p" for p
    using load_epoch_frame [of now p "fst (bp_load P now p)" "snd (bp_load P now p)"] by simp
  then show ?thesis
    unfolding moves_def advances_def persistence_load_def by (auto split: prod.split) (metis snd_conv order_refl)+
qed

lemma advances_transition [moves_intros]:
  assumes "\<And>n. pb_registration_epoch_high_watermark b = Some n \<Longrightarrow> n \<le> u64_max"
  shows "moves advances (commit_transition P b)"
  unfolding commit_transition_def by (intro moves_intros) (simp_all add: assms)

lemma advances_watermark [moves_intros]:
  "pb_registration_epoch_high_watermark b = None \<Longrightarrow> moves advances (commit_transition P b)"
  by (rule advances_transition) simp

text \<open>The continuation of a load or of a registration's commit may rely on the watermark.\<close>

definition advances_above :: "RegistrationEpoch \<Rightarrow> 'p Broker \<Rightarrow> 'p Broker \<Rightarrow> bool" where
  "advances_above n w w' \<longleftrightarrow> (n \<le> epoch (b_persistence w) \<longrightarrow> advances w w')"

lemma advances_above_order [simp]: "reflp (advances_above n)" "transp (advances_above n)"
  by (auto simp: advances_above_def advances_def reflp_def transp_def)

lemma advances_above_moves: "moves advances m \<Longrightarrow> moves (advances_above n) m"
  by (simp add: moves_def advances_above_def)

lemma advances_after_load:
  assumes "\<And>snap. moves (advances_above (snap_last_registration_epoch snap)) (k snap)"
  shows "moves advances (bindM (persistence_load P now) k)"
  unfolding moves_def
proof
  fix w :: "'p Broker"
  obtain r p where load: "bp_load P now (b_persistence w) = (r, p)" by (cases "bp_load P now (b_persistence w)")
  have p: "epoch p = epoch (b_persistence w)" by (rule load_epoch_frame [OF load])
  show "advances w (snd (bindM (persistence_load P now) k w))"
  proof (cases r)
    case (Ok snap)
    have "advances (w\<lparr>b_persistence := p\<rparr>) (snd (k snap (w\<lparr>b_persistence := p\<rparr>)))"
      using assms [of snap] load_epoch [OF load [unfolded Ok]] by (simp add: moves_def advances_above_def)
    with load Ok p show ?thesis by (simp add: bindM_def persistence_load_def advances_def)
  qed (use load p in \<open>simp_all add: bindM_def persistence_load_def advances_def\<close>)
qed

lemma advances_rebuild: "moves (advances_above n) (rebuild_state now n ds)"
proof -
  have "moves (advances_above n) (modify_state (clear_for_reconciliation n))"
    by (auto simp: moves_def advances_above_def advances_def modify_state_def modify_def clear_for_reconciliation_def)
  moreover have "moves advances (modify_state (rebind_leases now))"
    "moves advances (modify_state (\<lambda>s. s\<lparr>s_reconciliation_required := False\<rparr>))"
    by (intro moves_intros; simp)+
  ultimately show ?thesis
    unfolding rebuild_state_def
    by (intro moves_bindM advances_above_moves [OF moves_get_state] advances_above_moves [OF advances_in_state]
        advances_above_moves [OF advances_emit(1)] advances_above_moves [OF advances_emit(3)])
      (auto intro!: moves_intros advances_above_moves)
qed

lemma advances_recovery [moves_intros]: 
  "pb_registration_epoch_high_watermark b = None \<Longrightarrow> moves advances (commit_recovery P b)"
  unfolding commit_recovery_def by (intro moves_intros) simp_all

lemma reconcile_watermark:
  "validate_and_reconcile_snapshot json_len ds now rep = Ok (ts, b, rep') \<Longrightarrow> pb_registration_epoch_high_watermark b = None"
  by (auto simp: validate_and_reconcile_snapshot_def res_bind_eq_Ok split: if_splits)

lemma maintenance_watermark:
  "maintenance_batch now due cs s = Ok b \<Longrightarrow> pb_registration_epoch_high_watermark b = None"
  by (auto simp: maintenance_batch_def res_bind_eq_Ok)

lemma advances_reconcile [moves_intros]: "moves advances (reconcile_state_if_required P json_len now)"
  unfolding reconcile_state_if_required_def
  by (intro moves_bindM moves_if moves_get_state moves_basic advances_commit advances_after_load moves_bind_pure
      moves_case advances_rebuild advances_above_moves [OF advances_recovery])
    (auto simp: empty_batch_def dest: reconcile_watermark)

lemma advances_apply_maintenance [moves_intros]: "moves advances (apply_maintenance now due expired cs)"
  unfolding apply_maintenance_def by (intro moves_intros) simp_all

lemma advances_maintain [moves_intros]: "moves advances (maintain_state P json_len now)"
  unfolding maintain_state_def
  by (intro moves_bind_get moves_bind_pure moves_bindM moves_whenM advances_reconcile advances_watermark
      advances_apply_maintenance)
    (auto dest: maintenance_watermark)

lemma advances_validated [moves_intros]: "moves advances (validate_registration_and_maintain P json_len c now)"
  unfolding validate_registration_and_maintain_def by (intro moves_intros) simp_all

lemma advances_own [moves_intros]: "moves advances (own_registration c)"
  unfolding own_registration_def by (intro moves_intros) simp_all

lemma single_watermark [simp]: "pb_registration_epoch_high_watermark (single_task_batch d) = None"
  by (simp add: single_task_batch_def)

lemma advances_list_agents [moves_intros]: "moves advances (list_agents P json_len now)"
  using advances_maintain [of json_len now] unfolding moves_def list_agents_def
  by (auto split: prod.split res.split) (metis snd_conv)+

lemma advances_settle [moves_intros]: "moves advances (commit_terminal P now k t st rep ts result)"
  unfolding commit_terminal_def by (intro moves_intros) simp_all

lemma advances_apply [moves_intros]:
  "moves advances (apply_removal c)" "moves advances (apply_enqueue now n dl a i q)"
  unfolding apply_removal_def apply_enqueue_def by (intro moves_intros; simp)+

lemma advances_modify [moves_intros]:
  "(\<And>w. s_next_registration_epoch (b_state (f w)) = s_next_registration_epoch (b_state w) \<and> b_persistence (f w) = b_persistence w) \<Longrightarrow>
     moves advances (modify f)"
  by (simp add: moves_def advances_def modify_def)

lemma advances_reading:
  "moves advances (authenticate P json_len now c)" "moves advances (operations_snapshot P json_len now)"
  "moves advances (directory_snapshot P json_len now panes)" "moves advances (task_snapshot P json_len now c k)"
  "moves advances (task_snapshot_for_sender P json_len now a k)" "moves advances (resume_section P json_len now c q)"
  "moves advances (reply_wait_section k)"
  unfolding authenticate_def operations_snapshot_def directory_snapshot_def task_snapshot_def
    task_snapshot_for_sender_def resume_section_def reply_wait_section_def
  by (intro moves_intros; simp)+

lemma advances_changing:
  "moves advances (renew P json_len now c)" "moves advances (remove_registration P json_len now c)"
  "moves advances (begin_wait P json_len now c)" "moves advances (enqueue P json_len now c q)"
  "moves advances (poll_delivery P json_len now d c)" "moves advances (ack_delivery P json_len now c d)"
  "moves advances (open_reply_wait P json_len now a k)" "moves advances (reply P json_len now c k payload)"
  "moves advances (fail_task P json_len now c k payload)" "moves advances (reject_task P json_len now c k payload)"
  "moves advances (cancel_task P json_len now c k)"
  unfolding renew_def remove_registration_def begin_wait_def enqueue_def poll_delivery_def ack_delivery_def
    open_reply_wait_def reply_def fail_task_def reject_task_def recipient_terminal_def cancel_task_def
  by (intro moves_intros; simp)+

text \<open>A registration: its epoch is above every earlier one and is committed before it is handed out.\<close>

lemma commit_transition_epoch:
  assumes "pb_registration_epoch_high_watermark b = Some n" "n \<le> u64_max"
  shows "leads (commit_transition P b) (\<lambda>r w'. advances w w'
    \<and> (r = Ok () \<longrightarrow> b_state w' = b_state w \<and> n \<le> epoch (b_persistence w'))) w"
proof -
  obtain r p where c: "bp_commit P b (b_persistence w) = (r, p)" by (cases "bp_commit P b (b_persistence w)")
  have "epoch (b_persistence w) \<le> epoch p" by (rule commit_epoch_mono [OF c]) (use assms in simp)
  moreover have "r = Ok Complete \<Longrightarrow> n \<le> epoch p" using commit_epoch_reached c assms by blast
  ultimately show ?thesis
    unfolding commit_transition_def
    by (auto simp: leads_def persistence_commit_def bindM_def c advances_def ret_def throw_def modify_state_def modify_def
        split: res.splits PersistenceCommitOutcome.splits)
qed

lemma apply_registration_epoch:
  assumes "s_next_registration_epoch (b_state w) \<le> rg_epoch g" "rg_epoch g \<le> epoch (b_persistence w)"
  shows "leads (apply_registration now g old) (\<lambda>r w'. advances w w' \<and> rg_epoch g \<le> s_next_registration_epoch (b_state w')
    \<and> (\<forall>g'. r = Ok g' \<longrightarrow> g' = g)) w"
proof -
  let ?w = "w\<lparr>b_state := (b_state w)\<lparr>s_next_registration_epoch := rg_epoch g\<rparr>\<rparr>"
  have w: "advances w ?w" using assms by (simp add: advances_def)
  have step: "advances w w' \<and> rg_epoch g \<le> s_next_registration_epoch (b_state w')" if "advances ?w w'" for w'
    using w that by (auto simp: advances_def)
  show ?thesis
    unfolding apply_registration_def Let_def leads_bindM leads_state after_simps
  proof (rule leads_moves [of advances], goal_cases)
    case 1
    show ?case by (intro moves_intros)
  next
    case (2 r w1)
    with step [of w1] show ?case
      by (cases r; cases "queued_for_agent (va_name (rg_agent g)) (b_state w1)")
        (simp_all add: DirectoryChanges_record_def emit_def advances_def)
  qed
qed

lemma register_epoch:
  "leads (register P json_len now i agent session) (\<lambda>r w'. advances w w' \<and> (\<forall>g. r = Ok g \<longrightarrow>
     s_next_registration_epoch (b_state w) < rg_epoch g \<and> rg_epoch g \<le> s_next_registration_epoch (b_state w'))) w"
  unfolding register_def leads_bindM
proof (rule leads_moves [OF advances_maintain], goal_cases)
  case (1 r w1)
  then have w1: "advances w w1" .
  show ?case
  proof (cases "r = Ok () \<and> checked_add_i64 now REGISTRATION_TTL_MS \<noteq> None
      \<and> s_next_registration_epoch (b_state w1) + 1 \<le> u64_max")
    case True
    let ?old = "hm_get (s_registrations_by_agent (b_state w1)) (va_name agent)"
    let ?res = "case registered_credentials ?old (b_state w1) of None \<Rightarrow> Ok [] | Some c \<Rightarrow> requeued_tasks c (b_state w1)"
    have "leads (bindM (commit_transition P \<lparr>pb_registration_epoch_high_watermark = Some (s_next_registration_epoch (b_state w1) + 1),
          pb_upsert_tasks = ts, pb_delete_task_ids = []\<rparr>) (\<lambda>_. apply_registration now g ?old))
        (\<lambda>r w'. advances w w' \<and> (\<forall>g. r = Ok g \<longrightarrow>
           s_next_registration_epoch (b_state w) < rg_epoch g \<and> rg_epoch g \<le> s_next_registration_epoch (b_state w'))) w1"
      if "rg_epoch g = s_next_registration_epoch (b_state w1) + 1" for ts g
      unfolding leads_bindM
    proof (rule leads_conseq [OF commit_transition_epoch [where n = "s_next_registration_epoch (b_state w1) + 1"]], goal_cases)
      case (3 c w2)
      show ?case
      proof (cases c)
        case (Ok u)
        from 3 Ok that have g: "leads (apply_registration now g ?old) (\<lambda>r w'. advances w2 w' \<and> rg_epoch g \<le> s_next_registration_epoch (b_state w')
            \<and> (\<forall>g'. r = Ok g' \<longrightarrow> g' = g)) w2"
          by (intro apply_registration_epoch) simp_all
        show ?thesis unfolding Ok after_simps
        proof (rule leads_conseq [OF g], intro conjI allI impI, goal_cases)
          case (1 r w3)
          then show ?case using transpD [OF advances_order(2) transpD [OF advances_order(2) w1]] 3 by blast
        next
          case (2 r w3 g')
          then show ?case using w1 that by (simp add: advances_def)
        qed simp
      qed (use transpD [OF advances_order(2) w1] 3 in simp_all)
    qed (use True in simp_all)
    with True w1 show ?thesis
      by (cases ?res) (auto simp: Let_def checked_add_u64_def ok_or_def)
  next
    case False
    with w1 show ?thesis by (cases r) (auto simp: ok_or_def checked_add_u64_def split: option.splits)
  qed
qed

text \<open>A recovery continues from the watermark.\<close>

lemma recover_epoch:
  "leads (recover P json_len now) (\<lambda>r w'. epoch (b_persistence w) \<le> epoch (b_persistence w')
     \<and> (\<forall>report. r = Ok report \<longrightarrow> s_next_registration_epoch (b_state w') = epoch (b_persistence w))) w"
proof -
  obtain l p where load: "bp_load P now (b_persistence w) = (l, p)" by (cases "bp_load P now (b_persistence w)")
  note p = load_epoch_frame [OF load]
  have restore: "leads (in_state (forM ds restore_next)) (\<lambda>_ w'. b_persistence w' = b_persistence w1
      \<and> s_next_registration_epoch (b_state w') = s_next_registration_epoch (b_state w1)) w1" for ds and w1 :: "'p Broker"
  proof -
    have "moves same_epoch (forM ds restore_next)" by (intro moves_intros) simp_all
    then show ?thesis
      by (simp add: moves_def same_epoch_def leads_def in_state_def split: prod.split) (metis snd_conv)
  qed
  have rest: "leads (bindM (commit_recovery P b) (\<lambda>_.
       bindM (modify_state (\<lambda>_. State_default\<lparr>s_next_registration_epoch := n\<rparr>)) (\<lambda>_.
       bindM (in_state (forM ds restore_next)) (\<lambda>_. ret report))))
      (\<lambda>r w'. epoch p \<le> epoch (b_persistence w') \<and> (\<forall>report. r = Ok report \<longrightarrow> s_next_registration_epoch (b_state w') = n))
      (w\<lparr>b_persistence := p\<rparr>)" if "pb_registration_epoch_high_watermark b = None" for b n ds report
    unfolding leads_bindM
  proof (rule leads_moves [OF advances_recovery [OF that]], goal_cases)
    case (1 r w2)
    then show ?case
      by (cases r) (auto simp: advances_def after_def intro!: leads_conseq [OF restore] split: res.splits)
  qed
  show ?thesis
  proof (cases l)
    case (Ok snap)
    have "snap_last_registration_epoch snap = epoch (b_persistence w)" using load_epoch [OF load [unfolded Ok]] p by simp
    moreover have "leads (persistence_load P now) Q w = Q (Ok snap) (w\<lparr>b_persistence := p\<rparr>)" for Q
      using load Ok by (simp add: leads_def persistence_load_def)
    ultimately show ?thesis
      using rest p unfolding recover_def Let_def
      by (cases "validate_and_reconcile_snapshot json_len (snap_tasks snap) now BrokerRecoveryReport_default")
        (auto dest!: reconcile_watermark simp del: leads_bindM simp: leads_bindM [of "persistence_load P now"] leads_bindM [of "lift_res _"])
  qed (use load p in \<open>auto simp: recover_def leads_def persistence_load_def\<close>)
qed

lemma advances_ignore: "moves advances m \<Longrightarrow> moves advances (ignore m)"
  unfolding ignore_def by (intro moves_intros) simp_all

text \<open>Any request moves the counter and the watermark forward.\<close>

lemma advances_serve: "moves advances (serve P json_len now req)"
proof -
  have reg: "moves advances (register P json_len now i agent session)" for i agent session
    using register_epoch unfolding moves_def leads_def by blast
  show ?thesis
    by (cases req) (auto simp: WaitGuard_drop_def reg advances_list_agents advances_maintain
        intro: advances_ignore advances_reading advances_changing advances_modify)
qed

end

section \<open>Histories with restarts\<close>

text \<open>
  A history of the broker over one persistence: recoveries, which start a broker unless they fail,
  and requests to the running one.  It collects the epochs of the registrations handed out, the
  latest first.  A crash may happen between any two steps: the next recovery starts a new broker on
  what the last step left in the persistence.
\<close>

inductive history ::
    "'p BrokerPersistence \<Rightarrow> (json \<Rightarrow> nat) \<Rightarrow> bool \<Rightarrow> 'p Broker \<Rightarrow> RegistrationEpoch list \<Rightarrow> bool"
  for P :: "'p BrokerPersistence" and json_len :: "json \<Rightarrow> nat" where
  created: "history P json_len False (with_clock p) []"
| restarted: "history P json_len running w es \<Longrightarrow>
    recover P json_len now (with_clock (b_persistence w)) = (r, w') \<Longrightarrow>
    history P json_len (\<exists>report. r = Ok report) w' es"
| registered: "history P json_len True w es \<Longrightarrow>
    register P json_len now i agent session w = (Ok g, w') \<Longrightarrow> history P json_len True w' (rg_epoch g # es)"
| served: "history P json_len True w es \<Longrightarrow> serve P json_len now req w = (r, w') \<Longrightarrow>
    history P json_len True w' es"

context durable_contract
begin

lemma history_epochs:
  "history P json_len running w es \<Longrightarrow>
     sorted_wrt (>) es \<and> (\<forall>e \<in> set es. e \<le> epoch (b_persistence w))
     \<and> (running \<longrightarrow> s_next_registration_epoch (b_state w) \<le> epoch (b_persistence w)
          \<and> (\<forall>e \<in> set es. e \<le> s_next_registration_epoch (b_state w)))"
proof (induction rule: history.induct)
  case (restarted running w es now r w')
  with leads_run [OF recover_epoch restarted(2)] show ?case
    by (fastforce simp: with_clock_def)
next
  case (registered w es now i agent session g w')
  with leads_run [OF register_epoch registered(2)] show ?case
    by (auto simp: advances_def)
next
  case (served w es now req r w')
  have "advances w w'" using advances_serve served(2) unfolding moves_def by (metis snd_conv)
  with served show ?case by (auto simp: advances_def)
qed simp

end

end
