(* ===== verification/Ledger_Examples.thy ===== *)
theory Ledger_Examples
  imports Ledger_Startup Broker_Epochs Broker_Examples
begin

text \<open>
  A ledger on concrete data, for the witnesses of its properties.  The serializers of the sample codec
  write a payload as its text and know the projections of one task; what they write they parse back.
\<close>

definition sample_durable :: DurableTask where
  "sample_durable = enqueued_durable (1000 + DELIVERY_TTL_MS) ''alpha'' ((sample_delivery ''t1'')\<lparr>qd_created_unix_ms := 1000\<rparr>)"

definition sample_task :: Task where
  "sample_task =
     \<lparr>tk_id = ''t1'', tk_context_id = ''c1'',
      tk_status = \<lparr>ts_state = TsSubmitted, ts_message = None, ts_timestamp = Some 1000\<rparr>,
      tk_artifacts = None,
      tk_history = Some [projected_message sample_durable ''-request'' RoleUser ''hello'' None],
      tk_metadata = None\<rparr>"

definition sample_codec :: codec where
  "sample_codec =
     \<lparr>cd_payload_json = (\<lambda>p. if vp_metadata p = JNull \<and> vp_file_refs p = [] then Some (vp_text p) else None),
      cd_payload_parse = (\<lambda>j. Some \<lparr>vp_text = j, vp_metadata = JNull, vp_file_refs = []\<rparr>),
      cd_reply_json = (\<lambda>r. if rp_metadata r = JNull \<and> rp_file_refs r = [] then Some (rp_text r) else None),
      cd_reply_parse = (\<lambda>j. Some \<lparr>rp_text = j, rp_metadata = JNull, rp_file_refs = []\<rparr>),
      cd_task_json = (\<lambda>t. if t = sample_task then Some ''submitted t1'' else None),
      cd_task_parse = (\<lambda>j. if j = ''submitted t1'' then Some sample_task else None),
      cd_state_string = (\<lambda>st. if st = TsSubmitted then Some ''submitted'' else None),
      cd_millis = (\<lambda>t. t),
      cd_timestamp_millis = Some,
      cd_rfc3339_nanos = (\<lambda>t. decimal (nat t)),
      cd_parse_rfc3339 = (\<lambda>_. Some 1000),
      cd_parse_uuid = (\<lambda>u. Some (7, True, u)),
      cd_json_len = sample_len\<rparr>"

definition sample_database :: Database where
  "sample_database =
     \<lparr>db_user_version = SCHEMA_VERSION, db_m2a = True, db_delivery_tasks = [],
      db_broker_meta = Some \<lparr>bm_last_registration_epoch = ''7'', bm_first_m2a_start_unix_ms = 500\<rparr>,
      db_projection_outbox = [], db_tasks = [], db_task_owners = []\<rparr>"

definition sample_store :: "Database \<Rightarrow> SqliteTaskStore" where
  "sample_store d =
     \<lparr>sq_database = d, sq_transaction = None, sq_faults = [],
      sq_admissions = \<lparr>ar_by_task = [], ar_total = 0, ar_next_sequence = 0\<rparr>\<rparr>"

definition sample_batch :: PersistenceBatch where
  "sample_batch = \<lparr>pb_registration_epoch_high_watermark = Some 9, pb_upsert_tasks = [sample_durable], pb_delete_task_ids = []\<rparr>"

definition committed_store :: SqliteTaskStore where
  "committed_store = snd (ledger_commit sample_codec sample_batch (sample_store sample_database))"

lemma sample_round_trip: "serde_round_trip sample_codec"
  by (auto simp: serde_round_trip_def sample_codec_def split: if_splits)

lemma sample_fields [simp]: "dt_task_id sample_durable = ''t1''" "dt_state_version sample_durable = 1"
  by (simp_all add: sample_durable_def enqueued_durable_def sample_delivery_def)

lemma sample_applied: "apply_batch sample_batch Map.empty = [''t1'' \<mapsto> sample_durable]"
  by (simp add: apply_batch_def sample_batch_def)

lemma sample_typed: "well_typed sample_codec sample_durable"
  by (simp add: well_typed_def sample_durable_def enqueued_durable_def sample_delivery_def u32_max_def)

lemma sample_holds: "ledger_holds sample_codec (sample_store sample_database) Map.empty"
  by (simp add: ledger_holds_def rows_hold_def row_holds_def sample_store_def sample_database_def)

lemma sample_commit: "ledger_commit sample_codec sample_batch (sample_store sample_database) = (Ok Complete, committed_store)"
proof -
  have "fst (ledger_commit sample_codec sample_batch (sample_store sample_database)) = Ok Complete" by code_simp
  then show ?thesis by (simp add: committed_store_def prod_eq_iff)
qed

lemma sample_load:
  "\<exists>s'. ledger_load sample_codec 2000 committed_store
     = (Ok \<lparr>snap_last_registration_epoch = 9, snap_tasks = [sample_durable]\<rparr>, s')"
proof -
  have "fst (ledger_load sample_codec 2000 committed_store)
      = Ok \<lparr>snap_last_registration_epoch = 9, snap_tasks = [sample_durable]\<rparr>" by code_simp
  then show ?thesis by (metis prod.collapse)
qed

text \<open>A broker over that ledger: it recovers, two agents register, and the first sends a task.\<close>

definition ledger_start :: "SqliteTaskStore Broker" where
  "ledger_start = snd (recover (SqlitePersistence sample_codec) sample_len 1000 (with_clock (sample_store sample_database)))"

fun ledger_run :: "request list \<Rightarrow> SqliteTaskStore Broker \<Rightarrow> SqliteTaskStore Broker" where
  "ledger_run [] w = w"
| "ledger_run (req # reqs) w = ledger_run reqs (snd (serve (SqlitePersistence sample_codec) sample_len 1000 req w))"

fun ledger_fresh :: "request list \<Rightarrow> SqliteTaskStore Broker \<Rightarrow> bool" where
  "ledger_fresh [] w = True"
| "ledger_fresh (req # reqs) w \<longleftrightarrow> fresh_ids (SqlitePersistence sample_codec) sample_len 1000 req w
     \<and> ledger_fresh reqs (snd (serve (SqlitePersistence sample_codec) sample_len 1000 req w))"

definition ledger_sending :: "request list" where
  "ledger_sending = registering @ [Enqueue \<lparr>cr_id = ''r1'', cr_epoch = 8\<rparr> (sample_delivery ''t1'')]"

lemma ledger_started: "\<exists>report. recover (SqlitePersistence sample_codec) sample_len 1000 (with_clock (sample_store sample_database))
    = (Ok report, ledger_start)"
proof -
  have "fst (recover (SqlitePersistence sample_codec) sample_len 1000 (with_clock (sample_store sample_database)))
      = Ok BrokerRecoveryReport_default" by code_simp
  then show ?thesis by (simp add: ledger_start_def prod_eq_iff)
qed

lemma ledger_run_reachable:
  "reachable (SqlitePersistence sample_codec) sample_len 1000 w \<Longrightarrow> ledger_fresh reqs w \<Longrightarrow>
     reachable (SqlitePersistence sample_codec) sample_len 1000 (ledger_run reqs w)"
proof (induction reqs arbitrary: w)
  case (Cons req reqs)
  then have "reachable (SqlitePersistence sample_codec) sample_len 1000 (snd (serve (SqlitePersistence sample_codec) sample_len 1000 req w))"
    by (intro reachable.served [OF Cons.prems(1) order_refl _ prod.collapse [symmetric]]) simp
  with Cons show ?case by simp
qed simp

lemma ledger_sent_reachable: "reachable (SqlitePersistence sample_codec) sample_len 1000 (ledger_run ledger_sending ledger_start)"
proof (rule ledger_run_reachable)
  show "reachable (SqlitePersistence sample_codec) sample_len 1000 ledger_start"
    using ledger_started by (blast intro: reachable.recovered)
  show "ledger_fresh ledger_sending ledger_start" by code_simp
qed

end
