(* ===== verification/Ledger_Properties.thy ===== *)
theory Ledger_Properties
  imports Ledger_Examples
begin

text \<open>
  The properties of the SQLite ledger of \<^verbatim>\<open>herdr-a2a-broker/src/ledger.rs\<close> and of the broker that runs
  over it.  Each is followed by an instance on the data of theory \<open>Ledger_Examples\<close>.
\<close>

section \<open>Commits\<close>

text \<open>
  C16: the ledger implements the table of durable tasks that the broker's persistence promises.  A
  completed commit has applied its batch, deletions first and then the upserts in order; a failed one
  has applied nothing; one that asks for reconciliation has applied all of the batch or nothing of it;
  no commit panics, whichever of its SQL statements fail.
\<close>

theorem ledger_commit_refines_batch:
  assumes "ledger_holds cd s V"
  shows "case ledger_commit cd b s of
      (Ok Complete, s') \<Rightarrow> ledger_holds cd s' (apply_batch b V)
    | (Ok ReconciliationRequired, s') \<Rightarrow> ledger_holds cd s' (apply_batch b V) \<or> ledger_holds cd s' V
    | (Err e, s') \<Rightarrow> ledger_holds cd s' V
    | (Panic, s') \<Rightarrow> False"
proof -
  have "wp (ledger_commit cd b) (\<lambda>_ s'. part s' = part s)
      (\<lambda>outcome s'. rows_hold cd (hm_get (fst (part s'))) (apply_batch b V) \<or> outcome = ReconciliationRequired \<and> part s' = part s) s"
    by (rule ledger_commit_rule, rule wp_conseq [OF stage_holds [of cd _ V]])
      (use assms in \<open>simp_all add: ledger_holds_def ledger_part_def\<close>)
  with assms show ?thesis
    by (auto simp: wp_def ledger_holds_def ledger_part_def split: prod.splits res.splits PersistenceCommitOutcome.splits)
qed

theorem ledger_commit_refines_batch_witness:
  "ledger_holds sample_codec committed_store [''t1'' \<mapsto> sample_durable]"
  using ledger_commit_refines_batch [OF sample_holds, where b = sample_batch] by (simp add: sample_commit sample_applied)





text \<open>
  C19: no commit, whatever its outcome, sets a row back.  A row that the batch does not delete is still
  there, at the same or a higher version; a row in quarantine is unchanged; and an error changes none.
\<close>

theorem rows_never_go_back:
  "case ledger_commit cd b s of
      (Ok outcome, s') \<Rightarrow> (\<forall>k old. k \<notin> set (pb_delete_task_ids b)
         \<longrightarrow> hm_get (db_delivery_tasks (sq_database s)) k = Some old
         \<longrightarrow> (\<exists>new. hm_get (db_delivery_tasks (sq_database s')) k = Some new \<and> row_state_version old \<le> row_state_version new
               \<and> row_legacy_quarantined new = row_legacy_quarantined old \<and> (row_legacy_quarantined old \<noteq> 0 \<longrightarrow> new = old)))
    | (Err e, s') \<Rightarrow> db_delivery_tasks (sq_database s') = db_delivery_tasks (sq_database s)
    | (Panic, s') \<Rightarrow> False"
  using ledger_commit_advances [of cd b s] unfolding wp_def row_advances_def
  by (auto split: prod.splits res.splits)

theorem rows_never_go_back_witness:
  "\<exists>new. hm_get (db_delivery_tasks (sq_database (snd (ledger_commit sample_codec sample_batch committed_store)))) ''t1'' = Some new
     \<and> 1 \<le> row_state_version new"
proof -
  have c: "fst (ledger_commit sample_codec sample_batch committed_store) = Ok Complete" by code_simp
  have old: "map_option row_state_version (hm_get (db_delivery_tasks (sq_database committed_store)) ''t1'') = Some 1" by code_simp
  have no_deletes: "pb_delete_task_ids sample_batch = []" by (simp add: sample_batch_def)
  from rows_never_go_back [where cd = sample_codec and b = sample_batch and s = committed_store] c old no_deletes show ?thesis
    by (cases "ledger_commit sample_codec sample_batch committed_store") (auto, metis)
qed

text \<open>
  A completed commit leaves at most \<^verbatim>\<open>MAX_RETAINED_TASKS\<close> rows in the ledger, however many tasks
  and repeated identifiers its batch has.
\<close>

theorem committed_rows_bounded:
  assumes "ledger_commit cd b s = (Ok Complete, s')"
  shows "length (db_delivery_tasks (sq_database s')) \<le> MAX_RETAINED_TASKS"
proof -
  have "wp (ledger_commit cd b) (\<lambda>_ s'. part s' = part s)
      (\<lambda>outcome s'. length (fst (part s')) \<le> MAX_RETAINED_TASKS \<or> outcome = ReconciliationRequired \<and> part s' = part s) s"
    by (rule ledger_commit_rule, rule wp_conseq [OF stage_capacity])
      (auto simp: ledger_part_def retained_count_def)
  with assms show ?thesis by (simp add: wp_def ledger_part_def)
qed

theorem committed_rows_bounded_witness: "length (db_delivery_tasks (sq_database committed_store)) \<le> 4096"
  using committed_rows_bounded [OF sample_commit] by (simp add: MAX_RETAINED_TASKS_def)

text \<open>
  C21: a task the ledger accepts the broker accepts.  Every task that a load returns passes the
  broker's own validation of a recovered task.
\<close>

theorem loaded_tasks_pass_broker_validation:
  assumes "ledger_load cd now s = (Ok snap, s')" "t \<in> set (snap_tasks snap)"
  shows "validate_durable_task (cd_json_len cd) t = Ok ()"
proof -
  have "collect_res (decode_durable_task cd) (retained_rows (sq_database s)) = Ok (snap_tasks snap)"
    using ledger_load_rule [of cd now s] assms(1) by (simp add: wp_def)
  with assms(2) obtain row where "decode_durable_task cd row = Ok t"
    by (auto simp: collect_res_Ok list_all2_conv_all_nth in_set_conv_nth)
  from ledger_valid_core [OF decode_fields(3) [OF this]] show ?thesis .
qed

theorem loaded_tasks_pass_broker_validation_witness: "validate_durable_task sample_len sample_durable = Ok ()"
proof -
  obtain s' where "ledger_load sample_codec 2000 committed_store
      = (Ok \<lparr>snap_last_registration_epoch = 9, snap_tasks = [sample_durable]\<rparr>, s')" using sample_load by blast
  from loaded_tasks_pass_broker_validation [OF this, of sample_durable] show ?thesis by (simp add: sample_codec_def)
qed

section \<open>Starting up\<close>

text \<open>
  C22: starting up on a ledger of the current schema changes no live row and no epoch, whatever it
  returns, so the ledger answers for the same table as before; when it succeeds, no projection is
  pending.
\<close>

theorem startup_keeps_live_tasks:
  assumes "db_user_version (sq_database s) = SCHEMA_VERSION" "ledger_holds cd s V"
  shows "case prepare_startup cd now s of
      (Ok report, s') \<Rightarrow> ledger_holds cd s' V \<and> ledger_epoch s' = ledger_epoch s \<and> db_projection_outbox (sq_database s') = []
    | (Err e, s') \<Rightarrow> ledger_holds cd s' V \<and> ledger_epoch s' = ledger_epoch s
    | (Panic, s') \<Rightarrow> False"
proof -
  have same: "ledger_holds cd s' V \<and> ledger_epoch s' = ledger_epoch s" if "kept (sq_database s') = kept (sq_database s)" for s'
    using that live_rows_hold [of "sq_database s'" "sq_database s" cd V] assms(2)
    by (simp add: kept_def ledger_holds_def ledger_epoch_def)
  obtain r s' where run: "prepare_startup cd now s = (r, s')" by fastforce
  from wp_result [OF startup_current [OF assms(1)] run] same [of s'] show ?thesis
    by (cases r) (simp_all add: run)
qed

theorem startup_keeps_live_tasks_witness:
  "\<exists>report s'. prepare_startup sample_codec 2000 committed_store = (Ok report, s')
     \<and> ledger_holds sample_codec s' [''t1'' \<mapsto> sample_durable]"
proof -
  have version: "db_user_version (sq_database committed_store) = SCHEMA_VERSION" by code_simp
  have holds: "ledger_holds sample_codec committed_store [''t1'' \<mapsto> sample_durable]"
    using ledger.commit_complete [of sample_codec sample_batch _ committed_store] sample_commit sample_holds sample_applied
    by (simp add: SqlitePersistence_def) metis
  have "(case fst (prepare_startup sample_codec 2000 committed_store) of Ok _ \<Rightarrow> True | _ \<Rightarrow> False)" by code_simp
  with startup_keeps_live_tasks [OF version holds, where now = 2000] show ?thesis
    by (cases "prepare_startup sample_codec 2000 committed_store") (auto split: res.splits)
qed

text \<open>
  C23: the migration of a legacy store is all or nothing.  If it fails the database is untouched; if
  it succeeds the schema is current, the epochs start at zero, no row is live, and every task and
  every owner of the legacy store has a row in quarantine.
\<close>

theorem migration_is_atomic:
  assumes "db_user_version (sq_database s) = 0"
  shows "case migrate_schema cd now s of
      (Ok n, s') \<Rightarrow> db_user_version (sq_database s') = SCHEMA_VERSION \<and> ledger_epoch s' = 0
        \<and> db_tasks (sq_database s') = db_tasks (sq_database s) \<and> db_task_owners (sq_database s') = db_task_owners (sq_database s)
        \<and> length (db_delivery_tasks (sq_database s')) \<le> MAX_RETAINED_TASKS
        \<and> (\<forall>k row. hm_get (db_delivery_tasks (sq_database s')) k = Some row \<longrightarrow> row_legacy_quarantined row \<noteq> 0)
        \<and> (\<forall>k. hm_get (db_tasks (sq_database s)) k \<noteq> None \<or> hm_get (db_task_owners (sq_database s)) k \<noteq> None
             \<longrightarrow> hm_get (db_delivery_tasks (sq_database s')) k \<noteq> None)
    | (Err e, s') \<Rightarrow> sq_database s' = sq_database s
    | (Panic, s') \<Rightarrow> False"
proof -
  have live: "row_legacy_quarantined row \<noteq> 0" if "live_rows d = Map.empty" "hm_get (db_delivery_tasks d) k = Some row" for d k row
    using fun_cong [OF that(1), of k] that(2) by (auto simp: live_rows_def split: if_splits)
  have epoch: "meta_epoch (Some \<lparr>bm_last_registration_epoch = ''0'', bm_first_m2a_start_unix_ms = now\<rparr>) = 0"
    by (simp add: meta_epoch_def parse_canonical_u64_def parse_u64_def is_ascii_digit_def byte_def or_invalid_def)
  show ?thesis
  proof (cases "migrate_schema cd now s")
    case (Pair r s')
    with wp_result [OF migrate_legacy [OF assms, of cd now] Pair] show ?thesis
      by (cases r) (auto simp: migrated_def ledger_epoch_def epoch dest: live)
  qed
qed

definition legacy_database :: Database where
  "legacy_database = sample_database\<lparr>db_user_version := 0, db_m2a := False, db_broker_meta := None,
     db_tasks := [(''t1'', \<lparr>pr_context_id = ''c1'', pr_state = ''submitted'', pr_status_timestamp = ''1000'', pr_version = 1,
       pr_task_json = ''submitted t1'', pr_rowid = 1\<rparr>)],
     db_task_owners := [(''t1'', \<lparr>ow_registration_id = ''r1'', ow_recipient = Some ''beta''\<rparr>)]\<rparr>"

theorem migration_is_atomic_witness:
  "\<exists>n s'. migrate_schema sample_codec 2000 (sample_store legacy_database) = (Ok n, s')
     \<and> hm_get (db_delivery_tasks (sq_database s')) ''t1'' \<noteq> None"
proof -
  have version: "db_user_version (sq_database (sample_store legacy_database)) = 0"
    by (simp add: sample_store_def legacy_database_def)
  have "(case fst (migrate_schema sample_codec 2000 (sample_store legacy_database)) of Ok _ \<Rightarrow> True | _ \<Rightarrow> False)" by code_simp
  moreover have "hm_get (db_tasks (sq_database (sample_store legacy_database))) ''t1'' \<noteq> None"
    by (simp add: sample_store_def legacy_database_def)
  ultimately show ?thesis
    using migration_is_atomic [OF version, where cd = sample_codec and now = 2000]
    by (cases "migrate_schema sample_codec 2000 (sample_store legacy_database)") (auto split: res.splits)
qed

end
