(* ===== verification/Store_Admissions.thy ===== *)
theory Store_Admissions
  imports Ledger
begin

text \<open>
  \<^verbatim>\<open>SdkProjectionAdmissionRegistry\<close> of \<^verbatim>\<open>herdr-a2a-broker/src/store.rs\<close>: the projections that the executor
  has announced to the SDK, so that one overtaken by a newer state of its task is recognized when the
  SDK writes it back.  The registry is bounded per task and in total and gives up its oldest entries.

  The counter \<^verbatim>\<open>total\<close> is a number of entries; the invariant shows that it is the number of entries, so
  that its subtractions do not underflow.
\<close>

section \<open>The registry\<close>

definition MAX_SDK_PROJECTION_ADMISSIONS_PER_TASK :: nat where
  "MAX_SDK_PROJECTION_ADMISSIONS_PER_TASK = 8"

definition MAX_SDK_PROJECTION_ADMISSIONS :: nat where
  "MAX_SDK_PROJECTION_ADMISSIONS = MAX_RETAINED_TASKS"

definition SdkProjectionAdmissionRegistry_default :: SdkProjectionAdmissionRegistry where
  "SdkProjectionAdmissionRegistry_default = \<lparr>ar_by_task = [], ar_total = 0, ar_next_sequence = 0\<rparr>"

type_synonym 'a rop = "(SdkProjectionAdmissionRegistry, A2AError, 'a) op"

text \<open>\<^verbatim>\<open>Iterator::min_by_key\<close>, which returns the first of several minima, and \<^verbatim>\<open>VecDeque::remove\<close>.\<close>

fun min_by_key :: "('a \<Rightarrow> nat) \<Rightarrow> 'a list \<Rightarrow> 'a option" where
  "min_by_key f [] = None"
| "min_by_key f (x # xs) =
     (case min_by_key f xs of None \<Rightarrow> Some x | Some y \<Rightarrow> if f x \<le> f y then Some x else Some y)"

definition remove_at :: "nat \<Rightarrow> 'a list \<Rightarrow> 'a list" where
  "remove_at i xs = take i xs @ drop (Suc i) xs"

text \<open>The queue of a task after one entry is taken out; a task without entries is dropped.\<close>

definition put_queue ::
    "string \<Rightarrow> SdkProjectionAdmission list \<Rightarrow> SdkProjectionAdmissionRegistry \<Rightarrow> SdkProjectionAdmissionRegistry" where
  "put_queue task_id queue r =
     r\<lparr>ar_by_task := (if queue = [] then hm_remove task_id (ar_by_task r) else hm_insert task_id queue (ar_by_task r)),
       ar_total := ar_total r - 1\<rparr>"

definition remove_oldest_for_task :: "string \<Rightarrow> unit rop" where
  "remove_oldest_for_task task_id r =
     (case hm_get (ar_by_task r) task_id of
        None \<Rightarrow> (Ok (), r)
      | Some admissions \<Rightarrow>
          (case min_by_key (\<lambda>(_, a). ad_sequence a) (List.enumerate 0 admissions) of
             None \<Rightarrow> (Panic, r)
           | Some (i, _) \<Rightarrow> (Ok (), put_queue task_id (remove_at i admissions) r)))"

definition all_admissions :: "SdkProjectionAdmissionRegistry \<Rightarrow> (string \<times> nat \<times> u64) list" where
  "all_admissions r =
     concat (map (\<lambda>(task_id, admissions). map (\<lambda>(i, a). (task_id, i, ad_sequence a)) (List.enumerate 0 admissions))
       (ar_by_task r))"

definition remove_oldest :: "unit rop" where
  "remove_oldest r =
     (case min_by_key (\<lambda>(_, _, s). s) (all_admissions r) of
        None \<Rightarrow> (Panic, r)
      | Some (task_id, i, _) \<Rightarrow>
          (case hm_get (ar_by_task r) task_id of
             None \<Rightarrow> (Panic, r)
           | Some admissions \<Rightarrow> (Ok (), put_queue task_id (remove_at i admissions) r)))"

text \<open>Room for one more entry of a task, and the entry at the end of its queue.\<close>

definition make_room :: "string \<Rightarrow> unit rop" where
  "make_room task_id =
     bindM (gets (\<lambda>r. case hm_get (ar_by_task r) task_id of None \<Rightarrow> False
       | Some admissions \<Rightarrow> length admissions = MAX_SDK_PROJECTION_ADMISSIONS_PER_TASK)) (\<lambda>full.
     bindM (whenM full (remove_oldest_for_task task_id)) (\<lambda>_.
     bindM (gets (\<lambda>r. ar_total r = MAX_SDK_PROJECTION_ADMISSIONS)) (\<lambda>full.
     whenM full remove_oldest)))"

definition push_admission :: "string \<Rightarrow> SdkProjectionAdmission \<Rightarrow> SdkProjectionAdmissionRegistry \<Rightarrow> SdkProjectionAdmissionRegistry" where
  "push_admission task_id admission r =
     r\<lparr>ar_by_task := hm_insert task_id
         ((case hm_get (ar_by_task r) task_id of None \<Rightarrow> [] | Some admissions \<Rightarrow> admissions) @ [admission]) (ar_by_task r),
       ar_total := ar_total r + 1\<rparr>"

definition record_admission :: "string \<Rightarrow> string \<Rightarrow> u64 \<Rightarrow> TaskIncarnation \<Rightarrow> unit rop" where
  "record_admission task_id fingerprint version incarnation =
     bindM (gets ar_next_sequence) (\<lambda>sequence.
     bindM (lift_res (ok_or (checked_add_u64 sequence 1)
       (Internal ''task projection admission sequence exhausted''))) (\<lambda>next.
     bindM (modify (\<lambda>r. r\<lparr>ar_next_sequence := next\<rparr>)) (\<lambda>_.
     bindM (make_room task_id) (\<lambda>_.
     modify (push_admission task_id \<lparr>ad_fingerprint = fingerprint, ad_version = version,
       ad_incarnation = incarnation, ad_sequence = sequence\<rparr>)))))"

definition admits :: "string \<Rightarrow> u64 \<Rightarrow> TaskIncarnation \<Rightarrow> bool \<Rightarrow> SdkProjectionAdmission \<Rightarrow> bool" where
  "admits fingerprint authoritative_version incarnation superseded a \<longleftrightarrow>
     ad_fingerprint a = fingerprint \<and> ad_incarnation a = incarnation
     \<and> (if superseded then ad_version a < authoritative_version else ad_version a \<le> authoritative_version)"

text \<open>\<^verbatim>\<open>Iterator::position\<close>.\<close>

fun position :: "('a \<Rightarrow> bool) \<Rightarrow> 'a list \<Rightarrow> nat option" where
  "position p [] = None"
| "position p (x # xs) = (if p x then Some 0 else map_option Suc (position p xs))"

definition consume_admission ::
    "string \<Rightarrow> string \<Rightarrow> u64 \<Rightarrow> TaskIncarnation \<Rightarrow> bool \<Rightarrow> SdkProjectionAdmissionRegistry \<Rightarrow>
     SdkProjectionAdmission option \<times> SdkProjectionAdmissionRegistry" where
  "consume_admission task_id fingerprint authoritative_version incarnation superseded r =
     (case hm_get (ar_by_task r) task_id of
        None \<Rightarrow> (None, r)
      | Some admissions \<Rightarrow>
          (case position (admits fingerprint authoritative_version incarnation superseded) admissions of
             None \<Rightarrow> (None, r)
           | Some i \<Rightarrow> (Some (admissions ! i), put_queue task_id (remove_at i admissions) r)))"

definition restore_admission :: "string \<Rightarrow> SdkProjectionAdmission \<Rightarrow> unit rop" where
  "restore_admission task_id admission =
     bindM (make_room task_id) (\<lambda>_. modify (push_admission task_id admission))"

section \<open>Invariant\<close>

definition admission_count :: "SdkProjectionAdmissionRegistry \<Rightarrow> nat" where
  "admission_count r = sum_list (map (length \<circ> snd) (ar_by_task r))"

definition queues_ok :: "(string \<Rightarrow> SdkProjectionAdmission list option) \<Rightarrow> bool" where
  "queues_ok f \<longleftrightarrow> (\<forall>k q. f k = Some q \<longrightarrow> q \<noteq> [] \<and> length q \<le> MAX_SDK_PROJECTION_ADMISSIONS_PER_TASK)"

definition registry_ok :: "SdkProjectionAdmissionRegistry \<Rightarrow> bool" where
  "registry_ok r \<longleftrightarrow> hm_wf (ar_by_task r) \<and> ar_total r = admission_count r \<and> ar_total r \<le> MAX_SDK_PROJECTION_ADMISSIONS
     \<and> queues_ok (hm_get (ar_by_task r))"

lemma queues_okD:
  assumes "registry_ok r" "hm_get (ar_by_task r) k = Some q"
  shows "q \<noteq> []" "length q \<le> MAX_SDK_PROJECTION_ADMISSIONS_PER_TASK"
proof -
  have "queues_ok (hm_get (ar_by_task r))" using assms(1) by (simp add: registry_ok_def)
  then show "q \<noteq> []" "length q \<le> MAX_SDK_PROJECTION_ADMISSIONS_PER_TASK"
    using assms(2) unfolding queues_ok_def by blast+
qed

lemma queues_ok_upd:
  "queues_ok f \<Longrightarrow> q \<noteq> [] \<Longrightarrow> length q \<le> MAX_SDK_PROJECTION_ADMISSIONS_PER_TASK \<Longrightarrow> queues_ok (f(k \<mapsto> q))"
  "queues_ok f \<Longrightarrow> queues_ok (f(k := None))"
  by (simp_all add: queues_ok_def)

lemma registry_ok_default: "registry_ok SdkProjectionAdmissionRegistry_default"
  by (simp add: registry_ok_def SdkProjectionAdmissionRegistry_default_def admission_count_def queues_ok_def)

lemma min_by_key_mem: "min_by_key f xs = Some x \<Longrightarrow> x \<in> set xs \<and> (\<forall>y \<in> set xs. f x \<le> f y)"
proof (induction xs arbitrary: x)
  case (Cons a xs)
  show ?case
  proof (cases "min_by_key f xs")
    case None
    then have "xs = []" by (cases xs) (auto split: option.splits if_splits)
    with Cons.prems show ?thesis by simp
  next
    case (Some y)
    with Cons show ?thesis by (fastforce split: if_splits)
  qed
qed simp

lemma min_by_key_None: "min_by_key f xs = None \<longleftrightarrow> xs = []"
  by (cases xs) (auto split: option.splits if_splits)

lemma position_Some: "position p xs = Some i \<Longrightarrow> i < length xs \<and> p (xs ! i) \<and> (\<forall>j < i. \<not> p (xs ! j))"
proof (induction xs arbitrary: i)
  case (Cons x xs)
  then show ?case by (cases i) (auto split: if_splits simp: less_Suc_eq_0_disj)
qed simp

lemma length_remove_at: "i < length xs \<Longrightarrow> length (remove_at i xs) = length xs - 1"
  by (simp add: remove_at_def)

text \<open>The number of entries of a table of queues after one queue is replaced.\<close>

lemma sum_insert:
  assumes "hm_wf m"
  shows "sum_list (map (length \<circ> snd) (hm_insert k q m))
    + (case hm_get m k of None \<Rightarrow> 0 | Some q' \<Rightarrow> length q') = sum_list (map (length \<circ> snd) m) + length q"
  using assms by (induction m) (auto simp: hm_get_None_keys split: option.splits)

lemma sum_remove:
  assumes "hm_wf m"
  shows "sum_list (map (length \<circ> snd) (hm_remove k m))
    + (case hm_get m k of None \<Rightarrow> 0 | Some q' \<Rightarrow> length q') = sum_list (map (length \<circ> snd) m)"
  using assms
proof (induction m)
  case (Cons x m)
  have "k \<notin> set (hm_keys m) \<Longrightarrow> hm_remove k m = m" by (simp add: delete_id)
  with Cons show ?case by (cases x) (auto simp: hm_get_None_keys split: option.splits)
qed simp

lemma put_queue_ok:
  assumes ok: "registry_ok r" and q: "hm_get (ar_by_task r) k = Some q" and i: "i < length q"
  shows "registry_ok (put_queue k (remove_at i q) r)" "ar_total (put_queue k (remove_at i q) r) = ar_total r - 1"
    "0 < ar_total r"
proof -
  have wf: "hm_wf (ar_by_task r)" using ok by (simp add: registry_ok_def)
  note sums = sum_insert [OF wf, of k "remove_at i q"] sum_remove [OF wf, of k] 
  have len: "length (remove_at i q) = length q - 1" using i by (rule length_remove_at)
  have "length q \<le> admission_count r" using sums(2) q by (simp add: admission_count_def)
  then show pos: "0 < ar_total r" using ok i by (simp add: registry_ok_def)
  show "ar_total (put_queue k (remove_at i q) r) = ar_total r - 1" by (simp add: put_queue_def)
  have "length q = 1" if "remove_at i q = []" using that len i by simp
  moreover have "length (remove_at i q) \<le> MAX_SDK_PROJECTION_ADMISSIONS_PER_TASK"
    using queues_okD(2) [OF ok q] len by simp
  ultimately show "registry_ok (put_queue k (remove_at i q) r)"
    using ok q i sums len pos by (auto simp add: registry_ok_def put_queue_def admission_count_def queues_ok_upd del: map_of_eq_Some_iff)
qed

lemma oldest_for_task_ok:
  assumes ok: "registry_ok r"
  shows "wp (remove_oldest_for_task k) E (\<lambda>_ r'. registry_ok r'
     \<and> (hm_get (ar_by_task r) k \<noteq> None \<longrightarrow> ar_total r' < ar_total r)
     \<and> (\<forall>q'. hm_get (ar_by_task r') k = Some q' \<longrightarrow> length q' < MAX_SDK_PROJECTION_ADMISSIONS_PER_TASK)
     \<and> ar_next_sequence r' = ar_next_sequence r) r"
proof (cases "hm_get (ar_by_task r) k")
  case None
  with ok show ?thesis by (simp add: wp_def remove_oldest_for_task_def)
next
  case (Some q)
  note q = queues_okD [OF ok Some]
  obtain i a where ia: "min_by_key (\<lambda>(_, a). ad_sequence a) (List.enumerate 0 q) = Some (i, a)"
    using q(1) min_by_key_None [of "\<lambda>(_, a). ad_sequence a" "List.enumerate 0 q"]
    by (cases q; cases "min_by_key (\<lambda>(_, a). ad_sequence a) (List.enumerate 0 q)") auto
  then have i: "i < length q" using min_by_key_mem [OF ia] by (auto simp: in_set_enumerate_eq)
  note put = put_queue_ok [OF ok Some i]
  have "length (remove_at i q) < MAX_SDK_PROJECTION_ADMISSIONS_PER_TASK" using i q(2) by (simp add: length_remove_at)
  moreover have "hm_get (ar_by_task (put_queue k (remove_at i q) r)) k \<in> {None, Some (remove_at i q)}"
    by (simp add: put_queue_def)
  moreover have "ar_next_sequence (put_queue k (remove_at i q) r) = ar_next_sequence r" by (simp add: put_queue_def)
  ultimately show ?thesis using put ia Some by (auto simp: wp_def remove_oldest_for_task_def)
qed

lemma all_admissions_mem:
  assumes "hm_wf (ar_by_task r)" "(k, i, n) \<in> set (all_admissions r)"
  obtains q where "hm_get (ar_by_task r) k = Some q" "i < length q" "n = ad_sequence (q ! i)"
  using assms by (force simp: all_admissions_def in_set_enumerate_eq hm_get_iff_mem)

lemma all_admissions_length: "length (all_admissions r) = admission_count r"
  by (simp add: all_admissions_def admission_count_def length_concat comp_def split_beta)

lemma oldest_ok:
  assumes ok: "registry_ok r" and full: "ar_total r > 0"
  shows "wp remove_oldest E (\<lambda>_ r'. registry_ok r' \<and> ar_total r' < ar_total r
     \<and> (\<forall>k. hm_get (ar_by_task r') k \<noteq> None \<longrightarrow> length (the (hm_get (ar_by_task r') k)) \<le> length (the (hm_get (ar_by_task r) k)))
     \<and> (\<forall>k. hm_get (ar_by_task r) k = None \<longrightarrow> hm_get (ar_by_task r') k = None)
     \<and> ar_next_sequence r' = ar_next_sequence r) r"
proof -
  have "all_admissions r \<noteq> []" using ok full all_admissions_length [of r] by (auto simp: registry_ok_def)
  then obtain k i n where m: "min_by_key (\<lambda>(_, _, s). s) (all_admissions r) = Some (k, i, n)"
    using min_by_key_None [of "\<lambda>(_, _, s). s" "all_admissions r"]
    by (cases "min_by_key (\<lambda>(_, _, s). s) (all_admissions r)") auto
  obtain q where q: "hm_get (ar_by_task r) k = Some q" and i: "i < length q"
    using min_by_key_mem [OF m] ok by (auto simp: registry_ok_def elim: all_admissions_mem simp del: map_of_eq_Some_iff)
  have frame: "ar_next_sequence (put_queue k (remove_at i q) r) = ar_next_sequence r"
    "hm_get (ar_by_task (put_queue k (remove_at i q) r)) k' \<in> {hm_get (ar_by_task r) k', None, Some (remove_at i q)}"
    "k' \<noteq> k \<Longrightarrow> hm_get (ar_by_task (put_queue k (remove_at i q) r)) k' = hm_get (ar_by_task r) k'" for k'
    by (auto simp: put_queue_def)
  have "length (the (hm_get (ar_by_task (put_queue k (remove_at i q) r)) k')) \<le> length (the (hm_get (ar_by_task r) k'))"
    if "hm_get (ar_by_task (put_queue k (remove_at i q) r)) k' \<noteq> None" for k'
    using that frame(2,3) [of k'] q i by (cases "k' = k") (auto simp: length_remove_at)
  moreover have "hm_get (ar_by_task (put_queue k (remove_at i q) r)) k' = None" if "hm_get (ar_by_task r) k' = None" for k'
    using that frame(3) [of k'] q by (cases "k' = k") auto
  ultimately show ?thesis using m q put_queue_ok [OF ok q i] frame(1) by (simp add: wp_def remove_oldest_def)
qed

text \<open>Making room for a task leaves room in its queue and in the registry, and panics never.\<close>

definition has_room :: "string \<Rightarrow> SdkProjectionAdmissionRegistry \<Rightarrow> bool" where
  "has_room k r \<longleftrightarrow> ar_total r < MAX_SDK_PROJECTION_ADMISSIONS
     \<and> (\<forall>q. hm_get (ar_by_task r) k = Some q \<longrightarrow> length q < MAX_SDK_PROJECTION_ADMISSIONS_PER_TASK)"

lemma room_total:
  assumes "registry_ok r" "\<forall>q. hm_get (ar_by_task r) k = Some q \<longrightarrow> length q < MAX_SDK_PROJECTION_ADMISSIONS_PER_TASK"
  shows "wp (bindM (gets (\<lambda>r. ar_total r = MAX_SDK_PROJECTION_ADMISSIONS)) (\<lambda>full. whenM full remove_oldest)) E
     (\<lambda>_ r'. registry_ok r' \<and> has_room k r' \<and> ar_next_sequence r' = ar_next_sequence r) r"
proof (cases "ar_total r = MAX_SDK_PROJECTION_ADMISSIONS")
  case True
  then have "0 < ar_total r" by (simp add: MAX_SDK_PROJECTION_ADMISSIONS_def MAX_RETAINED_TASKS_def)
  have step: "registry_ok r' \<and> has_room k r' \<and> ar_next_sequence r' = ar_next_sequence r"
    if "registry_ok r'" "ar_total r' < ar_total r" "ar_next_sequence r' = ar_next_sequence r"
      and le: "\<forall>k. hm_get (ar_by_task r') k \<noteq> None \<longrightarrow> length (the (hm_get (ar_by_task r') k)) \<le> length (the (hm_get (ar_by_task r) k))"
      and none: "\<forall>k. hm_get (ar_by_task r) k = None \<longrightarrow> hm_get (ar_by_task r') k = None" for r'
    using that(1-3) le [rule_format, of k] none [rule_format, of k] assms(2) True
    by (cases "hm_get (ar_by_task r) k") (auto simp: has_room_def)
  show ?thesis using True
    by (simp) (rule wp_conseq [OF oldest_ok [OF assms(1) \<open>0 < ar_total r\<close>]], use step in blast)
next
  case False
  with assms show ?thesis by (simp add: has_room_def registry_ok_def)
qed

lemma make_room_ok:
  assumes ok: "registry_ok r"
  shows "wp (make_room k) E (\<lambda>_ r'. registry_ok r' \<and> has_room k r' \<and> ar_next_sequence r' = ar_next_sequence r) r"
proof (cases "\<exists>q. hm_get (ar_by_task r) k = Some q \<and> length q = MAX_SDK_PROJECTION_ADMISSIONS_PER_TASK")
  case True
  show ?thesis unfolding make_room_def
    apply (simp only: wp_bindM wp_primitive)
    using True apply (clarsimp simp: wp_whenM)
    apply (rule wp_conseq [OF oldest_for_task_ok [OF ok]])
    subgoal for q a r' using room_total [of r' k E] by simp
    by simp
next
  case False
  have "\<forall>q. hm_get (ar_by_task r) k = Some q \<longrightarrow> length q < MAX_SDK_PROJECTION_ADMISSIONS_PER_TASK"
    using queues_okD(2) [OF ok] False by (metis order_le_less)
  from room_total [OF ok this, of E] False show ?thesis unfolding make_room_def
    by (auto simp: wp_whenM split: option.splits)
qed

lemma push_admission_ok:
  assumes ok: "registry_ok r" and room: "has_room k r"
  shows "registry_ok (push_admission k a r)"
proof -
  have wf: "hm_wf (ar_by_task r)" using ok by (simp add: registry_ok_def)
  show ?thesis using ok room sum_insert [OF wf, of k "(case hm_get (ar_by_task r) k of None \<Rightarrow> [] | Some as \<Rightarrow> as) @ [a]"]
    by (cases "hm_get (ar_by_task r) k") (simp_all add: registry_ok_def has_room_def push_admission_def
      admission_count_def queues_ok_upd Suc_leI MAX_SDK_PROJECTION_ADMISSIONS_PER_TASK_def del: map_of_eq_Some_iff)
qed

lemma push_admission_last:
  "\<exists>q. hm_get (ar_by_task (push_admission k a r)) k = Some (q @ [a])"
  by (simp add: push_admission_def)

lemma push_admission_seq: "ar_next_sequence (push_admission k a r) = ar_next_sequence r"
  by (simp add: push_admission_def)

lemma record_admission_ok:
  assumes "registry_ok r"
  shows "wp (record_admission k f v inc) (\<lambda>e r'. r' = r \<and> u64_max \<le> ar_next_sequence r)
    (\<lambda>_ r'. registry_ok r' \<and> ar_next_sequence r' = ar_next_sequence r + 1
      \<and> (\<exists>q. hm_get (ar_by_task r') k = Some (q @ [\<lparr>ad_fingerprint = f, ad_version = v, ad_incarnation = inc,
          ad_sequence = ar_next_sequence r\<rparr>]))) r"
proof -
  have ok: "registry_ok (r\<lparr>ar_next_sequence := n\<rparr>)" for n
    using assms by (simp add: registry_ok_def admission_count_def)
  show ?thesis
    by (auto simp: record_admission_def wp_lift_res checked_add_u64_def ok_or_def push_admission_ok push_admission_last
      push_admission_seq intro!: wp_conseq [OF make_room_ok [OF ok]] split: option.splits)
qed

lemma restore_admission_ok:
  assumes "registry_ok r"
  shows "wp (restore_admission k a) (\<lambda>_ _. False)
    (\<lambda>_ r'. registry_ok r' \<and> (\<exists>q. hm_get (ar_by_task r') k = Some (q @ [a]))) r"
  unfolding restore_admission_def wp_bindM
  by (rule wp_conseq [OF make_room_ok [OF assms]]) (auto simp: push_admission_ok push_admission_last)

lemma consume_admission_ok:
  assumes "registry_ok r" "consume_admission k f v inc over r = (x, r')"
  shows "registry_ok r'"
    "case x of None \<Rightarrow> r' = r | Some a \<Rightarrow> admits f v inc over a \<and> ar_total r = Suc (ar_total r')"
proof -
  have "registry_ok r' \<and> (case x of None \<Rightarrow> r' = r | Some a \<Rightarrow> admits f v inc over a \<and> ar_total r = Suc (ar_total r'))"
    using assms by (auto simp: consume_admission_def put_queue_ok split: option.splits dest!: position_Some)
  then show "registry_ok r'"
    "case x of None \<Rightarrow> r' = r | Some a \<Rightarrow> admits f v inc over a \<and> ar_total r = Suc (ar_total r')" by auto
qed

lemma remove_task_ok: "registry_ok r \<Longrightarrow> registry_ok (remove_task k r)"
  using sum_remove [of "ar_by_task r" k]
  by (cases "hm_get (ar_by_task r) k")
    (auto simp: registry_ok_def remove_task_def admission_count_def queues_ok_upd simp del: map_of_eq_Some_iff)

lemma retire_ok: "registry_ok r \<Longrightarrow> registry_ok (fold remove_task ks r)"
  by (induction ks arbitrary: r) (auto simp: remove_task_ok)

end
