(* ===== verification/Store_Tasks.thy ===== *)
theory Store_Tasks
  imports Store_Admissions
begin

text \<open>
  The operations of \<^verbatim>\<open>herdr-a2a-broker/src/store.rs\<close> on single tasks: the projections which the SDK writes
  (\<^verbatim>\<open>create\<close>, \<^verbatim>\<open>update\<close>), their announcement by the executor (\<^verbatim>\<open>authorize_sdk_projection\<close>), reading a task
  (\<^verbatim>\<open>get\<close>), and the owners of tasks.

  The digest \<^verbatim>\<open>Sha256::digest\<close> is the parameter \<open>digest\<close>.  The store runs one operation at a time, each of
  them holding the lock of the connection; a poisoned lock and a lost worker thread are not modelled.
\<close>

section \<open>Projections of the SDK\<close>

definition in_admissions :: "'a rop \<Rightarrow> (SqliteTaskStore, A2AError, 'a) op" where
  "in_admissions m s = (case m (sq_admissions s) of (r, a) \<Rightarrow> (r, s\<lparr>sq_admissions := a\<rparr>))"

definition projection_not_authorized_error :: A2AError where
  "projection_not_authorized_error = Internal PROJECTION_NOT_AUTHORIZED"

fun projection_error :: "StoreError \<Rightarrow> A2AError" where
  "projection_error (InvalidData message) =
     (if message = ''task projection is not authorized'' then Internal message else database_error)"
| "projection_error Sqlite = database_error"
| "projection_error (UnsafeFile _) = database_error"

definition authorize_sdk_projection ::
    "codec \<Rightarrow> (string \<Rightarrow> string) \<Rightarrow> Task \<Rightarrow> (SqliteTaskStore, A2AError, unit) op" where
  "authorize_sdk_projection cd digest task =
     bindM (lift_res (TaskColumns_from_task cd task)) (\<lambda>columns.
     bindM (map_error (\<lambda>_. database_error) (clean_authoritative_projection cd (tc_task_id columns)))
       (\<lambda>(durable, authoritative_json).
     bindM (lift_res (if authoritative_json \<noteq> tc_task_json columns
       then Err (Internal ''executor task projection is not authoritative'') else Ok ())) (\<lambda>_.
     in_admissions (record_admission (tc_task_id columns) (digest (tc_task_json columns))
       (dt_state_version durable) (TaskIncarnation_from durable)))))"

text \<open>Whether an application was refused because the ledger has no such projection pending or stored.\<close>

definition application_outcome :: "(StoreError, u64) res \<Rightarrow> (A2AError, u64 \<times> bool) res" where
  "application_outcome application =
     (case application of
        Ok version \<Rightarrow> Ok (version, False)
      | Err e \<Rightarrow> if e = InvalidData PROJECTION_NOT_AUTHORIZED then Ok (0, True) else Err (projection_error e)
      | Panic \<Rightarrow> Panic)"

definition authoritative_outcome :: "bool \<Rightarrow> (StoreError, DurableTask \<times> string) res \<Rightarrow> (A2AError, DurableTask) res" where
  "authoritative_outcome superseded authoritative =
     (case authoritative of
        Ok (durable, _) \<Rightarrow> Ok durable
      | Err _ \<Rightarrow> Err (if superseded then projection_not_authorized_error else database_error)
      | Panic \<Rightarrow> Panic)"

definition commit_consumed ::
    "string \<Rightarrow> SdkProjectionAdmission option \<Rightarrow> (SqliteTaskStore, A2AError, unit) op" where
  "commit_consumed task_id consumed =
     bindM (attempt commit_transaction) (\<lambda>committed.
     case committed of
       Ok _ \<Rightarrow> ret ()
     | _ \<Rightarrow>
         bindM (case consumed of
                  None \<Rightarrow> ret ()
                | Some admission \<Rightarrow> in_admissions (restore_admission task_id admission)) (\<lambda>_.
         throw database_error))"

text \<open>
  A transaction after the application: the projection of the ledger's task must be stored, and a write
  that was overtaken must have been announced.  Then \<open>apply_sdk_projection\<close>.
\<close>

definition consume_announced ::
    "(string \<Rightarrow> string) \<Rightarrow> TaskColumns \<Rightarrow> bool \<Rightarrow> DurableTask \<Rightarrow> (SqliteTaskStore, A2AError, SdkProjectionAdmission option) op" where
  "consume_announced digest columns superseded durable =
     in_admissions (\<lambda>r. case consume_admission (tc_task_id columns) (digest (tc_task_json columns))
       (dt_state_version durable) (TaskIncarnation_from durable) superseded r of (consumed, r') \<Rightarrow> (Ok consumed, r'))"

definition settle_projection ::
    "codec \<Rightarrow> (string \<Rightarrow> string) \<Rightarrow> TaskColumns \<Rightarrow> u64 \<times> bool \<Rightarrow> (SqliteTaskStore, A2AError, u64) op" where
  "settle_projection cd digest columns = (\<lambda>(version, superseded).
     bindM (attempt (clean_authoritative_projection cd (tc_task_id columns))) (\<lambda>authoritative.
     bindM (lift_res (authoritative_outcome superseded authoritative)) (\<lambda>durable.
     bindM (lift_res (if \<not> superseded \<and> version \<noteq> dt_state_version durable then Err database_error else Ok ())) (\<lambda>_.
     bindM (consume_announced digest columns superseded durable) (\<lambda>consumed.
     bindM (lift_res (if superseded \<and> consumed = None then Err projection_not_authorized_error else Ok ())) (\<lambda>_.
     bindM (commit_consumed (tc_task_id columns) consumed) (\<lambda>_.
     ret (dt_state_version durable))))))))"

definition apply_sdk_projection ::
    "codec \<Rightarrow> (string \<Rightarrow> string) \<Rightarrow> Task \<Rightarrow> (SqliteTaskStore, A2AError, u64) op" where
  "apply_sdk_projection cd digest task =
     bindM (lift_res (TaskColumns_from_task cd task)) (\<lambda>columns.
     transaction
       (bindM (attempt (apply_authorized_projection cd columns)) (\<lambda>application.
        bindM (lift_res (application_outcome application)) (settle_projection cd digest columns)))
       (\<lambda>_. database_error))"

text \<open>\<^verbatim>\<open>TaskStore::create\<close>, \<^verbatim>\<open>TaskStore::update\<close> and \<^verbatim>\<open>TaskStore::get\<close>.\<close>

definition create_task :: "codec \<Rightarrow> (string \<Rightarrow> string) \<Rightarrow> Task \<Rightarrow> (SqliteTaskStore, A2AError, u64) op" where
  "create_task cd digest task = apply_sdk_projection cd digest task"

definition update_task :: "codec \<Rightarrow> (string \<Rightarrow> string) \<Rightarrow> Task \<Rightarrow> (SqliteTaskStore, A2AError, u64) op" where
  "update_task cd digest task = apply_sdk_projection cd digest task"

definition decode_task :: "codec \<Rightarrow> string \<Rightarrow> (A2AError, Task) res" where
  "decode_task cd task_json = ok_or (cd_task_parse cd task_json) (Internal ''stored task is invalid'')"

definition get_task :: "codec \<Rightarrow> string \<Rightarrow> (SqliteTaskStore, A2AError, Task option) op" where
  "get_task cd task_id =
     bindM (map_error (\<lambda>_. database_error) (query (\<lambda>d. map_option pr_task_json (hm_get (db_tasks d) task_id)))) (\<lambda>task_json.
     case task_json of
       None \<Rightarrow> ret None
     | Some json \<Rightarrow> bindM (lift_res (decode_task cd json)) (\<lambda>task. ret (Some task)))"

section \<open>Owners\<close>

definition saturating_sub_i64 :: "i64 \<Rightarrow> i64 \<Rightarrow> i64" where
  "saturating_sub_i64 a b = max i64_min (min i64_max (a - b))"

text \<open>The tasks which a claim prunes: terminal for longer than they are retained.\<close>

definition expired_task :: "string list \<Rightarrow> string \<Rightarrow> TaskRow \<Rightarrow> bool" where
  "expired_task terminal_states cutoff row \<longleftrightarrow> pr_state row \<in> set terminal_states \<and> pr_status_timestamp row \<le> cutoff"

definition delete_expired_owners :: "string list \<Rightarrow> string \<Rightarrow> Database \<Rightarrow> Database" where
  "delete_expired_owners terminal_states cutoff d =
     d\<lparr>db_task_owners := filter (\<lambda>(k, _). \<not> (case hm_get (db_tasks d) k of None \<Rightarrow> False
        | Some row \<Rightarrow> expired_task terminal_states cutoff row)) (db_task_owners d)\<rparr>"

definition delete_expired_tasks :: "string list \<Rightarrow> string \<Rightarrow> Database \<Rightarrow> Database" where
  "delete_expired_tasks terminal_states cutoff d =
     d\<lparr>db_tasks := filter (\<lambda>(_, row). \<not> expired_task terminal_states cutoff row) (db_tasks d)\<rparr>"

definition retained_owners :: "i64 \<Rightarrow> nat sop" where
  "retained_owners schema_version =
     (if schema_version = 1
      then m2a_query (\<lambda>d. length (db_delivery_tasks d)
             + length (filter (\<lambda>(k, _). hm_get (db_delivery_tasks d) k = None) (db_task_owners d)))
      else query (\<lambda>d. length (db_task_owners d)))"

definition claim_cutoff :: "codec \<Rightarrow> i64 \<Rightarrow> (A2AError, string) res" where
  "claim_cutoff cd now_unix_ms =
     res_bind (ok_or (cd_timestamp_millis cd (saturating_sub_i64 now_unix_ms TERMINAL_RETENTION_MS))
       (Internal ''retained task cutoff is invalid'')) (\<lambda>t. Ok (cd_rfc3339_nanos cd t))"

definition terminal_state_strings :: "codec \<Rightarrow> (A2AError, string list) res" where
  "terminal_state_strings cd =
     res_bind (serialized_string cd TsCompleted ''task state serialization failed'') (\<lambda>a.
     res_bind (serialized_string cd TsCanceled ''task state serialization failed'') (\<lambda>b.
     res_bind (serialized_string cd TsFailed ''task state serialization failed'') (\<lambda>c.
     res_bind (serialized_string cd TsRejected ''task state serialization failed'') (\<lambda>d.
     Ok [a, b, c, d]))))"

text \<open>The claim of a task without an owner, and of one that has an owner already.\<close>

definition claim_unowned ::
    "string \<Rightarrow> RegistrationId \<Rightarrow> AgentName \<Rightarrow> i64 \<Rightarrow> (SqliteTaskStore, A2AError, bool) op" where
  "claim_unowned task_id registration_id recipient schema_version =
     bindM (map_error (\<lambda>_. database_error) (retained_owners schema_version)) (\<lambda>retained.
     if retained \<ge> MAX_RETAINED_TASKS
     then bindM (map_error (\<lambda>_. database_error) commit_transaction) (\<lambda>_.
          throw (InvalidRequest ''retained task capacity is exhausted''))
     else
     bindM (map_error (\<lambda>_. database_error) (query (\<lambda>d. hm_get (db_tasks d) task_id \<noteq> None))) (\<lambda>task_exists.
     bindM (lift_res (if task_exists
       then Err (InvalidParams ''existing task has no established sender owner'') else Ok ())) (\<lambda>_.
     bindM (map_error (\<lambda>_. database_error) (execute (\<lambda>d. d\<lparr>db_task_owners := hm_insert task_id
       \<lparr>ow_registration_id = registration_id, ow_recipient = Some recipient\<rparr> (db_task_owners d)\<rparr>))) (\<lambda>_.
     bindM (map_error (\<lambda>_. database_error) commit_transaction) (\<lambda>_.
     ret True)))))"

definition claim_owned :: "RegistrationId \<Rightarrow> AgentName \<Rightarrow> OwnerRow \<Rightarrow> (SqliteTaskStore, A2AError, bool) op" where
  "claim_owned registration_id recipient existing =
     bindM (lift_res (if ow_registration_id existing \<noteq> registration_id
       then Err (InvalidParams ''task is owned by another registration'') else Ok ())) (\<lambda>_.
     bindM (lift_res (if ow_recipient existing \<noteq> Some recipient
       then Err (InvalidParams ''task recipient does not match established recipient'') else Ok ())) (\<lambda>_.
     bindM (map_error (\<lambda>_. database_error) commit_transaction) (\<lambda>_.
     ret False)))"

definition refuse_retained :: "string \<Rightarrow> i64 \<Rightarrow> (SqliteTaskStore, A2AError, unit) op" where
  "refuse_retained task_id schema_version =
     (if schema_version = 1
      then bindM (map_error (\<lambda>_. database_error) (m2a_query (\<lambda>d. hm_get (db_delivery_tasks d) task_id))) (\<lambda>retained.
           lift_res (if retained \<noteq> None then Err (InvalidParams ''task ID is already retained'') else Ok ()))
      else ret ())"

definition claim_task_owner ::
    "codec \<Rightarrow> string \<Rightarrow> RegistrationId \<Rightarrow> AgentName \<Rightarrow> i64 \<Rightarrow> (SqliteTaskStore, A2AError, bool) op" where
  "claim_task_owner cd task_id registration_id recipient now_unix_ms =
     bindM (lift_res (claim_cutoff cd now_unix_ms)) (\<lambda>cutoff.
     bindM (lift_res (terminal_state_strings cd)) (\<lambda>terminal_states.
     transaction
       (bindM (map_error (\<lambda>_. database_error) (query db_user_version)) (\<lambda>schema_version.
        bindM (refuse_retained task_id schema_version) (\<lambda>_.
        bindM (map_error (\<lambda>_. database_error) (execute (delete_expired_owners terminal_states cutoff))) (\<lambda>_.
        bindM (map_error (\<lambda>_. database_error) (execute (delete_expired_tasks terminal_states cutoff))) (\<lambda>_.
        bindM (map_error (\<lambda>_. database_error) (query (\<lambda>d. hm_get (db_task_owners d) task_id))) (\<lambda>existing.
        case existing of
          Some owner \<Rightarrow> claim_owned registration_id recipient owner
        | None \<Rightarrow> claim_unowned task_id registration_id recipient schema_version))))))
       (\<lambda>_. database_error)))"

definition unpersisted_owner :: "string \<Rightarrow> RegistrationId \<Rightarrow> Database \<Rightarrow> bool" where
  "unpersisted_owner task_id registration_id d \<longleftrightarrow>
     (case hm_get (db_task_owners d) task_id of
        None \<Rightarrow> False
      | Some owner \<Rightarrow> ow_registration_id owner = registration_id \<and> hm_get (db_tasks d) task_id = None)"

definition remove_task_owner_if_unpersisted ::
    "string \<Rightarrow> RegistrationId \<Rightarrow> (SqliteTaskStore, A2AError, bool) op" where
  "remove_task_owner_if_unpersisted task_id registration_id =
     bindM (gets (\<lambda>s. unpersisted_owner task_id registration_id (sq_database s))) (\<lambda>changed.
     bindM (map_error (\<lambda>_. database_error) (execute (\<lambda>d. if unpersisted_owner task_id registration_id d
       then d\<lparr>db_task_owners := hm_remove task_id (db_task_owners d)\<rparr> else d))) (\<lambda>_.
     ret changed))"

definition task_owner :: "(string \<Rightarrow> (nat \<times> bool \<times> string) option) \<Rightarrow> string \<Rightarrow>
     (SqliteTaskStore, A2AError, RegistrationId option) op" where
  "task_owner parse_uuid task_id =
     bindM (map_error (\<lambda>_. database_error)
       (query (\<lambda>d. map_option ow_registration_id (hm_get (db_task_owners d) task_id)))) (\<lambda>owner.
     case owner of
       None \<Rightarrow> ret None
     | Some value \<Rightarrow> bindM (lift_res (map_err (Internal ''stored task owner is invalid'')
         (RegistrationId_parse parse_uuid value))) (\<lambda>registration_id. ret (Some registration_id)))"

end
