(* ===== verification/Store_Writes.thy ===== *)
theory Store_Writes
  imports Store_Tasks Ledger_Commit
begin

text \<open>
  What the SDK's writes and the claims of owners do to the store: a write leaves the ledger alone, applies
  either the projection of the ledger's task or nothing, and an error leaves the database as it was.
\<close>

section \<open>Applying a projection\<close>

abbreviation others_same :: "string \<Rightarrow> Database \<Rightarrow> Database \<Rightarrow> bool" where
  "others_same k d d' \<equiv> (\<forall>k'. k' \<noteq> k \<longrightarrow> hm_get (db_tasks d') k' = hm_get (db_tasks d) k'
     \<and> hm_get (db_projection_outbox d') k' = hm_get (db_projection_outbox d) k')"

lemma delete_outbox_others:
  "k' \<noteq> k \<Longrightarrow> hm_get (db_projection_outbox (delete_outbox k v d)) k' = hm_get (db_projection_outbox d) k'"
  by (simp add: delete_outbox_def split: option.splits)

lemma apply_authorized_rule:
  "wp (apply_authorized_projection cd c)
     (\<lambda>e s'. ledger_part (sq_database s') = ledger_part (sq_database s) \<and> tx s' = tx s
        \<and> (e = InvalidData PROJECTION_NOT_AUTHORIZED \<longrightarrow> sq_database s' = sq_database s))
     (\<lambda>_ s'. ledger_part (sq_database s') = ledger_part (sq_database s) \<and> tx s' = tx s
        \<and> others_same (tc_task_id c) (sq_database s) (sq_database s')) s"
proof -
  have reads: "keeps content (validate_outbox_entry cd i v j)" for i v j
    by (intro keeps_intros) (simp add: content_def)
  show ?thesis
    unfolding apply_authorized_projection_def
    by (auto simp: content_def PROJECTION_NOT_AUTHORIZED_def delete_outbox_others
        intro!: keeps_wp [OF reads] split: option.splits)
qed

text \<open>The task of the ledger whose projection the store serves, and its version.\<close>

definition serves_task :: "codec \<Rightarrow> string \<Rightarrow> DurableTask \<Rightarrow> Database \<Rightarrow> bool" where
  "serves_task cd k t d \<longleftrightarrow>
     (\<exists>row. stored_row d k = Some row \<and> row_legacy_quarantined row = 0 \<and> decode_durable_task cd row = Ok t
        \<and> projection_matches cd row d \<and> hm_get (db_projection_outbox d) k = None)"

definition serves_version :: "codec \<Rightarrow> string \<Rightarrow> u64 \<Rightarrow> Database \<Rightarrow> bool" where
  "serves_version cd k v d \<longleftrightarrow> (\<exists>t. serves_task cd k t d \<and> dt_state_version t = v)"

lemma serves_task_unique: "serves_task cd k t d \<Longrightarrow> serves_task cd k t' d \<Longrightarrow> t' = t"
  by (auto simp: serves_task_def)

lemma clean_rule:
  "wp (clean_authoritative_projection cd k) (\<lambda>_ s'. content s' = content s)
     (\<lambda>(t, json) s'. content s' = content s \<and> serves_task cd k t (sq_database s)) s"
  unfolding clean_authoritative_projection_def stored_task_row_def serves_task_def
  by (auto simp: wp_lift_res content_def projection_matches_def stored_row_def i64_of_u64_def
      split: option.splits if_splits)

lemma wp_in_admissions [simp]:
  "wp (in_admissions m) E Q s =
     wp m (\<lambda>e a. E e (s\<lparr>sq_admissions := a\<rparr>)) (\<lambda>x a. Q x (s\<lparr>sq_admissions := a\<rparr>)) (sq_admissions s)"
  by (simp add: wp_def in_admissions_def split: prod.splits res.splits)

lemma commit_consumed_rule:
  assumes "registry_ok (sq_admissions s)"
  shows "wp (commit_consumed k consumed)
    (\<lambda>_ s'. sq_transaction s' = sq_transaction s \<and> registry_ok (sq_admissions s')
       \<and> (\<forall>a. consumed = Some a \<longrightarrow> (\<exists>q. hm_get (ar_by_task (sq_admissions s')) k = Some (q @ [a]))))
    (\<lambda>_ s'. sq_transaction s' = None \<and> sq_database s' = sq_database s \<and> sq_admissions s' = sq_admissions s) s"
  using assms unfolding commit_consumed_def
  by (auto split: option.splits simp del: map_of_eq_Some_iff intro!: wp_conseq [OF restore_admission_ok])

text \<open>
  The states of a write of task \<open>k\<close> which began on the database \<open>d\<close>: during the transaction, and after it
  was committed with version \<open>v\<close>.
\<close>

definition write_open :: "string \<Rightarrow> Database \<Rightarrow> SqliteTaskStore \<Rightarrow> bool" where
  "write_open k d s \<longleftrightarrow> sq_transaction s = Some d \<and> registry_ok (sq_admissions s)
     \<and> ledger_part (sq_database s) = ledger_part d \<and> others_same k d (sq_database s)"

definition write_failed :: "Database \<Rightarrow> A2AError \<Rightarrow> SqliteTaskStore \<Rightarrow> bool" where
  "write_failed d e s \<longleftrightarrow> sq_transaction s = Some d \<and> registry_ok (sq_admissions s)"

definition write_done :: "codec \<Rightarrow> string \<Rightarrow> Database \<Rightarrow> u64 \<Rightarrow> SqliteTaskStore \<Rightarrow> bool" where
  "write_done cd k d v s \<longleftrightarrow> sq_transaction s = None \<and> registry_ok (sq_admissions s)
     \<and> ledger_part (sq_database s) = ledger_part d \<and> others_same k d (sq_database s) \<and> serves_version cd k v (sq_database s)"

lemma write_open_content:
  assumes "write_open k d s" "content s' = content s"
  shows "write_open k d s'" "write_failed d e s'" "sq_database s' = sq_database s"
  using assms by (auto simp: write_open_def write_failed_def content_def)

lemma consume_announced_rule:
  assumes "write_open k d s"
  shows "wp (consume_announced digest c over t) E (\<lambda>x s'. write_open k d s' \<and> sq_database s' = sq_database s) s"
proof -
  obtain x r' where xr: "consume_admission (tc_task_id c) (digest (tc_task_json c)) (dt_state_version t)
      (TaskIncarnation_from t) over (sq_admissions s) = (x, r')" by force
  have "registry_ok r'" using consume_admission_ok(1) [OF _ xr] assms by (simp add: write_open_def)
  with xr assms show ?thesis by (simp add: consume_announced_def write_open_def wp_def in_admissions_def)
qed

lemma finish_rule:
  assumes open_s: "write_open (tc_task_id c) d s" and serves: "serves_version cd (tc_task_id c) v (sq_database s)"
  shows "wp (bindM (lift_res (if over \<and> x = None then Err projection_not_authorized_error else Ok ()))
      (\<lambda>_. bindM (commit_consumed (tc_task_id c) x) (\<lambda>_. ret v))) (write_failed d) (write_done cd (tc_task_id c) d) s"
proof -
  have "registry_ok (sq_admissions s)" using open_s by (simp add: write_open_def)
  from commit_consumed_rule [OF this, of "tc_task_id c" x] assms show ?thesis
    by (auto simp: write_failed_def write_open_def write_done_def elim!: wp_conseq simp del: map_of_eq_Some_iff)
qed

lemma settle_rule:
  assumes open_s: "write_open (tc_task_id c) d s"
  shows "wp (settle_projection cd digest c (version, over)) (write_failed d) (write_done cd (tc_task_id c) d) s"
proof -
  define rest where "rest t = bindM (consume_announced digest c over t) (\<lambda>x.
      bindM (lift_res (if over \<and> x = None then Err projection_not_authorized_error else Ok ()))
        (\<lambda>_. bindM (commit_consumed (tc_task_id c) x) (\<lambda>_. ret (dt_state_version t))))" for t
  have tail: "wp (rest t) (write_failed d) (write_done cd (tc_task_id c) d) s'"
    if c': "content s' = content s" and task: "serves_task cd (tc_task_id c) t (sq_database s)" for t s'
    unfolding rest_def
  proof (subst wp_bindM, rule wp_conseq [OF consume_announced_rule [OF write_open_content(1) [OF open_s c']]])
    fix x t'
    assume "write_open (tc_task_id c) d t' \<and> sq_database t' = sq_database s'"
    then show "wp (bindM (lift_res (if over \<and> x = None then Err projection_not_authorized_error else Ok ()))
        (\<lambda>_. bindM (commit_consumed (tc_task_id c) x) (\<lambda>_. ret (dt_state_version t))))
        (write_failed d) (write_done cd (tc_task_id c) d) t'"
      using task write_open_content(3) [OF open_s c'] by (intro finish_rule) (auto simp: serves_version_def)
  qed
  show ?thesis
    unfolding settle_projection_def case_prod_conv rest_def [symmetric]
    by (subst wp_bindM, subst wp_attempt, rule wp_conseq [OF clean_rule])
      (auto simp: authoritative_outcome_def wp_lift_res tail intro: write_open_content(2) [OF open_s])
qed

lemma apply_sdk_rule:
  assumes reg: "registry_ok (sq_admissions s)"
  shows "wp (apply_sdk_projection cd digest task)
    (\<lambda>_ s'. sq_database s' = sq_database s \<and> registry_ok (sq_admissions s'))
    (\<lambda>v s'. ledger_part (sq_database s') = ledger_part (sq_database s) \<and> registry_ok (sq_admissions s')
       \<and> others_same (tk_id task) (sq_database s) (sq_database s') \<and> serves_version cd (tk_id task) v (sq_database s')) s"
proof (cases "TaskColumns_from_task cd task")
  case (Ok c)
  let ?s = "(tick s)\<lparr>sq_transaction := Some (sq_database s)\<rparr>" and ?d = "sq_database s"
  have "wp (bindM (attempt (apply_authorized_projection cd c)) (\<lambda>application.
        bindM (lift_res (application_outcome application)) (settle_projection cd digest c)))
      (write_failed ?d) (write_done cd (tc_task_id c) ?d) ?s"
    unfolding wp_bindM wp_attempt
  proof (rule wp_conseq [OF apply_authorized_rule])
  qed (use reg in \<open>auto simp: application_outcome_def wp_lift_res write_failed_def intro!: settle_rule simp add: write_open_def\<close>)
  with Ok reg columns_task_id [OF Ok] show ?thesis
    unfolding apply_sdk_projection_def
    by (auto simp: write_failed_def write_done_def intro!: wp_transaction elim!: wp_conseq simp del: map_of_eq_Some_iff)
qed (simp_all add: apply_sdk_projection_def reg wp_lift_res)

section \<open>Writes that were overtaken\<close>

lemma quiet_statement: "sq_faults s = [] \<Longrightarrow> \<not> faulty s \<and> tick s = s"
  by (simp add: faulty_def tick_def)

text \<open>
  A write of a state of the task that the ledger has left behind, on a store without faults: the ledger
  refuses it, but the task as the store serves it is current.
\<close>

lemma apply_overtaken:
  assumes "sq_faults s = []" "db_m2a (sq_database s)" "serves_task cd (tc_task_id c) t (sq_database s)"
    and "\<And>p. hm_get (db_tasks (sq_database s)) (tc_task_id c) = Some p \<Longrightarrow> pr_task_json p \<noteq> tc_task_json c"
  shows "wp (apply_authorized_projection cd c) (\<lambda>e s'. e = InvalidData PROJECTION_NOT_AUTHORIZED \<and> s' = s) (\<lambda>_ _. False) s"
proof -
  have none: "hm_get (db_projection_outbox (sq_database s)) (tc_task_id c) = None"
    using assms(3) by (auto simp: serves_task_def)
  with assms(2,4) quiet_statement [OF assms(1)] show ?thesis
    by (auto simp: apply_authorized_projection_def split: option.splits)
qed

lemma clean_serves:
  assumes quiet: "sq_faults s = []" "db_m2a (sq_database s)" and serves: "serves_task cd k t (sq_database s)"
    and bound: "dt_state_version t \<le> nat i64_max"
  shows "wp (clean_authoritative_projection cd k) (\<lambda>_ _. False) (\<lambda>(t', json) s'. t' = t \<and> s' = s) s"
proof -
  obtain row where row: "stored_row (sq_database s) k = Some row" "row_legacy_quarantined row = 0"
    "decode_durable_task cd row = Ok t" "projection_matches cd row (sq_database s)"
    "hm_get (db_projection_outbox (sq_database s)) k = None" using serves by (auto simp: serves_task_def)
  have k: "row_task_id row = k" using row(1) by (auto simp: stored_row_def)
  obtain json projection columns p where "projection_json cd t = Ok json" "cd_task_parse cd json = Some projection"
    "TaskColumns_from_task cd projection = Ok columns" "hm_get (db_tasks (sq_database s)) k = Some p"
    "projection_current columns (int (dt_state_version t)) p"
    using row(3,4) k by (auto simp: projection_matches_def)
  moreover have "int (dt_state_version t) \<le> i64_max" using bound by (simp add: nat_le_iff i64_max_def)
  ultimately show ?thesis using quiet row quiet_statement [OF quiet(1)]
    by (simp add: clean_authoritative_projection_def stored_task_row_def i64_of_u64_def or_invalid_def ok_or_def valid_or_def)
qed

lemma position_found: "x \<in> set xs \<Longrightarrow> p x \<Longrightarrow> \<exists>i. position p xs = Some i"
  by (induction xs) auto

definition announced :: "(string \<Rightarrow> string) \<Rightarrow> TaskColumns \<Rightarrow> DurableTask \<Rightarrow> SdkProjectionAdmissionRegistry \<Rightarrow> bool" where
  "announced digest c t r \<longleftrightarrow>
     (\<exists>q. hm_get (ar_by_task r) (tc_task_id c) = Some q
        \<and> list_ex (admits (digest (tc_task_json c)) (dt_state_version t) (TaskIncarnation_from t) True) q)"

lemma consume_found:
  assumes "registry_ok (sq_admissions s)" "announced digest c t (sq_admissions s)"
  shows "wp (consume_announced digest c True t) (\<lambda>_ _. False)
    (\<lambda>x s'. x \<noteq> None \<and> sq_database s' = sq_database s \<and> sq_faults s' = sq_faults s
       \<and> ar_total (sq_admissions s) = Suc (ar_total (sq_admissions s'))) s"
proof -
  obtain x r' where xr: "consume_admission (tc_task_id c) (digest (tc_task_json c)) (dt_state_version t)
      (TaskIncarnation_from t) True (sq_admissions s) = (x, r')" by force
  have "x \<noteq> None" using assms(2) xr position_found
    by (fastforce simp: announced_def consume_admission_def list_ex_iff split: option.splits simp del: map_of_eq_Some_iff)
  with consume_admission_ok(2) [OF assms(1) xr] xr show ?thesis
    by (auto simp: consume_announced_def wp_def in_admissions_def)
qed

lemma overtaken_write:
  assumes quiet: "sq_faults s = []" "db_m2a (sq_database s)" and reg: "registry_ok (sq_admissions s)"
    and c: "TaskColumns_from_task cd task = Ok c"
    and task: "serves_task cd (tc_task_id c) t (sq_database s)" "dt_state_version t \<le> nat i64_max"
    and stale: "\<And>p. hm_get (db_tasks (sq_database s)) (tc_task_id c) = Some p \<Longrightarrow> pr_task_json p \<noteq> tc_task_json c"
    and ann: "announced digest c t (sq_admissions s)"
  shows "wp (apply_sdk_projection cd digest task) (\<lambda>_ _. False)
    (\<lambda>v s'. v = dt_state_version t \<and> sq_database s' = sq_database s
       \<and> ar_total (sq_admissions s) = Suc (ar_total (sq_admissions s'))) s"
proof -
  let ?s = "s\<lparr>sq_transaction := Some (sq_database s)\<rparr>"
  have serves: "serves_task cd (tc_task_id c) t (sq_database ?s)" using task by simp
  have consume: "wp (bindM (consume_announced digest c True t) (\<lambda>x.
      bindM (lift_res (if True \<and> x = None then Err projection_not_authorized_error else Ok ()))
        (\<lambda>_. bindM (commit_consumed (tc_task_id c) x) (\<lambda>_. ret (dt_state_version t))))) (\<lambda>_ _. False)
      (\<lambda>v s'. v = dt_state_version t \<and> sq_database s' = sq_database s \<and> sq_transaction s' = None
         \<and> ar_total (sq_admissions s) = Suc (ar_total (sq_admissions s'))) ?s"
    unfolding wp_bindM
    by (rule wp_conseq [OF consume_found])
      (use reg ann quiet(1) in \<open>auto simp: commit_consumed_def quiet_statement\<close>)
  have ap: "apply_authorized_projection cd c ?s = (Err (InvalidData PROJECTION_NOT_AUTHORIZED), ?s)"
    using apply_overtaken [OF _ _ serves] quiet stale by (auto simp: wp_def split: prod.splits res.splits)
  obtain json where cl: "clean_authoritative_projection cd (tc_task_id c) ?s = (Ok (t, json), ?s)"
    using clean_serves [of ?s cd "tc_task_id c" t] quiet task by (auto simp: wp_def split: prod.splits res.splits)
  have "wp (settle_projection cd digest c (0, True)) (\<lambda>_ _. False)
      (\<lambda>v s'. v = dt_state_version t \<and> sq_database s' = sq_database s \<and> sq_transaction s' = None
         \<and> ar_total (sq_admissions s) = Suc (ar_total (sq_admissions s'))) ?s"
    using consume by (simp add: settle_projection_def wp_total [where m = "clean_authoritative_projection cd (tc_task_id c)", OF cl] authoritative_outcome_def)
  with c quiet_statement [OF quiet(1)] show ?thesis
    by (auto simp: apply_sdk_projection_def application_outcome_def begin_immediate_def
        transaction_def wp_def bindM_def query_def modify_def attempt_def ap lift_res_def split: prod.splits res.splits)
qed

text \<open>An announcement records the task as the store serves it, and leaves the database alone.\<close>

lemma authorize_announces:
  assumes c: "TaskColumns_from_task cd task = Ok c" and reg: "registry_ok (sq_admissions s)"
    and run: "authorize_sdk_projection cd digest task s = (Ok (), s1)"
  shows "\<exists>t0 q a. serves_task cd (tk_id task) t0 (sq_database s)
    \<and> hm_get (ar_by_task (sq_admissions s1)) (tk_id task) = Some q \<and> a \<in> set q
    \<and> ad_fingerprint a = digest (tc_task_json c) \<and> ad_version a = dt_state_version t0
    \<and> ad_incarnation a = TaskIncarnation_from t0 \<and> registry_ok (sq_admissions s1) \<and> sq_database s1 = sq_database s"
proof -
  note k = columns_task_id [OF c]
  obtain t0 j s0 where cl: "clean_authoritative_projection cd (tk_id task) s = (Ok (t0, j), s0)"
    using run c k by (auto simp: authorize_sdk_projection_def bindM_def lift_res_def map_error_def split: prod.splits res.splits)
  have same: "content s0 = content s" "serves_task cd (tk_id task) t0 (sq_database s)"
    using wp_result(2) [OF clean_rule cl] by simp_all
  have reg0: "registry_ok (sq_admissions s0)" using reg same(1) by (simp add: content_def)
  have run': "in_admissions (record_admission (tk_id task) (digest (tc_task_json c)) (dt_state_version t0)
      (TaskIncarnation_from t0)) s0 = (Ok (), s1)"
    using run c k cl by (simp add: authorize_sdk_projection_def bindM_def lift_res_def map_error_def split: if_splits)
  obtain r where r: "record_admission (tk_id task) (digest (tc_task_json c)) (dt_state_version t0)
      (TaskIncarnation_from t0) (sq_admissions s0) = (Ok (), r)" "s1 = s0\<lparr>sq_admissions := r\<rparr>"
    using run' by (auto simp: in_admissions_def split: prod.splits)
  have "registry_ok r \<and> (\<exists>q. hm_get (ar_by_task r) (tk_id task) = Some (q @ [\<lparr>ad_fingerprint = digest (tc_task_json c),
      ad_version = dt_state_version t0, ad_incarnation = TaskIncarnation_from t0, ad_sequence = ar_next_sequence (sq_admissions s0)\<rparr>]))"
    using wp_result(2) [OF record_admission_ok [OF reg0] r(1)] by blast
  with r(2) same show ?thesis by (force simp: content_def simp del: map_of_eq_Some_iff)
qed

section \<open>Claims of owners\<close>

text \<open>What a claim that returns has established: the owner, and whether it is new.\<close>

definition claimed :: "string \<Rightarrow> RegistrationId \<Rightarrow> AgentName \<Rightarrow> Database \<Rightarrow> bool \<Rightarrow> Database \<Rightarrow> bool" where
  "claimed k registration recipient d fresh d' \<longleftrightarrow>
     hm_get (db_task_owners d') k = Some \<lparr>ow_registration_id = registration, ow_recipient = Some recipient\<rparr>
     \<and> db_delivery_tasks d' = db_delivery_tasks d
     \<and> (db_user_version d = 1 \<longrightarrow> hm_get (db_delivery_tasks d) k = None)
     \<and> (if fresh then hm_get (db_tasks d') k = None \<and> length (db_task_owners d') \<le> length (db_task_owners d) + 1
          \<and> (hm_get (db_tasks d) k = None \<longrightarrow> hm_get (db_task_owners d) k = None)
        else hm_get (db_task_owners d) k = hm_get (db_task_owners d') k)"

lemma hm_get_filter_key: "hm_get (filter (\<lambda>(k, _). P k) m) k = (if P k then hm_get m k else None)"
  by (induction m) auto

lemma owners_filtered:
  "hm_get (db_task_owners (delete_expired_owners ts cutoff d)) k = Some owner \<Longrightarrow> hm_get (db_task_owners d) k = Some owner"
  by (simp add: delete_expired_owners_def hm_get_filter_key split: if_splits del: map_of_eq_Some_iff)

lemma owners_without_task:
  "hm_get (db_tasks d) k = None \<Longrightarrow> hm_get (db_task_owners (delete_expired_owners ts cutoff d)) k = hm_get (db_task_owners d) k"
  by (simp add: delete_expired_owners_def hm_get_filter_key)

lemma expired_tables [simp]:
  "db_delivery_tasks (delete_expired_owners ts cutoff d) = db_delivery_tasks d"
  "db_delivery_tasks (delete_expired_tasks ts cutoff d) = db_delivery_tasks d"
  "db_m2a (delete_expired_owners ts cutoff d) = db_m2a d" "db_m2a (delete_expired_tasks ts cutoff d) = db_m2a d"
  "db_task_owners (delete_expired_tasks ts cutoff d) = db_task_owners d"
  "length (db_task_owners (delete_expired_owners ts cutoff d)) \<le> length (db_task_owners d)"
  by (simp_all add: delete_expired_owners_def delete_expired_tasks_def)

definition pruned :: "Database \<Rightarrow> Database \<Rightarrow> bool" where
  "pruned d d1 \<longleftrightarrow> db_delivery_tasks d1 = db_delivery_tasks d \<and> length (db_task_owners d1) \<le> length (db_task_owners d)
     \<and> (\<forall>k owner. hm_get (db_task_owners d1) k = Some owner \<longrightarrow> hm_get (db_task_owners d) k = Some owner)
     \<and> (\<forall>k. hm_get (db_tasks d) k = None \<longrightarrow> hm_get (db_task_owners d1) k = hm_get (db_task_owners d) k)"

lemma pruned_expired: "pruned d (delete_expired_tasks ts cutoff (delete_expired_owners ts cutoff d))"
  using expired_tables(6) [of ts cutoff d] owners_filtered [of ts cutoff d] owners_without_task [of d _ ts cutoff]
  unfolding pruned_def expired_tables(1-5) by blast

lemma claim_unowned_rule:
  assumes s: "sq_transaction s = Some d" "pruned d (sq_database s)" "sv = 1 \<longrightarrow> hm_get (db_delivery_tasks d) k = None"
    "sv = db_user_version d" and none: "hm_get (db_task_owners (sq_database s)) k = None"
  shows "wp (claim_unowned k registration recipient sv)
    (\<lambda>e s'. sq_transaction s' = Some d \<or> e = InvalidRequest ''retained task capacity is exhausted'')
    (\<lambda>fresh s'. sq_transaction s' = None \<and> claimed k registration recipient d fresh (sq_database s')) s"
proof -
  have le: "length (hm_insert k v (db_task_owners (sq_database s))) \<le> Suc (length (db_task_owners d))" for v
  proof -
    have "length (db_task_owners (sq_database s)) \<le> length (db_task_owners d)" using s(2) unfolding pruned_def by blast
    then show ?thesis using length_hm_insert_le [of k v "db_task_owners (sq_database s)"] by (simp split: if_splits)
  qed
  have rows: "db_delivery_tasks (sq_database s) = db_delivery_tasks d"
    and owners: "hm_get (db_tasks d) k = None \<longrightarrow> hm_get (db_task_owners (sq_database s)) k = hm_get (db_task_owners d) k"
    using s(2) unfolding pruned_def by blast+
  have "hm_get (db_tasks d) k = None \<longrightarrow> hm_get (db_task_owners d) k = None" using owners none by simp
  with rows s(1,3,4) le show ?thesis
    by (auto simp: claim_unowned_def retained_owners_def claimed_def simp del: map_of_eq_Some_iff)
qed

lemma claim_owned_rule:
  assumes s: "sq_transaction s = Some d" "pruned d (sq_database s)" "sv = 1 \<longrightarrow> hm_get (db_delivery_tasks d) k = None"
    "sv = db_user_version d" and owner: "hm_get (db_task_owners (sq_database s)) k = Some owner"
  shows "wp (claim_owned registration recipient owner) (\<lambda>_ s'. sq_transaction s' = Some d)
    (\<lambda>fresh s'. sq_transaction s' = None \<and> claimed k registration recipient d fresh (sq_database s')) s"
proof -
  have "db_delivery_tasks (sq_database s) = db_delivery_tasks d" "hm_get (db_task_owners d) k = Some owner"
    using s(2) owner unfolding pruned_def by blast+
  with s(1,3,4) owner show ?thesis
    by (cases owner) (auto simp: claim_owned_def claimed_def simp del: map_of_eq_Some_iff)
qed

lemma claim_rule:
  "wp (claim_task_owner cd k registration recipient now)
     (\<lambda>e s'. sq_database s' = sq_database s \<or> e = InvalidRequest ''retained task capacity is exhausted'')
     (\<lambda>fresh s'. claimed k registration recipient (sq_database s) fresh (sq_database s')) s"
proof -
  have "wp (case x of Some owner \<Rightarrow> claim_owned registration recipient owner | None \<Rightarrow> claim_unowned k registration recipient sv)
      (\<lambda>e s'. sq_transaction s' = Some d \<or> e = InvalidRequest ''retained task capacity is exhausted'')
      (\<lambda>fresh s'. sq_transaction s' = None \<and> claimed k registration recipient d fresh (sq_database s')) s"
    if "sq_transaction s = Some d" "pruned d (sq_database s)" "sv = 1 \<longrightarrow> hm_get (db_delivery_tasks d) k = None"
      "sv = db_user_version d" "x = hm_get (db_task_owners (sq_database s)) k" for x sv d s
  proof (cases x)
    case None
    then show ?thesis using claim_unowned_rule [OF that(1-4)] that(5) by simp
  next
    case (Some owner)
    then have "hm_get (db_task_owners (sq_database s)) k = Some owner" using that(5) by simp
    from claim_owned_rule [OF that(1-4) this] show ?thesis unfolding Some option.case by (rule wp_conseq) simp_all
  qed
  note choice = wp_conseq [OF this]
  have "claim_cutoff cd now \<noteq> Panic" "terminal_state_strings cd \<noteq> Panic"
    by (simp_all add: claim_cutoff_def terminal_state_strings_def serialized_string_def res_bind_eq_Panic)
  then show ?thesis
    unfolding claim_task_owner_def refuse_retained_def
    by (auto simp: wp_lift_res pruned_expired intro!: wp_transaction choice simp del: map_of_eq_Some_iff)
qed

end
