(* ===== verification/Store_Listing.thy ===== *)
theory Store_Listing
  imports Store_Tasks
begin

text \<open>
  The listings of \<^verbatim>\<open>herdr-a2a-broker/src/store.rs\<close>: \<^verbatim>\<open>list\<close> over all stored tasks and \<^verbatim>\<open>list_owned\<close> over those
  which an agent has sent, in pages whose tokens are cursors.

  The two differ in the rows they see and in the tables they read; \<open>list_page\<close> is what they share.  The
  serializer of a cursor is the parameter \<open>page_codec\<close>.
\<close>

section \<open>Requests, responses and cursors\<close>

type_synonym i32 = int

definition i32_max :: int where "i32_max = 2 ^ 31 - 1"

definition DEFAULT_PAGE_SIZE :: i32 where "DEFAULT_PAGE_SIZE = 50"
definition MIN_PAGE_SIZE :: i32 where "MIN_PAGE_SIZE = 1"
definition MAX_PAGE_SIZE :: i32 where "MAX_PAGE_SIZE = 100"
definition PAGE_CURSOR_VERSION :: nat where "PAGE_CURSOR_VERSION = 3"
definition MAX_PAGE_TOKEN_BYTES :: nat where "MAX_PAGE_TOKEN_BYTES = 2048"

record ListTasksRequest =
  lq_context_id :: "string option"
  lq_status :: "TaskState option"
  lq_page_size :: "i32 option"
  lq_page_token :: "string option"
  lq_history_length :: "i32 option"
  lq_status_timestamp_after :: "DateTime option"
  lq_include_artifacts :: "bool option"

record ListTasksResponse =
  lp_tasks :: "Task list"
  lp_next_page_token :: string
  lp_page_size :: i32
  lp_total_size :: i32

record PageCursor =
  pc_version :: nat
  pc_row_id :: i64
  pc_status_timestamp :: string

record page_codec =
  pg_json :: "PageCursor \<Rightarrow> string option"
  pg_parse :: "string \<Rightarrow> PageCursor option"

definition valid_cursor :: "codec \<Rightarrow> PageCursor \<Rightarrow> bool" where
  "valid_cursor cd cursor \<longleftrightarrow>
     pc_version cursor = PAGE_CURSOR_VERSION \<and> pc_row_id cursor > 0
     \<and> (pc_status_timestamp cursor = []
        \<or> (case cd_parse_rfc3339 cd (pc_status_timestamp cursor) of
             None \<Rightarrow> False
           | Some t \<Rightarrow> sortable_timestamp cd t = pc_status_timestamp cursor))"

definition decode_cursor :: "codec \<Rightarrow> page_codec \<Rightarrow> string option \<Rightarrow> (A2AError, PageCursor option) res" where
  "decode_cursor cd pg token =
     (case token of
        None \<Rightarrow> Ok None
      | Some token \<Rightarrow>
          if token = [] then Ok None
          else if length token > MAX_PAGE_TOKEN_BYTES then Err (InvalidParams ''invalid page token'')
          else res_bind (ok_or (pg_parse pg token) (InvalidParams ''invalid page token'')) (\<lambda>cursor.
               if \<not> valid_cursor cd cursor then Err (InvalidParams ''invalid page token'') else Ok (Some cursor)))"

definition encode_cursor :: "codec \<Rightarrow> page_codec \<Rightarrow> i64 \<Rightarrow> string \<Rightarrow> (A2AError, string) res" where
  "encode_cursor cd pg row_id status_timestamp =
     (let cursor = \<lparr>pc_version = PAGE_CURSOR_VERSION, pc_row_id = row_id, pc_status_timestamp = status_timestamp\<rparr> in
      if \<not> valid_cursor cd cursor then Err (Internal ''page token serialization failed'')
      else res_bind (ok_or (pg_json pg cursor) (Internal ''page token serialization failed'')) (\<lambda>token.
           if length token > MAX_PAGE_TOKEN_BYTES then Err (Internal ''page token serialization failed'')
           else Ok token))"

definition shape_history :: "i32 option \<Rightarrow> Message list \<Rightarrow> Message list" where
  "shape_history history_length history =
     (case history_length of
        None \<Rightarrow> history
      | Some n \<Rightarrow>
          if n = 0 then []
          else if n > 0 then (if length history > nat n then drop (length history - nat n) history else history)
          else history)"

definition shape_listed_task :: "ListTasksRequest \<Rightarrow> Task \<Rightarrow> Task" where
  "shape_listed_task request task =
     task\<lparr>tk_artifacts := (if lq_include_artifacts request \<noteq> Some True then None else tk_artifacts task),
          tk_history := map_option (shape_history (lq_history_length request)) (tk_history task)\<rparr>"

section \<open>The rows of a listing\<close>

text \<open>\<^verbatim>\<open>ORDER BY status_timestamp DESC, task_id DESC\<close>.\<close>

definition row_key :: "string \<times> TaskRow \<Rightarrow> string \<times> string" where
  "row_key = (\<lambda>(task_id, row). (pr_status_timestamp row, task_id))"

definition newest_first :: "(string, TaskRow) hash_map \<Rightarrow> (string \<times> TaskRow) list" where
  "newest_first m = rev (sort_key row_key (rows_by_key m))"

record task_filter =
  tf_context_id :: "string option"
  tf_state :: "string option"
  tf_timestamp_after :: "string option"

definition row_matches :: "task_filter \<Rightarrow> TaskRow \<Rightarrow> bool" where
  "row_matches f row \<longleftrightarrow>
     (case tf_context_id f of None \<Rightarrow> True | Some context_id \<Rightarrow> pr_context_id row = context_id)
     \<and> (case tf_state f of None \<Rightarrow> True | Some state \<Rightarrow> pr_state row = state)
     \<and> (case tf_timestamp_after f of None \<Rightarrow> True | Some after \<Rightarrow> pr_status_timestamp row \<ge> after)"

definition listed_rows :: "(Database \<Rightarrow> string \<Rightarrow> bool) \<Rightarrow> task_filter \<Rightarrow> Database \<Rightarrow> (string \<times> TaskRow) list" where
  "listed_rows visible f d = filter (\<lambda>(task_id, row). visible d task_id \<and> row_matches f row) (newest_first (db_tasks d))"

text \<open>The task of a cursor's row, and the rows past a cursor (its timestamp, task and row number).\<close>

definition cursor_task :: "(Database \<Rightarrow> string \<Rightarrow> bool) \<Rightarrow> i64 \<Rightarrow> Database \<Rightarrow> string option" where
  "cursor_task visible row_id d =
     map_option fst (find (\<lambda>(task_id, row). pr_rowid row = row_id \<and> visible d task_id) (rows_by_key (db_tasks d)))"

definition past_cursor :: "(string \<times> string \<times> i64) option \<Rightarrow> string \<times> TaskRow \<Rightarrow> bool" where
  "past_cursor boundary = (\<lambda>(task_id, row).
     case boundary of
       None \<Rightarrow> True
     | Some (timestamp, boundary_id, row_id) \<Rightarrow>
         (pr_status_timestamp row < timestamp \<or> (pr_status_timestamp row = timestamp \<and> task_id < boundary_id))
         \<and> pr_rowid row \<noteq> row_id)"

section \<open>Pages\<close>

definition read_tables :: "bool \<Rightarrow> (Database \<Rightarrow> 'a) \<Rightarrow> (SqliteTaskStore, A2AError, 'a) op" where
  "read_tables m2a f = map_error (\<lambda>_. database_error) (if m2a then m2a_query f else query f)"

definition request_filter :: "codec \<Rightarrow> ListTasksRequest \<Rightarrow> (A2AError, task_filter) res" where
  "request_filter cd request =
     res_bind (case lq_status request of
                 None \<Rightarrow> Ok None
               | Some state \<Rightarrow> res_bind (serialized_string cd state ''task state serialization failed'') (\<lambda>s. Ok (Some s)))
       (\<lambda>state. Ok \<lparr>tf_context_id = lq_context_id request, tf_state = state,
         tf_timestamp_after = map_option (sortable_timestamp cd) (lq_status_timestamp_after request)\<rparr>)"

definition request_page_size :: "ListTasksRequest \<Rightarrow> (A2AError, i32) res" where
  "request_page_size request =
     (case lq_page_size request of
        Some page_size \<Rightarrow>
          if \<not> (MIN_PAGE_SIZE \<le> page_size \<and> page_size \<le> MAX_PAGE_SIZE)
          then Err (InvalidParams ''page size must be between 1 and 100'') else Ok page_size
      | None \<Rightarrow> Ok DEFAULT_PAGE_SIZE)"

definition cursor_boundary ::
    "bool \<Rightarrow> (Database \<Rightarrow> string \<Rightarrow> bool) \<Rightarrow> PageCursor option \<Rightarrow> (SqliteTaskStore, A2AError, (string \<times> string \<times> i64) option) op" where
  "cursor_boundary m2a visible cursor =
     (case cursor of
        None \<Rightarrow> ret None
      | Some cursor \<Rightarrow>
          bindM (read_tables m2a (cursor_task visible (pc_row_id cursor))) (\<lambda>found.
          bindM (lift_res (ok_or found (InvalidParams ''invalid page token''))) (\<lambda>task_id.
          ret (Some (pc_status_timestamp cursor, task_id, pc_row_id cursor)))))"

definition decode_row :: "codec \<Rightarrow> string \<times> TaskRow \<Rightarrow> (A2AError, Task \<times> string \<times> i64) res" where
  "decode_row cd = (\<lambda>(task_id, row).
     res_bind (decode_task cd (pr_task_json row)) (\<lambda>task. Ok (task, pr_status_timestamp row, pr_rowid row)))"

definition next_token :: "codec \<Rightarrow> page_codec \<Rightarrow> bool \<Rightarrow> (Task \<times> string \<times> i64) list \<Rightarrow> (A2AError, string) res" where
  "next_token cd pg has_more tasks =
     (if has_more
      then if tasks = [] then Panic
           else case last tasks of (_, status_timestamp, row_id) \<Rightarrow> encode_cursor cd pg row_id status_timestamp
      else Ok [])"

definition page_response ::
    "codec \<Rightarrow> page_codec \<Rightarrow> ListTasksRequest \<Rightarrow> i32 \<Rightarrow> i32 \<Rightarrow> (Task \<times> string \<times> i64) list \<Rightarrow> (A2AError, ListTasksResponse) res" where
  "page_response cd pg request page_size total_size tasks =
     (let has_more = length tasks > nat page_size; tasks = take (nat page_size) tasks in
      res_bind (next_token cd pg has_more tasks) (\<lambda>next_page_token.
      Ok \<lparr>lp_tasks = map (shape_listed_task request \<circ> fst) tasks, lp_next_page_token = next_page_token,
          lp_page_size = page_size, lp_total_size = total_size\<rparr>))"

definition list_page ::
    "codec \<Rightarrow> page_codec \<Rightarrow> bool \<Rightarrow> (Database \<Rightarrow> string \<Rightarrow> bool) \<Rightarrow> ListTasksRequest \<Rightarrow>
     (SqliteTaskStore, A2AError, ListTasksResponse) op" where
  "list_page cd pg m2a visible request =
     bindM (lift_res (decode_cursor cd pg (lq_page_token request))) (\<lambda>cursor.
     bindM (lift_res (request_filter cd request)) (\<lambda>f.
     bindM (lift_res (request_page_size request)) (\<lambda>page_size.
     bindM (cursor_boundary m2a visible cursor) (\<lambda>boundary.
     bindM (read_tables m2a (\<lambda>d. int (length (listed_rows visible f d)))) (\<lambda>total_size.
     bindM (lift_res (if total_size > i32_max then Err database_error else Ok ())) (\<lambda>_.
     bindM (read_tables m2a (\<lambda>d. take (nat page_size + 1) (filter (past_cursor boundary) (listed_rows visible f d)))) (\<lambda>rows.
     bindM (lift_res (collect_res (decode_row cd) rows)) (\<lambda>tasks.
     lift_res (page_response cd pg request page_size total_size tasks)))))))))"

definition list_tasks :: "codec \<Rightarrow> page_codec \<Rightarrow> ListTasksRequest \<Rightarrow> (SqliteTaskStore, A2AError, ListTasksResponse) op" where
  "list_tasks cd pg request = list_page cd pg False (\<lambda>_ _. True) request"

definition sent_by :: "AgentName \<Rightarrow> Database \<Rightarrow> string \<Rightarrow> bool" where
  "sent_by sender d task_id \<longleftrightarrow>
     (case hm_get (db_delivery_tasks d) task_id of
        None \<Rightarrow> False
      | Some row \<Rightarrow> row_sender_agent row = Some sender \<and> row_legacy_quarantined row = 0)"

definition list_owned ::
    "codec \<Rightarrow> page_codec \<Rightarrow> AgentName \<Rightarrow> ListTasksRequest \<Rightarrow> (SqliteTaskStore, A2AError, ListTasksResponse) op" where
  "list_owned cd pg sender request = list_page cd pg True (sent_by sender) request"

section \<open>Cursors\<close>

text \<open>What a reader of cursors relies on: a cursor reads back as written, and no text reads as the empty one.\<close>

definition cursor_round_trip :: "page_codec \<Rightarrow> bool" where
  "cursor_round_trip pg \<longleftrightarrow> pg_parse pg [] = None
     \<and> (\<forall>c token. pg_json pg c = Some token \<longrightarrow> pg_parse pg token = Some c)"

lemma decode_encode_cursor:
  assumes "cursor_round_trip pg" "encode_cursor cd pg row_id ts = Ok token"
  shows "token \<noteq> []"
    "decode_cursor cd pg (Some token) = Ok (Some \<lparr>pc_version = PAGE_CURSOR_VERSION, pc_row_id = row_id, pc_status_timestamp = ts\<rparr>)"
  using assms by (auto simp: encode_cursor_def decode_cursor_def cursor_round_trip_def Let_def res_bind_eq_Ok split: if_splits)

section \<open>The order of a listing\<close>

abbreviation newer :: "string \<times> TaskRow \<Rightarrow> string \<times> TaskRow \<Rightarrow> bool" where
  "newer a b \<equiv> row_key b < row_key a"

lemma row_key_inj: "distinct (map row_key (rows_by_key m))"
proof -
  have "distinct (map snd (map row_key (rows_by_key m)))"
    using rows_by_key_distinct [of m] by (simp add: row_key_def comp_def split_beta)
  then show ?thesis unfolding distinct_map [of snd] by blast
qed

lemma newest_first_sorted: "sorted_wrt newer (newest_first m)"
proof -
  have "distinct (map row_key (sort_key row_key (rows_by_key m)))"
    using row_key_inj [of m] by (simp add: distinct_map)
  then have "sorted_wrt (<) (map row_key (sort_key row_key (rows_by_key m)))"
    by (simp add: strict_sorted_iff)
  then show ?thesis by (simp add: newest_first_def sorted_wrt_rev sorted_wrt_map)
qed

lemma listed_sorted: "sorted_wrt newer (listed_rows visible f d)"
  unfolding listed_rows_def by (rule sorted_wrt_filter [OF newest_first_sorted])

lemma listed_mem:
  "(k, row) \<in> set (listed_rows visible f d) \<longleftrightarrow> hm_get (db_tasks d) k = Some row \<and> visible d k \<and> row_matches f row"
  by (auto simp: listed_rows_def newest_first_def rows_by_key_mem simp del: map_of_eq_Some_iff)

text \<open>Row numbers identify rows, as SQLite assigns them.\<close>

definition rowids_ok :: "Database \<Rightarrow> bool" where
  "rowids_ok d \<longleftrightarrow> (\<forall>k row k' row'. hm_get (db_tasks d) k = Some row \<longrightarrow> hm_get (db_tasks d) k' = Some row' \<longrightarrow>
     pr_rowid row = pr_rowid row' \<longrightarrow> k = k')"

lemma cursor_task_found:
  assumes "rowids_ok d" "(k, row) \<in> set (listed_rows visible f d)"
  shows "cursor_task visible (pr_rowid row) d = Some k"
proof -
  let ?p = "\<lambda>(task_id, r). pr_rowid r = pr_rowid row \<and> visible d task_id"
  have k: "(k, row) \<in> set (rows_by_key (db_tasks d))" "visible d k" "hm_get (db_tasks d) k = Some row"
    using assms(2) by (simp_all add: listed_mem rows_by_key_mem del: map_of_eq_Some_iff)
  then have "find ?p (rows_by_key (db_tasks d)) \<noteq> None" by (auto simp: find_None_iff)
  then obtain k' row' where found: "find ?p (rows_by_key (db_tasks d)) = Some (k', row')" by auto
  then have "hm_get (db_tasks d) k' = Some row'" "pr_rowid row' = pr_rowid row"
    by (auto simp: find_Some_iff simp del: map_of_eq_Some_iff) (metis nth_mem rows_by_key_mem)
  with k(3) assms(1) have "k' = k" unfolding rowids_ok_def by blast
  with found show ?thesis by (simp add: cursor_task_def)
qed

text \<open>What is past the cursor of a row are the rows after it.\<close>

lemma past_cursor_rest:
  assumes "rowids_ok d" and L: "listed_rows visible f d = xs @ (k, row) # ys"
  shows "filter (past_cursor (Some (pr_status_timestamp row, k, pr_rowid row))) (listed_rows visible f d) = ys"
proof -
  let ?p = "past_cursor (Some (pr_status_timestamp row, k, pr_rowid row))"
  have sorted: "sorted_wrt newer (xs @ (k, row) # ys)" using listed_sorted [of visible f d] L by simp
  have before: "\<not> ?p x" if "x \<in> set xs" for x
    using sorted that by (fastforce simp: sorted_wrt_append past_cursor_def row_key_def less_prod_def split: prod.splits)
  have after: "?p y" if y: "y \<in> set ys" for y
  proof -
    obtain k' row' where y': "y = (k', row')" by force
    have "row_key (k', row') < row_key (k, row)" using sorted y y' by (simp add: sorted_wrt_append)
    moreover have "pr_rowid row' \<noteq> pr_rowid row"
    proof
      assume "pr_rowid row' = pr_rowid row"
      moreover have rows: "hm_get (db_tasks d) k' = Some row'" "hm_get (db_tasks d) k = Some row"
        using listed_mem [of k' row' visible f d] listed_mem [of k row visible f d] L y y' by simp_all
      ultimately have "k' = k" using assms(1) unfolding rowids_ok_def by blast
      with rows have "k' = k" "row' = row" by simp_all
      with \<open>row_key (k', row') < row_key (k, row)\<close> show False by simp
    qed
    ultimately show ?thesis unfolding y' by (auto simp: past_cursor_def row_key_def less_prod_def)
  qed
  from before after show ?thesis unfolding L by (simp add: filter_empty_conv past_cursor_def)
qed

end
