(* ===== verification/Store_Pages.thy ===== *)
theory Store_Pages
  imports Store_Listing Ledger_Commit
begin

text \<open>
  What the pages of a listing add up to: following the tokens of \<^verbatim>\<open>list\<close> or \<^verbatim>\<open>list_owned\<close> on a store that does
  not change gives each matching task once, newest first, and ends.
\<close>

section \<open>Row numbers\<close>

lemma rowid_below_next:
  assumes "hm_get m k = Some row"
  shows "pr_rowid row < next_rowid m"
proof -
  have mono: "n \<le> fold (\<lambda>(_, row). max (pr_rowid row)) m n" for n :: int and m :: "(string \<times> TaskRow) list"
  proof (induction m arbitrary: n)
    case (Cons x m)
    from Cons [of "max (pr_rowid (snd x)) n"] show ?case by (simp add: split_beta)
  qed simp
  have "(k, row) \<in> set m \<Longrightarrow> pr_rowid row \<le> fold (\<lambda>(_, row). max (pr_rowid row)) m n" for n
  proof (induction m arbitrary: n)
    case (Cons x m)
    then show ?case using mono [of "max (pr_rowid row) n" m] by (cases x) auto
  qed simp
  from this [of 0] map_of_SomeD [OF assms] show ?thesis by (simp add: next_rowid_def)
qed

lemma upsert_rowids: "rowids_ok d \<Longrightarrow> rowids_ok (upsert_projection c v d)"
proof (cases "hm_get (db_tasks d) (tc_task_id c)")
  case None
  assume ok: "rowids_ok d"
  have "pr_rowid row \<noteq> next_rowid (db_tasks d)" if "hm_get (db_tasks d) k = Some row" for k row
    using rowid_below_next [OF that] by simp
  with ok None show ?thesis
    by (simp add: upsert_projection_def Let_def rowids_ok_def del: map_of_eq_Some_iff) metis
next
  case (Some old)
  assume "rowids_ok d"
  with Some show ?thesis
    by (simp add: upsert_projection_def Let_def rowids_ok_def del: map_of_eq_Some_iff) blast
qed

section \<open>One page\<close>

lemma bindM_Ok: "m s = (Ok a, s') \<Longrightarrow> bindM m k s = k a s'"
  by (simp add: bindM_def)

lemma bindM_lift_Ok: "bindM (lift_res (Ok a)) k s = k a s"
  by (simp add: bindM_def lift_res_def)

definition servable :: "codec \<Rightarrow> page_codec \<Rightarrow> (string \<times> TaskRow) list \<Rightarrow> bool" where
  "servable cd pg rows \<longleftrightarrow> int (length rows) \<le> i32_max
     \<and> (\<forall>(k, row) \<in> set rows. cd_task_parse cd (pr_task_json row) \<noteq> None
          \<and> (\<exists>token. encode_cursor cd pg (pr_rowid row) (pr_status_timestamp row) = Ok token))"

definition listed_task :: "codec \<Rightarrow> ListTasksRequest \<Rightarrow> string \<times> TaskRow \<Rightarrow> Task" where
  "listed_task cd request = (\<lambda>(k, row). shape_listed_task request (the (cd_task_parse cd (pr_task_json row))))"

text \<open>Where a token points to: the rows still to come.\<close>

definition token_before ::
    "codec \<Rightarrow> page_codec \<Rightarrow> (string \<times> TaskRow) list \<Rightarrow> string option \<Rightarrow> (string \<times> TaskRow) list \<Rightarrow> bool" where
  "token_before cd pg rows token rest \<longleftrightarrow>
     (token = None \<and> rest = rows)
     \<or> (\<exists>xs k row t. rows = xs @ (k, row) # rest \<and> token = Some t
          \<and> encode_cursor cd pg (pr_rowid row) (pr_status_timestamp row) = Ok t)"

lemma token_before_set: "token_before cd pg rows token rest \<Longrightarrow> set rest \<subseteq> set rows"
  by (auto simp: token_before_def)

lemma token_split:
  assumes "token_before cd pg rows token rest" "0 < n" "n < length rest"
    and "encode_cursor cd pg (pr_rowid (snd (rest ! (n - 1)))) (pr_status_timestamp (snd (rest ! (n - 1)))) = Ok t"
  shows "token_before cd pg rows (Some t) (drop n rest)"
proof -
  obtain ys where rows: "rows = ys @ rest" using assms(1) by (auto simp: token_before_def)
  have "rest = take (n - 1) rest @ rest ! (n - 1) # drop n rest"
    using id_take_nth_drop [of "n - 1" rest] assms(2,3) by simp
  with rows have "rows = (ys @ take (n - 1) rest) @ (fst (rest ! (n - 1)), snd (rest ! (n - 1))) # drop n rest" by simp
  with assms(4) show ?thesis unfolding token_before_def by blast
qed

lemma decode_rows:
  assumes "servable cd pg rows" "set rest \<subseteq> set rows"
  shows "collect_res (decode_row cd) rest =
    Ok (map (\<lambda>(k, row). (the (cd_task_parse cd (pr_task_json row)), pr_status_timestamp row, pr_rowid row)) rest)"
  using assms(2)
proof (induction rest)
  case (Cons x rest)
  obtain k row where x: "x = (k, row)" by force
  with Cons.prems assms(1) obtain task where "cd_task_parse cd (pr_task_json row) = Some task"
    by (fastforce simp: servable_def)
  with Cons x show ?case by (simp add: decode_row_def decode_task_def ok_or_def)
qed simp

definition quiet :: "bool \<Rightarrow> SqliteTaskStore \<Rightarrow> bool" where
  "quiet m2a s \<longleftrightarrow> sq_faults s = [] \<and> (m2a \<longrightarrow> db_m2a (sq_database s))"

lemma read_tables_quiet: "quiet m2a s \<Longrightarrow> read_tables m2a f s = (Ok (f (sq_database s)), s)"
  by (simp add: quiet_def read_tables_def map_error_def m2a_query_def query_row_def bindM_def query_def faulty_def
      tick_def lift_res_def ok_or_def)

lemma bindM_read_tables: "quiet m2a s \<Longrightarrow> bindM (read_tables m2a f) k s = k (f (sq_database s)) s"
  by (simp add: bindM_def read_tables_quiet)

lemma boundary_rest:
  assumes "quiet m2a s" "rowids_ok (sq_database s)" "cursor_round_trip pg"
    and rest: "token_before cd pg (listed_rows visible f (sq_database s)) token rest"
  shows "\<exists>cursor boundary. decode_cursor cd pg token = Ok cursor \<and> cursor_boundary m2a visible cursor s = (Ok boundary, s)
    \<and> filter (past_cursor boundary) (listed_rows visible f (sq_database s)) = rest"
  using rest unfolding token_before_def
proof (elim disjE exE conjE)
  assume "token = None" "rest = listed_rows visible f (sq_database s)"
  then show ?thesis by (simp add: decode_cursor_def cursor_boundary_def ret_def past_cursor_def split_beta)
next
  fix xs k row t
  assume L: "listed_rows visible f (sq_database s) = xs @ (k, row) # rest" and token: "token = Some t"
    and enc: "encode_cursor cd pg (pr_rowid row) (pr_status_timestamp row) = Ok t"
  have "cursor_task visible (pr_rowid row) (sq_database s) = Some k"
    by (rule cursor_task_found [OF assms(2), of _ _ _ f]) (simp add: L)
  with decode_encode_cursor(2) [OF assms(3) enc] past_cursor_rest [OF assms(2) L] token
  show ?thesis by (simp add: read_tables_quiet [OF assms(1)] cursor_boundary_def bindM_def lift_res_def ok_or_def ret_def)
qed

lemma next_token_servable:
  assumes "servable cd pg rows" "set rest \<subseteq> set rows" "0 < n"
  shows "\<exists>token. next_token cd pg (length rest > n)
      (map (\<lambda>(k, row). (the (cd_task_parse cd (pr_task_json row)), pr_status_timestamp row, pr_rowid row)) (take n rest)) = Ok token
    \<and> (if length rest \<le> n then token = []
       else encode_cursor cd pg (pr_rowid (snd (rest ! (n - 1)))) (pr_status_timestamp (snd (rest ! (n - 1)))) = Ok token)"
proof (cases "length rest \<le> n")
  case False
  then have nonempty: "take n rest \<noteq> []" using assms(3) by auto
  then have last: "last (take n rest) = rest ! (n - 1)" "take n rest \<noteq> []"
    using assms(3) False by (simp_all add: last_conv_nth)
  have "rest ! (n - 1) \<in> set rows" using False assms(2) by (meson diff_le_self linorder_not_le nth_mem order_le_less_trans subsetD)
  then obtain token where "encode_cursor cd pg (pr_rowid (snd (rest ! (n - 1)))) (pr_status_timestamp (snd (rest ! (n - 1)))) = Ok token"
    using assms(1) by (fastforce simp: servable_def)
  with False last show ?thesis by (simp add: next_token_def last_map split_beta)
qed (simp add: next_token_def)

lemma list_page_rest:
  assumes quiet: "quiet m2a s" and ids: "rowids_ok (sq_database s)" and trip: "cursor_round_trip pg"
    and f: "request_filter cd request = Ok f" and n: "request_page_size request = Ok n"
    and serv: "servable cd pg (listed_rows visible f (sq_database s))"
    and rest: "token_before cd pg (listed_rows visible f (sq_database s)) (lq_page_token request) rest"
  shows "\<exists>resp. list_page cd pg m2a visible request s = (Ok resp, s)
    \<and> lp_tasks resp = map (listed_task cd request) (take (nat n) rest)
    \<and> lp_total_size resp = int (length (listed_rows visible f (sq_database s)))
    \<and> (if length rest \<le> nat n then lp_next_page_token resp = []
       else lp_next_page_token resp \<noteq> []
         \<and> token_before cd pg (listed_rows visible f (sq_database s)) (Some (lp_next_page_token resp)) (drop (nat n) rest))"
proof -
  let ?L = "listed_rows visible f (sq_database s)"
  let ?dec = "\<lambda>(k, row). (the (cd_task_parse cd (pr_task_json row)), pr_status_timestamp row, pr_rowid row)"
  have pos: "0 < nat n" using n by (auto simp: request_page_size_def MIN_PAGE_SIZE_def DEFAULT_PAGE_SIZE_def split: option.splits if_splits)
  obtain cursor boundary where b: "decode_cursor cd pg (lq_page_token request) = Ok cursor"
    "cursor_boundary m2a visible cursor s = (Ok boundary, s)" "filter (past_cursor boundary) ?L = rest"
    using boundary_rest [OF quiet ids trip rest] by blast
  note sub = token_before_set [OF rest]
  obtain token where token: "next_token cd pg (length rest > nat n) (map ?dec (take (nat n) rest)) = Ok token"
    "if length rest \<le> nat n then token = [] else
       encode_cursor cd pg (pr_rowid (snd (rest ! (nat n - 1)))) (pr_status_timestamp (snd (rest ! (nat n - 1)))) = Ok token"
    using next_token_servable [OF serv sub pos] by blast
  have rows: "collect_res (decode_row cd) (take (nat n + 1) rest) = Ok (map ?dec (take (nat n + 1) rest))"
    by (rule decode_rows [OF serv order_trans [OF set_take_subset sub]])
  let ?resp = "\<lparr>lp_tasks = map (listed_task cd request) (take (nat n) rest), lp_next_page_token = token, lp_page_size = n,
      lp_total_size = int (length ?L)\<rparr>"
  have more: "(length (take (nat n + 1) rest) > nat n) = (length rest > nat n)" "take (nat n) (take (nat n + 1) rest) = take (nat n) rest"
    by auto
  have size: "\<not> int (length ?L) > i32_max" using serv by (simp add: servable_def)
  have shaped: "map (shape_listed_task request \<circ> fst) (map ?dec rs) = map (listed_task cd request) rs" for rs
    by (simp add: listed_task_def split_beta)
  have run: "list_page cd pg m2a visible request s = (Ok ?resp, s)"
    by (simp only: list_page_def page_response_def Let_def bindM_lift_Ok b(1,3) f n bindM_Ok [where m = "cursor_boundary m2a visible cursor", OF b(2)] bindM_read_tables [OF quiet]
      size if_False rows take_map length_map more token(1) shaped res_bind.simps lift_res_def)
  have "token \<noteq> []" "token_before cd pg ?L (Some token) (drop (nat n) rest)" if "\<not> length rest \<le> nat n"
    using that token(2) decode_encode_cursor(1) [OF trip] token_split [OF rest pos, of token] by auto
  with run token(2) show ?thesis by (intro exI [of _ ?resp]) simp
qed

section \<open>All pages\<close>

text \<open>A client that follows the tokens: each step asks for one page.\<close>

fun follow_pages ::
    "nat \<Rightarrow> (ListTasksRequest \<Rightarrow> (SqliteTaskStore, A2AError, ListTasksResponse) op) \<Rightarrow> ListTasksRequest \<Rightarrow>
     SqliteTaskStore \<Rightarrow> Task list option" where
  "follow_pages 0 page request s = None"
| "follow_pages (Suc n) page request s =
     (case page request s of
        (Ok resp, s') \<Rightarrow>
          if lp_next_page_token resp = [] then Some (lp_tasks resp)
          else map_option (append (lp_tasks resp))
                 (follow_pages n page (request\<lparr>lq_page_token := Some (lp_next_page_token resp)\<rparr>) s')
      | _ \<Rightarrow> None)"

lemma request_token [simp]:
  "request_filter cd (request\<lparr>lq_page_token := t\<rparr>) = request_filter cd request"
  "request_page_size (request\<lparr>lq_page_token := t\<rparr>) = request_page_size request"
  "listed_task cd (request\<lparr>lq_page_token := t\<rparr>) = listed_task cd request"
  by (simp_all add: request_filter_def request_page_size_def listed_task_def shape_listed_task_def)

lemma follow_pages_rest:
  assumes quiet: "quiet m2a s" and ids: "rowids_ok (sq_database s)" and trip: "cursor_round_trip pg"
    and serv: "servable cd pg (listed_rows visible f (sq_database s))"
  shows "request_filter cd request = Ok f \<Longrightarrow> request_page_size request = Ok n
    \<Longrightarrow> token_before cd pg (listed_rows visible f (sq_database s)) (lq_page_token request) rest \<Longrightarrow> length rest < fuel
    \<Longrightarrow> follow_pages fuel (list_page cd pg m2a visible) request s = Some (map (listed_task cd request) rest)"
proof (induction fuel arbitrary: request rest)
  case (Suc fuel)
  note page = list_page_rest [OF quiet ids trip Suc.prems(1,2) serv Suc.prems(3)]
  have pos: "0 < nat n" using Suc.prems(2)
    by (auto simp: request_page_size_def MIN_PAGE_SIZE_def DEFAULT_PAGE_SIZE_def split: option.splits if_splits)
  show ?case
  proof (cases "length rest \<le> nat n")
    case True
    with page show ?thesis by auto
  next
    case False
    with page obtain resp where resp: "list_page cd pg m2a visible request s = (Ok resp, s)"
      "lp_tasks resp = map (listed_task cd request) (take (nat n) rest)" "lp_next_page_token resp \<noteq> []"
      "token_before cd pg (listed_rows visible f (sq_database s)) (Some (lp_next_page_token resp)) (drop (nat n) rest)"
      by auto
    have "length (drop (nat n) rest) < fuel" using False pos Suc.prems(4) by simp
    with resp(4) Suc.prems(1,2) have "follow_pages fuel (list_page cd pg m2a visible)
        (request\<lparr>lq_page_token := Some (lp_next_page_token resp)\<rparr>) s = Some (map (listed_task cd request) (drop (nat n) rest))"
      using Suc.IH [of "request\<lparr>lq_page_token := Some (lp_next_page_token resp)\<rparr>" "drop (nat n) rest"] by simp
    with resp(1-3) show ?thesis by (simp flip: map_append)
  qed
qed simp

section \<open>What any page shows\<close>

text \<open>Whatever fails, a page is bounded and shows visible tasks only; the store stays as it is.\<close>

definition page_shows ::
    "codec \<Rightarrow> (Database \<Rightarrow> string \<Rightarrow> bool) \<Rightarrow> ListTasksRequest \<Rightarrow> Database \<Rightarrow> ListTasksResponse \<Rightarrow> bool" where
  "page_shows cd visible request d resp \<longleftrightarrow>
     MIN_PAGE_SIZE \<le> lp_page_size resp \<and> lp_page_size resp \<le> MAX_PAGE_SIZE
     \<and> int (length (lp_tasks resp)) \<le> lp_page_size resp
     \<and> (\<forall>task \<in> set (lp_tasks resp). \<exists>k row stored. hm_get (db_tasks d) k = Some row \<and> visible d k
          \<and> cd_task_parse cd (pr_task_json row) = Some stored \<and> task = shape_listed_task request stored)"

lemma wp_read_tables [simp]:
  "wp (read_tables m2a f) E Q s =
     (if faulty s \<or> m2a \<and> \<not> db_m2a (sq_database s) then E database_error (tick s) else Q (f (sq_database s)) (tick s))"
  by (simp add: read_tables_def)

lemma no_panic_listing [simp]:
  "decode_cursor cd pg token \<noteq> Panic" "request_filter cd request \<noteq> Panic" "request_page_size request \<noteq> Panic"
  "encode_cursor cd pg i t \<noteq> Panic" "collect_res (decode_row cd) rows \<noteq> Panic"
  by (auto simp: decode_cursor_def request_filter_def request_page_size_def encode_cursor_def decode_row_def decode_task_def
      serialized_string_def res_bind_eq_Panic Let_def intro!: collect_res_not_Panic split: option.splits if_splits prod.splits)

lemma cursor_boundary_reads: "keeps content (cursor_boundary m2a visible cursor)"
  unfolding cursor_boundary_def read_tables_def by (intro keeps_intros) (auto intro!: keeps_intros)

lemma decoded_rows_shown:
  assumes "collect_res (decode_row cd) rows = Ok tasks" "set rows \<subseteq> set (listed_rows visible f d)" "x \<in> set tasks"
  shows "\<exists>k row. hm_get (db_tasks d) k = Some row \<and> visible d k \<and> cd_task_parse cd (pr_task_json row) = Some (fst x)"
proof -
  from assms(1,3) obtain i where i: "i < length tasks" "x = tasks ! i" and
      all: "list_all2 (\<lambda>r y. decode_row cd r = Ok y) rows tasks"
    by (auto simp: collect_res_Ok in_set_conv_nth)
  define r where "r = rows ! i"
  have r: "r \<in> set rows" "decode_row cd r = Ok x"
    using list_all2_nthD2 [OF all i(1)] list_all2_lengthD [OF all] i unfolding r_def by simp_all
  obtain k row where "r = (k, row)" by force
  with r assms(2) listed_mem [of k row visible f d] show ?thesis
    by (intro exI [of _ k] exI [of _ row])
      (auto simp: decode_row_def decode_task_def res_bind_eq_Ok ok_or_def split: option.splits simp del: map_of_eq_Some_iff)
qed

lemma content_tick: "content (tick s) = content s"
  by (simp add: content_def)

lemma content_database: "content s' = content s \<Longrightarrow> sq_database s' = sq_database s"
  by (simp add: content_def)

lemma page_response_shows:
  assumes n: "request_page_size request = Ok n" and tasks: "collect_res (decode_row cd) rows = Ok tasks"
    and rows: "set rows \<subseteq> set (listed_rows visible f d)"
  shows "case page_response cd pg request n count tasks of
    Ok resp \<Rightarrow> page_shows cd visible request d resp | Err _ \<Rightarrow> True | Panic \<Rightarrow> False"
proof -
  have size: "MIN_PAGE_SIZE \<le> n" "n \<le> MAX_PAGE_SIZE" "0 < nat n"
    using n by (auto simp: request_page_size_def MIN_PAGE_SIZE_def MAX_PAGE_SIZE_def DEFAULT_PAGE_SIZE_def split: option.splits if_splits)
  have "next_token cd pg (length tasks > nat n) (take (nat n) tasks) \<noteq> Panic"
    using size(3) by (auto simp: next_token_def split: prod.splits)
  moreover have "page_shows cd visible request d
      \<lparr>lp_tasks = map (shape_listed_task request \<circ> fst) (take (nat n) tasks), lp_next_page_token = token,
       lp_page_size = n, lp_total_size = count\<rparr>" for token
    using size decoded_rows_shown [OF tasks rows] by (fastforce simp: page_shows_def simp del: map_of_eq_Some_iff dest: in_set_takeD)
  ultimately show ?thesis
    by (cases "next_token cd pg (length tasks > nat n) (take (nat n) tasks)") (simp_all add: page_response_def Let_def)
qed

lemma page_rows_shows:
  assumes s1: "content s1 = content s" and n: "request_page_size request = Ok n"
  shows "wp (bindM (read_tables m2a (\<lambda>d. int (length (listed_rows visible f d)))) (\<lambda>count.
      bindM (lift_res (if count > i32_max then Err database_error else Ok ())) (\<lambda>_.
      bindM (read_tables m2a (\<lambda>d. take (Suc (nat n)) (filter (past_cursor boundary) (listed_rows visible f d)))) (\<lambda>rows.
      bindM (lift_res (collect_res (decode_row cd) rows)) (\<lambda>tasks.
      lift_res (page_response cd pg request n count tasks)))))) (\<lambda>_ s'. content s' = content s)
     (\<lambda>resp s'. content s' = content s \<and> page_shows cd visible request (sq_database s) resp) s1"
proof -
  have db: "sq_database s1 = sq_database s" using s1 by (simp add: content_def)
  have sub: "set (take m (filter p rows)) \<subseteq> set rows" for m p and rows :: "(string \<times> TaskRow) list"
    by (auto dest: in_set_takeD)
  have fin: "page_response cd pg request n count tasks \<noteq> Panic"
    "page_response cd pg request n count tasks = Ok resp \<Longrightarrow> page_shows cd visible request (sq_database s) resp"
    if "collect_res (decode_row cd) (take (Suc (nat n)) (filter (past_cursor boundary) (listed_rows visible f (sq_database s)))) = Ok tasks"
    for count tasks resp
    using page_response_shows [OF n that sub, of pg count] by (auto split: res.splits)
  show ?thesis using s1 by (simp add: wp_lift_res content_tick db fin)
qed

lemma list_page_shows:
  "wp (list_page cd pg m2a visible request) (\<lambda>_ s'. content s' = content s)
     (\<lambda>resp s'. content s' = content s \<and> page_shows cd visible request (sq_database s) resp) s"
  unfolding list_page_def wp_bindM [of "lift_res (decode_cursor cd pg t)" for t]
    wp_bindM [of "lift_res (request_filter cd r)" for r] wp_bindM [of "lift_res (request_page_size r)" for r]
    wp_bindM [of "cursor_boundary m2a visible c" for c]
  by (auto simp: wp_lift_res simp del: wp_bindM intro!: keeps_wp [OF cursor_boundary_reads] page_rows_shows)

end
