(* ===== verification/Store_Examples.thy ===== *)
theory Store_Examples
  imports Ledger_Examples Store_Writes Store_Pages
begin

text \<open>
  A task store on concrete data, for the witnesses of its properties: two tasks of one sender, of which the
  first is canceled later; a codec that knows their projections; and a codec of cursors.
\<close>

definition second_durable :: DurableTask where
  "second_durable = enqueued_durable (2000 + DELIVERY_TTL_MS) ''alpha'' ((sample_delivery ''t2'')\<lparr>qd_created_unix_ms := 2000\<rparr>)"

definition canceled_durable :: DurableTask where
  "canceled_durable = sample_durable\<lparr>dt_state := Canceled, dt_state_version := 2, dt_terminal_unix_ms := Some 3000,
     dt_retention_deadline_unix_ms := Some (3000 + TERMINAL_RETENTION_MS)\<rparr>"

definition board_task :: "DurableTask \<Rightarrow> TaskState \<Rightarrow> DateTime \<Rightarrow> Task" where
  "board_task t state time =
     \<lparr>tk_id = dt_task_id t, tk_context_id = dt_context_id t,
      tk_status = \<lparr>ts_state = state, ts_message = None, ts_timestamp = Some time\<rparr>,
      tk_artifacts = None,
      tk_history = Some [projected_message t ''-request'' RoleUser ''hello'' None],
      tk_metadata = None\<rparr>"

definition board :: "(string \<times> Task) list" where
  "board = [(''submitted t1'', board_task sample_durable TsSubmitted 1000),
            (''submitted t2'', board_task second_durable TsSubmitted 2000),
            (''canceled t1'', board_task canceled_durable TsCanceled 3000)]"

definition board_codec :: codec where
  "board_codec = sample_codec\<lparr>
     cd_task_json := (\<lambda>t. map_option fst (find (\<lambda>(j, x). x = t) board)),
     cd_task_parse := map_of board,
     cd_state_string := (\<lambda>st. case st of TsSubmitted \<Rightarrow> Some ''submitted'' | TsCanceled \<Rightarrow> Some ''canceled''
        | TsCompleted \<Rightarrow> Some ''completed'' | TsFailed \<Rightarrow> Some ''failed'' | TsRejected \<Rightarrow> Some ''rejected'' | _ \<Rightarrow> None),
     cd_parse_rfc3339 := (\<lambda>j. Some (int (decimal_value 0 j)))\<rparr>"

definition board_page_codec :: page_codec where
  "board_page_codec =
     \<lparr>pg_json = (\<lambda>c. if pc_version c = PAGE_CURSOR_VERSION \<and> pc_row_id c > 0
        then Some (replicate (nat (pc_row_id c)) CHR ''x'' @ CHR '' '' # pc_status_timestamp c) else None),
      pg_parse = (\<lambda>j. case dropWhile (\<lambda>b. b = CHR ''x'') j of
        [] \<Rightarrow> None
      | _ # ts \<Rightarrow> Some \<lparr>pc_version = PAGE_CURSOR_VERSION,
          pc_row_id = int (length (takeWhile (\<lambda>b. b = CHR ''x'') j)), pc_status_timestamp = ts\<rparr>)\<rparr>"

definition board_digest :: "string \<Rightarrow> string" where
  "board_digest j = rev j"

definition board_store :: SqliteTaskStore where
  "board_store = snd (ledger_commit board_codec \<lparr>pb_registration_epoch_high_watermark = None,
     pb_upsert_tasks = [sample_durable, second_durable], pb_delete_task_ids = []\<rparr> (sample_store sample_database))"

definition announced_store :: SqliteTaskStore where
  "announced_store = snd (authorize_sdk_projection board_codec board_digest
     (board_task sample_durable TsSubmitted 1000) board_store)"

definition overtaken_store :: SqliteTaskStore where
  "overtaken_store = snd (ledger_commit board_codec \<lparr>pb_registration_epoch_high_watermark = None,
     pb_upsert_tasks = [canceled_durable], pb_delete_task_ids = []\<rparr> announced_store)"

definition board_request :: ListTasksRequest where
  "board_request = \<lparr>lq_context_id = None, lq_status = None, lq_page_size = Some 1, lq_page_token = None,
     lq_history_length = None, lq_status_timestamp_after = None, lq_include_artifacts = None\<rparr>"

lemma board_cursors: "cursor_round_trip board_page_codec"
proof -
  have "dropWhile (\<lambda>b. b = CHR ''x'') (replicate n CHR ''x'' @ CHR '' '' # ts) = CHR '' '' # ts"
    "takeWhile (\<lambda>b. b = CHR ''x'') (replicate n CHR ''x'' @ CHR '' '' # ts) = replicate n CHR ''x''" for n ts
    by (induction n) simp_all
  then show ?thesis by (auto simp: cursor_round_trip_def board_page_codec_def split: if_splits)
qed

lemma board_announced: "fst (authorize_sdk_projection board_codec board_digest (board_task sample_durable TsSubmitted 1000) board_store) = Ok ()"
  by code_simp

lemma board_overtaken:
  "fst (apply_sdk_projection board_codec board_digest (board_task sample_durable TsSubmitted 1000) overtaken_store) = Ok 2"
  by code_simp

lemma board_pages:
  "follow_pages 3 (list_owned board_codec board_page_codec ''alpha'') board_request board_store =
     Some [board_task second_durable TsSubmitted 2000, board_task sample_durable TsSubmitted 1000]"
  by code_simp

text \<open>What the store serves before and after the cancellation.\<close>

lemma board_serves:
  "serves_task board_codec ''t1'' sample_durable (sq_database board_store)"
  "serves_task board_codec ''t1'' canceled_durable (sq_database overtaken_store)"
proof -
  have serves: "serves_task cd k t (sq_database s)" if run: "fst (clean_authoritative_projection cd k s) = Ok (t, j)" for cd k t j s
  proof -
    obtain s' where "clean_authoritative_projection cd k s = (Ok (t, j), s')" using run by (cases "clean_authoritative_projection cd k s") simp
    from wp_result(2) [OF clean_rule this] show ?thesis by simp
  qed
  show "serves_task board_codec ''t1'' sample_durable (sq_database board_store)"
    by (rule serves [of _ _ _ _ "''submitted t1''"]) code_simp
  show "serves_task board_codec ''t1'' canceled_durable (sq_database overtaken_store)"
    by (rule serves [of _ _ _ _ "''canceled t1''"]) code_simp
qed

lemma registry_ok_single:
  assumes "ar_by_task r = [(k, [a])]" "ar_total r = 1"
  shows "registry_ok r"
  using assms by (auto simp: registry_ok_def admission_count_def queues_ok_def MAX_SDK_PROJECTION_ADMISSIONS_def
      MAX_SDK_PROJECTION_ADMISSIONS_PER_TASK_def MAX_RETAINED_TASKS_def split: if_splits)

lemma board_registry: "registry_ok (sq_admissions board_store)" "registry_ok (sq_admissions overtaken_store)"
proof -
  have "sq_admissions board_store = SdkProjectionAdmissionRegistry_default" by code_simp
  then show "registry_ok (sq_admissions board_store)" by (simp add: registry_ok_default)
  have "ar_by_task (sq_admissions overtaken_store) = [(''t1'', [\<lparr>ad_fingerprint = rev ''submitted t1'', ad_version = 1,
       ad_incarnation = TaskIncarnation_from sample_durable, ad_sequence = 0\<rparr>])]"
    "ar_total (sq_admissions overtaken_store) = 1" by code_simp+
  then show "registry_ok (sq_admissions overtaken_store)" by (rule registry_ok_single)
qed

lemma case_Ok: "(case r of Ok _ \<Rightarrow> True | _ \<Rightarrow> False) \<longleftrightarrow> (\<exists>a. r = Ok a)"
  by (cases r) simp_all

lemma board_servable:
  "rowids_ok (sq_database board_store)"
  "servable board_codec board_page_codec (listed_rows (sent_by ''alpha'')
     \<lparr>tf_context_id = None, tf_state = None, tf_timestamp_after = None\<rparr> (sq_database board_store))"
proof -
  have "db_tasks (sq_database board_store) =
      [(''t1'', \<lparr>pr_context_id = ''c1'', pr_state = ''submitted'', pr_status_timestamp = ''1000'', pr_version = 1,
          pr_task_json = ''submitted t1'', pr_rowid = 1\<rparr>),
       (''t2'', \<lparr>pr_context_id = ''c1'', pr_state = ''submitted'', pr_status_timestamp = ''2000'', pr_version = 1,
          pr_task_json = ''submitted t2'', pr_rowid = 2\<rparr>)]" by code_simp
  then show "rowids_ok (sq_database board_store)" by (auto simp: rowids_ok_def split: if_splits)
  let ?rows = "listed_rows (sent_by ''alpha'') \<lparr>tf_context_id = None, tf_state = None, tf_timestamp_after = None\<rparr> (sq_database board_store)"
  have "int (length ?rows) \<le> i32_max" by code_simp
  moreover have "list_all (\<lambda>(k, row). cd_task_parse board_codec (pr_task_json row) \<noteq> None
      \<and> (case encode_cursor board_codec board_page_codec (pr_rowid row) (pr_status_timestamp row) of Ok _ \<Rightarrow> True | _ \<Rightarrow> False)) ?rows"
    by code_simp
  ultimately show "servable board_codec board_page_codec ?rows"
    unfolding servable_def list_all_iff case_Ok by blast
qed

end
