(* ===== verification/Store_Properties.thy ===== *)
theory Store_Properties
  imports Store_Examples
begin

text \<open>
  The properties of the task store of \<^verbatim>\<open>herdr-a2a-broker/src/store.rs\<close>: the writes of the SDK, the registry of
  announced projections, the claims of owners and the listings.  Each is followed by an instance on the
  data of theory \<open>Store_Examples\<close>.
\<close>

section \<open>Writes\<close>

text \<open>
  C24: the SDK cannot write a state of a task that the ledger does not have.  Whatever it writes and
  whichever SQL statement fails, the rows of the ledger and the projections of other tasks stay as they
  are; an error changes nothing in the database; and where the write returns a version, the store serves
  the projection of the ledger's task at that version, with nothing pending.  The write does not panic.
\<close>

theorem sdk_writes_follow_the_ledger:
  assumes "registry_ok (sq_admissions s)"
  shows "case apply_sdk_projection cd digest task s of
      (Ok v, s') \<Rightarrow> ledger_part (sq_database s') = ledger_part (sq_database s)
        \<and> others_same (tk_id task) (sq_database s) (sq_database s')
        \<and> serves_version cd (tk_id task) v (sq_database s') \<and> registry_ok (sq_admissions s')
    | (Err e, s') \<Rightarrow> sq_database s' = sq_database s \<and> registry_ok (sq_admissions s')
    | (Panic, s') \<Rightarrow> False"
  using apply_sdk_rule [OF assms, of cd digest task] by (auto simp: wp_def split: prod.splits res.splits)

theorem sdk_writes_follow_the_ledger_witness:
  "serves_version board_codec ''t1'' 2 (sq_database
     (snd (apply_sdk_projection board_codec board_digest (board_task sample_durable TsSubmitted 1000) overtaken_store)))"
proof -
  have id: "tk_id (board_task sample_durable TsSubmitted 1000) = ''t1''" by (simp add: board_task_def)
  from sdk_writes_follow_the_ledger [OF board_registry(2), where cd = board_codec and digest = board_digest
      and task = "board_task sample_durable TsSubmitted 1000"] board_overtaken
  show ?thesis by (auto simp: id split: prod.splits res.splits)
qed

text \<open>
  C25: a state that was announced is acknowledged even after the ledger has moved on.  If the executor
  announced a projection and the task has since reached a newer version, which the store serves, then the
  SDK's late write of the older state returns the newer version, changes nothing in the database and uses
  up one announcement, provided that no SQL statement fails and no announcement was given up meanwhile.
\<close>

theorem overtaken_write_is_acknowledged:
  assumes "TaskColumns_from_task cd task = Ok c" "registry_ok (sq_admissions s)"
    and "authorize_sdk_projection cd digest task s = (Ok (), s1)" "sq_admissions s2 = sq_admissions s1"
    and "sq_faults s2 = []" "db_m2a (sq_database s2)"
    and "serves_task cd (tk_id task) t0 (sq_database s)" "serves_task cd (tk_id task) t (sq_database s2)"
    and "TaskIncarnation_from t0 = TaskIncarnation_from t" "dt_state_version t0 < dt_state_version t"
    and "dt_state_version t \<le> nat i64_max"
    and "\<And>p. hm_get (db_tasks (sq_database s2)) (tk_id task) = Some p \<Longrightarrow> pr_task_json p \<noteq> tc_task_json c"
  shows "\<exists>s3. apply_sdk_projection cd digest task s2 = (Ok (dt_state_version t), s3)
    \<and> sq_database s3 = sq_database s2 \<and> ar_total (sq_admissions s2) = Suc (ar_total (sq_admissions s3))"
proof -
  note k = columns_task_id [OF assms(1)]
  obtain t' q a where served: "serves_task cd (tk_id task) t' (sq_database s)"
    and q: "hm_get (ar_by_task (sq_admissions s1)) (tk_id task) = Some q" "a \<in> set q" "registry_ok (sq_admissions s1)"
    and a: "ad_fingerprint a = digest (tc_task_json c)" "ad_version a = dt_state_version t'"
      "ad_incarnation a = TaskIncarnation_from t'"
    using authorize_announces [OF assms(1-3)] by blast
  have "t' = t0" by (rule serves_task_unique [OF assms(7) served])
  with a assms(9,10) have "admits (digest (tc_task_json c)) (dt_state_version t) (TaskIncarnation_from t) True a"
    by (simp add: admits_def)
  with q(1,2) k assms(4) have ann: "announced digest c t (sq_admissions s2)" by (auto simp: announced_def list_ex_iff)
  have "wp (apply_sdk_projection cd digest task) (\<lambda>_ _. False)
      (\<lambda>v s'. v = dt_state_version t \<and> sq_database s' = sq_database s2
         \<and> ar_total (sq_admissions s2) = Suc (ar_total (sq_admissions s'))) s2"
    by (rule overtaken_write [OF assms(5,6) _ assms(1) _ assms(11) _ ann]) (use q(3) k assms(4,8,12) in simp_all)
  then show ?thesis by (auto simp: wp_def split: prod.splits res.splits)
qed

theorem overtaken_write_is_acknowledged_witness:
  "\<exists>s3. apply_sdk_projection board_codec board_digest (board_task sample_durable TsSubmitted 1000) overtaken_store = (Ok 2, s3)
     \<and> sq_database s3 = sq_database overtaken_store"
proof -
  let ?task = "board_task sample_durable TsSubmitted 1000"
  let ?c = "\<lparr>tc_task_id = ''t1'', tc_context_id = ''c1'', tc_state = ''submitted'', tc_status_timestamp = ''1000'',
      tc_task_json = ''submitted t1''\<rparr>"
  have c: "TaskColumns_from_task board_codec ?task = Ok ?c" by code_simp
  have run: "authorize_sdk_projection board_codec board_digest ?task board_store = (Ok (), announced_store)"
    using board_announced by (simp add: announced_store_def prod_eq_iff)
  have same: "sq_admissions overtaken_store = sq_admissions announced_store" "sq_faults overtaken_store = []"
    "db_m2a (sq_database overtaken_store)" by code_simp+
  have id: "tk_id ?task = ''t1''" by (simp add: board_task_def)
  have inc: "TaskIncarnation_from sample_durable = TaskIncarnation_from canceled_durable"
    "dt_state_version sample_durable < dt_state_version canceled_durable" "dt_state_version canceled_durable \<le> nat i64_max" by code_simp+
  have "map_option pr_task_json (hm_get (db_tasks (sq_database overtaken_store)) ''t1'') = Some ''canceled t1''" by code_simp
  then have stale: "pr_task_json p \<noteq> tc_task_json ?c" if "hm_get (db_tasks (sq_database overtaken_store)) (tk_id ?task) = Some p" for p
    using that by (simp add: id del: map_of_eq_Some_iff)
  have "dt_state_version canceled_durable = 2" by code_simp
  with overtaken_write_is_acknowledged [OF c board_registry(1) run same board_serves [folded id] inc stale] show ?thesis by auto
qed

section \<open>Announcements\<close>

text \<open>The operations on the registry of announced projections, and a sequence of them.\<close>

datatype registry_op =
    Announce string string u64 TaskIncarnation
  | Consume string string u64 TaskIncarnation bool
  | Restore string SdkProjectionAdmission
  | Retire "string list"

fun registry_step :: "registry_op \<Rightarrow> unit rop" where
  "registry_step (Announce k f v i) r = record_admission k f v i r"
| "registry_step (Consume k f v i over) r = (Ok (), snd (consume_admission k f v i over r))"
| "registry_step (Restore k a) r = restore_admission k a r"
| "registry_step (Retire ks) r = (Ok (), fold remove_task ks r)"

fun registry_run ::
    "registry_op list \<Rightarrow> SdkProjectionAdmissionRegistry \<Rightarrow> (A2AError, unit) res list \<times> SdkProjectionAdmissionRegistry" where
  "registry_run [] r = ([], r)"
| "registry_run (x # xs) r = (case registry_step x r of (a, r1) \<Rightarrow> case registry_run xs r1 of (rest, r2) \<Rightarrow> (a # rest, r2))"

lemma registry_step_ok:
  assumes "registry_ok r" "registry_step x r = (a, r')"
  shows "a \<noteq> Panic \<and> registry_ok r'"
proof (cases x)
  case (Announce k f v i)
  then show ?thesis using assms record_admission_ok [OF assms(1), of k f v i] by (auto simp: wp_def split: res.splits)
next
  case (Consume k f v i over)
  then show ?thesis using assms consume_admission_ok(1) [OF assms(1), of k f v i over] by (metis prod.collapse prod.inject registry_step.simps(2) res.distinct(3))
next
  case (Restore k a)
  then show ?thesis using assms restore_admission_ok [OF assms(1), of k a] by (auto simp: wp_def split: res.splits)
next
  case (Retire ks)
  then show ?thesis using assms by (auto simp: retire_ok)
qed

lemma registry_run_ok: "registry_ok r \<Longrightarrow> registry_run xs r = (rs, r') \<Longrightarrow> Panic \<notin> set rs \<and> registry_ok r'"
  by (induction xs arbitrary: r rs) (auto split: prod.splits dest: registry_step_ok)

text \<open>
  C26: the registry stays bounded.  After any sequence of announcements, consumptions, restorations and
  retirements, its counter is the number of its entries, at most 4096; no task has more than eight entries
  or an empty queue; and no step has panicked.
\<close>

theorem announcements_stay_bounded:
  assumes "registry_run xs SdkProjectionAdmissionRegistry_default = (rs, r)"
  shows "Panic \<notin> set rs \<and> ar_total r = sum_list (map (length \<circ> snd) (ar_by_task r)) \<and> ar_total r \<le> 4096
    \<and> (\<forall>k q. hm_get (ar_by_task r) k = Some q \<longrightarrow> 1 \<le> length q \<and> length q \<le> 8)"
proof -
  have ok: "Panic \<notin> set rs" "registry_ok r" using registry_run_ok [OF registry_ok_default assms] by blast+
  have "1 \<le> length q \<and> length q \<le> 8" if "hm_get (ar_by_task r) k = Some q" for k q
    using queues_okD [OF ok(2) that] by (cases q) (simp_all add: MAX_SDK_PROJECTION_ADMISSIONS_PER_TASK_def)
  with ok show ?thesis
    by (simp add: registry_ok_def admission_count_def MAX_SDK_PROJECTION_ADMISSIONS_def MAX_RETAINED_TASKS_def del: map_of_eq_Some_iff)
qed

definition nine_announcements :: "registry_op list" where
  "nine_announcements = map (\<lambda>n. Announce ''t1'' ''f'' n (TaskIncarnation_from sample_durable)) [1..<10]"

theorem announcements_stay_bounded_witness:
  "ar_total (snd (registry_run nine_announcements SdkProjectionAdmissionRegistry_default)) \<le> 4096
   \<and> map ad_version (the (hm_get (ar_by_task (snd (registry_run nine_announcements SdkProjectionAdmissionRegistry_default))) ''t1''))
     = [2, 3, 4, 5, 6, 7, 8, 9]"
proof -
  have "map ad_version (the (hm_get (ar_by_task (snd (registry_run nine_announcements SdkProjectionAdmissionRegistry_default))) ''t1''))
     = [2, 3, 4, 5, 6, 7, 8, 9]" by code_simp
  with announcements_stay_bounded [OF prod.collapse [symmetric], of nine_announcements] show ?thesis by blast
qed

section \<open>Owners\<close>

text \<open>
  C27: a task has one owner.  Once a registration has claimed a task that was new to the store, a claim of
  the same task by another registration or for another recipient is refused, whenever it is made and
  whatever else fails; where it is refused for another reason than the capacity of the store, the database
  is as it was.
\<close>

theorem claims_are_exclusive:
  assumes "claim_task_owner cd k registration recipient now s = (Ok True, s1)"
    and "registration' \<noteq> registration \<or> recipient' \<noteq> recipient"
    and "claim_task_owner cd k registration' recipient' later s1 = (r, s2)"
  shows "\<exists>e. r = Err e \<and> (sq_database s2 = sq_database s1 \<or> e = InvalidRequest ''retained task capacity is exhausted'')"
proof -
  have first: "claimed k registration recipient (sq_database s) True (sq_database s1)"
    using wp_result(2) [OF claim_rule assms(1)] by simp
  have "\<not> claimed k registration' recipient' (sq_database s1) fresh (sq_database s2)" for fresh
    using first assms(2) by (auto simp: claimed_def split: if_splits simp del: map_of_eq_Some_iff)
  with wp_result [OF claim_rule assms(3)] show ?thesis by (cases r) auto
qed

theorem claims_are_exclusive_witness:
  "fst (claim_task_owner board_codec ''t9'' ''r2'' ''beta'' 6000
      (snd (claim_task_owner board_codec ''t9'' ''r1'' ''beta'' 5000 board_store))) = Err (InvalidParams ''task is owned by another registration'')
   \<and> (\<exists>e. fst (claim_task_owner board_codec ''t9'' ''r2'' ''beta'' 6000
      (snd (claim_task_owner board_codec ''t9'' ''r1'' ''beta'' 5000 board_store))) = Err e)"
proof -
  have "fst (claim_task_owner board_codec ''t9'' ''r1'' ''beta'' 5000 board_store) = Ok True" by code_simp
  then have claim: "claim_task_owner board_codec ''t9'' ''r1'' ''beta'' 5000 board_store
      = (Ok True, snd (claim_task_owner board_codec ''t9'' ''r1'' ''beta'' 5000 board_store))" by (simp add: prod_eq_iff)
  have "fst (claim_task_owner board_codec ''t9'' ''r2'' ''beta'' 6000
      (snd (claim_task_owner board_codec ''t9'' ''r1'' ''beta'' 5000 board_store))) = Err (InvalidParams ''task is owned by another registration'')"
    by code_simp
  with claims_are_exclusive [OF claim _ prod.collapse [symmetric], of "''r2''" "''beta''" 6000] show ?thesis by auto
qed

section \<open>Listings\<close>

text \<open>
  C28: the pages of a listing are the listing.  On a store without failing statements, whose rows have
  distinct numbers and can be decoded and pointed to by a cursor, following the tokens of \<^verbatim>\<open>list_owned\<close> ends
  after at most as many pages as there are tasks, and gives each task which the agent has sent and which
  matches the request exactly once, newest first and shaped as asked for, provided that \<^verbatim>\<open>serde_json\<close> parses
  the cursors it has written.
\<close>

theorem pages_enumerate_tasks:
  assumes "sq_faults s = []" "db_m2a (sq_database s)" "rowids_ok (sq_database s)" "cursor_round_trip pg"
    and "request_filter cd request = Ok f" "request_page_size request = Ok n" "lq_page_token request = None"
    and "servable cd pg (listed_rows (sent_by sender) f (sq_database s))"
    and "length (listed_rows (sent_by sender) f (sq_database s)) < fuel"
  shows "follow_pages fuel (list_owned cd pg sender) request s
      = Some (map (listed_task cd request) (listed_rows (sent_by sender) f (sq_database s)))
    \<and> sorted_wrt newer (listed_rows (sent_by sender) f (sq_database s))
    \<and> (\<forall>k row. (k, row) \<in> set (listed_rows (sent_by sender) f (sq_database s)) \<longleftrightarrow>
         hm_get (db_tasks (sq_database s)) k = Some row \<and> sent_by sender (sq_database s) k \<and> row_matches f row)"
proof -
  have same: "list_owned cd pg sender = list_page cd pg True (sent_by sender)" by (rule ext) (simp add: list_owned_def)
  have quiet: "quiet True s" using assms(1,2) by (simp add: quiet_def)
  have "token_before cd pg (listed_rows (sent_by sender) f (sq_database s)) (lq_page_token request)
      (listed_rows (sent_by sender) f (sq_database s))" using assms(7) by (simp add: token_before_def)
  from follow_pages_rest [OF quiet assms(3,4,8,5,6) this assms(9)] same show ?thesis
    by (simp add: listed_sorted listed_mem del: map_of_eq_Some_iff)
qed

theorem pages_enumerate_tasks_witness:
  "follow_pages 3 (list_owned board_codec board_page_codec ''alpha'') board_request board_store
     = Some [board_task second_durable TsSubmitted 2000, board_task sample_durable TsSubmitted 1000]"
proof -
  let ?f = "\<lparr>tf_context_id = None, tf_state = None, tf_timestamp_after = None\<rparr>"
  have facts: "sq_faults board_store = []" "db_m2a (sq_database board_store)" "request_filter board_codec board_request = Ok ?f"
    "request_page_size board_request = Ok 1" "lq_page_token board_request = None"
    "length (listed_rows (sent_by ''alpha'') ?f (sq_database board_store)) < 3" by code_simp+
  have "map (listed_task board_codec board_request) (listed_rows (sent_by ''alpha'') ?f (sq_database board_store))
      = [board_task second_durable TsSubmitted 2000, board_task sample_durable TsSubmitted 1000]" by code_simp
  with pages_enumerate_tasks [OF facts(1,2) board_servable(1) board_cursors facts(3-5) board_servable(2) facts(6)]
  show ?thesis by simp
qed

text \<open>
  C29: an agent sees its own tasks only.  Whatever the request, the token in it and the failing statements,
  \<^verbatim>\<open>list_owned\<close> does not panic and changes nothing; a page has between one and a hundred tasks at most, no more
  than asked for, and each of them is a stored task which the agent has sent and which is not in quarantine.
\<close>

theorem listing_shows_only_own_tasks:
  "case list_owned cd pg sender request s of
     (Ok resp, s') \<Rightarrow> sq_database s' = sq_database s \<and> 1 \<le> lp_page_size resp \<and> lp_page_size resp \<le> 100
       \<and> int (length (lp_tasks resp)) \<le> lp_page_size resp
       \<and> set (lp_tasks resp) \<subseteq> {shape_listed_task request task | task k row owner.
            hm_get (db_tasks (sq_database s)) k = Some row \<and> cd_task_parse cd (pr_task_json row) = Some task
            \<and> hm_get (db_delivery_tasks (sq_database s)) k = Some owner
            \<and> row_sender_agent owner = Some sender \<and> row_legacy_quarantined owner = 0}
   | (Err e, s') \<Rightarrow> sq_database s' = sq_database s
   | (Panic, s') \<Rightarrow> False"
proof -
  obtain r s' where run: "list_owned cd pg sender request s = (r, s')" by force
  note page = wp_result [OF list_page_shows [of cd pg True "sent_by sender" request s], of r s', folded list_owned_def, OF run]
  have sent: "sent_by sender d k \<longleftrightarrow> (\<exists>owner. hm_get (db_delivery_tasks d) k = Some owner
      \<and> row_sender_agent owner = Some sender \<and> row_legacy_quarantined owner = 0)" for d k
    by (simp add: sent_by_def split: option.splits)
  show ?thesis
  proof (cases r)
    case (Ok resp)
    with page(2) have "content s' = content s" and shown: "page_shows cd (sent_by sender) request (sq_database s) resp" by simp_all
    then have "sq_database s' = sq_database s" by (simp add: content_def)
    moreover have "set (lp_tasks resp) \<subseteq> {shape_listed_task request task | task k row owner.
            hm_get (db_tasks (sq_database s)) k = Some row \<and> cd_task_parse cd (pr_task_json row) = Some task
            \<and> hm_get (db_delivery_tasks (sq_database s)) k = Some owner
            \<and> row_sender_agent owner = Some sender \<and> row_legacy_quarantined owner = 0}"
      using shown unfolding page_shows_def sent by blast
    ultimately show ?thesis using run Ok shown by (simp add: page_shows_def MIN_PAGE_SIZE_def MAX_PAGE_SIZE_def)
  next
    case (Err e)
    with page(3) run show ?thesis by (simp add: content_def)
  next
    case Panic
    with page(1) show ?thesis by simp
  qed
qed

end
