(* ===== verification/Identity.thy ===== *)
theory Identity
  imports A2A_Validation
begin

text \<open>
  The identities of agents, \<^verbatim>\<open>herdr-a2a-broker/src/identity.rs\<close>: a canonical name for each pane, harness and
  harness session, made of the slug of the role label and a random suffix, and kept in the table
  \<^verbatim>\<open>agent_identities\<close>.

  The rows of the table are a list.  As in the task store, each SQL statement fails if the next fault says
  so, a transaction that is left without its commit restores the rows, and the random identifiers
  (\<^verbatim>\<open>RegistrationId::new()\<close>) are a sequence of texts.  A poisoned lock and a lost worker thread are not modelled.
\<close>

section \<open>Slugs\<close>

definition cp_alphanumeric :: "nat \<Rightarrow> bool" where
  "cp_alphanumeric cp \<longleftrightarrow> cp < 128 \<and> is_ascii_alphanumeric (char_of cp)"

definition to_ascii_lowercase :: "char \<Rightarrow> char" where
  "to_ascii_lowercase c = (if is_ascii_uppercase c then char_of (byte c + 32) else c)"

definition slug_step :: "nat \<Rightarrow> string \<times> bool \<Rightarrow> string \<times> bool" where
  "slug_step character = (\<lambda>(slug, separator).
     if cp_alphanumeric character
     then let slug = (if separator \<and> slug \<noteq> [] \<and> length slug < 25 then slug @ ''-'' else slug) in
          (if length slug < 25 then slug @ [to_ascii_lowercase (char_of character)] else slug, False)
     else (slug, True))"

text \<open>\<^verbatim>\<open>while slug.ends_with('-') { slug.pop(); }\<close>\<close>

definition pop_dashes :: "string \<Rightarrow> string" where
  "pop_dashes slug = rev (dropWhile (\<lambda>c. c = CHR ''-'') (rev slug))"

definition canonical_slug :: "string option \<Rightarrow> string" where
  "canonical_slug label =
     (let slug = pop_dashes (fst (fold slug_step (chars (case label of None \<Rightarrow> [] | Some l \<Rightarrow> l)) ([], False))) in
      if slug = [] \<or> \<not> is_ascii_lowercase (hd slug) then ''agent'' else slug)"

section \<open>Names\<close>

datatype IdentityError = IdSqlite | IdInvalidData string | WorkspaceMismatch | AllocationExhausted

definition MAX_IDENTITY_FIELD_BYTES :: nat where "MAX_IDENTITY_FIELD_BYTES = 1024"
definition MAX_WORKSPACE_ID_BYTES :: nat where "MAX_WORKSPACE_ID_BYTES = 256"
definition RANDOM_SUFFIX_BYTES :: nat where "RANDOM_SUFFIX_BYTES = 6"
definition MAX_ALLOCATION_ATTEMPTS :: nat where "MAX_ALLOCATION_ATTEMPTS = 8"
definition BASE32 :: string where "BASE32 = ''abcdefghijklmnopqrstuvwxyz234567''"

definition nibble :: "char \<Rightarrow> nat option" where
  "nibble c =
     (if is_ascii_digit c then Some (byte c - 48)
      else if 97 \<le> byte c \<and> byte c \<le> 102 then Some (byte c - 97 + 10) else None)"

definition random_suffix :: "string \<Rightarrow> (IdentityError, string) res" where
  "random_suffix uuid =
     (let nibbles = take RANDOM_SUFFIX_BYTES (List.map_filter nibble (rev uuid)) in
      if length nibbles \<noteq> RANDOM_SUFFIX_BYTES
      then Err (IdInvalidData ''random UUID did not contain enough entropy'')
      else Ok (map (\<lambda>n. BASE32 ! n) nibbles))"

definition validate_suffix :: "string \<Rightarrow> (IdentityError, unit) res" where
  "validate_suffix text =
     (if \<not> (4 \<le> length text \<and> length text \<le> 8)
         \<or> \<not> list_all (\<lambda>b. is_ascii_lowercase b \<or> (50 \<le> byte b \<and> byte b \<le> 55)) text
      then Err (IdInvalidData ''identity suffix is not bounded base32'') else Ok ())"

definition canonical_name_from_parts :: "string \<Rightarrow> string \<Rightarrow> (IdentityError, AgentName) res" where
  "canonical_name_from_parts original_role_slug text =
     (if canonical_slug (Some original_role_slug) \<noteq> original_role_slug
      then Err (IdInvalidData ''identity original role slug is invalid'')
      else res_bind (validate_suffix text) (\<lambda>_.
           map_err (IdInvalidData ''constructed canonical name is invalid'')
             (AgentName_parse (original_role_slug @ ''-'' @ text))))"

definition strip_prefix :: "string \<Rightarrow> string \<Rightarrow> string option" where
  "strip_prefix p s = (if take (length p) s = p then Some (drop (length p) s) else None)"

definition validate_canonical_name :: "string \<Rightarrow> string \<Rightarrow> (IdentityError, unit) res" where
  "validate_canonical_name canonical_name original_role_slug =
     res_bind (ok_or (Option.bind (strip_prefix original_role_slug canonical_name) (strip_prefix ''-''))
       (IdInvalidData ''stored canonical name does not match its original role slug'')) (\<lambda>suffix.
     res_bind (canonical_name_from_parts original_role_slug suffix) (\<lambda>expected.
     if expected \<noteq> canonical_name
     then Err (IdInvalidData ''stored canonical name is not in allocator form'') else Ok ()))"

section \<open>Rows\<close>

record IdentityRow =
  ir_workspace_id :: string
  ir_pane_id :: string
  ir_harness :: string
  ir_harness_session_id :: string
  ir_canonical_name :: string
  ir_original_role_slug :: string
  ir_current_role :: string

definition validate_field :: "string \<Rightarrow> string \<Rightarrow> nat \<Rightarrow> (IdentityError, unit) res" where
  "validate_field label value maximum =
     (if value = [] \<or> length value > maximum \<or> list_ex is_control (chars value)
      then Err (IdInvalidData (label @ '' is invalid'')) else Ok ())"

definition validate_workspace_id :: "string \<Rightarrow> (IdentityError, unit) res" where
  "validate_workspace_id workspace_id = validate_field ''workspace ID'' workspace_id MAX_WORKSPACE_ID_BYTES"

definition validate_pane :: "VerifiedPane \<Rightarrow> string \<Rightarrow> (IdentityError, unit) res" where
  "validate_pane pane harness_session_id =
     res_bind (validate_workspace_id (vpane_workspace_id pane)) (\<lambda>_.
     res_bind (validate_field ''pane ID'' (vpane_pane_id pane) MAX_IDENTITY_FIELD_BYTES) (\<lambda>_.
     res_bind (validate_field ''harness'' (vpane_harness pane) MAX_IDENTITY_FIELD_BYTES) (\<lambda>_.
     validate_field ''harness session ID'' harness_session_id MAX_IDENTITY_FIELD_BYTES)))"

definition validate_row :: "string option \<Rightarrow> IdentityRow \<Rightarrow> (IdentityError, string) res" where
  "validate_row expected_workspace row =
     res_bind (validate_workspace_id (ir_workspace_id row)) (\<lambda>_.
     res_bind (validate_field ''pane ID'' (ir_pane_id row) MAX_IDENTITY_FIELD_BYTES) (\<lambda>_.
     res_bind (validate_field ''harness'' (ir_harness row) MAX_IDENTITY_FIELD_BYTES) (\<lambda>_.
     res_bind (validate_field ''harness session ID'' (ir_harness_session_id row) MAX_IDENTITY_FIELD_BYTES) (\<lambda>_.
     res_bind (validate_canonical_name (ir_canonical_name row) (ir_original_role_slug row)) (\<lambda>_.
     res_bind (map_err (IdInvalidData ''stored role is invalid'') (RoleLabel_parse (ir_current_role row))) (\<lambda>_.
     case expected_workspace of
       None \<Rightarrow> Ok (ir_workspace_id row)
     | Some workspace \<Rightarrow> if workspace \<noteq> ir_workspace_id row then Err WorkspaceMismatch else Ok (ir_workspace_id row)))))))"

definition check_rows :: "string option \<Rightarrow> IdentityRow list \<Rightarrow> (IdentityError, unit) res" where
  "check_rows expected_workspace rows =
     res_bind (collect_res (validate_row expected_workspace) rows) (\<lambda>workspaces.
     if length (remdups workspaces) > 1 then Err WorkspaceMismatch else Ok ())"

section \<open>The store\<close>

text \<open>
  The state behind the connection: the rows, the rows as a transaction began, the faults and the random
  identifiers with the number of those drawn.  An \<open>IdentityStore\<close> value is the workspace it expects, if any.
\<close>

record identity_db =
  id_rows :: "IdentityRow list"
  id_transaction :: "IdentityRow list option"
  id_faults :: "bool list"
  id_random :: "nat \<Rightarrow> string"
  id_drawn :: nat

type_synonym 'a iop = "(identity_db, IdentityError, 'a) op"

definition id_statement :: "(IdentityRow list \<Rightarrow> 'a \<times> IdentityRow list) \<Rightarrow> 'a iop" where
  "id_statement f s =
     (let s' = s\<lparr>id_faults := tl (id_faults s)\<rparr> in
      if id_faults s \<noteq> [] \<and> hd (id_faults s) then (Err IdSqlite, s')
      else case f (id_rows s) of (a, rows) \<Rightarrow> (Ok a, s'\<lparr>id_rows := rows\<rparr>))"

definition id_query :: "(IdentityRow list \<Rightarrow> 'a) \<Rightarrow> 'a iop" where
  "id_query f = id_statement (\<lambda>rows. (f rows, rows))"

definition id_commit :: "unit iop" where
  "id_commit = bindM (id_query (\<lambda>_. ())) (\<lambda>_. modify (\<lambda>s. s\<lparr>id_transaction := None\<rparr>))"

definition id_rollback :: "identity_db \<Rightarrow> identity_db" where
  "id_rollback s = (case id_transaction s of None \<Rightarrow> s | Some rows \<Rightarrow> s\<lparr>id_rows := rows, id_transaction := None\<rparr>)"

definition id_transact :: "'a iop \<Rightarrow> 'a iop" where
  "id_transact body =
     bindM (id_query id) (\<lambda>rows.
     bindM (modify (\<lambda>s. s\<lparr>id_transaction := Some rows\<rparr>)) (\<lambda>_ s.
     case body s of (r, s') \<Rightarrow> (r, id_rollback s')))"

text \<open>\<^verbatim>\<open>from_shared_connection_with_suffix\<close> (the schema exists) and \<^verbatim>\<open>for_workspace\<close>.\<close>

definition from_shared_connection :: "string option iop" where
  "from_shared_connection =
     bindM (id_query id) (\<lambda>rows.
     bindM (lift_res (check_rows None rows)) (\<lambda>_.
     ret None))"

definition for_workspace :: "string \<Rightarrow> string option iop" where
  "for_workspace workspace_id =
     bindM (lift_res (validate_workspace_id workspace_id)) (\<lambda>_.
     bindM (id_query id) (\<lambda>rows.
     bindM (lift_res (check_rows (Some workspace_id) rows)) (\<lambda>_.
     ret (Some workspace_id))))"

section \<open>Resolving an identity\<close>

definition row_of_pane :: "VerifiedPane \<Rightarrow> string \<Rightarrow> IdentityRow \<Rightarrow> bool" where
  "row_of_pane pane harness_session_id row \<longleftrightarrow>
     ir_workspace_id row = vpane_workspace_id pane \<and> ir_pane_id row = vpane_pane_id pane
     \<and> ir_harness row = vpane_harness pane \<and> ir_harness_session_id row = harness_session_id"

definition set_current_role :: "VerifiedPane \<Rightarrow> string \<Rightarrow> IdentityRow list \<Rightarrow> IdentityRow list" where
  "set_current_role pane harness_session_id =
     map (\<lambda>row. if row_of_pane pane harness_session_id row then row\<lparr>ir_current_role := vpane_role pane\<rparr> else row)"

definition identity_from_parts ::
    "VerifiedPane \<Rightarrow> string \<Rightarrow> string \<Rightarrow> string \<Rightarrow> string \<Rightarrow> (IdentityError, AgentIdentity) res" where
  "identity_from_parts pane harness_session_id canonical_name original_role_slug current_role =
     res_bind (map_err (IdInvalidData ''stored canonical name is invalid'') (AgentName_parse canonical_name)) (\<lambda>name.
     res_bind (map_err (IdInvalidData ''stored role is invalid'') (RoleLabel_parse current_role)) (\<lambda>role.
     Ok \<lparr>ai_canonical_name = name, ai_original_role_slug = original_role_slug, ai_current_role = role,
         ai_pane_id = vpane_pane_id pane, ai_harness = vpane_harness pane,
         ai_harness_session_id = harness_session_id, ai_workspace_id = vpane_workspace_id pane\<rparr>))"

definition suffix_source :: "string iop" where
  "suffix_source s = (random_suffix (id_random s (id_drawn s)), s\<lparr>id_drawn := id_drawn s + 1\<rparr>)"

definition new_row :: "VerifiedPane \<Rightarrow> string \<Rightarrow> string \<Rightarrow> string \<Rightarrow> IdentityRow" where
  "new_row pane harness_session_id canonical_name slug =
     \<lparr>ir_workspace_id = vpane_workspace_id pane, ir_pane_id = vpane_pane_id pane, ir_harness = vpane_harness pane,
      ir_harness_session_id = harness_session_id, ir_canonical_name = canonical_name,
      ir_original_role_slug = slug, ir_current_role = vpane_role pane\<rparr>"

text \<open>\<^verbatim>\<open>INSERT\<close>, which violates a constraint if the pane has a row or the name is taken.\<close>

definition insert_row :: "IdentityRow \<Rightarrow> IdentityRow list \<Rightarrow> bool \<times> IdentityRow list" where
  "insert_row row rows =
     (if list_ex (\<lambda>r. ir_canonical_name r = ir_canonical_name row
           \<or> (ir_workspace_id r = ir_workspace_id row \<and> ir_pane_id r = ir_pane_id row \<and> ir_harness r = ir_harness row
              \<and> ir_harness_session_id r = ir_harness_session_id row)) rows
      then (False, rows) else (True, rows @ [row]))"

fun allocate :: "nat \<Rightarrow> VerifiedPane \<Rightarrow> string \<Rightarrow> string \<Rightarrow> AgentIdentity iop" where
  "allocate 0 pane harness_session_id slug = throw AllocationExhausted"
| "allocate (Suc attempts) pane harness_session_id slug =
     bindM suffix_source (\<lambda>suffix.
     bindM (lift_res (canonical_name_from_parts slug suffix)) (\<lambda>canonical_name.
     bindM (id_statement (insert_row (new_row pane harness_session_id canonical_name slug))) (\<lambda>inserted.
     if inserted
     then bindM id_commit (\<lambda>_.
          ret \<lparr>ai_canonical_name = canonical_name, ai_original_role_slug = slug, ai_current_role = vpane_role pane,
               ai_pane_id = vpane_pane_id pane, ai_harness = vpane_harness pane,
               ai_harness_session_id = harness_session_id, ai_workspace_id = vpane_workspace_id pane\<rparr>)
     else allocate attempts pane harness_session_id slug)))"

definition resolve_existing :: "VerifiedPane \<Rightarrow> string \<Rightarrow> IdentityRow \<Rightarrow> AgentIdentity iop" where
  "resolve_existing pane harness_session_id existing =
     bindM (id_statement (\<lambda>rows. ((), set_current_role pane harness_session_id rows))) (\<lambda>_.
     bindM id_commit (\<lambda>_.
     lift_res (identity_from_parts pane harness_session_id (ir_canonical_name existing)
       (ir_original_role_slug existing) (vpane_role pane))))"

definition resolve_rows :: "VerifiedPane \<Rightarrow> string \<Rightarrow> AgentIdentity iop" where
  "resolve_rows pane harness_session_id =
     bindM (id_query (\<lambda>rows. if rows = [] then None else Some (ir_workspace_id (hd rows)))) (\<lambda>existing_workspace.
     bindM (lift_res (case existing_workspace of
         None \<Rightarrow> Ok ()
       | Some workspace_id \<Rightarrow> if workspace_id \<noteq> vpane_workspace_id pane then Err WorkspaceMismatch else Ok ())) (\<lambda>_.
     bindM (id_query (find (row_of_pane pane harness_session_id))) (\<lambda>existing.
     case existing of
       Some row \<Rightarrow> resolve_existing pane harness_session_id row
     | None \<Rightarrow> allocate MAX_ALLOCATION_ATTEMPTS pane harness_session_id (canonical_slug (Some (vpane_role pane))))))"

definition resolve_or_create :: "string option \<Rightarrow> VerifiedPane \<Rightarrow> string \<Rightarrow> AgentIdentity iop" where
  "resolve_or_create expected_workspace_id pane harness_session_id =
     bindM (lift_res (validate_pane pane harness_session_id)) (\<lambda>_.
     bindM (lift_res (case expected_workspace_id of
         None \<Rightarrow> Ok ()
       | Some workspace_id \<Rightarrow> if workspace_id \<noteq> vpane_workspace_id pane then Err WorkspaceMismatch else Ok ())) (\<lambda>_.
     id_transact (resolve_rows pane harness_session_id)))"

definition identity_of_row :: "AgentName \<Rightarrow> IdentityRow \<Rightarrow> (IdentityError, AgentIdentity) res" where
  "identity_of_row canonical_name row =
     res_bind (map_err (IdInvalidData ''stored role is invalid'') (RoleLabel_parse (ir_current_role row))) (\<lambda>role.
     Ok \<lparr>ai_canonical_name = canonical_name, ai_original_role_slug = ir_original_role_slug row, ai_current_role = role,
         ai_pane_id = ir_pane_id row, ai_harness = ir_harness row,
         ai_harness_session_id = ir_harness_session_id row, ai_workspace_id = ir_workspace_id row\<rparr>)"

definition find_by_canonical :: "AgentName \<Rightarrow> AgentIdentity option iop" where
  "find_by_canonical canonical_name =
     bindM (id_query (find (\<lambda>row. ir_canonical_name row = canonical_name))) (\<lambda>row_opt.
     case row_opt of
       None \<Rightarrow> ret None
     | Some row \<Rightarrow> bindM (lift_res (identity_of_row canonical_name row)) (\<lambda>identity. ret (Some identity)))"

end
