(* ===== verification/Identity_Correct.thy ===== *)
theory Identity_Correct
  imports Identity
begin

text \<open>
  Slugs are stable and short enough for the names made of them, so that every role label gets a valid name
  which the store accepts again when it opens; and the operations of the identity store keep its rows valid,
  unique and of one workspace.
\<close>

section \<open>Slugs\<close>

lemma chars_ascii:
  "list_all (\<lambda>c. byte c < 128) s \<Longrightarrow> chars s = map byte s"
proof (induction s)
  case (Cons c s)
  then have "utf8_step (c # s) = Good (byte c) 1" by (simp add: utf8_step_def Let_def nth_byte_def)
  with Cons show ?case by (subst chars.simps) simp
qed (simp add: chars.simps)

text \<open>The characters of a slug, and slugs up to their first and last character.\<close>

definition slug_char :: "char \<Rightarrow> bool" where
  "slug_char c \<longleftrightarrow> is_ascii_lowercase c \<or> is_ascii_digit c"

definition slug_like :: "string \<Rightarrow> bool" where
  "slug_like s \<longleftrightarrow> length s \<le> 25 \<and> (\<forall>c \<in> set s. slug_char c \<or> c = CHR ''-'')
     \<and> successively (\<lambda>a b. \<not> (a = CHR ''-'' \<and> b = CHR ''-'')) s \<and> (s \<noteq> [] \<longrightarrow> hd s \<noteq> CHR ''-'')"

definition slug_wf :: "string \<Rightarrow> bool" where
  "slug_wf s \<longleftrightarrow> slug_like s \<and> s \<noteq> [] \<and> is_ascii_lowercase (hd s) \<and> last s \<noteq> CHR ''-''"

lemma slug_char_dash [simp]: "\<not> slug_char CHR ''-''"
  by (simp add: slug_char_def ascii_defs)

lemma slug_char_ascii: "slug_char c \<or> c = CHR ''-'' \<Longrightarrow> byte c < 128"
  by (auto simp: slug_char_def ascii_defs)

lemma lower_slug_char: "cp_alphanumeric cp \<Longrightarrow> slug_char (to_ascii_lowercase (char_of cp))"
  by (auto simp: cp_alphanumeric_def to_ascii_lowercase_def slug_char_def ascii_defs)

lemma slug_like_snoc:
  "slug_like (s @ [c]) \<longleftrightarrow> slug_like s \<and> length s < 25
     \<and> (slug_char c \<or> c = CHR ''-'' \<and> s \<noteq> [] \<and> last s \<noteq> CHR ''-'')"
  by (cases "s = []") (auto simp: slug_like_def successively_append_iff)

lemma slug_like_length: "slug_like s \<Longrightarrow> length s \<le> 25"
  by (simp add: slug_like_def)

text \<open>The loop keeps a slug whose last character is a dash only where it is full.\<close>

definition loop_ok :: "string \<Rightarrow> bool" where
  "loop_ok s \<longleftrightarrow> slug_like s \<and> (s \<noteq> [] \<and> last s = CHR ''-'' \<longrightarrow> length s = 25)"

lemma slug_step_ok:
  assumes "loop_ok (fst st)"
  shows "loop_ok (fst (slug_step cp st))"
proof -
  obtain s sep where st: "st = (s, sep)" by force
  have push: "loop_ok (if length t < 25 then t @ [to_ascii_lowercase (char_of cp)] else t)"
    if "slug_like t" "cp_alphanumeric cp" for t
  proof -
    have "to_ascii_lowercase (char_of cp) \<noteq> CHR ''-''" using lower_slug_char [OF that(2)] by (metis slug_char_dash)
    with that lower_slug_char [OF that(2)] slug_like_length [OF that(1)] show ?thesis
      by (auto simp: loop_ok_def slug_like_snoc)
  qed
  have s: "slug_like s" "loop_ok s" using assms by (simp_all add: st loop_ok_def)
  have "slug_like (s @ ''-'')" if "s \<noteq> []" "length s < 25" using that s by (auto simp: slug_like_snoc loop_ok_def)
  with s push show ?thesis unfolding st slug_step_def Let_def by simp
qed

lemma slug_loop_ok: "loop_ok (fst st) \<Longrightarrow> loop_ok (fst (fold slug_step cps st))"
  by (induction cps arbitrary: st) (auto simp: slug_step_ok)

lemma pop_dashes_snoc: "pop_dashes (s @ [c]) = (if c = CHR ''-'' then pop_dashes s else s @ [c])"
  by (simp add: pop_dashes_def)

lemma pop_dashes_like:
  assumes "slug_like s"
  shows "slug_like (pop_dashes s)" "pop_dashes s \<noteq> [] \<longrightarrow> last (pop_dashes s) \<noteq> CHR ''-''"
  using assms by (induction s rule: rev_induct) (auto simp: pop_dashes_snoc slug_like_snoc pop_dashes_def)

lemma canonical_slug_wf: "slug_wf (canonical_slug label)"
proof -
  let ?s = "fst (fold slug_step (chars (case label of None \<Rightarrow> [] | Some l \<Rightarrow> l)) ([], False))"
  have "slug_like ?s" using slug_loop_ok [of "([], False)"] by (auto simp: loop_ok_def slug_like_def)
  note pop = pop_dashes_like [OF this]
  have "slug_wf ''agent''" by (simp add: slug_wf_def slug_like_def slug_char_def ascii_defs)
  with pop show ?thesis by (auto simp: canonical_slug_def Let_def slug_wf_def)
qed

text \<open>On a slug, the loop gives back what it has read, up to a dash it has not yet written.\<close>

lemma slug_char_cp: "slug_char c \<Longrightarrow> cp_alphanumeric (byte c)" "slug_char c \<Longrightarrow> to_ascii_lowercase (char_of (byte c)) = c"
  by (auto simp: slug_char_def cp_alphanumeric_def to_ascii_lowercase_def ascii_defs)

lemma slug_loop_same:
  assumes "slug_like s"
  shows "fold slug_step (map byte s) ([], False) =
    (if s \<noteq> [] \<and> last s = CHR ''-'' then (butlast s, True) else (s, False))"
  using assms
proof (induction s rule: rev_induct)
  case (snoc c s)
  then have s: "slug_like s" "length s < 25" by (simp_all add: slug_like_snoc)
  have dash: "\<not> cp_alphanumeric (byte CHR ''-'')" by (simp add: cp_alphanumeric_def ascii_defs)
  show ?case
  proof (cases "s \<noteq> [] \<and> last s = CHR ''-''")
    case True
    then have c: "slug_char c" using snoc.prems by (auto simp: slug_like_snoc)
    moreover have "butlast s \<noteq> []" using True s(1) by (cases s rule: rev_cases) (auto simp: slug_like_def)
    moreover have "s = butlast s @ ''-''" using True by (metis append_butlast_last_id)
    ultimately show ?thesis using snoc.IH [OF s(1)] True s(2) slug_char_cp [OF c]
      by (auto simp: slug_step_def Let_def)
  next
    case False
    with snoc s dash slug_char_cp [of c] show ?thesis by (auto simp: slug_step_def Let_def slug_like_snoc)
  qed
qed simp

lemma canonical_slug_stable:
  assumes "slug_wf s"
  shows "canonical_slug (Some s) = s"
proof -
  have like: "slug_like s" and last: "s \<noteq> []" "last s \<noteq> CHR ''-''" "is_ascii_lowercase (hd s)"
    using assms by (simp_all add: slug_wf_def)
  have "chars s = map byte s"
    by (rule chars_ascii) (use like in \<open>auto simp: slug_like_def list_all_iff intro!: slug_char_ascii\<close>)
  moreover have "pop_dashes s = s" using last(1,2) by (cases s rule: rev_cases) (simp_all add: pop_dashes_snoc)
  ultimately show ?thesis using slug_loop_same [OF like] last by (simp add: canonical_slug_def)
qed

section \<open>Names\<close>

lemma nibble_bound: "nibble c = Some n \<Longrightarrow> n < 16"
  by (auto simp: nibble_def ascii_defs split: if_splits)

lemma base32_lowercase:
  assumes "n < 16"
  shows "is_ascii_lowercase (BASE32 ! n)"
proof -
  have "\<forall>n < 16. is_ascii_lowercase (BASE32 ! n)" by code_simp
  with assms show ?thesis by blast
qed

lemma random_suffix_Ok:
  assumes "random_suffix uuid = Ok t"
  shows "length t = 6" "list_all is_ascii_lowercase t"
proof -
  let ?ns = "take RANDOM_SUFFIX_BYTES (List.map_filter nibble (rev uuid))"
  have t: "t = map (\<lambda>n. BASE32 ! n) ?ns" and len: "length ?ns = RANDOM_SUFFIX_BYTES"
    using assms by (auto simp: random_suffix_def Let_def split: if_splits)
  have "n < 16" if "n \<in> set ?ns" for n
    using in_set_takeD [OF that] by (auto simp: map_filter_def intro: nibble_bound)
  then show "length t = 6" "list_all is_ascii_lowercase t"
    using t len by (auto simp: RANDOM_SUFFIX_BYTES_def list_all_iff base32_lowercase)
qed

lemma allocated_name:
  assumes slug: "slug_wf slug" and rnd: "random_suffix uuid = Ok t"
  shows "canonical_name_from_parts slug t = Ok (slug @ ''-'' @ t)"
    "validate_canonical_name (slug @ ''-'' @ t) slug = Ok ()"
proof -
  note t = random_suffix_Ok [OF rnd]
  have "validate_suffix t = Ok ()" using t by (auto simp: validate_suffix_def list_all_iff)
  moreover have "AgentName_parse (slug @ ''-'' @ t) = Ok (slug @ ''-'' @ t)"
  proof -
    have parts: "slug \<noteq> []" "length slug \<le> 25" "is_ascii_lowercase (hd slug)"
      "\<forall>c \<in> set slug. slug_char c \<or> c = CHR ''-''" using slug by (auto simp: slug_wf_def slug_like_def)
    have "set (tl (slug @ ''-'' @ t)) \<subseteq> set slug \<union> {CHR ''-''} \<union> set t"
      using parts(1) by (cases slug) auto
    then have "list_all (\<lambda>b. is_ascii_lowercase b \<or> is_ascii_digit b \<or> b = CHR ''_'' \<or> b = CHR ''-'') (tl (slug @ ''-'' @ t))"
      using parts(4) t(2) by (auto simp: list_all_iff slug_char_def)
    moreover have "hd (slug @ ''-'' @ t) = hd slug" using parts(1) by simp
    ultimately show ?thesis using parts(2,3) t(1) unfolding AgentName_parse_def by simp
  qed
  ultimately show name: "canonical_name_from_parts slug t = Ok (slug @ ''-'' @ t)"
    using canonical_slug_stable [OF slug] by (simp add: canonical_name_from_parts_def)
  then show "validate_canonical_name (slug @ ''-'' @ t) slug = Ok ()"
    by (simp add: validate_canonical_name_def strip_prefix_def ok_or_def)
qed

lemma validated_name_parses:
  assumes "validate_canonical_name name slug = Ok ()"
  shows "AgentName_parse name = Ok name"
  using assms by (auto simp: validate_canonical_name_def canonical_name_from_parts_def res_bind_eq_Ok split: if_splits
      dest: AgentName_parse_Ok)

section \<open>The table\<close>

definition same_pane :: "IdentityRow \<Rightarrow> IdentityRow \<Rightarrow> bool" where
  "same_pane a b \<longleftrightarrow> ir_workspace_id a = ir_workspace_id b \<and> ir_pane_id a = ir_pane_id b
     \<and> ir_harness a = ir_harness b \<and> ir_harness_session_id a = ir_harness_session_id b"

definition identities_ok :: "IdentityRow list \<Rightarrow> bool" where
  "identities_ok rows \<longleftrightarrow>
     (\<forall>row \<in> set rows. validate_row None row = Ok (ir_workspace_id row))
     \<and> distinct (map ir_canonical_name rows)
     \<and> sorted_wrt (\<lambda>a b. \<not> same_pane a b) rows
     \<and> (\<exists>workspace. \<forall>row \<in> set rows. ir_workspace_id row = workspace)"

lemma RoleLabel_parse_Ok: "RoleLabel_parse v = Ok w \<Longrightarrow> w = v"
  by (simp add: RoleLabel_parse_def split: if_splits)

lemma identities_ok_check:
  assumes ok: "identities_ok rows" and e: "\<forall>row \<in> set rows. e = None \<or> e = Some (ir_workspace_id row)"
  shows "check_rows e rows = Ok ()"
proof -
  have row: "validate_row e row = Ok (ir_workspace_id row)" if "row \<in> set rows" for row
  proof -
    have "validate_row None row = Ok (ir_workspace_id row)" "e = None \<or> e = Some (ir_workspace_id row)"
      using ok e that unfolding identities_ok_def by blast+
    then show ?thesis by (auto simp: validate_row_def res_bind_eq_Ok)
  qed
  then have "collect_res (validate_row e) rows = Ok (map ir_workspace_id rows)"
    by (simp add: collect_res_Ok list_all2_conv_all_nth)
  moreover have "length (remdups (map ir_workspace_id rows)) \<le> 1"
  proof -
    obtain w where "set (map ir_workspace_id rows) \<subseteq> {w}" using ok by (auto simp: identities_ok_def)
    then have "card (set (map ir_workspace_id rows)) \<le> card {w}" by (rule card_mono [rotated]) simp
    then show ?thesis by (simp add: length_remdups_card_conv del: set_map)
  qed
  ultimately show ?thesis by (simp add: check_rows_def)
qed

lemma set_current_role_fields:
  "map ir_canonical_name (set_current_role pane sid rows) = map ir_canonical_name rows"
  "map ir_original_role_slug (set_current_role pane sid rows) = map ir_original_role_slug rows"
  by (simp_all add: set_current_role_def)

lemma set_current_role_ok:
  assumes ok: "identities_ok rows" and role: "RoleLabel_parse (vpane_role pane) = Ok (vpane_role pane)"
  shows "identities_ok (set_current_role pane sid rows)"
proof -
  let ?f = "\<lambda>row. if row_of_pane pane sid row then row\<lparr>ir_current_role := vpane_role pane\<rparr> else row"
  have same: "same_pane (?f a) (?f b) = same_pane a b" "ir_workspace_id (?f a) = ir_workspace_id a" for a b
    by (simp_all add: same_pane_def)
  have "validate_row None (?f row) = Ok (ir_workspace_id (?f row))" if "validate_row None row = Ok (ir_workspace_id row)" for row
    using that role by (auto simp: validate_row_def res_bind_eq_Ok)
  then have "\<forall>row \<in> set (set_current_role pane sid rows). validate_row None row = Ok (ir_workspace_id row)"
    using ok unfolding identities_ok_def set_current_role_def set_map by blast
  moreover have "sorted_wrt (\<lambda>a b. \<not> same_pane a b) (set_current_role pane sid rows)"
    using ok unfolding identities_ok_def set_current_role_def sorted_wrt_map same by blast
  moreover have "\<exists>w. \<forall>row \<in> set (set_current_role pane sid rows). ir_workspace_id row = w"
    using ok unfolding identities_ok_def set_current_role_def by auto
  ultimately show ?thesis using ok unfolding identities_ok_def set_current_role_fields by blast
qed

lemma insert_row_ok:
  assumes ok: "identities_ok rows" and ins: "insert_row row rows = (True, rows')"
    and valid: "validate_row None row = Ok (ir_workspace_id row)" and ws: "\<forall>r \<in> set rows. ir_workspace_id r = ir_workspace_id row"
  shows "identities_ok rows'" "rows' = rows @ [row]"
proof -
  show rows': "rows' = rows @ [row]" using ins by (simp add: insert_row_def split: if_splits)
  have new: "\<forall>r \<in> set rows. ir_canonical_name r \<noteq> ir_canonical_name row \<and> \<not> same_pane r row"
    using ins by (auto simp: insert_row_def list_ex_iff same_pane_def split: if_splits)
  have "distinct (map ir_canonical_name rows')" using ok new unfolding rows' identities_ok_def by auto
  moreover have "sorted_wrt (\<lambda>a b. \<not> same_pane a b) rows'"
    using ok new unfolding rows' identities_ok_def sorted_wrt_append by simp
  moreover have "\<forall>r \<in> set rows'. ir_workspace_id r = ir_workspace_id row" using ws unfolding rows' by auto
  moreover have "\<forall>r \<in> set rows'. validate_row None r = Ok (ir_workspace_id r)"
    using ok valid unfolding rows' identities_ok_def set_append list.set by blast
  ultimately show "identities_ok rows'" unfolding identities_ok_def by blast
qed

section \<open>The operations\<close>

abbreviation next_fault :: "identity_db \<Rightarrow> bool" where
  "next_fault s \<equiv> id_faults s \<noteq> [] \<and> hd (id_faults s)"

definition id_tick :: "identity_db \<Rightarrow> identity_db" where
  "id_tick s = s\<lparr>id_faults := tl (id_faults s)\<rparr>"

lemma id_tick_simps [simp]: "id_rows (id_tick s) = id_rows s" "id_transaction (id_tick s) = id_transaction s"
  by (simp_all add: id_tick_def)

lemma wp_id_statement [simp]:
  "wp (id_statement f) E Q s =
     (if next_fault s then E IdSqlite (id_tick s)
      else case f (id_rows s) of (a, rows) \<Rightarrow> Q a ((id_tick s)\<lparr>id_rows := rows\<rparr>))"
  by (simp add: wp_def id_statement_def id_tick_def Let_def split: prod.splits)

lemma id_rows_same: "(id_tick s)\<lparr>id_rows := id_rows s\<rparr> = id_tick s"
  by (cases s) (simp add: id_tick_def)

lemma wp_id_query [simp]:
  "wp (id_query g) E Q s = (if next_fault s then E IdSqlite (id_tick s) else Q (g (id_rows s)) (id_tick s))"
  by (simp add: id_query_def id_rows_same)

lemma wp_id_commit [simp]:
  "wp id_commit E Q s = (if next_fault s then E IdSqlite (id_tick s) else Q () ((id_tick s)\<lparr>id_transaction := None\<rparr>))"
  by (simp add: id_commit_def)

lemma wp_id_transact:
  assumes fault: "\<And>e. E e (id_tick s)"
    and body: "wp body (\<lambda>e s'. E e (id_rollback s')) (\<lambda>a s'. Q a (id_rollback s')) ((id_tick s)\<lparr>id_transaction := Some (id_rows s)\<rparr>)"
  shows "wp (id_transact body) E Q s"
  using assms unfolding id_transact_def
  by (auto simp: wp_def [of "\<lambda>s. case body s of (r, s') \<Rightarrow> (r, id_rollback s')"] wp_def [of body] split: prod.splits res.splits)

lemma random_suffix_no_panic: "random_suffix u \<noteq> Panic"
  by (simp add: random_suffix_def Let_def)

lemma wp_suffix_source [simp]:
  "wp suffix_source E Q s =
     (case random_suffix (id_random s (id_drawn s)) of
        Ok t \<Rightarrow> Q t (s\<lparr>id_drawn := id_drawn s + 1\<rparr>) | Err e \<Rightarrow> E e (s\<lparr>id_drawn := id_drawn s + 1\<rparr>) | Panic \<Rightarrow> False)"
  by (simp add: wp_def suffix_source_def split: res.splits)

text \<open>The identity that a row holds, and what resolving a pane does to the rows.\<close>

definition resolved :: "VerifiedPane \<Rightarrow> string \<Rightarrow> IdentityRow list \<Rightarrow> AgentIdentity \<Rightarrow> IdentityRow list \<Rightarrow> bool" where
  "resolved pane sid rows identity rows' \<longleftrightarrow>
     (\<exists>row \<in> set rows'. row_of_pane pane sid row \<and> ir_canonical_name row = ai_canonical_name identity
        \<and> identity_of_row (ai_canonical_name identity) row = Ok identity
        \<and> rows' = (if list_ex (row_of_pane pane sid) rows then set_current_role pane sid rows else rows @ [row]))"

definition pane_ok :: "VerifiedPane \<Rightarrow> string \<Rightarrow> bool" where
  "pane_ok pane sid \<longleftrightarrow> validate_pane pane sid = Ok () \<and> RoleLabel_parse (vpane_role pane) = Ok (vpane_role pane)"

lemma new_row_valid:
  assumes "pane_ok pane sid" "slug_wf slug" "random_suffix u = Ok t"
  shows "validate_row None (new_row pane sid (slug @ ''-'' @ t) slug) = Ok (vpane_workspace_id pane)"
  using assms allocated_name(2) [OF assms(2,3)]
  by (simp add: pane_ok_def validate_pane_def validate_row_def new_row_def res_bind_eq_Ok)

lemma new_row_resolved:
  assumes "pane_ok pane sid" "\<not> list_ex (row_of_pane pane sid) rows"
  shows "resolved pane sid rows \<lparr>ai_canonical_name = name, ai_original_role_slug = slug, ai_current_role = vpane_role pane,
     ai_pane_id = vpane_pane_id pane, ai_harness = vpane_harness pane, ai_harness_session_id = sid,
     ai_workspace_id = vpane_workspace_id pane\<rparr> (rows @ [new_row pane sid name slug])"
  using assms by (simp add: resolved_def identity_of_row_def new_row_def row_of_pane_def pane_ok_def)

lemma allocate_rule:
  assumes ok: "identities_ok rows" and ws: "\<forall>r \<in> set rows. ir_workspace_id r = vpane_workspace_id pane"
    and pane: "pane_ok pane sid" and none: "\<not> list_ex (row_of_pane pane sid) rows" and slug: "slug_wf slug"
  shows "id_rows s = rows \<Longrightarrow> id_transaction s = Some rows \<Longrightarrow>
    wp (allocate n pane sid slug) (\<lambda>_ s'. id_transaction s' = Some rows)
      (\<lambda>identity s'. id_transaction s' = None \<and> identities_ok (id_rows s') \<and> resolved pane sid rows identity (id_rows s')) s"
proof (induction n arbitrary: s)
  case (Suc n)
  show ?case
  proof (cases "random_suffix (id_random s (id_drawn s))")
    case (Ok t)
    let ?row = "new_row pane sid (slug @ ''-'' @ t) slug"
    note valid = new_row_valid [OF pane slug Ok]
    have ws': "ir_workspace_id ?row = vpane_workspace_id pane" by (simp add: new_row_def)
    show ?thesis
    proof (cases "insert_row ?row rows")
      case (Pair inserted rows')
      have "identities_ok rows'" "rows' = rows @ [?row]" if "inserted"
        using insert_row_ok [OF ok, of ?row rows'] Pair that valid ws ws' by simp_all
      moreover have "rows' = rows" if "\<not> inserted" using Pair that by (simp add: insert_row_def split: if_splits)
      ultimately show ?thesis
        using Ok Suc.prems Suc.IH Pair new_row_resolved [OF pane none, of "slug @ ''-'' @ t" slug] allocated_name(1) [OF slug Ok]
        by (cases inserted) simp_all
    qed
  next
    case (Err e)
    with Suc.prems show ?thesis by simp
  qed (simp add: random_suffix_no_panic)
qed simp

lemma resolve_existing_rule:
  assumes ok: "identities_ok rows" and pane: "pane_ok pane sid" and row: "find (row_of_pane pane sid) rows = Some row"
    and s: "id_rows s = rows" "id_transaction s = Some rows"
  shows "wp (resolve_existing pane sid row) (\<lambda>_ s'. id_transaction s' = Some rows)
      (\<lambda>identity s'. id_transaction s' = None \<and> identities_ok (id_rows s') \<and> resolved pane sid rows identity (id_rows s')) s"
proof -
  have mem: "row \<in> set rows" "row_of_pane pane sid row" using row by (auto simp: find_Some_iff)
  have role: "RoleLabel_parse (vpane_role pane) = Ok (vpane_role pane)" using pane by (simp add: pane_ok_def)
  have name: "AgentName_parse (ir_canonical_name row) = Ok (ir_canonical_name row)"
    using ok mem(1) by (auto simp: identities_ok_def validate_row_def res_bind_eq_Ok intro: validated_name_parses)
  let ?row = "row\<lparr>ir_current_role := vpane_role pane\<rparr>"
  have "?row \<in> set (set_current_role pane sid rows)" using mem by (force simp: set_current_role_def)
  moreover have "list_ex (row_of_pane pane sid) rows" using mem by (auto simp: list_ex_iff)
  ultimately have "resolved pane sid rows \<lparr>ai_canonical_name = ir_canonical_name row,
      ai_original_role_slug = ir_original_role_slug row, ai_current_role = vpane_role pane, ai_pane_id = vpane_pane_id pane,
      ai_harness = vpane_harness pane, ai_harness_session_id = sid, ai_workspace_id = vpane_workspace_id pane\<rparr>
      (set_current_role pane sid rows)"
    unfolding resolved_def using mem(2) role by (intro bexI [of _ ?row]) (auto simp: identity_of_row_def row_of_pane_def)
  with s role name set_current_role_ok [OF ok role] show ?thesis
    by (simp add: resolve_existing_def identity_from_parts_def)
qed

lemma resolve_rows_rule:
  assumes ok: "identities_ok rows" and pane: "pane_ok pane sid" and s: "id_rows s = rows" "id_transaction s = Some rows"
  shows "wp (resolve_rows pane sid) (\<lambda>_ s'. id_transaction s' = Some rows)
    (\<lambda>identity s'. id_transaction s' = None \<and> identities_ok (id_rows s') \<and> resolved pane sid rows identity (id_rows s')) s"
proof -
  have ws: "\<forall>r \<in> set rows. ir_workspace_id r = vpane_workspace_id pane"
    if "rows = [] \<or> ir_workspace_id (hd rows) = vpane_workspace_id pane"
    using ok that by (cases rows) (auto simp: identities_ok_def)
  have "wp (case find (row_of_pane pane sid) rows of Some row \<Rightarrow> resolve_existing pane sid row
        | None \<Rightarrow> allocate MAX_ALLOCATION_ATTEMPTS pane sid (canonical_slug (Some (vpane_role pane))))
      (\<lambda>_ s'. id_transaction s' = Some rows)
      (\<lambda>identity s'. id_transaction s' = None \<and> identities_ok (id_rows s') \<and> resolved pane sid rows identity (id_rows s')) s1"
    if "id_rows s1 = rows" "id_transaction s1 = Some rows" "rows = [] \<or> ir_workspace_id (hd rows) = vpane_workspace_id pane" for s1
  proof (cases "find (row_of_pane pane sid) rows")
    case None
    then have "\<not> list_ex (row_of_pane pane sid) rows" by (auto simp: find_None_iff list_ex_iff)
    from allocate_rule [OF ok ws [OF that(3)] pane this canonical_slug_wf that(1,2)] None show ?thesis by simp
  next
    case (Some row)
    from resolve_existing_rule [OF ok pane Some that(1,2)] Some show ?thesis by simp
  qed
  with s show ?thesis unfolding resolve_rows_def by (auto simp: wp_lift_res)
qed

lemma resolve_rule:
  assumes ok: "identities_ok (id_rows s)" and role: "RoleLabel_parse (vpane_role pane) = Ok (vpane_role pane)"
  shows "wp (resolve_or_create expected pane sid) (\<lambda>_ s'. id_rows s' = id_rows s)
    (\<lambda>identity s'. identities_ok (id_rows s') \<and> resolved pane sid (id_rows s) identity (id_rows s')) s"
proof (cases "validate_pane pane sid")
  case (Ok u)
  then have "pane_ok pane sid" using role by (simp add: pane_ok_def)
  from resolve_rows_rule [OF ok this, of "(id_tick s)\<lparr>id_transaction := Some (id_rows s)\<rparr>"]
  have "wp (id_transact (resolve_rows pane sid)) (\<lambda>_ s'. id_rows s' = id_rows s)
      (\<lambda>identity s'. identities_ok (id_rows s') \<and> resolved pane sid (id_rows s) identity (id_rows s')) s"
    by (auto simp: id_rollback_def intro!: wp_id_transact elim!: wp_conseq)
  with Ok show ?thesis unfolding resolve_or_create_def by (auto simp: wp_lift_res split: option.splits)
qed (auto simp: resolve_or_create_def wp_lift_res validate_pane_def res_bind_eq_Panic validate_field_def validate_workspace_id_def split: if_splits)

text \<open>A resolved identity is found again by its name.\<close>

lemma resolved_found:
  assumes ok: "identities_ok (id_rows s')" and res: "resolved pane sid rows identity (id_rows s')" and quiet: "\<not> next_fault s'"
  shows "find_by_canonical (ai_canonical_name identity) s' = (Ok (Some identity), id_tick s')"
proof -
  let ?name = "ai_canonical_name identity"
  obtain row where row: "row \<in> set (id_rows s')" "ir_canonical_name row = ?name" "identity_of_row ?name row = Ok identity"
    using res by (auto simp: resolved_def)
  obtain found where found: "find (\<lambda>row. ir_canonical_name row = ?name) (id_rows s') = Some found"
    using row(1,2) by (cases "find (\<lambda>row. ir_canonical_name row = ?name) (id_rows s')") (auto simp: find_None_iff)
  then have "found \<in> set (id_rows s')" "ir_canonical_name found = ?name" by (auto simp: find_Some_iff)
  then have "found = row" using ok row(1,2) unfolding identities_ok_def distinct_map inj_on_def by metis
  with found row(3) quiet show ?thesis
    by (simp add: find_by_canonical_def bindM_def id_query_def id_statement_def id_tick_def Let_def lift_res_def ret_def)
qed

text \<open>Resolving the same pane once more gives the name and the slug of its row.\<close>

lemma pane_row_unique:
  assumes "identities_ok rows" "a \<in> set rows" "b \<in> set rows" "row_of_pane pane sid a" "row_of_pane pane sid b"
  shows "a = b"
proof -
  have "same_pane a b" "same_pane b a" using assms(4,5) by (simp_all add: row_of_pane_def same_pane_def)
  moreover have "sorted_wrt (\<lambda>a b. \<not> same_pane a b) rows" using assms(1) by (simp add: identities_ok_def)
  ultimately show ?thesis using assms(2,3) by (auto simp: sorted_wrt_iff_nth_less in_set_conv_nth) (metis linorder_neqE_nat)
qed

lemma identity_of_row_fields:
  assumes "identity_of_row name row = Ok identity"
  shows "ai_original_role_slug identity = ir_original_role_slug row" "ai_current_role identity = ir_current_role row"
  using assms RoleLabel_parse_Ok [of "ir_current_role row"] by (auto simp: identity_of_row_def res_bind_eq_Ok)

lemma resolved_twice:
  assumes ok: "identities_ok rows1" and first: "resolved pane sid rows identity rows1"
    and second: "resolved (pane\<lparr>vpane_role := role\<rparr>) sid rows1 identity' rows2"
  shows "ai_canonical_name identity' = ai_canonical_name identity"
    "ai_original_role_slug identity' = ai_original_role_slug identity" "ai_current_role identity' = role"
proof -
  let ?pane = "pane\<lparr>vpane_role := role\<rparr>"
  have pane: "row_of_pane ?pane sid r = row_of_pane pane sid r" for r by (simp add: row_of_pane_def)
  obtain row where row: "row \<in> set rows1" "row_of_pane pane sid row" "ir_canonical_name row = ai_canonical_name identity"
    "identity_of_row (ai_canonical_name identity) row = Ok identity"
    using first by (auto simp: resolved_def)
  obtain row' where row': "row' \<in> set rows2" "row_of_pane pane sid row'" "ir_canonical_name row' = ai_canonical_name identity'"
    "identity_of_row (ai_canonical_name identity') row' = Ok identity'"
    "rows2 = (if list_ex (row_of_pane pane sid) rows1 then set_current_role ?pane sid rows1 else rows1 @ [row'])"
    using second by (auto simp: resolved_def pane [abs_def])
  have "list_ex (row_of_pane pane sid) rows1" using row by (auto simp: list_ex_iff)
  then obtain old where old: "old \<in> set rows1" "row' = (if row_of_pane pane sid old then old\<lparr>ir_current_role := role\<rparr> else old)"
    using row'(1,5) by (auto simp: set_current_role_def pane)
  then have "row_of_pane pane sid old" using row'(2) by (auto split: if_splits)
  with pane_row_unique [OF ok old(1) row(1) _ row(2)] old have same: "row' = row\<lparr>ir_current_role := role\<rparr>" by simp
  with row(3) row'(3) identity_of_row_fields [OF row(4)] identity_of_row_fields [OF row'(4)] show "ai_canonical_name identity' = ai_canonical_name identity"
    "ai_original_role_slug identity' = ai_original_role_slug identity" "ai_current_role identity' = role"
    by simp_all
qed

end
