(* ===== verification/Identity_Properties.thy ===== *)
theory Identity_Properties
  imports Identity_Correct
begin

text \<open>
  The properties of the identity store of \<^verbatim>\<open>herdr-a2a-broker/src/identity.rs\<close>, each followed by an instance on a
  small table.
\<close>

definition sample_pane :: "string \<Rightarrow> VerifiedPane" where
  "sample_pane role = \<lparr>vpane_pane_id = ''p1'', vpane_workspace_id = ''w1'', vpane_role = role,
     vpane_harness = ''claude'', vpane_workspace_path = ''/w''\<rparr>"

definition empty_identities :: identity_db where
  "empty_identities = \<lparr>id_rows = [], id_transaction = None, id_faults = [],
     id_random = (\<lambda>n. ''e5f-543210''), id_drawn = 0\<rparr>"

lemma empty_identities_ok: "identities_ok (id_rows empty_identities)"
  by (simp add: empty_identities_def identities_ok_def)

lemma sample_roles:
  "RoleLabel_parse (vpane_role (sample_pane ''QA'')) = Ok (vpane_role (sample_pane ''QA''))"
  "RoleLabel_parse ''Ed'' = Ok ''Ed''"
  by code_simp code_simp

section \<open>Names\<close>

text \<open>
  C30: every role label yields a name.  Whatever the label, the slug made of it is a fixed point of the slug
  function, has at most 25 characters, and together with any suffix that the random source returns it
  makes a name which is a valid agent name and which the check of stored names accepts.
\<close>

theorem every_role_yields_a_name:
  assumes "random_suffix uuid = Ok t"
  shows "canonical_slug (Some (canonical_slug label)) = canonical_slug label
    \<and> length (canonical_slug label) \<le> 25
    \<and> canonical_name_from_parts (canonical_slug label) t = Ok (canonical_slug label @ ''-'' @ t)
    \<and> AgentName_parse (canonical_slug label @ ''-'' @ t) = Ok (canonical_slug label @ ''-'' @ t)
    \<and> validate_canonical_name (canonical_slug label @ ''-'' @ t) (canonical_slug label) = Ok ()"
  using allocated_name [OF canonical_slug_wf assms, of label] canonical_slug_stable [OF canonical_slug_wf, of label]
    validated_name_parses canonical_slug_wf [of label]
  by (simp add: slug_wf_def slug_like_length)

theorem every_role_yields_a_name_witness:
  "AgentName_parse (canonical_slug (Some ''Code Review!'') @ ''-'' @ ''pohgfe'') = Ok ''code-review-pohgfe''"
proof -
  have "random_suffix ''0190a1b2-c3d4-7e5f-8a9b-0123456456ef'' = Ok ''pogfeg''"
    "random_suffix ''0190a1b2-c3d4-7e5f-8a9b-0123454567ef'' = Ok ''pohgfe''" by code_simp+
  moreover have "canonical_slug (Some ''Code Review!'') = ''code-review''" by code_simp
  ultimately show ?thesis using every_role_yields_a_name [of "''0190a1b2-c3d4-7e5f-8a9b-0123454567ef''" "''pohgfe''" "Some ''Code Review!''"]
    by simp
qed

section \<open>The table\<close>

text \<open>
  Resolving an identity keeps the table in order.  If the rows are valid, of one workspace and unique by
  pane and by name, they still are after \<^verbatim>\<open>resolve_or_create\<close>, whichever SQL statement fails; an error changes
  no row; success changes the current role of the pane's row or adds one row for it; and the store opens
  again for the workspace.  The operation does not panic.
\<close>

theorem resolving_keeps_identities:
  assumes "identities_ok (id_rows s)" "RoleLabel_parse (vpane_role pane) = Ok (vpane_role pane)"
  shows "case resolve_or_create expected pane sid s of
      (Ok identity, s') \<Rightarrow> identities_ok (id_rows s') \<and> resolved pane sid (id_rows s) identity (id_rows s')
        \<and> check_rows None (id_rows s') = Ok ()
    | (Err e, s') \<Rightarrow> id_rows s' = id_rows s
    | (Panic, s') \<Rightarrow> False"
  using resolve_rule [OF assms, of expected sid] identities_ok_check [of _ None]
  by (auto simp: wp_def split: prod.splits res.splits)

theorem resolving_keeps_identities_witness:
  "map ir_canonical_name (id_rows (snd (resolve_or_create None (sample_pane ''QA'') ''s1'' empty_identities))) = [''qa-abcdef'']
   \<and> identities_ok (id_rows (snd (resolve_or_create None (sample_pane ''QA'') ''s1'' empty_identities)))"
proof -
  have "map ir_canonical_name (id_rows (snd (resolve_or_create None (sample_pane ''QA'') ''s1'' empty_identities))) = [''qa-abcdef'']"
    by code_simp
  moreover have "case fst (resolve_or_create None (sample_pane ''QA'') ''s1'' empty_identities) of Ok _ \<Rightarrow> True | _ \<Rightarrow> False"
    by code_simp
  ultimately show ?thesis
    using resolving_keeps_identities [OF empty_identities_ok sample_roles(1), where expected = None and sid = "''s1''"]
    by (auto split: prod.splits res.splits)
qed

text \<open>
  C32: an identity lasts as long as its session.  Whenever the same pane, harness and session resolve their
  identity again, under any role label, they get the canonical name and the original slug they got
  first, and meanwhile the name finds the identity that was handed out.
\<close>

theorem identity_is_stable:
  assumes "identities_ok (id_rows s)"
    and "RoleLabel_parse (vpane_role pane) = Ok (vpane_role pane)" "RoleLabel_parse role = Ok role"
    and "resolve_or_create expected pane sid s = (Ok first, s1)"
    and "resolve_or_create expected' (pane\<lparr>vpane_role := role\<rparr>) sid s1 = (Ok again, s2)"
  shows "ai_canonical_name again = ai_canonical_name first \<and> ai_original_role_slug again = ai_original_role_slug first
    \<and> ai_current_role again = role
    \<and> (id_faults s1 = [] \<longrightarrow> fst (find_by_canonical (ai_canonical_name first) s1) = Ok (Some first))"
proof -
  have ok1: "identities_ok (id_rows s1)" and res1: "resolved pane sid (id_rows s) first (id_rows s1)"
    using wp_result(2) [OF resolve_rule [OF assms(1,2)] assms(4)] by simp_all
  have res2: "resolved (pane\<lparr>vpane_role := role\<rparr>) sid (id_rows s1) again (id_rows s2)"
    using wp_result(2) [OF resolve_rule [OF ok1] assms(5)] assms(3) by simp
  show ?thesis using resolved_twice [OF ok1 res1 res2] resolved_found [OF ok1 res1] by simp
qed

theorem identity_is_stable_witness:
  "\<exists>again s2. resolve_or_create None (sample_pane ''Ed'') ''s1''
      (snd (resolve_or_create None (sample_pane ''QA'') ''s1'' empty_identities)) = (Ok again, s2)
    \<and> ai_canonical_name again = ''qa-abcdef'' \<and> ai_current_role again = ''Ed''"
proof -
  let ?p = "sample_pane ''QA''" and ?q = "sample_pane ''Ed''"
  let ?m = "resolve_or_create None ?p ''s1'' empty_identities" and ?n = "resolve_or_create None ?q ''s1''"
  have some: "\<exists>i. x = (Ok i, snd x) \<and> f i = a" if "(case fst x of Ok i \<Rightarrow> Some (f i) | _ \<Rightarrow> None) = Some a" for x :: "(IdentityError, AgentIdentity) res \<times> identity_db" and f :: "AgentIdentity \<Rightarrow> string" and a
    using that by (cases x) (auto split: res.splits)
  have "(case fst ?m of Ok i \<Rightarrow> Some (ai_canonical_name i) | _ \<Rightarrow> None) = Some ''qa-abcdef''" by code_simp
  from some [OF this] obtain first where first: "?m = (Ok first, snd ?m)" and name: "ai_canonical_name first = ''qa-abcdef''"
    by blast
  have "(case fst (?n (snd ?m)) of Ok i \<Rightarrow> Some (ai_pane_id i) | _ \<Rightarrow> None) = Some ''p1''" by code_simp
  from some [OF this] obtain again where again: "?n (snd ?m) = (Ok again, snd (?n (snd ?m)))" by blast
  have q: "?p\<lparr>vpane_role := ''Ed''\<rparr> = ?q" by (simp add: sample_pane_def)
  have stable: "ai_canonical_name again = ai_canonical_name first \<and> ai_original_role_slug again = ai_original_role_slug first
      \<and> ai_current_role again = ''Ed''
      \<and> (id_faults (snd ?m) = [] \<longrightarrow> fst (find_by_canonical (ai_canonical_name first) (snd ?m)) = Ok (Some first))"
    by (rule identity_is_stable [OF empty_identities_ok sample_roles first]) (unfold q, rule again)
  then have "ai_canonical_name again = ''qa-abcdef''" "ai_current_role again = ''Ed''" using name by simp_all
  with again show ?thesis by blast
qed

end
