(* ===== verification/A2A_Requests.thy ===== *)
theory A2A_Requests
  imports Broker_Waits Store_Listing Store_Tasks
begin

text \<open>
  The requests of \<^verbatim>\<open>herdr-a2a-broker/src/a2a.rs\<close> and what is checked of them before they reach the
  broker: the SDK's request types, the headers, the errors, the shape of a message, and the middleware
  that keeps an explicitly empty identifier apart from a missing one.

  The SDK (\<^verbatim>\<open>a2a-lf\<close>, \<^verbatim>\<open>a2a-server-lf\<close>) is not part of the sources: \<^verbatim>\<open>Message::text\<close>, \<^verbatim>\<open>TaskState::is_terminal\<close>, the
  names of the JSON-RPC methods and \<^verbatim>\<open>serde_json::from_slice\<close> are fields of the record \<open>sdk_lib\<close>.
\<close>

section \<open>Constants\<close>

definition REGISTRATION_HEADER :: string where
  "REGISTRATION_HEADER = ''x-herdr-a2a-registration''"
definition REGISTRATION_EPOCH_HEADER :: string where
  "REGISTRATION_EPOCH_HEADER = ''x-herdr-a2a-registration-epoch''"
definition EXPLICIT_EMPTY_TASK_ID_HEADER :: string where
  "EXPLICIT_EMPTY_TASK_ID_HEADER = ''x-herdr-a2a-explicit-empty-task-id''"
definition EXPLICIT_EMPTY_CONTEXT_ID_HEADER :: string where
  "EXPLICIT_EMPTY_CONTEXT_ID_HEADER = ''x-herdr-a2a-explicit-empty-context-id''"
definition EXECUTION_ADMISSION_HEADER :: string where
  "EXECUTION_ADMISSION_HEADER = ''x-herdr-a2a-internal-execution-admission''"
definition TEXT_MODE :: string where
  "TEXT_MODE = ''text/plain''"
definition UNSUPPORTED_FILE_REFERENCES_MESSAGE :: string where
  "UNSUPPORTED_FILE_REFERENCES_MESSAGE = ''Herdr file references are not supported in this milestone''"
definition REGISTRATION_AUTH_LOST_TYPE_URL :: string where
  "REGISTRATION_AUTH_LOST_TYPE_URL = ''type.herdr.dev/herdr.a2a.RegistrationAuthLost''"
definition MAX_JSON_BODY_BYTES :: nat where
  "MAX_JSON_BODY_BYTES = 512 * 1024"

lemma header_names [simp]:
  "EXPLICIT_EMPTY_TASK_ID_HEADER \<noteq> EXPLICIT_EMPTY_CONTEXT_ID_HEADER"
  "EXPLICIT_EMPTY_CONTEXT_ID_HEADER \<noteq> EXPLICIT_EMPTY_TASK_ID_HEADER"
  "EXECUTION_ADMISSION_HEADER \<noteq> REGISTRATION_HEADER" "REGISTRATION_HEADER \<noteq> EXECUTION_ADMISSION_HEADER"
  by (simp_all add: EXPLICIT_EMPTY_TASK_ID_HEADER_def EXPLICIT_EMPTY_CONTEXT_ID_HEADER_def
      EXECUTION_ADMISSION_HEADER_def REGISTRATION_HEADER_def)

section \<open>Requests of the SDK\<close>

type_synonym ServiceParams = "(string, string list) hash_map"
type_synonym metadata = "(string, json) hash_map"

record TaskPushNotificationConfig =
  pc_task_id :: string
  pc_config :: json

record SendMessageConfiguration =
  sc_task_push_notification_config :: "TaskPushNotificationConfig option"
  sc_return_immediately :: "bool option"

record SendMessageRequest =
  sr_message :: Message
  sr_configuration :: "SendMessageConfiguration option"
  sr_metadata :: "metadata option"
  sr_tenant :: "string option"

text \<open>A request that names a task and its recipient: get, cancel, subscribe.\<close>

record TaskRequest =
  tq_id :: string
  tq_tenant :: "string option"

record sdk_lib =
  sl_message_text :: "Message \<Rightarrow> string option"
  sl_is_terminal :: "TaskState \<Rightarrow> bool"
  sl_parse_json :: "string \<Rightarrow> json option"
  sl_send_methods :: "string list"

section \<open>JSON values\<close>

fun as_str :: "json \<Rightarrow> string option" where
  "as_str (JString s) = Some s"
| "as_str _ = None"

fun as_object :: "json \<Rightarrow> metadata option" where
  "as_object (JObject kvs) = Some kvs"
| "as_object _ = None"

text \<open>\<^verbatim>\<open>Value::get\<close> of a member.\<close>

definition member :: "json \<Rightarrow> string \<Rightarrow> json option" where
  "member v field = Option.bind (as_object v) (\<lambda>kvs. hm_get kvs field)"

text \<open>The members of a \<^verbatim>\<open>serde_json::Map\<close> are in the order of their keys.\<close>

definition object_of :: "metadata option \<Rightarrow> json" where
  "object_of m = (case m of None \<Rightarrow> JObject [] | Some kvs \<Rightarrow> JObject (rows_by_key kvs))"

section \<open>Errors\<close>

definition domain_error :: "DomainError \<Rightarrow> A2AError" where
  "domain_error e =
     (case e of
        TaskNotFound \<Rightarrow> TaskNotFoundError ''unknown''
      | TaskAlreadyCompleted \<Rightarrow> TaskNotCancelable ''task''
      | TaskCanceled \<Rightarrow> TaskNotCancelable ''task''
      | TaskExpired \<Rightarrow> TaskNotCancelable ''task''
      | AgentNotRegistered \<Rightarrow> InvalidParams (DomainError_to_string e)
      | InvalidAgentName \<Rightarrow> InvalidParams (DomainError_to_string e)
      | InvalidRegistrationId \<Rightarrow> InvalidParams (DomainError_to_string e)
      | InvalidTaskId \<Rightarrow> InvalidParams (DomainError_to_string e)
      | SenderMismatch \<Rightarrow> InvalidParams (DomainError_to_string e)
      | RegistrationNotFound \<Rightarrow> InvalidParams (DomainError_to_string e)
      | RegistrationExpired \<Rightarrow> InvalidParams (DomainError_to_string e)
      | TaskNotOwned \<Rightarrow> InvalidParams (DomainError_to_string e)
      | DuplicateTask \<Rightarrow> InvalidParams ''task idempotency conflict''
      | _ \<Rightarrow> InvalidRequest (DomainError_to_string e))"

definition registration_auth_lost :: "string \<Rightarrow> A2AError" where
  "registration_auth_lost message = WithDetails (InvalidRequest message) [REGISTRATION_AUTH_LOST_TYPE_URL]"

text \<open>The closure that \<^verbatim>\<open>authenticated_registration\<close> maps the broker's error with.\<close>

definition authentication_error :: "DomainError \<Rightarrow> A2AError" where
  "authentication_error e =
     (case e of
        RegistrationExpired \<Rightarrow> registration_auth_lost ''sender registration is stale''
      | RegistrationNotFound \<Rightarrow> registration_auth_lost ''sender registration is not active''
      | _ \<Rightarrow> InvalidRequest ''sender registration could not be authenticated'')"

section \<open>Credentials\<close>

text \<open>The two headers of a request, each present exactly once.\<close>

definition request_credentials ::
    "(string \<Rightarrow> (nat \<times> bool \<times> string) option) \<Rightarrow> ServiceParams \<Rightarrow> (A2AError, RegistrationCredentials) res" where
  "request_credentials parse_uuid params =
     res_bind (ok_or (hm_get params REGISTRATION_HEADER) (InvalidRequest ''sender registration header is required'')) (\<lambda>values.
     if length values \<noteq> 1 then Err (InvalidRequest ''exactly one sender registration header is required'')
     else
     res_bind (map_err (InvalidRequest ''sender registration header is invalid'')
       (RegistrationId_parse parse_uuid (hd values))) (\<lambda>registration_id.
     res_bind (ok_or (hm_get params REGISTRATION_EPOCH_HEADER)
       (InvalidRequest ''sender registration epoch header is required'')) (\<lambda>epochs.
     if length epochs \<noteq> 1 then Err (InvalidRequest ''exactly one sender registration epoch header is required'')
     else
     res_bind (ok_or (RegistrationEpoch_parse (hd epochs))
       (InvalidRequest ''sender registration epoch header is invalid'')) (\<lambda>epoch.
     Ok \<lparr>cr_id = registration_id, cr_epoch = epoch\<rparr>))))"

section \<open>Messages\<close>

definition reserved_file_references :: "metadata option \<Rightarrow> bool" where
  "reserved_file_references metadata =
     (case Option.bind (Option.bind metadata (\<lambda>m. hm_get m ''herdr'')) as_object of
        None \<Rightarrow> False
      | Some herdr \<Rightarrow> list_ex (\<lambda>field. hm_get herdr field \<noteq> None)
          [''file_refs'', ''fileRefs'', ''file_references'', ''fileReferences''])"

definition validate_part :: "Part \<Rightarrow> (A2AError, unit) res" where
  "validate_part part =
     (case pt_content part of
        OtherContent _ \<Rightarrow> Err ContentTypeNotSupported
      | Text _ \<Rightarrow>
          if pt_filename part \<noteq> None \<or> pt_media_type part \<noteq> None
          then Err (InvalidParams UNSUPPORTED_FILE_REFERENCES_MESSAGE)
          else if pt_metadata part \<noteq> None
          then Err (InvalidParams ''A2A part metadata is not supported in this milestone'')
          else Ok ())"

definition validate_message_parts :: "Message \<Rightarrow> (A2AError, unit) res" where
  "validate_message_parts message =
     res_bind (collect_res validate_part (ms_parts message)) (\<lambda>_.
     if length (ms_parts message) \<noteq> 1
     then Err (InvalidParams ''A2A messages must contain exactly one text part'') else Ok ())"

definition validate_metadata_channel ::
    "(json \<Rightarrow> nat) \<Rightarrow> (PathBuf \<Rightarrow> PathBuf option) \<Rightarrow> metadata option \<Rightarrow> PathBuf \<Rightarrow> (A2AError, unit) res" where
  "validate_metadata_channel json_len canonicalize metadata workspace =
     (case validate_payload json_len canonicalize
             \<lparr>mp_text = [], mp_metadata = object_of metadata, mp_file_refs = []\<rparr> workspace of
        Ok _ \<Rightarrow> Ok () | Err e \<Rightarrow> Err (domain_error e) | Panic \<Rightarrow> Panic)"

definition map_domain :: "'a dres \<Rightarrow> (A2AError, 'a) res" where
  "map_domain r = (case r of Ok a \<Rightarrow> Ok a | Err e \<Rightarrow> Err (domain_error e) | Panic \<Rightarrow> Panic)"

definition validate_optional_id :: "string option \<Rightarrow> unit dres" where
  "validate_optional_id v = (case v of None \<Rightarrow> Ok () | Some x \<Rightarrow> validate_task_id x)"

definition recipient_claim :: "metadata option \<Rightarrow> json option" where
  "recipient_claim metadata =
     Option.bind (Option.bind (Option.bind metadata (\<lambda>m. hm_get m ''herdr'')) as_object) (\<lambda>m. hm_get m ''recipient'')"

definition check_claim :: "json option \<Rightarrow> AgentName \<Rightarrow> (A2AError, unit) res" where
  "check_claim claim recipient =
     (case claim of
        None \<Rightarrow> Ok ()
      | Some v \<Rightarrow>
          res_bind (ok_or (as_str v) (InvalidParams ''Herdr recipient claim must be a string'')) (\<lambda>claim.
          if claim \<noteq> recipient then Err (InvalidParams ''Herdr recipient claim does not match tenant'') else Ok ()))"

text \<open>What \<^verbatim>\<open>preflight_send\<close> does once the sender is authenticated.\<close>

definition preflight_request ::
    "sdk_lib \<Rightarrow> (json \<Rightarrow> nat) \<Rightarrow> (PathBuf \<Rightarrow> PathBuf option) \<Rightarrow> ServiceParams \<Rightarrow> SendMessageRequest \<Rightarrow> PathBuf \<Rightarrow>
     (A2AError, AgentName \<times> ValidatedPayload) res" where
  "preflight_request lib json_len canonicalize params request workspace =
     (let message = sr_message request in
     if hm_get params EXPLICIT_EMPTY_TASK_ID_HEADER \<noteq> None then Err (domain_error InvalidTaskId)
     else
     res_bind (map_domain (validate_optional_id (ms_task_id message))) (\<lambda>_.
     if hm_get params EXPLICIT_EMPTY_CONTEXT_ID_HEADER \<noteq> None then Err (InvalidParams ''invalid context ID'')
     else
     res_bind (map_err (InvalidParams ''invalid context ID'') (validate_optional_id (ms_context_id message))) (\<lambda>_.
     if Option.bind (sr_configuration request) sc_task_push_notification_config \<noteq> None
     then Err PushNotificationNotSupported
     else
     res_bind (ok_or (sr_tenant request) (InvalidParams ''recipient tenant is required'')) (\<lambda>tenant.
     res_bind (map_err (InvalidParams ''recipient tenant is invalid'') (AgentName_parse tenant)) (\<lambda>recipient.
     res_bind (check_claim (recipient_claim (sr_metadata request)) recipient) (\<lambda>_.
     if reserved_file_references (sr_metadata request) \<or> reserved_file_references (ms_metadata message)
     then Err (InvalidParams UNSUPPORTED_FILE_REFERENCES_MESSAGE)
     else
     res_bind (validate_message_parts message) (\<lambda>_.
     res_bind (validate_metadata_channel json_len canonicalize (sr_metadata request) workspace) (\<lambda>_.
     res_bind (ok_or (sl_message_text lib message) ContentTypeNotSupported) (\<lambda>text.
     res_bind (map_domain (validate_payload json_len canonicalize
       \<lparr>mp_text = text, mp_metadata = object_of (ms_metadata message), mp_file_refs = []\<rparr> workspace)) (\<lambda>payload.
     Ok (recipient, payload)))))))))))"

section \<open>Explicitly empty identifiers\<close>

definition has_explicit_empty_message_field :: "sdk_lib \<Rightarrow> string \<Rightarrow> string list \<Rightarrow> bool" where
  "has_explicit_empty_message_field lib bytes names =
     (case sl_parse_json lib bytes of
        None \<Rightarrow> False
      | Some request \<Rightarrow>
          if \<not> (case Option.bind (member request ''method'') as_str of
                  None \<Rightarrow> False | Some m \<Rightarrow> m \<in> set (sl_send_methods lib))
          then False
          else
            (case Option.bind (Option.bind (member request ''params'') (\<lambda>params. member params ''message'')) as_object of
               None \<Rightarrow> False
             | Some message \<Rightarrow> list_ex (\<lambda>field. Option.bind (hm_get message field) as_str = Some []) names))"

definition has_explicit_empty_task_id :: "sdk_lib \<Rightarrow> string \<Rightarrow> bool" where
  "has_explicit_empty_task_id lib bytes = has_explicit_empty_message_field lib bytes [''taskId'', ''task_id'']"

definition has_explicit_empty_context_id :: "sdk_lib \<Rightarrow> string \<Rightarrow> bool" where
  "has_explicit_empty_context_id lib bytes = has_explicit_empty_message_field lib bytes [''contextId'', ''context_id'']"

text \<open>
  The middleware: \<open>next\<close> answers the request with the headers it passes on.  The body has been read up to
  the limit, or not at all.
\<close>

datatype 'r middleware = PayloadTooLarge | Answered 'r

definition preserve_explicit_empty_task_id ::
    "sdk_lib \<Rightarrow> (ServiceParams \<Rightarrow> string \<Rightarrow> 'r) \<Rightarrow> ServiceParams \<Rightarrow> string \<Rightarrow> 'r middleware" where
  "preserve_explicit_empty_task_id lib next headers body =
     (let headers1 = hm_remove EXPLICIT_EMPTY_CONTEXT_ID_HEADER (hm_remove EXPLICIT_EMPTY_TASK_ID_HEADER headers) in
     if length body > MAX_JSON_BODY_BYTES then PayloadTooLarge
     else
       let headers2 = (if has_explicit_empty_task_id lib body
              then hm_insert EXPLICIT_EMPTY_TASK_ID_HEADER [''1''] headers1 else headers1);
           headers3 = (if has_explicit_empty_context_id lib body
              then hm_insert EXPLICIT_EMPTY_CONTEXT_ID_HEADER [''1''] headers2 else headers2)
       in Answered (next headers3 body))"

end
