(* ===== verification/A2A_Gates.thy ===== *)
theory A2A_Gates
  imports A2A_Prelude
begin

text \<open>
  The send gates of \<^verbatim>\<open>herdr-a2a-broker/src/a2a.rs\<close>: one mutex for each task identifier a message is being
  sent under, kept by weak references, so that the workflows sending under one identifier run one after
  the other.

  A gate is a cell of a heap: the number of \<^verbatim>\<open>Arc\<close>s that hold it and whether the mutex is locked.  A weak
  reference can be upgraded while the number is not zero.  The steps of the workflows are those between
  their points of suspension and, as they run on several threads, also the drop of an \<^verbatim>\<open>Arc\<close>.
\<close>

section \<open>Gates\<close>

record gate =
  gate_strong :: nat
  gate_locked :: bool

record Gates =
  gt_map :: "(string, nat) hash_map"
  gt_heap :: "gate list"

definition no_gates :: Gates where
  "no_gates = \<lparr>gt_map = [], gt_heap = []\<rparr>"

definition update_gate :: "nat \<Rightarrow> (gate \<Rightarrow> gate) \<Rightarrow> Gates \<Rightarrow> Gates" where
  "update_gate g f G = G\<lparr>gt_heap := (gt_heap G)[g := f (gt_heap G ! g)]\<rparr>"

text \<open>\<^verbatim>\<open>Weak::upgrade\<close>, without the reference it would add.\<close>

definition upgrade :: "Gates \<Rightarrow> nat \<Rightarrow> nat option" where
  "upgrade G g = (if g < length (gt_heap G) \<and> gate_strong (gt_heap G ! g) > 0 then Some g else None)"

definition current_gate :: "string \<Rightarrow> Gates \<Rightarrow> nat option" where
  "current_gate task_id G = Option.bind (hm_get (gt_map G) task_id) (upgrade G)"

definition send_gate :: "string \<Rightarrow> Gates \<Rightarrow> nat \<times> Gates" where
  "send_gate task_id G =
     (case current_gate task_id G of
        Some g \<Rightarrow> (g, update_gate g (\<lambda>x. x\<lparr>gate_strong := gate_strong x + 1\<rparr>) G)
      | None \<Rightarrow>
          let g = length (gt_heap G)
          in (g, \<lparr>gt_map = hm_insert task_id g (gt_map G),
                  gt_heap = gt_heap G @ [\<lparr>gate_strong = 1, gate_locked = False\<rparr>]\<rparr>))"

definition release_send_gate :: "string \<Rightarrow> nat \<Rightarrow> Gates \<Rightarrow> Gates" where
  "release_send_gate task_id g G =
     (let is_current = (current_gate task_id G = Some g)
      in if is_current \<and> gate_strong (gt_heap G ! g) = 1 then G\<lparr>gt_map := hm_remove task_id (gt_map G)\<rparr> else G)"

definition gate_is_locked :: "nat \<Rightarrow> Gates \<Rightarrow> bool" where
  "gate_is_locked g G = gate_locked (gt_heap G ! g)"

definition lock_gate :: "nat \<Rightarrow> Gates \<Rightarrow> Gates" where
  "lock_gate g = update_gate g (\<lambda>x. x\<lparr>gate_locked := True\<rparr>)"

definition unlock_gate :: "nat \<Rightarrow> Gates \<Rightarrow> Gates" where
  "unlock_gate g = update_gate g (\<lambda>x. x\<lparr>gate_locked := False\<rparr>)"

definition drop_gate :: "nat \<Rightarrow> Gates \<Rightarrow> Gates" where
  "drop_gate g = update_gate g (\<lambda>x. x\<lparr>gate_strong := gate_strong x - 1\<rparr>)"

lemmas gate_defs = update_gate_def lock_gate_def unlock_gate_def drop_gate_def gate_is_locked_def

section \<open>Workflows\<close>

text \<open>
  A workflow waits for the lock, sends, has dropped its guard, has run \<^verbatim>\<open>release_send_gate\<close> but still holds
  its reference, or is over.
\<close>

datatype phase = Waiting nat | Sending nat | Unlocked nat | Released nat | Over

fun gate_of :: "phase \<Rightarrow> nat option" where
  "gate_of (Waiting g) = Some g"
| "gate_of (Sending g) = Some g"
| "gate_of (Unlocked g) = Some g"
| "gate_of (Released g) = Some g"
| "gate_of Over = None"

record flow =
  fl_task :: string
  fl_phase :: phase

record flows =
  fs_gates :: Gates
  fs_flows :: "flow list"

abbreviation set_phase :: "nat \<Rightarrow> phase \<Rightarrow> flow list \<Rightarrow> flow list" where
  "set_phase i p fs \<equiv> fs[i := (fs ! i)\<lparr>fl_phase := p\<rparr>]"

text \<open>
  A workflow leaves the sending phase with a result, and then releases its gate, or through one of the \<^verbatim>\<open>?\<close>
  operators in that phase, which drop the guard and the reference without a release.
\<close>

inductive flow_step :: "flows \<Rightarrow> flows \<Rightarrow> bool" where
  lock: "\<lbrakk>i < length (fs_flows S); fl_phase (fs_flows S ! i) = Waiting g; \<not> gate_is_locked g (fs_gates S)\<rbrakk> \<Longrightarrow>
     flow_step S \<lparr>fs_gates = lock_gate g (fs_gates S), fs_flows = set_phase i (Sending g) (fs_flows S)\<rparr>"
| unlock: "\<lbrakk>i < length (fs_flows S); fl_phase (fs_flows S ! i) = Sending g\<rbrakk> \<Longrightarrow>
     flow_step S \<lparr>fs_gates = unlock_gate g (fs_gates S), fs_flows = set_phase i (Unlocked g) (fs_flows S)\<rparr>"
| quit: "\<lbrakk>i < length (fs_flows S); fl_phase (fs_flows S ! i) = Sending g\<rbrakk> \<Longrightarrow>
     flow_step S \<lparr>fs_gates = unlock_gate g (fs_gates S), fs_flows = set_phase i (Released g) (fs_flows S)\<rparr>"
| release: "\<lbrakk>i < length (fs_flows S); fl_phase (fs_flows S ! i) = Unlocked g\<rbrakk> \<Longrightarrow>
     flow_step S \<lparr>fs_gates = release_send_gate (fl_task (fs_flows S ! i)) g (fs_gates S),
       fs_flows = set_phase i (Released g) (fs_flows S)\<rparr>"
| finish: "\<lbrakk>i < length (fs_flows S); fl_phase (fs_flows S ! i) = Released g\<rbrakk> \<Longrightarrow>
     flow_step S \<lparr>fs_gates = drop_gate g (fs_gates S), fs_flows = set_phase i Over (fs_flows S)\<rparr>"

inductive flows_reachable :: "flows \<Rightarrow> bool" where
  start: "flows_reachable \<lparr>fs_gates = no_gates, fs_flows = []\<rparr>"
| arrive: "\<lbrakk>flows_reachable S; send_gate task_id (fs_gates S) = (g, G)\<rbrakk> \<Longrightarrow>
     flows_reachable \<lparr>fs_gates = G, fs_flows = fs_flows S @ [\<lparr>fl_task = task_id, fl_phase = Waiting g\<rparr>]\<rparr>"
| advanced: "\<lbrakk>flows_reachable S; flow_step S S'\<rbrakk> \<Longrightarrow> flows_reachable S'"

inductive_cases advanceE: "flow_step S S'"

section \<open>Invariant\<close>

text \<open>
  The references to a gate are counted, a gate is locked exactly while one workflow sends under it, and
  until a workflow has released its gate the map has the gate under the workflow's identifier.
\<close>

definition holders :: "nat \<Rightarrow> flow list \<Rightarrow> nat" where
  "holders g fs = length (filter (\<lambda>f. gate_of (fl_phase f) = Some g) fs)"

definition senders :: "nat \<Rightarrow> flow list \<Rightarrow> nat" where
  "senders g fs = length (filter (\<lambda>f. fl_phase f = Sending g) fs)"

definition gate_counts :: "flows \<Rightarrow> bool" where
  "gate_counts S \<longleftrightarrow> (\<forall>g < length (gt_heap (fs_gates S)).
     gate_strong (gt_heap (fs_gates S) ! g) = holders g (fs_flows S)
     \<and> senders g (fs_flows S) = (if gate_locked (gt_heap (fs_gates S) ! g) then 1 else 0))"

definition registered_flow :: "Gates \<Rightarrow> flow \<Rightarrow> bool" where
  "registered_flow G f \<longleftrightarrow> (case fl_phase f of
       Over \<Rightarrow> True
     | Released g \<Rightarrow> g < length (gt_heap G)
     | p \<Rightarrow> hm_get (gt_map G) (fl_task f) = gate_of p \<and> the (gate_of p) < length (gt_heap G))"

definition gate_map_ok :: "Gates \<Rightarrow> bool" where
  "gate_map_ok G \<longleftrightarrow> (\<forall>t g. hm_get (gt_map G) t = Some g \<longrightarrow> g < length (gt_heap G)
     \<and> (\<forall>t'. hm_get (gt_map G) t' = Some g \<longrightarrow> t' = t))"

definition flows_ok :: "flows \<Rightarrow> bool" where
  "flows_ok S \<longleftrightarrow> gate_counts S \<and> gate_map_ok (fs_gates S) \<and> list_all (registered_flow (fs_gates S)) (fs_flows S)"

lemma length_filter_update:
  "i < length xs \<Longrightarrow> length (filter P (xs[i := y])) + (if P (xs ! i) then 1 else 0) =
     length (filter P xs) + (if P y then 1 else 0)"
proof (induction xs arbitrary: i)
  case (Cons x xs)
  then show ?case by (cases i) auto
qed simp

lemma holders_update:
  "i < length fs \<Longrightarrow> holders g (set_phase i p fs) + (if gate_of (fl_phase (fs ! i)) = Some g then 1 else 0) =
     holders g fs + (if gate_of p = Some g then 1 else 0)"
  "i < length fs \<Longrightarrow> senders g (set_phase i p fs) + (if fl_phase (fs ! i) = Sending g then 1 else 0) =
     senders g fs + (if p = Sending g then 1 else 0)"
  unfolding holders_def senders_def by (subst length_filter_update; simp)+

lemma holders_append [simp]:
  "holders g (fs @ [f]) = holders g fs + (if gate_of (fl_phase f) = Some g then 1 else 0)"
  "senders g (fs @ [f]) = senders g fs + (if fl_phase f = Sending g then 1 else 0)"
  by (simp_all add: holders_def senders_def)

lemma holders_pos: "i < length fs \<Longrightarrow> gate_of (fl_phase (fs ! i)) = Some g \<Longrightarrow> 0 < holders g fs"
  unfolding holders_def by (auto simp: filter_empty_conv intro: nth_mem)

lemma holders_two:
  assumes "i < length fs" "j < length fs" "i \<noteq> j" "gate_of (fl_phase (fs ! i)) = Some g" "gate_of (fl_phase (fs ! j)) = Some g"
  shows "2 \<le> holders g fs"
  using holders_update(1) [OF assms(1), of g Over] holders_pos [of j "set_phase i Over fs" g] assms by simp

lemma senders_two:
  assumes "i < length fs" "j < length fs" "i \<noteq> j" "fl_phase (fs ! i) = Sending g" "fl_phase (fs ! j) = Sending g"
  shows "2 \<le> senders g fs"
proof -
  have "set_phase i Over fs ! j \<in> set (set_phase i Over fs)" using assms by (intro nth_mem) simp
  then have "0 < senders g (set_phase i Over fs)"
    using assms by (auto simp: senders_def filter_empty_conv)
  with holders_update(2) [OF assms(1), of g Over] assms show ?thesis by simp
qed

lemma heap_update [simp]:
  "gt_map (update_gate g f G) = gt_map G" "length (gt_heap (update_gate g f G)) = length (gt_heap G)"
  "h < length (gt_heap G) \<Longrightarrow> gt_heap (update_gate g f G) ! h = (if h = g then f (gt_heap G ! h) else gt_heap G ! h)"
  by (auto simp: update_gate_def nth_list_update)

text \<open>A step that changes the phase of one workflow and the cell of its gate.\<close>

lemma counts_step:
  assumes ok: "gate_counts S" and i: "i < length (fs_flows S)" and p: "gate_of (fl_phase (fs_flows S ! i)) = Some g"
    and g: "g < length (gt_heap (fs_gates S))"
    and strong: "gate_strong (f (gt_heap (fs_gates S) ! g)) + (if gate_of p' = Some g then 0 else 1) = gate_strong (gt_heap (fs_gates S) ! g)"
    and same: "gate_of p' = Some g \<or> p' = Over"
    and locked: "(if gate_locked (f (gt_heap (fs_gates S) ! g)) then 1 else 0) + (if fl_phase (fs_flows S ! i) = Sending g then 1 else 0) =
       (if gate_locked (gt_heap (fs_gates S) ! g) then 1 else 0 :: nat) + (if p' = Sending g then 1 else 0)"
  shows "gate_counts \<lparr>fs_gates = update_gate g f (fs_gates S), fs_flows = set_phase i p' (fs_flows S)\<rparr>"
  unfolding gate_counts_def
proof (intro allI impI)
  fix h assume "h < length (gt_heap (fs_gates \<lparr>fs_gates = update_gate g f (fs_gates S), fs_flows = set_phase i p' (fs_flows S)\<rparr>))"
  then have h: "h < length (gt_heap (fs_gates S))" by simp
  have "gate_strong (gt_heap (fs_gates S) ! h) = holders h (fs_flows S)"
    "senders h (fs_flows S) = (if gate_locked (gt_heap (fs_gates S) ! h) then 1 else 0)"
    using ok h by (auto simp: gate_counts_def)
  moreover have "fl_phase (fs_flows S ! i) \<noteq> Sending h \<and> p' \<noteq> Sending h" if "h \<noteq> g" using that p same by auto
  moreover note holders_update [OF i, of h p']
  ultimately show "gate_strong (gt_heap (fs_gates \<lparr>fs_gates = update_gate g f (fs_gates S), fs_flows = set_phase i p' (fs_flows S)\<rparr>) ! h) =
      holders h (fs_flows \<lparr>fs_gates = update_gate g f (fs_gates S), fs_flows = set_phase i p' (fs_flows S)\<rparr>)
    \<and> senders h (fs_flows \<lparr>fs_gates = update_gate g f (fs_gates S), fs_flows = set_phase i p' (fs_flows S)\<rparr>) =
      (if gate_locked (gt_heap (fs_gates \<lparr>fs_gates = update_gate g f (fs_gates S), fs_flows = set_phase i p' (fs_flows S)\<rparr>) ! h) then 1 else 0)"
    using h p strong locked same by (cases "h = g") (auto split: if_splits)
qed

lemma registered_update [simp]: "registered_flow (update_gate g f G) = registered_flow G" "gate_map_ok (update_gate g f G) = gate_map_ok G"
  by (simp_all add: registered_flow_def gate_map_ok_def fun_eq_iff split: phase.split)

lemma registered_flow_gate:
  "registered_flow G f \<Longrightarrow> gate_of (fl_phase f) = Some g \<Longrightarrow> g < length (gt_heap G)"
  by (auto simp: registered_flow_def split: phase.splits)

lemma advance_update_ok:
  assumes ok: "flows_ok S" and i: "i < length (fs_flows S)" and p: "gate_of (fl_phase (fs_flows S ! i)) = Some g"
    and strong: "gate_strong (f (gt_heap (fs_gates S) ! g)) + (if gate_of p' = Some g then 0 else 1) = gate_strong (gt_heap (fs_gates S) ! g)"
    and same: "gate_of p' = Some g \<or> p' = Over"
    and locked: "(if gate_locked (f (gt_heap (fs_gates S) ! g)) then 1 else 0) + (if fl_phase (fs_flows S ! i) = Sending g then 1 else 0) =
       (if gate_locked (gt_heap (fs_gates S) ! g) then 1 else 0 :: nat) + (if p' = Sending g then 1 else 0)"
    and later: "registered_flow (fs_gates S) ((fs_flows S ! i)\<lparr>fl_phase := p'\<rparr>)"
  shows "flows_ok \<lparr>fs_gates = update_gate g f (fs_gates S), fs_flows = set_phase i p' (fs_flows S)\<rparr>"
proof -
  have all: "list_all (registered_flow (fs_gates S)) (fs_flows S)" using ok by (simp add: flows_ok_def)
  then have "g < length (gt_heap (fs_gates S))" using i p registered_flow_gate by (auto simp: list_all_length)
  from counts_step [where f = f and S = S and p' = p', OF _ i p this strong same locked] i ok later all show ?thesis
    by (simp add: flows_ok_def list_all_length nth_list_update)
qed

text \<open>Removing the entry of a gate that only its releasing workflow holds.\<close>

lemma release_ok:
  assumes ok: "flows_ok S" and i: "i < length (fs_flows S)" and p: "fl_phase (fs_flows S ! i) = Unlocked g"
  shows "flows_ok \<lparr>fs_gates = release_send_gate (fl_task (fs_flows S ! i)) g (fs_gates S),
    fs_flows = set_phase i (Released g) (fs_flows S)\<rparr>"
proof -
  let ?G = "fs_gates S" and ?f = "fs_flows S ! i" and ?fs = "fs_flows S"
  let ?S = "\<lparr>fs_gates = ?G, fs_flows = set_phase i (Released g) ?fs\<rparr>"
  have all: "registered_flow ?G (?fs ! j)" if "j < length ?fs" for j using ok that by (simp add: flows_ok_def list_all_length)
  have g: "g < length (gt_heap ?G)" "hm_get (gt_map ?G) (fl_task ?f) = Some g"
    using all [OF i] p by (auto simp: registered_flow_def)
  have same: "flows_ok ?S"
    using advance_update_ok [OF ok i, of g "\<lambda>x. x" "Released g"] p g
    by (simp add: update_gate_def registered_flow_def)
  have "flows_ok (?S\<lparr>fs_gates := ?G\<lparr>gt_map := hm_remove (fl_task ?f) (gt_map ?G)\<rparr>\<rparr>)" if one: "gate_strong (gt_heap ?G ! g) = 1"
  proof -
    have "holders g ?fs = 1" using ok g(1) one by (simp add: flows_ok_def gate_counts_def)
    then have alone: "gate_of (fl_phase (?fs ! j)) \<noteq> Some g" if "j < length ?fs" "j \<noteq> i" for j
      using holders_two [OF that(1) i that(2), of g] p by auto
    have "registered_flow (?G\<lparr>gt_map := hm_remove (fl_task ?f) (gt_map ?G)\<rparr>) (set_phase i (Released g) ?fs ! j)" if j: "j < length ?fs" for j
    proof (cases "j = i")
      case True
      then show ?thesis using i g(1) by (simp add: registered_flow_def)
    next
      case False
      with all [OF j] alone [OF j False] g(2) show ?thesis
        by (auto simp: registered_flow_def split: phase.splits)
    qed
    with same show ?thesis
      by (auto simp: flows_ok_def gate_counts_def gate_map_ok_def list_all_length split: if_splits)
  qed
  with same show ?thesis by (simp add: release_send_gate_def Let_def)
qed

lemma sending_locked:
  assumes ok: "flows_ok S" and i: "i < length (fs_flows S)" "fl_phase (fs_flows S ! i) = Sending g"
  shows "gate_locked (gt_heap (fs_gates S) ! g)"
proof -
  have "registered_flow (fs_gates S) (fs_flows S ! i)" using ok i(1) by (simp add: flows_ok_def list_all_length)
  then have "g < length (gt_heap (fs_gates S))" using i(2) registered_flow_gate [of _ _ g] by simp
  moreover have "0 < senders g (fs_flows S)" using i by (auto simp: senders_def filter_empty_conv intro: nth_mem)
  ultimately show ?thesis using ok by (auto simp: flows_ok_def gate_counts_def split: if_splits)
qed

lemma advance_ok:
  assumes "flow_step S S'" "flows_ok S"
  shows "flows_ok S'"
  using assms(1)
proof cases
  case (lock i g)
  then have r: "registered_flow (fs_gates S) (fs_flows S ! i)" using assms(2) by (simp add: flows_ok_def list_all_length)
  show ?thesis
    unfolding lock(1) lock_gate_def
    by (rule advance_update_ok [OF assms(2)]) (use lock r in \<open>auto simp: registered_flow_def gate_is_locked_def\<close>)
next
  case (unlock i g)
  then have r: "registered_flow (fs_gates S) (fs_flows S ! i)" using assms(2) by (simp add: flows_ok_def list_all_length)
  from sending_locked [OF assms(2) unlock(2,3)] show ?thesis
    unfolding unlock(1) unlock_gate_def
    by (intro advance_update_ok [OF assms(2)]) (use unlock r in \<open>auto simp: registered_flow_def\<close>)
next
  case (quit i g)
  then have r: "registered_flow (fs_gates S) (fs_flows S ! i)" using assms(2) by (simp add: flows_ok_def list_all_length)
  from sending_locked [OF assms(2) quit(2,3)] show ?thesis
    unfolding quit(1) unlock_gate_def
    by (intro advance_update_ok [OF assms(2)]) (use quit r in \<open>auto simp: registered_flow_def\<close>)
next
  case (release i g)
  then show ?thesis using release_ok [OF assms(2)] by simp
next
  case (finish i g)
  then have r: "registered_flow (fs_gates S) (fs_flows S ! i)" using assms(2) by (simp add: flows_ok_def list_all_length)
  then have "g < length (gt_heap (fs_gates S))" using finish registered_flow_gate [of _ _ g] by simp
  then have "0 < gate_strong (gt_heap (fs_gates S) ! g)"
    using assms(2) holders_pos [of i "fs_flows S" g] finish by (simp add: flows_ok_def gate_counts_def)
  then show ?thesis
    unfolding finish(1) drop_gate_def
    by (intro advance_update_ok [OF assms(2)]) (use finish in \<open>auto simp: registered_flow_def\<close>)
qed

text \<open>A workflow that arrives shares the gate of those under its identifier, or has a new one if there are none.\<close>

lemma holders_fresh:
  assumes "list_all (registered_flow G) fs" "length (gt_heap G) \<le> g"
  shows "holders g fs = 0" "senders g fs = 0"
proof -
  have "gate_of (fl_phase f) \<noteq> Some g" if "f \<in> set fs" for f
    using assms that registered_flow_gate [of G f g] by (auto simp: list_all_iff)
  then show "holders g fs = 0" "senders g fs = 0"
    by (force simp: holders_def senders_def filter_empty_conv)+
qed

lemma registered_waiting [simp]:
  "registered_flow G \<lparr>fl_task = t, fl_phase = Waiting g\<rparr> \<longleftrightarrow> hm_get (gt_map G) t = Some g \<and> g < length (gt_heap G)"
  by (simp add: registered_flow_def)

lemma arrive_ok:
  assumes ok: "flows_ok S" and sg: "send_gate task_id (fs_gates S) = (g, G)"
  shows "flows_ok \<lparr>fs_gates = G, fs_flows = fs_flows S @ [\<lparr>fl_task = task_id, fl_phase = Waiting g\<rparr>]\<rparr>"
proof (cases "current_gate task_id (fs_gates S)")
  case (Some h)
  then have h: "g = h" "G = update_gate h (\<lambda>x. x\<lparr>gate_strong := gate_strong x + 1\<rparr>) (fs_gates S)"
    "hm_get (gt_map (fs_gates S)) task_id = Some h" "h < length (gt_heap (fs_gates S))"
    using sg by (auto simp: send_gate_def current_gate_def upgrade_def bind_eq_Some_conv split: if_splits)
  then show ?thesis
    using ok by (simp add: flows_ok_def gate_counts_def)
next
  case None
  let ?G = "fs_gates S" and ?fs = "fs_flows S"
  have G: "g = length (gt_heap ?G)" "gt_map G = hm_insert task_id g (gt_map ?G)"
    "gt_heap G = gt_heap ?G @ [\<lparr>gate_strong = 1, gate_locked = False\<rparr>]"
    using sg None by (auto simp: send_gate_def Let_def)
  have all: "list_all (registered_flow ?G) ?fs" using ok by (simp add: flows_ok_def)
  have keep: "registered_flow G f" if f: "f \<in> set ?fs" for f
  proof (cases "fl_task f = task_id")
    case True
    have "hm_get (gt_map ?G) task_id \<noteq> gate_of (fl_phase f) \<or> gate_of (fl_phase f) = None"
    proof (rule ccontr)
      assume "\<not> ?thesis"
      then obtain h where h: "hm_get (gt_map ?G) task_id = Some h" "gate_of (fl_phase f) = Some h" by auto
      obtain i where "i < length ?fs" "?fs ! i = f" using f by (auto simp: in_set_conv_nth)
      then have "0 < holders h ?fs" using holders_pos h(2) by blast
      moreover have "h < length (gt_heap ?G)" using all f h(2) registered_flow_gate by (auto simp: list_all_iff)
      ultimately show False
        using None h(1) ok by (auto simp: current_gate_def upgrade_def flows_ok_def gate_counts_def)
    qed
    with all f True show ?thesis
      by (auto simp: list_all_iff registered_flow_def G(3) split: phase.splits)
  next
    case False
    with all f show ?thesis
      by (auto simp: list_all_iff registered_flow_def G(2,3) split: phase.splits)
  qed
  have "gate_map_ok G"
    using ok by (auto simp: flows_ok_def gate_map_ok_def G less_Suc_eq split: if_splits)
  moreover have "gate_counts \<lparr>fs_gates = G, fs_flows = ?fs @ [\<lparr>fl_task = task_id, fl_phase = Waiting g\<rparr>]\<rparr>"
    using ok holders_fresh [OF all order_refl] by (auto simp: flows_ok_def gate_counts_def G(1,3) nth_append less_Suc_eq)
  moreover have "list_all (registered_flow G) ?fs" using keep by (simp only: list_all_iff) blast
  moreover have "hm_get (gt_map G) task_id = Some g" "g < length (gt_heap G)" using G by auto
  ultimately show ?thesis by (simp add: flows_ok_def)
qed

lemma reachable_flows_ok: "flows_reachable S \<Longrightarrow> flows_ok S"
proof (induction rule: flows_reachable.induct)
  case start
  show ?case by (simp add: flows_ok_def gate_counts_def gate_map_ok_def no_gates_def)
next
  case (arrive S task_id g G)
  from arrive.IH arrive.hyps(2) show ?case by (rule arrive_ok)
next
  case (advanced S S')
  from advanced.hyps(2) advanced.IH show ?case by (rule advance_ok)
qed

section \<open>Exclusion and progress\<close>

text \<open>At most one workflow sends under an identifier.\<close>

lemma sending_exclusive:
  assumes ok: "flows_ok S" and ij: "i < length (fs_flows S)" "j < length (fs_flows S)"
    and send: "fl_phase (fs_flows S ! i) = Sending g" "fl_phase (fs_flows S ! j) = Sending h"
    and same: "fl_task (fs_flows S ! i) = fl_task (fs_flows S ! j)"
  shows "i = j"
proof (rule ccontr)
  assume "i \<noteq> j"
  have "registered_flow (fs_gates S) (fs_flows S ! i)" "registered_flow (fs_gates S) (fs_flows S ! j)"
    using ok ij by (auto simp: flows_ok_def list_all_length)
  then have "g = h" "g < length (gt_heap (fs_gates S))" using send same by (auto simp: registered_flow_def)
  with senders_two [OF ij \<open>i \<noteq> j\<close>, of g] send ok show False
    by (auto simp: flows_ok_def gate_counts_def split: if_splits)
qed

lemma sharing_gate:
  assumes ok: "flows_ok S" and ij: "i < length (fs_flows S)" "j < length (fs_flows S)"
    and same: "fl_task (fs_flows S ! i) = fl_task (fs_flows S ! j)"
    and held: "fl_phase (fs_flows S ! i) \<in> {Waiting g, Sending g, Unlocked g}" "fl_phase (fs_flows S ! j) \<in> {Waiting h, Sending h, Unlocked h}"
  shows "g = h"
proof -
  have "registered_flow (fs_gates S) (fs_flows S ! i)" "registered_flow (fs_gates S) (fs_flows S ! j)"
    using ok ij by (auto simp: flows_ok_def list_all_length)
  then show ?thesis using held same by (auto simp: registered_flow_def)
qed

text \<open>The steps a workflow has left, at most; every step uses one up.\<close>

fun steps_left :: "phase \<Rightarrow> nat" where
  "steps_left (Waiting g) = 4"
| "steps_left (Sending g) = 3"
| "steps_left (Unlocked g) = 2"
| "steps_left (Released g) = 1"
| "steps_left Over = 0"

definition work :: "flows \<Rightarrow> nat" where
  "work S = sum_list (map (\<lambda>f. steps_left (fl_phase f)) (fs_flows S))"

lemma work_update:
  assumes "i < length fs" "steps_left p < steps_left (fl_phase (fs ! i))"
  shows "sum_list (map (\<lambda>f. steps_left (fl_phase f)) (set_phase i p fs)) < sum_list (map (\<lambda>f. steps_left (fl_phase f)) fs)"
  using assms
proof (induction fs arbitrary: i)
  case (Cons f fs)
  then show ?case by (cases i) auto
qed simp

lemma advance_work: "flow_step S S' \<Longrightarrow> work S' < work S"
  unfolding work_def by (erule advanceE) (simp_all add: work_update)

lemma advance_bounded: "(flow_step ^^ n) S S' \<Longrightarrow> n + work S' \<le> work S"
proof (induction n arbitrary: S')
  case (Suc n)
  then obtain T where "(flow_step ^^ n) S T" "flow_step T S'" by auto
  with Suc.IH [of T] advance_work [of T S'] show ?case by simp
qed simp

lemma work_bound: "work S \<le> 4 * length (fs_flows S)"
proof -
  have left: "steps_left p \<le> 4" for p by (cases p) simp_all
  have "sum_list (map (\<lambda>f. steps_left (fl_phase f)) fs) \<le> 4 * length fs" for fs :: "flow list"
    by (induction fs) (use left in \<open>auto intro: add_mono\<close>)
  then show ?thesis by (simp add: work_def)
qed

text \<open>While some workflow is not over, some workflow can make a step: nobody waits for a gate that nobody opens.\<close>

lemma advance_enabled:
  assumes ok: "flows_ok S" and i: "i < length (fs_flows S)" "fl_phase (fs_flows S ! i) \<noteq> Over"
  shows "\<exists>S'. flow_step S S'"
proof (cases "fl_phase (fs_flows S ! i)")
  case (Waiting g)
  show ?thesis
  proof (cases "gate_is_locked g (fs_gates S)")
    case True
    have "registered_flow (fs_gates S) (fs_flows S ! i)" using ok i by (simp add: flows_ok_def list_all_length)
    then have "g < length (gt_heap (fs_gates S))" using Waiting by (simp add: registered_flow_def)
    with True ok have "senders g (fs_flows S) = 1" by (simp add: flows_ok_def gate_counts_def gate_is_locked_def)
    then obtain f where "f \<in> set (fs_flows S)" "fl_phase f = Sending g"
      by (metis (mono_tags, lifting) One_nat_def filter_False length_0_conv nat.simps(3) senders_def)
    then obtain j where "j < length (fs_flows S)" "fl_phase (fs_flows S ! j) = Sending g" by (auto simp: in_set_conv_nth)
    then show ?thesis by (blast intro: flow_step.unlock)
  qed (use Waiting i in \<open>blast intro: flow_step.lock\<close>)
qed (use i in \<open>auto intro: flow_step.intros\<close>)

lemma advance_preserves: "(flow_step ^^ n) S S' \<Longrightarrow> flows_ok S \<Longrightarrow> flows_ok S'"
proof (induction n arbitrary: S')
  case (Suc n)
  then obtain T where "(flow_step ^^ n) S T" "flow_step T S'" by auto
  with Suc show ?case by (blast intro: advance_ok)
qed simp

section \<open>Entries that stay\<close>

text \<open>
  An entry of the map can outlive the workflows of its task: a workflow that quits does not release its gate,
  and of two workflows that release it while both hold a reference neither removes the entry.  The entry is
  replaced by the next workflow of that task, if there is one.
\<close>

lemma entry_outlives_workflows:
  assumes "list_all (\<lambda>f. fl_phase f = Over) fs" "hm_get (gt_map G) k = Some g"
    and "flows_ok \<lparr>fs_gates = G, fs_flows = fs\<rparr>"
  shows "current_gate k G = None" "fst (send_gate k G) = length (gt_heap G)"
proof -
  have "holders g fs = 0"
    using assms(1) by (auto simp: holders_def list_all_iff filter_empty_conv)
  then show none: "current_gate k G = None"
    using assms(2,3) by (auto simp: current_gate_def upgrade_def flows_ok_def gate_counts_def)
  then show "fst (send_gate k G) = length (gt_heap G)" by (simp add: send_gate_def Let_def)
qed

end
