(* ===== verification/A2A_Handler.thy ===== *)
theory A2A_Handler
  imports A2A_Requests A2A_Gates
begin

text \<open>
  The executor and the request handler of \<^verbatim>\<open>herdr-a2a-broker/src/a2a.rs\<close>, over the broker with its ledger
  and the task store, which share one \<^verbatim>\<open>SqliteTaskStore\<close>.

  The handler the SDK provides (\<^verbatim>\<open>DefaultRequestHandler\<close>) is the record \<open>inner\<close> of arbitrary operations.  A
  stream of events is the list of the operations that compute them; an event or a response that is not
  there yet, because a wait is suspended, is \<open>None\<close>.  At every point of suspension the rest of the
  system runs: \<open>ys k\<close> is what it does at the k-th one, \<open>clk k\<close> the k-th reading of the clock, and \<open>ids\<close> the
  fresh identifiers.
\<close>

section \<open>State\<close>

record Handler =
  h_broker :: "SqliteTaskStore Broker"
  h_pending :: "(string, DurableTask) hash_map"
  h_gates :: Gates

type_synonym 'a hop = "(Handler, A2AError, 'a) op"
type_synonym yields = "nat \<Rightarrow> Handler \<Rightarrow> Handler"

record handler_env =
  he_codec :: codec
  he_page :: page_codec
  he_digest :: "string \<Rightarrow> string"
  he_canonicalize :: "PathBuf \<Rightarrow> PathBuf option"
  he_lib :: sdk_lib

definition in_broker :: "(DomainError \<Rightarrow> A2AError) \<Rightarrow> (SqliteTaskStore, 'a) bop \<Rightarrow> 'a hop" where
  "in_broker f m h =
     (case m (h_broker h) of
        (Ok a, b) \<Rightarrow> (Ok a, h\<lparr>h_broker := b\<rparr>)
      | (Err e, b) \<Rightarrow> (Err (f e), h\<lparr>h_broker := b\<rparr>)
      | (Panic, b) \<Rightarrow> (Panic, h\<lparr>h_broker := b\<rparr>))"

definition in_store :: "(SqliteTaskStore, A2AError, 'a) op \<Rightarrow> 'a hop" where
  "in_store m h =
     (case m (b_persistence (h_broker h)) of
        (r, p) \<Rightarrow> (r, h\<lparr>h_broker := (h_broker h)\<lparr>b_persistence := p\<rparr>\<rparr>))"

definition in_gates :: "(Gates \<Rightarrow> Gates) \<Rightarrow> unit hop" where
  "in_gates f = modify (\<lambda>h. h\<lparr>h_gates := f (h_gates h)\<rparr>)"

abbreviation pers :: "handler_env \<Rightarrow> SqliteTaskStore BrokerPersistence" where
  "pers E \<equiv> SqlitePersistence (he_codec E)"

abbreviation jlen :: "handler_env \<Rightarrow> json \<Rightarrow> nat" where
  "jlen E \<equiv> cd_json_len (he_codec E)"

section \<open>The handler of the SDK\<close>

datatype StreamResponse = TaskEvent Task | OtherEvent json

datatype SendMessageResponse = TaskResponse Task | MessageResponse Message

type_synonym event = "StreamResponse option hop"

text \<open>A stream may keep an execution admission alive until it is dropped.\<close>

record EventStream =
  es_events :: "event list"
  es_lease :: "string option"

definition iter :: "StreamResponse \<Rightarrow> event list" where
  "iter e = [ret (Some e)]"

definition failed :: "A2AError \<Rightarrow> event list" where
  "failed e = [throw e]"

definition stream_of :: "event list \<Rightarrow> EventStream" where
  "stream_of es = \<lparr>es_events = es, es_lease = None\<rparr>"

record inner =
  in_send_message :: "ServiceParams \<Rightarrow> SendMessageRequest \<Rightarrow> SendMessageResponse option hop"
  in_send_streaming_message :: "ServiceParams \<Rightarrow> SendMessageRequest \<Rightarrow> EventStream hop"
  in_get_task :: "ServiceParams \<Rightarrow> TaskRequest \<Rightarrow> Task hop"
  in_cancel_task :: "ServiceParams \<Rightarrow> TaskRequest \<Rightarrow> Task hop"
  in_subscribe_to_task :: "ServiceParams \<Rightarrow> TaskRequest \<Rightarrow> EventStream hop"
  in_create_push_config :: "ServiceParams \<Rightarrow> TaskPushNotificationConfig \<Rightarrow> TaskPushNotificationConfig hop"
  in_get_push_config :: "ServiceParams \<Rightarrow> TaskRequest \<Rightarrow> TaskPushNotificationConfig hop"
  in_list_push_configs :: "ServiceParams \<Rightarrow> TaskRequest \<Rightarrow> TaskPushNotificationConfig list hop"
  in_delete_push_config :: "ServiceParams \<Rightarrow> TaskRequest \<Rightarrow> unit hop"
  in_get_extended_agent_card :: "ServiceParams \<Rightarrow> json hop"

section \<open>Execution admissions\<close>

definition ExecutionAdmissions_issue :: "string \<Rightarrow> ServiceParams \<Rightarrow> DurableTask \<Rightarrow> ServiceParams hop" where
  "ExecutionAdmissions_issue token params task =
     bindM (modify (\<lambda>h. h\<lparr>h_pending := hm_insert token task (h_pending h)\<rparr>)) (\<lambda>_.
     ret (hm_insert EXECUTION_ADMISSION_HEADER [token] params))"

definition drop_lease :: "string \<Rightarrow> unit hop" where
  "drop_lease token = modify (\<lambda>h. h\<lparr>h_pending := hm_remove token (h_pending h)\<rparr>)"

definition ExecutionAdmissions_consume :: "ServiceParams \<Rightarrow> DurableTask hop" where
  "ExecutionAdmissions_consume params =
     bindM (lift_res (ok_or (hm_get params EXECUTION_ADMISSION_HEADER)
       (InvalidRequest ''durable execution admission is required''))) (\<lambda>values.
     if length values \<noteq> 1 then throw (InvalidRequest ''exactly one durable execution admission is required'')
     else
     bindM (gets (\<lambda>h. hm_get (h_pending h) (hd values))) (\<lambda>task.
     bindM (modify (\<lambda>h. h\<lparr>h_pending := hm_remove (hd values) (h_pending h)\<rparr>)) (\<lambda>_.
     lift_res (ok_or task (InvalidRequest ''durable execution admission is invalid or already used'')))))"

section \<open>Authentication\<close>

definition authenticated_registration :: "handler_env \<Rightarrow> i64 \<Rightarrow> ServiceParams \<Rightarrow> Registration hop" where
  "authenticated_registration E now params =
     bindM (lift_res (request_credentials (cd_parse_uuid (he_codec E)) params)) (\<lambda>c.
     in_broker authentication_error (authenticate (pers E) (jlen E) now c))"

definition preflight_send ::
    "handler_env \<Rightarrow> i64 \<Rightarrow> ServiceParams \<Rightarrow> SendMessageRequest \<Rightarrow> (Registration \<times> AgentName \<times> ValidatedPayload) hop" where
  "preflight_send E now params request =
     bindM (authenticated_registration E now params) (\<lambda>sender.
     bindM (lift_res (preflight_request (he_lib E) (jlen E) (he_canonicalize E) params request
       (va_workspace (rg_agent sender)))) (\<lambda>(recipient, payload).
     ret (sender, recipient, payload)))"

section \<open>The executor\<close>

record ExecutorContext =
  ec_task_id :: string
  ec_context_id :: string
  ec_service_params :: ServiceParams

text \<open>The rest of the system around a wait for a reply.\<close>

record waiting =
  wt_now :: i64
  wt_others :: "SqliteTaskStore Broker \<Rightarrow> SqliteTaskStore Broker"
  wt_turns :: "SqliteTaskStore turn list"

definition settles_wait :: "DomainError \<Rightarrow> bool" where
  "settles_wait e \<longleftrightarrow> e = TaskCanceled \<or> e = TaskExpired \<or> e = TaskFailed \<or> e = TaskRejected"

text \<open>Whether the task has settled; \<open>False\<close> while the wait is suspended.\<close>

definition await_settled :: "handler_env \<Rightarrow> waiting \<Rightarrow> AgentName \<Rightarrow> string \<Rightarrow> bool hop" where
  "await_settled E W sender task_id h =
     (case wait_for_reply_for_sender (pers E) (jlen E) (wt_now W) (wt_others W) sender task_id (wt_turns W) (h_broker h) of
        (Ok r, b) \<Rightarrow> (Ok (r \<noteq> None), h\<lparr>h_broker := b\<rparr>)
      | (Err e, b) \<Rightarrow> (if settles_wait e then Ok True else Err (domain_error e), h\<lparr>h_broker := b\<rparr>)
      | (Panic, b) \<Rightarrow> (Panic, h\<lparr>h_broker := b\<rparr>))"

definition get_stored :: "handler_env \<Rightarrow> string \<Rightarrow> Task hop" where
  "get_stored E task_id =
     bindM (in_store (get_task (he_codec E) task_id)) (\<lambda>task. lift_res (ok_or task (TaskNotFoundError task_id)))"

definition announced_task :: "handler_env \<Rightarrow> yields \<Rightarrow> string \<Rightarrow> Task hop" where
  "announced_task E ys task_id =
     bindM (get_stored E task_id) (\<lambda>task.
     bindM (modify (ys 0)) (\<lambda>_.
     bindM (in_store (authorize_sdk_projection (he_codec E) (he_digest E) task)) (\<lambda>_.
     ret task)))"

definition execution_completion :: "handler_env \<Rightarrow> waiting \<Rightarrow> yields \<Rightarrow> AgentName \<Rightarrow> string \<Rightarrow> event" where
  "execution_completion E W ys sender task_id =
     bindM (await_settled E W sender task_id) (\<lambda>settled.
     if \<not> settled then ret None
     else
     bindM (modify (ys 0)) (\<lambda>_.
     bindM (announced_task E (\<lambda>k. ys (k + 1)) task_id) (\<lambda>task.
     ret (Some (TaskEvent task)))))"

definition same_identity :: "DurableTask \<Rightarrow> DurableTask \<Rightarrow> bool" where
  "same_identity durable admission \<longleftrightarrow>
     \<not> (dt_context_id durable \<noteq> dt_context_id admission \<or> dt_sender durable \<noteq> dt_sender admission
        \<or> dt_recipient durable \<noteq> dt_recipient admission \<or> dt_payload durable \<noteq> dt_payload admission
        \<or> dt_created_unix_ms durable \<noteq> dt_created_unix_ms admission)"

definition begin_execution ::
    "handler_env \<Rightarrow> waiting \<Rightarrow> i64 \<Rightarrow> yields \<Rightarrow> yields \<Rightarrow> ExecutorContext \<Rightarrow> (StreamResponse \<times> event) hop" where
  "begin_execution E W now ys ys' context =
     bindM (ExecutionAdmissions_consume (ec_service_params context)) (\<lambda>admission.
     let task_id = dt_task_id admission in
     if ec_task_id context \<noteq> dt_task_id admission \<or> ec_context_id context \<noteq> dt_context_id admission
     then throw (InvalidRequest ''execution context does not match durable admission'')
     else
     bindM (modify (ys 0)) (\<lambda>_.
     bindM (in_broker domain_error (task_snapshot_for_sender (pers E) (jlen E) now (dt_sender admission) task_id)) (\<lambda>durable.
     if \<not> same_identity durable admission
     then throw (InvalidRequest ''durable execution identity does not match admission'')
     else
     bindM (modify (ys 1)) (\<lambda>_.
     bindM (announced_task E (\<lambda>k. ys (k + 2)) task_id) (\<lambda>projection.
     if dt_state durable \<in> {Replied, Failed, Rejected, Canceled, Expired}
     then ret (TaskEvent projection, ret (Some (TaskEvent projection)))
     else ret (TaskEvent projection, execution_completion E W ys' (dt_sender admission) task_id))))))"

text \<open>The stream of an execution: the working task and then its completion, or the error.\<close>

definition execute_stream ::
    "handler_env \<Rightarrow> waiting \<Rightarrow> i64 \<Rightarrow> yields \<Rightarrow> yields \<Rightarrow> ExecutorContext \<Rightarrow> event list hop" where
  "execute_stream E W now ys ys' context h =
     (case begin_execution E W now ys ys' context h of
        (Ok (working, completion), h') \<Rightarrow> (Ok (iter working @ [completion]), h')
      | (Err e, h') \<Rightarrow> (Ok (failed e), h')
      | (Panic, h') \<Rightarrow> (Panic, h'))"

definition cancel_execution :: "handler_env \<Rightarrow> (nat \<Rightarrow> i64) \<Rightarrow> yields \<Rightarrow> ExecutorContext \<Rightarrow> StreamResponse hop" where
  "cancel_execution E clk ys context =
     bindM (authenticated_registration E (clk 0) (ec_service_params context)) (\<lambda>sender.
     bindM (modify (ys 0)) (\<lambda>_.
     bindM (in_broker domain_error (Broker_Ops.cancel_task (pers E) (jlen E) (clk 1) (credentials sender) (ec_task_id context))) (\<lambda>_.
     bindM (modify (ys 1)) (\<lambda>_.
     bindM (announced_task E (\<lambda>k. ys (k + 2)) (ec_task_id context)) (\<lambda>task.
     ret (TaskEvent task))))))"

section \<open>Owners\<close>

definition check_owner :: "Registration \<Rightarrow> TaskPrincipal option \<Rightarrow> (A2AError, Registration) res" where
  "check_owner sender found =
     (if map_option tp_sender found \<noteq> Some (va_name (rg_agent sender))
      then Err (InvalidParams ''task is owned by another agent'') else Ok sender)"

definition check_owner_and_recipient ::
    "string \<Rightarrow> Registration \<Rightarrow> AgentName \<Rightarrow> TaskPrincipal option \<Rightarrow> (A2AError, Registration) res" where
  "check_owner_and_recipient task_id sender recipient found =
     (case found of
        None \<Rightarrow> Err (TaskNotFoundError task_id)
      | Some pr \<Rightarrow>
          if tp_sender pr \<noteq> va_name (rg_agent sender) then Err (InvalidParams ''task is owned by another agent'')
          else if tp_recipient pr \<noteq> recipient then Err (InvalidParams ''task recipient does not match tenant'')
          else Ok sender)"

definition require_owner :: "handler_env \<Rightarrow> i64 \<Rightarrow> yields \<Rightarrow> ServiceParams \<Rightarrow> string \<Rightarrow> Registration hop" where
  "require_owner E now ys params task_id =
     bindM (lift_res (map_domain (validate_task_id task_id))) (\<lambda>_.
     bindM (authenticated_registration E now params) (\<lambda>sender.
     bindM (modify (ys 0)) (\<lambda>_.
     bindM (in_store (task_principal task_id)) (\<lambda>found.
     lift_res (check_owner sender found)))))"

definition require_owner_and_recipient ::
    "handler_env \<Rightarrow> i64 \<Rightarrow> yields \<Rightarrow> ServiceParams \<Rightarrow> string \<Rightarrow> string option \<Rightarrow> Registration hop" where
  "require_owner_and_recipient E now ys params task_id tenant =
     bindM (lift_res (map_domain (validate_task_id task_id))) (\<lambda>_.
     bindM (authenticated_registration E now params) (\<lambda>sender.
     bindM (lift_res (ok_or tenant (InvalidParams ''recipient tenant is required''))) (\<lambda>name.
     bindM (lift_res (map_err (InvalidParams ''recipient tenant is invalid'') (AgentName_parse name))) (\<lambda>recipient.
     bindM (modify (ys 0)) (\<lambda>_.
     bindM (in_store (task_principal task_id)) (\<lambda>found.
     lift_res (check_owner_and_recipient task_id sender recipient found)))))))"

section \<open>Sending a message\<close>

fun decision_task :: "StartOrResume \<Rightarrow> DurableTask" where
  "decision_task (Started task) = task"
| "decision_task (Active task) = task"
| "decision_task (Terminal task) = task"

definition admit_execution :: "string \<Rightarrow> ServiceParams \<Rightarrow> StartOrResume \<Rightarrow> ServiceParams hop" where
  "admit_execution token params decision = ExecutionAdmissions_issue token params (decision_task decision)"

text \<open>The lease is dropped on every return; a response that is still suspended holds it.\<close>

definition run_admitted_unary ::
    "inner \<Rightarrow> string \<Rightarrow> ServiceParams \<Rightarrow> SendMessageRequest \<Rightarrow> StartOrResume \<Rightarrow> SendMessageResponse option hop" where
  "run_admitted_unary I token params request decision =
     bindM (admit_execution token params decision) (\<lambda>params'. \<lambda>h.
     (case in_send_message I params' request h of
        (Ok None, h') \<Rightarrow> (Ok None, h')
      | (r, h') \<Rightarrow> (r, snd (drop_lease token h'))))"

definition run_admitted_streaming ::
    "inner \<Rightarrow> string \<Rightarrow> ServiceParams \<Rightarrow> SendMessageRequest \<Rightarrow> StartOrResume \<Rightarrow> EventStream hop" where
  "run_admitted_streaming I token params request decision =
     bindM (admit_execution token params decision) (\<lambda>params'. \<lambda>h.
     (case in_send_streaming_message I params' request h of
        (Ok stream, h') \<Rightarrow> (Ok (stream\<lparr>es_lease := Some token\<rparr>), h')
      | (r, h') \<Rightarrow> (r, snd (drop_lease token h'))))"

definition drop_stream :: "EventStream \<Rightarrow> unit hop" where
  "drop_stream stream = (case es_lease stream of None \<Rightarrow> ret () | Some token \<Rightarrow> drop_lease token)"

text \<open>The context of a message without one: that of the task, if the sender has it already.\<close>

definition resolve_context ::
    "handler_env \<Rightarrow> i64 \<Rightarrow> Registration \<Rightarrow> string \<Rightarrow> string option \<Rightarrow> string \<Rightarrow> string hop" where
  "resolve_context E now sender task_id context_id new_context_id =
     (case context_id of
        Some given \<Rightarrow> ret given
      | None \<Rightarrow> \<lambda>h.
          (case task_snapshot (pers E) (jlen E) now (credentials sender) task_id (h_broker h) of
             (Ok snapshot, b) \<Rightarrow> (Ok (dt_context_id snapshot), h\<lparr>h_broker := b\<rparr>)
           | (Err TaskNotFound, b) \<Rightarrow> (Ok new_context_id, h\<lparr>h_broker := b\<rparr>)
           | (Err e, b) \<Rightarrow> (Err (domain_error e), h\<lparr>h_broker := b\<rparr>)
           | (Panic, b) \<Rightarrow> (Panic, h\<lparr>h_broker := b\<rparr>)))"

text \<open>
  \<open>bs\<close> is what the others do to the broker between the sections of \<^verbatim>\<open>start_or_resume\<close>.  The request is changed
  even when the workflow fails, so it is returned with the decision only: nothing reads it otherwise.
\<close>

definition queued_delivery ::
    "string \<Rightarrow> string \<Rightarrow> Registration \<Rightarrow> AgentName \<Rightarrow> ValidatedPayload \<Rightarrow> i64 \<Rightarrow> QueuedDelivery" where
  "queued_delivery task_id context_id sender recipient payload now =
     \<lparr>qd_task_id = task_id, qd_context_id = context_id, qd_sender = va_name (rg_agent sender), qd_recipient = recipient,
      qd_payload = payload, qd_created_unix_ms = now, qd_attempt = 0\<rparr>"

definition identified :: "SendMessageRequest \<Rightarrow> string \<Rightarrow> string \<Rightarrow> SendMessageRequest" where
  "identified request task_id context_id =
     request\<lparr>sr_message := (sr_message request)\<lparr>ms_task_id := Some task_id, ms_context_id := Some context_id\<rparr>\<rparr>"

definition prepare_send ::
    "handler_env \<Rightarrow> (nat \<Rightarrow> i64) \<Rightarrow> yields \<Rightarrow> (nat \<Rightarrow> SqliteTaskStore Broker \<Rightarrow> SqliteTaskStore Broker) \<Rightarrow> (nat \<Rightarrow> string) \<Rightarrow>
     ServiceParams \<Rightarrow> SendMessageRequest \<Rightarrow> (SendMessageRequest \<times> string \<times> StartOrResume) hop" where
  "prepare_send E clk ys bs ids params request =
     bindM (preflight_send E (clk 0) params request) (\<lambda>(sender, recipient, payload).
     let task_id = (case ms_task_id (sr_message request) of Some t \<Rightarrow> t | None \<Rightarrow> ids 0) in
     bindM (modify (ys 0)) (\<lambda>_.
     bindM (resolve_context E (clk 1) sender task_id (ms_context_id (sr_message request)) (ids 1)) (\<lambda>context_id.
     bindM (modify (ys 1)) (\<lambda>_.
     bindM (in_broker domain_error (start_or_resume (pers E) (jlen E) (\<lambda>k. clk (k + 3)) bs (credentials sender)
       (queued_delivery task_id context_id sender recipient payload (clk 2)))) (\<lambda>decision.
     ret (identified request task_id context_id, task_id, decision))))))"

text \<open>The last event of a subscription, \<open>None\<close> while it is suspended.\<close>

fun last_event :: "StreamResponse option \<Rightarrow> event list \<Rightarrow> StreamResponse option option hop" where
  "last_event seen [] = ret (Some seen)"
| "last_event seen (e # es) =
     bindM e (\<lambda>next. case next of None \<Rightarrow> ret None | Some event \<Rightarrow> last_event (Some event) es)"

definition subscribed_task :: "EventStream \<Rightarrow> SendMessageResponse option option hop" where
  "subscribed_task stream =
     bindM (last_event None (es_events stream)) (\<lambda>seen.
     ret (case seen of
        None \<Rightarrow> Some None
      | Some (Some (TaskEvent task)) \<Rightarrow> Some (Some (TaskResponse task))
      | Some _ \<Rightarrow> None))"

text \<open>
  The part of a workflow that runs under the gate ends with a result, after which the gate is released, or
  early through a \<^verbatim>\<open>?\<close> operator, which leaves the workflow at once.  The result \<open>Ok None\<close> is one that is
  not there yet.
\<close>

datatype 'a ending = Early A2AError | Result "(A2AError, 'a option) res"

definition early :: "'a hop \<Rightarrow> ('a \<Rightarrow> 'b ending hop) \<Rightarrow> 'b ending hop" where
  "early m k h =
     (case m h of (Ok a, h') \<Rightarrow> k a h' | (Err e, h') \<Rightarrow> (Ok (Early e), h') | (Panic, h') \<Rightarrow> (Panic, h'))"

definition result_of :: "'a option hop \<Rightarrow> 'a ending hop" where
  "result_of m h = (case m h of (Panic, h') \<Rightarrow> (Panic, h') | (r, h') \<Rightarrow> (Ok (Result r), h'))"

definition stored_response :: "handler_env \<Rightarrow> string \<Rightarrow> SendMessageResponse ending hop" where
  "stored_response E task_id =
     early (in_store (get_task (he_codec E) task_id)) (\<lambda>task.
     result_of (bindM (lift_res (ok_or task (TaskNotFoundError task_id))) (\<lambda>task. ret (Some (TaskResponse task)))))"

definition return_immediately :: "SendMessageRequest \<Rightarrow> bool" where
  "return_immediately request = (Option.bind (sr_configuration request) sc_return_immediately = Some True)"

definition subscription :: "SendMessageRequest \<Rightarrow> string \<Rightarrow> TaskRequest" where
  "subscription request task_id = \<lparr>tq_id = task_id, tq_tenant = sr_tenant request\<rparr>"

definition resume_unary ::
    "inner \<Rightarrow> string \<Rightarrow> ServiceParams \<Rightarrow> SendMessageRequest \<Rightarrow> string \<Rightarrow> StartOrResume \<Rightarrow> SendMessageResponse ending hop" where
  "resume_unary I token params request task_id decision h =
     (case in_subscribe_to_task I params (subscription request task_id) h of
        (Ok stream, h1) \<Rightarrow>
          early (subscribed_task stream) (\<lambda>response.
            case response of
              Some response \<Rightarrow> ret (Result (Ok response))
            | None \<Rightarrow> result_of (run_admitted_unary I token params request decision)) h1
      | (Err _, h1) \<Rightarrow> result_of (run_admitted_unary I token params request decision) h1
      | (Panic, h1) \<Rightarrow> (Panic, h1))"

definition send_unary ::
    "handler_env \<Rightarrow> inner \<Rightarrow> string \<Rightarrow> ServiceParams \<Rightarrow> SendMessageRequest \<Rightarrow> string \<Rightarrow> StartOrResume \<Rightarrow>
     SendMessageResponse ending hop" where
  "send_unary E I token params request task_id decision =
     (case decision of
        Started _ \<Rightarrow> result_of (run_admitted_unary I token params request decision)
      | Terminal _ \<Rightarrow> stored_response E task_id
      | Active _ \<Rightarrow>
          if return_immediately request then stored_response E task_id
          else resume_unary I token params request task_id decision)"

definition send_streaming ::
    "handler_env \<Rightarrow> inner \<Rightarrow> string \<Rightarrow> ServiceParams \<Rightarrow> SendMessageRequest \<Rightarrow> string \<Rightarrow> StartOrResume \<Rightarrow>
     EventStream ending hop" where
  "send_streaming E I token params request task_id decision =
     (case decision of
        Started _ \<Rightarrow> result_of (bindM (run_admitted_streaming I token params request decision) (\<lambda>s. ret (Some s)))
      | Terminal _ \<Rightarrow>
          early (get_stored E task_id) (\<lambda>task. ret (Result (Ok (Some (stream_of (iter (TaskEvent task)))))))
      | Active _ \<Rightarrow> \<lambda>h.
          (case in_subscribe_to_task I params (subscription request task_id) h of
             (Ok stream, h1) \<Rightarrow> (Ok (Result (Ok (Some stream))), h1)
           | (Err _, h1) \<Rightarrow>
               result_of (bindM (run_admitted_streaming I token params request decision) (\<lambda>s. ret (Some s))) h1
           | (Panic, h1) \<Rightarrow> (Panic, h1)))"

text \<open>
  A workflow takes the gate of its task, waits for the lock, and holds both until its body has ended.
\<close>

definition gated :: "string \<Rightarrow> (Handler \<Rightarrow> Handler) \<Rightarrow> 'a ending hop \<Rightarrow> 'a option hop" where
  "gated task_id others body h =
     (case send_gate task_id (h_gates h) of
        (g, G) \<Rightarrow>
          let h1 = others (h\<lparr>h_gates := G\<rparr>) in
          if gate_is_locked g (h_gates h1) then (Ok None, h1)
          else
            (case body (h1\<lparr>h_gates := lock_gate g (h_gates h1)\<rparr>) of
               (Ok (Result (Ok None)), h2) \<Rightarrow> (Ok None, h2)
             | (Ok (Result r), h2) \<Rightarrow>
                 (r, h2\<lparr>h_gates := drop_gate g (release_send_gate task_id g (unlock_gate g (h_gates h2)))\<rparr>)
             | (Ok (Early e), h2) \<Rightarrow> (Err e, h2\<lparr>h_gates := drop_gate g (unlock_gate g (h_gates h2))\<rparr>)
             | (Err e, h2) \<Rightarrow> (Err e, h2)
             | (Panic, h2) \<Rightarrow> (Panic, h2\<lparr>h_gates := drop_gate g (unlock_gate g (h_gates h2))\<rparr>)))"

text \<open>What surrounds a workflow: the clock, the others, and the fresh identifiers, the last of which is the token.\<close>

record surroundings =
  su_clock :: "nat \<Rightarrow> i64"
  su_yields :: yields
  su_broker_yields :: "nat \<Rightarrow> SqliteTaskStore Broker \<Rightarrow> SqliteTaskStore Broker"
  su_ids :: "nat \<Rightarrow> string"

definition prepared ::
    "handler_env \<Rightarrow> surroundings \<Rightarrow> ServiceParams \<Rightarrow> SendMessageRequest \<Rightarrow> (SendMessageRequest \<times> string \<times> StartOrResume) hop" where
  "prepared E U params request =
     prepare_send E (su_clock U) (\<lambda>k. su_yields U (k + 1)) (su_broker_yields U) (su_ids U) params request"

definition run_unary_send ::
    "handler_env \<Rightarrow> inner \<Rightarrow> surroundings \<Rightarrow> ServiceParams \<Rightarrow> SendMessageRequest \<Rightarrow> SendMessageResponse option hop" where
  "run_unary_send E I U params request =
     bindM (lift_res (expect (ms_task_id (sr_message request)))) (\<lambda>task_id.
     gated task_id (su_yields U 0) (\<lambda>h.
       case prepared E U params request h of
         (Ok (request', task_id', decision), h') \<Rightarrow>
           send_unary E I (su_ids U 2) params request' task_id' decision h'
       | (Err e, h') \<Rightarrow> (Ok (Result (Err e)), h')
       | (Panic, h') \<Rightarrow> (Panic, h')))"

definition run_streaming_send ::
    "handler_env \<Rightarrow> inner \<Rightarrow> surroundings \<Rightarrow> ServiceParams \<Rightarrow> SendMessageRequest \<Rightarrow> EventStream option hop" where
  "run_streaming_send E I U params request =
     bindM (lift_res (expect (ms_task_id (sr_message request)))) (\<lambda>task_id.
     gated task_id (su_yields U 0) (\<lambda>h.
       case prepared E U params request h of
         (Ok (request', task_id', decision), h') \<Rightarrow>
           send_streaming E I (su_ids U 2) params request' task_id' decision h'
       | (Err e, h') \<Rightarrow> (Ok (Result (Ok (Some (stream_of (failed e))))), h')
       | (Panic, h') \<Rightarrow> (Panic, h')))"

section \<open>Requests\<close>

definition with_task_id :: "string \<Rightarrow> SendMessageRequest \<Rightarrow> SendMessageRequest" where
  "with_task_id fresh request =
     (case ms_task_id (sr_message request) of
        Some _ \<Rightarrow> request
      | None \<Rightarrow> request\<lparr>sr_message := (sr_message request)\<lparr>ms_task_id := Some fresh\<rparr>\<rparr>)"

text \<open>A workflow that panics drops its end of the channel.\<close>

definition spawned :: "'a hop \<Rightarrow> 'a hop" where
  "spawned m h =
     (case m h of (Panic, h') \<Rightarrow> (Err (Internal ''send workflow stopped unexpectedly''), h') | r \<Rightarrow> r)"

definition RequestHandler_send_message where
  "RequestHandler_send_message E I U params request =
     spawned (run_unary_send E I U params (with_task_id (su_ids U 3) request))"

definition RequestHandler_send_streaming_message where
  "RequestHandler_send_streaming_message E I U params request =
     spawned (run_streaming_send E I U params (with_task_id (su_ids U 3) request))"

definition RequestHandler_get_task :: "handler_env \<Rightarrow> inner \<Rightarrow> i64 \<Rightarrow> yields \<Rightarrow> ServiceParams \<Rightarrow> TaskRequest \<Rightarrow> Task hop" where
  "RequestHandler_get_task E I now ys params request =
     bindM (require_owner_and_recipient E now ys params (tq_id request) (tq_tenant request)) (\<lambda>_.
     bindM (modify (ys 1)) (\<lambda>_. in_get_task I params request))"

definition RequestHandler_list_tasks ::
    "handler_env \<Rightarrow> i64 \<Rightarrow> yields \<Rightarrow> ServiceParams \<Rightarrow> ListTasksRequest \<Rightarrow> ListTasksResponse hop" where
  "RequestHandler_list_tasks E now ys params request =
     bindM (authenticated_registration E now params) (\<lambda>sender.
     bindM (modify (ys 0)) (\<lambda>_.
     in_store (list_owned (he_codec E) (he_page E) (va_name (rg_agent sender)) request)))"

definition RequestHandler_cancel_task :: "handler_env \<Rightarrow> inner \<Rightarrow> i64 \<Rightarrow> yields \<Rightarrow> ServiceParams \<Rightarrow> TaskRequest \<Rightarrow> Task hop" where
  "RequestHandler_cancel_task E I now ys params request =
     bindM (require_owner_and_recipient E now ys params (tq_id request) (tq_tenant request)) (\<lambda>_.
     bindM (modify (ys 1)) (\<lambda>_. in_cancel_task I params request))"

definition subscription_completion :: "handler_env \<Rightarrow> waiting \<Rightarrow> yields \<Rightarrow> AgentName \<Rightarrow> string \<Rightarrow> event" where
  "subscription_completion E W ys sender_name task_id =
     bindM (await_settled E W sender_name task_id) (\<lambda>settled.
     if \<not> settled then ret None
     else
     bindM (modify (ys 0)) (\<lambda>_.
     bindM (get_stored E task_id) (\<lambda>task. ret (Some (TaskEvent task)))))"

definition subscribe_directly ::
    "handler_env \<Rightarrow> waiting \<Rightarrow> yields \<Rightarrow> yields \<Rightarrow> AgentName \<Rightarrow> TaskRequest \<Rightarrow> EventStream hop" where
  "subscribe_directly E W ys ys' sender_name request =
     bindM (modify (ys 2)) (\<lambda>_.
     bindM (get_stored E (tq_id request)) (\<lambda>task.
     if sl_is_terminal (he_lib E) (ts_state (tk_status task)) then ret (stream_of (iter (TaskEvent task)))
     else ret (stream_of (iter (TaskEvent task) @ [subscription_completion E W ys' sender_name (tq_id request)]))))"

definition subscribe_owned ::
    "handler_env \<Rightarrow> inner \<Rightarrow> waiting \<Rightarrow> yields \<Rightarrow> yields \<Rightarrow> AgentName \<Rightarrow> ServiceParams \<Rightarrow> TaskRequest \<Rightarrow> EventStream hop" where
  "subscribe_owned E I W ys ys' sender_name params request h =
     (case in_subscribe_to_task I params request h of
        (Ok stream, h') \<Rightarrow> (Ok stream, h')
      | (Err _, h') \<Rightarrow> subscribe_directly E W ys ys' sender_name request h'
      | (Panic, h') \<Rightarrow> (Panic, h'))"

definition RequestHandler_subscribe_to_task ::
    "handler_env \<Rightarrow> inner \<Rightarrow> waiting \<Rightarrow> i64 \<Rightarrow> yields \<Rightarrow> yields \<Rightarrow> ServiceParams \<Rightarrow> TaskRequest \<Rightarrow> EventStream hop" where
  "RequestHandler_subscribe_to_task E I W now ys ys' params request h =
     (case require_owner_and_recipient E now ys params (tq_id request) (tq_tenant request) h of
        (Ok sender, h1) \<Rightarrow>
          subscribe_owned E I W ys ys' (va_name (rg_agent sender)) params request (ys 1 h1)
      | (Err e, h1) \<Rightarrow> (Ok (stream_of (failed e)), h1)
      | (Panic, h1) \<Rightarrow> (Panic, h1))"

text \<open>The four operations on push configurations, and the extended card.\<close>

definition owned_call ::
    "handler_env \<Rightarrow> i64 \<Rightarrow> yields \<Rightarrow> ServiceParams \<Rightarrow> string \<Rightarrow> 'a hop \<Rightarrow> 'a hop" where
  "owned_call E now ys params task_id call =
     bindM (require_owner E now ys params task_id) (\<lambda>_. bindM (modify (ys 1)) (\<lambda>_. call))"

definition RequestHandler_create_push_config where
  "RequestHandler_create_push_config E I now ys params request =
     owned_call E now ys params (pc_task_id request) (in_create_push_config I params request)"

definition RequestHandler_get_push_config where
  "RequestHandler_get_push_config E I now ys params request =
     owned_call E now ys params (tq_id request) (in_get_push_config I params request)"

definition RequestHandler_list_push_configs where
  "RequestHandler_list_push_configs E I now ys params request =
     owned_call E now ys params (tq_id request) (in_list_push_configs I params request)"

definition RequestHandler_delete_push_config where
  "RequestHandler_delete_push_config E I now ys params request =
     owned_call E now ys params (tq_id request) (in_delete_push_config I params request)"

definition RequestHandler_get_extended_agent_card :: "handler_env \<Rightarrow> inner \<Rightarrow> i64 \<Rightarrow> yields \<Rightarrow> ServiceParams \<Rightarrow> json hop" where
  "RequestHandler_get_extended_agent_card E I now ys params =
     bindM (authenticated_registration E now params) (\<lambda>_.
     bindM (modify (ys 0)) (\<lambda>_. in_get_extended_agent_card I params))"

section \<open>Agent cards\<close>

record AgentInterface =
  af_url :: string
  af_tenant :: "string option"

record AgentSkill =
  ak_id :: string
  ak_name :: string
  ak_description :: string
  ak_tags :: "string list"
  ak_input_modes :: "string list option"
  ak_output_modes :: "string list option"

record AgentCard =
  ac_name :: string
  ac_description :: string
  ac_version :: string
  ac_supported_interfaces :: "AgentInterface list"
  ac_streaming :: "bool option"
  ac_push_notifications :: "bool option"
  ac_default_input_modes :: "string list"
  ac_default_output_modes :: "string list"
  ac_skills :: "AgentSkill list"

definition agent_card :: "string \<Rightarrow> string \<Rightarrow> string \<Rightarrow> AgentCard" where
  "agent_card version name jsonrpc_url =
     \<lparr>ac_name = name, ac_description = ''Herdr agent '' @ name, ac_version = version,
      ac_supported_interfaces = [\<lparr>af_url = jsonrpc_url, af_tenant = Some name\<rparr>],
      ac_streaming = Some True, ac_push_notifications = Some False,
      ac_default_input_modes = [TEXT_MODE], ac_default_output_modes = [TEXT_MODE],
      ac_skills = [\<lparr>ak_id = ''collaborate'', ak_name = ''Collaborate'',
        ak_description = ''Exchange a task and reply with another named Herdr agent'', ak_tags = [''collaboration''],
        ak_input_modes = Some [TEXT_MODE], ak_output_modes = Some [TEXT_MODE]\<rparr>]\<rparr>"

text \<open>\<open>None\<close> is the status 404.\<close>

definition dynamic_agent_card :: "handler_env \<Rightarrow> string \<Rightarrow> string \<Rightarrow> i64 \<Rightarrow> string \<Rightarrow> AgentCard option hop" where
  "dynamic_agent_card E version jsonrpc_url now name =
     bindM (in_broker domain_error (list_agents (pers E) (jlen E) now)) (\<lambda>agents.
     ret (map_option (\<lambda>r. agent_card version (va_name (rg_agent r)) jsonrpc_url)
       (find (\<lambda>r. va_name (rg_agent r) = name) agents)))"

end
