(* ===== verification/A2A_Handler_Correct.thy ===== *)
theory A2A_Handler_Correct
  imports A2A_Handler Ledger_Correct Broker_Progress Store_Writes
begin

text \<open>
  The request handler over the broker and its ledger: who is authenticated, whose tasks a request may
  reach, what a message starts, and which executions the executor runs.
\<close>

section \<open>Operations on a part of the state\<close>

abbreviation lh :: "handler_env \<Rightarrow> SqliteTaskStore \<Rightarrow> task_table \<Rightarrow> bool" where
  "lh E \<equiv> ledger_holds (he_codec E)"

lemma wp_in_broker [simp]:
  "wp (in_broker f m) X Q h =
     wp m (\<lambda>e b. X (f e) (h\<lparr>h_broker := b\<rparr>)) (\<lambda>a b. Q a (h\<lparr>h_broker := b\<rparr>)) (h_broker h)"
  by (simp add: wp_def in_broker_def split: prod.split res.split)

lemma wp_in_store [simp]:
  "wp (in_store m) X Q h =
     wp m (\<lambda>e p. X e (h\<lparr>h_broker := (h_broker h)\<lparr>b_persistence := p\<rparr>\<rparr>))
       (\<lambda>a p. Q a (h\<lparr>h_broker := (h_broker h)\<lparr>b_persistence := p\<rparr>\<rparr>)) (b_persistence (h_broker h))"
  by (simp add: wp_def in_store_def split: prod.split res.split)

lemma request_credentials_not_Panic [simp]: "request_credentials parse_uuid params \<noteq> Panic"
  by (auto simp: request_credentials_def res_bind_eq_Panic RegistrationId_parse_def parse_uuid_v7_def split: option.splits)

lemma map_domain_simps [simp]:
  "map_domain r = Ok a \<longleftrightarrow> r = Ok a" "map_domain r = Panic \<longleftrightarrow> r = Panic"
  by (cases r; simp add: map_domain_def)+

section \<open>Authentication\<close>

text \<open>The caller's headers name a registration that the maintained broker has, not expired.\<close>

definition authenticated :: "handler_env \<Rightarrow> i64 \<Rightarrow> ServiceParams \<Rightarrow> Handler \<Rightarrow> Registration \<Rightarrow> Handler \<Rightarrow> bool" where
  "authenticated E now params h reg h' \<longleftrightarrow>
     (\<exists>c r b. request_credentials (cd_parse_uuid (he_codec E)) params = Ok c
        \<and> maintained_world (lh E) now (h_broker h) b \<and> ready (lh E) now c b r
        \<and> reg = rs_registration r \<and> h' = h\<lparr>h_broker := b\<rparr>)"

definition refused :: "handler_env \<Rightarrow> i64 \<Rightarrow> Handler \<Rightarrow> Handler \<Rightarrow> bool" where
  "refused E now h h' \<longleftrightarrow>
     h' = h \<or> (\<exists>b. rejected_world (lh E) now (h_broker h) b \<and> h' = h\<lparr>h_broker := b\<rparr>)"

lemma authenticated_registration_correct:
  assumes inv: "binv (lh E) now (h_broker h)"
  shows "wp (authenticated_registration E now params) (\<lambda>_. refused E now h) (authenticated E now params h) h"
proof -
  have "wp (authenticate (pers E) (jlen E) now c) (\<lambda>_ b. refused E now h (h\<lparr>h_broker := b\<rparr>))
      (\<lambda>reg b. authenticated E now params h reg (h\<lparr>h_broker := b\<rparr>)) (h_broker h)"
    if "request_credentials (cd_parse_uuid (he_codec E)) params = Ok c" for c
    by (rule wp_conseq [OF persistence_contract.authenticate_correct [OF ledger.persistence_contract_axioms inv]])
      (use that in \<open>auto simp: authenticated_def refused_def\<close>)
  then show ?thesis
    by (auto simp: authenticated_registration_def wp_lift_res refused_def)
qed

lemma handler_auth_rule:
  assumes "binv (lh E) now (h_broker h)"
    and "\<And>reg h1. authenticated E now params h reg h1 \<Longrightarrow> Q reg h1" and "\<And>e h1. refused E now h h1 \<Longrightarrow> X e h1"
  shows "wp (authenticated_registration E now params) X Q h"
  by (rule wp_conseq [OF authenticated_registration_correct [OF assms(1)]]) (rule assms(2,3), assumption)+

lemma authenticated_invariant: "authenticated E now params h reg h' \<Longrightarrow> binv (lh E) now (h_broker h')"
  by (auto simp: authenticated_def ready_def)

section \<open>Owners\<close>

lemma encoded_parties:
  "encode_durable_task cd t = Ok row \<Longrightarrow> row_sender_agent row = Some (dt_sender t) \<and> row_recipient_agent row = dt_recipient t"
  by (auto simp: encode_durable_task_def res_bind_eq_Ok split: if_splits)

lemma decoded_parties:
  "decode_durable_task cd row = Ok t \<Longrightarrow> row_sender_agent row = Some (dt_sender t) \<and> row_recipient_agent row = dt_recipient t"
  by (auto simp: decode_durable_task_def res_bind_eq_Ok Let_def or_invalid_def dest!: AgentName_parse_Ok)

lemma represented_parties:
  assumes "represents cd (keyed k row) t"
  shows "row_sender_agent row = Some (dt_sender t)" "row_recipient_agent row = dt_recipient t"
  using assms encoded_parties [of cd t "keyed k row"] decoded_parties [of cd "keyed k row" t]
  by (auto simp: represents_def keyed_def)

text \<open>The principal of a task is its sender and recipient in the table that the ledger answers for.\<close>

lemma task_principal_parties:
  assumes "ledger_holds cd s V"
  shows "wp (task_principal k) (\<lambda>_ s'. sq_database s' = sq_database s)
    (\<lambda>p s'. sq_database s' = sq_database s
       \<and> (\<forall>pr. p = Some pr \<longrightarrow> (\<exists>t. V k = Some t \<and> dt_sender t = tp_sender pr \<and> dt_recipient t = tp_recipient pr))) s"
proof -
  have row: "\<exists>t. V k = Some t \<and> row_sender_agent row = Some (dt_sender t) \<and> row_recipient_agent row = dt_recipient t"
    if "hm_get (db_delivery_tasks (sq_database s)) k = Some row" "row_legacy_quarantined row = 0" for row
  proof -
    have "row_holds cd k (Some row) (V k)" using assms that(1) by (metis ledger_holds_def rows_hold_def)
    then show ?thesis using that(2) represented_parties [of cd k row] by (cases "V k") (auto simp: row_holds_def)
  qed
  have found: "\<exists>t. V k = Some t \<and> dt_sender t = sender \<and> dt_recipient t = recipient"
    if "stored_row (sq_database s) k = Some row" "row_legacy_quarantined row = 0" "row_sender_agent row = Some name"
      "AgentName_parse name = Ok sender" "AgentName_parse (row_recipient_agent row) = Ok recipient" for row name sender recipient
    using that row AgentName_parse_Ok [OF that(4)] AgentName_parse_Ok [OF that(5)] by (auto simp: stored_row_def)
  show ?thesis
    unfolding task_principal_def stored_task_row_def
    using found by (cases "stored_row (sq_database s) k") (simp_all add: wp_lift_res del: map_of_eq_Some_iff)
qed

text \<open>
  The task exists in the broker, with this sender, and this recipient if one is given, unless the broker is
  waiting to reload its tasks from the ledger.
\<close>

definition owner_of :: "AgentName \<Rightarrow> string \<Rightarrow> AgentName option \<Rightarrow> Handler \<Rightarrow> bool" where
  "owner_of name k recipient h \<longleftrightarrow> s_reconciliation_required (b_state (h_broker h))
     \<or> (\<exists>t. taskm (b_state (h_broker h)) k = Some t \<and> tr_sender t = name \<and> (\<forall>a. recipient = Some a \<longrightarrow> tr_recipient t = a))"

definition same_data :: "Handler \<Rightarrow> Handler \<Rightarrow> bool" where
  "same_data h h' \<longleftrightarrow> (\<exists>p. sq_database p = sq_database (b_persistence (h_broker h))
     \<and> h' = h\<lparr>h_broker := (h_broker h)\<lparr>b_persistence := p\<rparr>\<rparr>)"

text \<open>What the handler relies on at a point of suspension: the others keep the broker's invariant.\<close>

definition keeps_broker :: "handler_env \<Rightarrow> (Handler \<Rightarrow> Handler) \<Rightarrow> bool" where
  "keeps_broker E others \<longleftrightarrow>
     (\<forall>now h. binv (lh E) now (h_broker h) \<longrightarrow> (\<exists>later. binv (lh E) later (h_broker (others h))))"

definition granted ::
    "handler_env \<Rightarrow> i64 \<Rightarrow> yields \<Rightarrow> ServiceParams \<Rightarrow> string \<Rightarrow> AgentName option \<Rightarrow> Handler \<Rightarrow> Registration \<Rightarrow> Handler \<Rightarrow> bool" where
  "granted E now ys params k recipient h reg h' \<longleftrightarrow>
     (\<exists>h1. authenticated E now params h reg h1 \<and> owner_of (va_name (rg_agent reg)) k recipient (ys 0 h1)
        \<and> same_data (ys 0 h1) h')"

lemma grantedI:
  "authenticated E now params h reg h1 \<Longrightarrow> owner_of (va_name (rg_agent reg)) k recipient (ys 0 h1) \<Longrightarrow> same_data (ys 0 h1) h' \<Longrightarrow>
     granted E now ys params k recipient h reg h'"
  unfolding granted_def by blast

lemma owner_of_any: "owner_of name k (Some a) h \<Longrightarrow> owner_of name k None h"
  by (auto simp: owner_of_def)

lemma principal_owner:
  assumes inv: "binv (lh E) now (h_broker h)"
  shows "wp (in_store (task_principal k)) (\<lambda>_ _. True)
    (\<lambda>p h'. same_data h h' \<and> (\<forall>pr. p = Some pr \<longrightarrow> owner_of (tp_sender pr) k (Some (tp_recipient pr)) h)) h"
proof (cases "s_reconciliation_required (b_state (h_broker h))")
  case True
  have reads: "wp (task_principal k) (\<lambda>_ _. True) (\<lambda>_ s'. sq_database s' = sq_database s) s" for s
    by (simp add: task_principal_def stored_task_row_def wp_lift_res split: option.split)
  show ?thesis
    unfolding wp_in_store by (rule wp_conseq [OF reads]) (use True in \<open>auto simp: owner_of_def same_data_def\<close>)
next
  case False
  then have "ledger_holds (he_codec E) (b_persistence (h_broker h)) (mirror (taskm (b_state (h_broker h))))"
    using inv by (simp add: binv_def)
  from task_principal_parties [OF this] show ?thesis
    unfolding wp_in_store
    by (rule wp_conseq) (auto simp: same_data_def owner_of_def mirror_def durable_of_def)
qed

lemma granted_check:
  assumes auth: "authenticated E now params h reg h1" and rely: "keeps_broker E (ys 0)"
    and check: "\<And>p. check p \<noteq> Panic" "\<And>p r. check p = Ok r \<Longrightarrow> r = reg
      \<and> (\<exists>pr. p = Some pr \<and> tp_sender pr = va_name (rg_agent reg) \<and> (\<forall>a. recipient = Some a \<longrightarrow> tp_recipient pr = a))"
  shows "wp (in_store (task_principal k)) (\<lambda>_ _. True)
    (\<lambda>p. wp (lift_res (check p)) (\<lambda>_ _. True) (granted E now ys params k recipient h)) (ys 0 h1)"
proof -
  obtain later where "binv (lh E) later (h_broker (ys 0 h1))"
    using authenticated_invariant [OF auth] rely by (auto simp: keeps_broker_def)
  from principal_owner [OF this] show ?thesis
  proof (rule wp_conseq, goal_cases)
    case (1 p h2)
    have "granted E now ys params k recipient h reg h2"
      if pr: "p = Some pr" "tp_sender pr = va_name (rg_agent reg)" "\<forall>a. recipient = Some a \<longrightarrow> tp_recipient pr = a" for pr
    proof -
      have "owner_of (va_name (rg_agent reg)) k (Some (tp_recipient pr)) (ys 0 h1)" using 1 pr by metis
      then have "owner_of (va_name (rg_agent reg)) k recipient (ys 0 h1)" using pr(3) by (auto simp: owner_of_def)
      with auth 1 show ?thesis by (auto intro: grantedI)
    qed
    then show ?case using check(1) [of p] check(2) [of p] by (auto simp: wp_lift_res)
  qed simp
qed

lemma require_owner_correct:
  assumes inv: "binv (lh E) now (h_broker h)" and rely: "keeps_broker E (ys 0)"
  shows "wp (require_owner E now ys params k) (\<lambda>_ _. True) (granted E now ys params k None h) h"
proof -
  have "wp (authenticated_registration E now params) (\<lambda>_ _. True) (\<lambda>reg h1. wp (in_store (task_principal k)) (\<lambda>_ _. True)
      (\<lambda>p. wp (lift_res (check_owner reg p)) (\<lambda>_ _. True) (granted E now ys params k None h)) (ys 0 h1)) h"
    by (rule handler_auth_rule [OF inv]) (rule granted_check [where ys = ys, OF _ rely], auto simp: check_owner_def split: if_splits)
  then show ?thesis
    unfolding require_owner_def wp_bindM wp_primitive by (simp add: wp_lift_res [of "map_domain _"])
qed

lemma require_owner_and_recipient_correct:
  assumes inv: "binv (lh E) now (h_broker h)" and rely: "keeps_broker E (ys 0)"
  shows "wp (require_owner_and_recipient E now ys params k tenant) (\<lambda>_ _. True)
    (\<lambda>reg h'. tenant \<noteq> None \<and> granted E now ys params k tenant h reg h') h"
proof (cases tenant)
  case None
  then show ?thesis
    by (auto simp: require_owner_and_recipient_def wp_lift_res intro!: handler_auth_rule [OF inv])
next
  case (Some a)
  have check: "wp (in_store (task_principal k)) (\<lambda>_ _. True)
      (\<lambda>p. wp (lift_res (check_owner_and_recipient k reg b p)) (\<lambda>_ _. True) (granted E now ys params k (Some a) h)) (ys 0 h1)"
    if "authenticated E now params h reg h1" "AgentName_parse a = Ok b" for reg h1 b
    by (rule granted_check [where ys = ys, OF that(1) rely])
      (use AgentName_parse_Ok [OF that(2)] in \<open>auto simp: check_owner_and_recipient_def split: if_splits option.splits\<close>)
  show ?thesis
    using check
    by (auto simp: Some require_owner_and_recipient_def wp_lift_res [of "map_domain _"] wp_lift_res [of "map_err _ _"]
        simp del: wp_in_store intro!: handler_auth_rule [OF inv])
qed

text \<open>
  A request that is answered by the SDK's handler only for the owner of the task: it fails without calling
  that handler, or the call is all that is left to do once the caller is granted the task.
\<close>

definition served_for_owner ::
    "handler_env \<Rightarrow> i64 \<Rightarrow> yields \<Rightarrow> ServiceParams \<Rightarrow> string \<Rightarrow> AgentName option \<Rightarrow> (inner \<Rightarrow> 'a hop) \<Rightarrow> (inner \<Rightarrow> 'a hop) \<Rightarrow> Handler \<Rightarrow> bool" where
  "served_for_owner E now ys params k recipient handler call h \<longleftrightarrow>
     (\<exists>e h'. \<forall>I. handler I h = (Err e, h'))
     \<or> (\<exists>reg h'. granted E now ys params k recipient h reg h' \<and> (\<forall>I. handler I h = call I (ys 1 h')))"

lemma served_for_ownerI:
  assumes "wp m (\<lambda>_ _. True) (\<lambda>reg h'. granted E now ys params k recipient h reg h') h"
  shows "served_for_owner E now ys params k recipient (\<lambda>I. bindM m (\<lambda>_. bindM (modify (ys 1)) (\<lambda>_. call I))) call h"
proof (cases "m h")
  case (Pair r h')
  with assms show ?thesis by (cases r) (auto simp: served_for_owner_def wp_def)
qed

lemma owned_requests_served:
  assumes "binv (lh E) now (h_broker h)" "keeps_broker E (ys 0)"
  shows "served_for_owner E now ys params k None (\<lambda>I. owned_call E now ys params k (call I)) call h"
  unfolding owned_call_def by (rule served_for_ownerI [OF require_owner_correct [where ys = ys, OF assms]])

lemma named_requests_served:
  assumes "binv (lh E) now (h_broker h)" "keeps_broker E (ys 0)"
  shows "served_for_owner E now ys params k tenant
    (\<lambda>I. bindM (require_owner_and_recipient E now ys params k tenant) (\<lambda>_. bindM (modify (ys 1)) (\<lambda>_. call I))) call h"
  by (rule served_for_ownerI, rule wp_conseq [OF require_owner_and_recipient_correct [where ys = ys, OF assms]]) simp_all

text \<open>A subscription reports a refusal as the only event of its stream.\<close>

lemma subscription_served:
  assumes "binv (lh E) now (h_broker h)" "keeps_broker E (ys 0)"
  shows "(\<exists>e h'. \<forall>I. RequestHandler_subscribe_to_task E I W now ys ys' params request h = (Ok (stream_of (failed e)), h'))
    \<or> (\<exists>reg h'. granted E now ys params (tq_id request) (tq_tenant request) h reg h'
         \<and> (\<forall>I. RequestHandler_subscribe_to_task E I W now ys ys' params request h =
              subscribe_owned E I W ys ys' (va_name (rg_agent reg)) params request (ys 1 h')))"
proof (cases "require_owner_and_recipient E now ys params (tq_id request) (tq_tenant request) h")
  case (Pair r h')
  with require_owner_and_recipient_correct [where ys = ys, OF assms, of params "tq_id request" "tq_tenant request"] show ?thesis
    by (cases r) (auto simp: wp_def RequestHandler_subscribe_to_task_def)
qed

section \<open>Sending a message\<close>

text \<open>A request that passes the preflight: its identifiers are valid, it has one text part, and its payload is within the limits.\<close>

definition well_formed_send :: "sdk_lib \<Rightarrow> (json \<Rightarrow> nat) \<Rightarrow> ServiceParams \<Rightarrow> SendMessageRequest \<Rightarrow> AgentName \<Rightarrow> ValidatedPayload \<Rightarrow> bool" where
  "well_formed_send lib json_len params request recipient payload \<longleftrightarrow>
     hm_get params EXPLICIT_EMPTY_TASK_ID_HEADER = None \<and> hm_get params EXPLICIT_EMPTY_CONTEXT_ID_HEADER = None
     \<and> (\<forall>k. ms_task_id (sr_message request) = Some k \<longrightarrow> validate_task_id k = Ok ())
     \<and> (\<forall>k. ms_context_id (sr_message request) = Some k \<longrightarrow> validate_task_id k = Ok ())
     \<and> sr_tenant request = Some recipient \<and> AgentName_parse recipient = Ok recipient
     \<and> (\<forall>claim. recipient_claim (sr_metadata request) = Some claim \<longrightarrow> claim = JString recipient)
     \<and> (\<exists>t. ms_parts (sr_message request) = [Part_text t])
     \<and> sl_message_text lib (sr_message request) = Some (vp_text payload) \<and> length (vp_text payload) \<le> MAX_TEXT_BYTES
     \<and> vp_metadata payload = object_of (ms_metadata (sr_message request))
     \<and> validate_metadata json_len (vp_metadata payload) = Ok ()
     \<and> validate_metadata json_len (object_of (sr_metadata request)) = Ok ()
     \<and> vp_file_refs payload = []"

lemma validate_part_Ok: "validate_part x = Ok () \<longleftrightarrow> (\<exists>t. x = Part_text t)"
  by (cases x) (auto simp: validate_part_def Part_text_def split: PartContent.splits)

lemma validate_message_parts_Ok:
  "validate_message_parts m = Ok () \<Longrightarrow> \<exists>t. ms_parts m = [Part_text t]"
  by (auto simp: validate_message_parts_def res_bind_eq_Ok validate_part_Ok length_Suc_conv collect_res_Ok list_all2_Cons1
      split: if_splits)

lemma validate_payload_plain:
  "validate_payload json_len canonicalize \<lparr>mp_text = t, mp_metadata = m, mp_file_refs = []\<rparr> workspace = Ok p \<longleftrightarrow>
     length t \<le> MAX_TEXT_BYTES \<and> validate_metadata json_len m = Ok () \<and> p = \<lparr>vp_text = t, vp_metadata = m, vp_file_refs = []\<rparr>"
  by (auto simp: validate_payload_def res_bind_eq_Ok)

lemma check_claim_Ok: "check_claim claim recipient = Ok () \<longleftrightarrow> (\<forall>v. claim = Some v \<longrightarrow> v = JString recipient)"
  by (auto simp: check_claim_def res_bind_eq_Ok ok_or_def split: option.splits elim: as_str.elims)

lemma preflight_request_Ok:
  assumes "preflight_request lib json_len canonicalize params request workspace = Ok (recipient, payload)"
  shows "well_formed_send lib json_len params request recipient payload"
  using assms
  by (auto simp: preflight_request_def Let_def res_bind_eq_Ok well_formed_send_def validate_optional_id_def
      validate_payload_plain validate_metadata_channel_def check_claim_Ok ok_or_def
      split: if_splits option.splits res.splits dest: AgentName_parse_Ok dest!: validate_message_parts_Ok)

lemma preflight_request_not_Panic [simp]: "preflight_request lib json_len canonicalize params request workspace \<noteq> Panic"
proof -
  have plain: "validate_payload json_len canonicalize \<lparr>mp_text = t, mp_metadata = m, mp_file_refs = []\<rparr> workspace \<noteq> Panic" for t m
    by (simp add: validate_payload_def res_bind_eq_Panic)
  have parts: "validate_message_parts m \<noteq> Panic" for m
  proof -
    have "collect_res validate_part xs \<noteq> Panic" for xs
      by (rule collect_res_not_Panic) (simp add: validate_part_def split: PartContent.split)
    then show ?thesis by (simp add: validate_message_parts_def res_bind_eq_Panic)
  qed
  have channel: "validate_metadata_channel json_len canonicalize m workspace \<noteq> Panic" for m
    using plain by (auto simp: validate_metadata_channel_def split: res.splits)
  show ?thesis
    by (simp add: preflight_request_def Let_def res_bind_eq_Panic plain parts channel check_claim_def validate_optional_id_def
        split: option.split)
qed

lemma preflight_refuses:
  assumes "hm_get params EXPLICIT_EMPTY_TASK_ID_HEADER \<noteq> None \<or> hm_get params EXPLICIT_EMPTY_CONTEXT_ID_HEADER \<noteq> None"
  shows "\<exists>e. preflight_request lib json_len canonicalize params request workspace = Err e"
proof (cases "preflight_request lib json_len canonicalize params request workspace")
  case (Ok rp)
  then show ?thesis
    using assms preflight_request_Ok [of lib json_len canonicalize params request workspace "fst rp" "snd rp"]
    by (simp add: well_formed_send_def)
next
  case Panic
  then show ?thesis using preflight_request_not_Panic by blast
qed blast

lemma resolve_context_correct:
  assumes inv: "binv (lh E) now (h_broker h)"
  shows "wp (resolve_context E now reg k ctx fresh) (\<lambda>_ _. True)
    (\<lambda>c h'. binv (lh E) now (h_broker h') \<and> (\<forall>x. ctx = Some x \<longrightarrow> c = x)) h"
proof (cases ctx)
  case None
  have "wp (task_snapshot (pers E) (jlen E) now (credentials reg) k) (\<lambda>_ b. binv (lh E) now b) (\<lambda>_ b. binv (lh E) now b) (h_broker h)"
    by (rule wp_conseq [OF persistence_contract.task_snapshot_correct [OF ledger.persistence_contract_axioms inv]])
      (auto simp: maintained_world_def rejected_world_def)
  with None show ?thesis
    by (auto simp: resolve_context_def wp_def split: prod.splits res.splits DomainError.split)
qed (use inv in \<open>simp add: resolve_context_def\<close>)

text \<open>What the others do between two clock readings keeps the invariant.\<close>

definition steady :: "handler_env \<Rightarrow> i64 \<Rightarrow> i64 \<Rightarrow> (Handler \<Rightarrow> Handler) \<Rightarrow> bool" where
  "steady E now later others \<longleftrightarrow>
     (\<forall>h. binv (lh E) now (h_broker h) \<longrightarrow> binv (lh E) later (h_broker (others h)))"

text \<open>
  The decision on a message: the delivery is from the authenticated sender to the tenant of the request, and
  is started, or found as the task of an earlier request.
\<close>

definition decided ::
    "handler_env \<Rightarrow> (nat \<Rightarrow> i64) \<Rightarrow> (nat \<Rightarrow> SqliteTaskStore Broker \<Rightarrow> SqliteTaskStore Broker) \<Rightarrow> (nat \<Rightarrow> string) \<Rightarrow> ServiceParams \<Rightarrow>
     SendMessageRequest \<Rightarrow> Handler \<Rightarrow> SendMessageRequest \<times> string \<times> StartOrResume \<Rightarrow> Handler \<Rightarrow> bool" where
  "decided E clk bs ids params request h res h' \<longleftrightarrow>
     (case res of (request', k, decision) \<Rightarrow>
       \<exists>reg h1 recipient payload ctx w.
         authenticated E (clk 0) params h reg h1
         \<and> well_formed_send (he_lib E) (jlen E) params request recipient payload
         \<and> k = (case ms_task_id (sr_message request) of Some k \<Rightarrow> k | None \<Rightarrow> ids 0)
         \<and> (\<forall>c. ms_context_id (sr_message request) = Some c \<longrightarrow> ctx = c)
         \<and> request' = identified request k ctx \<and> binv (lh E) (clk 3) w
         \<and> started_or_resumed (lh E) (\<lambda>i. clk (i + 3)) bs 0 (credentials reg)
             (queued_delivery k ctx reg recipient payload (clk 2)) w decision (h_broker h'))"

lemma decidedI:
  assumes "authenticated E (clk 0) params h reg h1" "well_formed_send (he_lib E) (jlen E) params request recipient payload"
    and "k = (case ms_task_id (sr_message request) of Some k \<Rightarrow> k | None \<Rightarrow> ids 0)"
    and "\<forall>c. ms_context_id (sr_message request) = Some c \<longrightarrow> ctx = c" "binv (lh E) (clk 3) w"
    and "started_or_resumed (lh E) (\<lambda>i. clk (i + 3)) bs 0 (credentials reg)
      (queued_delivery k ctx reg recipient payload (clk 2)) w decision (h_broker h')"
  shows "decided E clk bs ids params request h (identified request k ctx, k, decision) h'"
  unfolding decided_def using assms by blast

lemma prepare_send_correct:
  assumes inv: "binv (lh E) (clk 0) (h_broker h)"
    and rely: "steady E (clk 0) (clk 1) (ys 0)" "steady E (clk 1) (clk 3) (ys 1)" "interference (lh E) (\<lambda>i. clk (i + 3)) bs"
  shows "wp (prepare_send E clk ys bs ids params request) (\<lambda>_ _. True) (decided E clk bs ids params request h) h"
proof -
  let ?k = "case ms_task_id (sr_message request) of Some k \<Rightarrow> k | None \<Rightarrow> ids 0"
  have start: "wp (start_or_resume (pers E) (jlen E) (\<lambda>i. clk (i + 3)) bs (credentials reg) d) (\<lambda>_ _. True)
      (started_or_resumed (lh E) (\<lambda>i. clk (i + 3)) bs 0 (credentials reg) d b) b"
    if "binv (lh E) (clk 3) b" for b reg d
    unfolding start_or_resume_def
    by (rule wp_conseq [OF persistence_contract.attempts_correct [OF ledger.persistence_contract_axioms rely(3)]])
      (use that in \<open>simp_all add: add.commute\<close>)
  have rest: "wp (bindM (modify (ys 0)) (\<lambda>_. bindM (resolve_context E (clk 1) reg ?k (ms_context_id (sr_message request)) (ids 1)) (\<lambda>ctx.
      bindM (modify (ys 1)) (\<lambda>_. bindM (in_broker domain_error (start_or_resume (pers E) (jlen E) (\<lambda>i. clk (i + 3)) bs (credentials reg)
        (queued_delivery ?k ctx reg recipient payload (clk 2)))) (\<lambda>decision. ret (identified request ?k ctx, ?k, decision))))))
      (\<lambda>_ _. True) (decided E clk bs ids params request h) h1"
    if auth: "authenticated E (clk 0) params h reg h1" and ok: "well_formed_send (he_lib E) (jlen E) params request recipient payload"
    for reg h1 recipient payload
  proof -
    have "binv (lh E) (clk 1) (h_broker (ys 0 h1))" using authenticated_invariant [OF auth] rely(1) by (simp add: steady_def)
    from resolve_context_correct [OF this] show ?thesis
      unfolding wp_bindM [of "modify (ys 0)"] wp_primitive wp_bindM [of "resolve_context _ _ _ _ _ _"]
    proof (rule wp_conseq, goal_cases)
      case (1 ctx h2)
      then have inv3: "binv (lh E) (clk 3) (h_broker (ys 1 h2))" using rely(2) by (simp add: steady_def)
      from start [OF this] show ?case
        unfolding wp_bindM [of "modify (ys 1)"] wp_primitive wp_bindM wp_in_broker
        by (rule wp_conseq) (auto intro!: decidedI [OF auth ok refl _ inv3] simp: 1)
    qed simp
  qed
  show ?thesis
    unfolding prepare_send_def preflight_send_def wp_bindM [of "bindM _ _"] wp_bindM [of "authenticated_registration _ _ _"]
  proof (rule handler_auth_rule [OF inv], goal_cases)
    case (1 reg h1)
    show ?case
      unfolding wp_bindM [of "lift_res _"] wp_lift_res
    proof (intro conjI allI impI, goal_cases)
      case (2 rp)
      then show ?case
        using rest [OF 1 preflight_request_Ok, of "he_canonicalize E" "va_workspace (rg_agent reg)" "fst rp" "snd rp"]
        by (cases rp) (simp only: prod.case wp_primitive Let_def fst_conv snd_conv)
    qed simp_all
  qed simp
qed

section \<open>Executions\<close>

text \<open>
  An execution that begins: its token was pending and is used up, its context and the broker's task are those
  of the admission, and its first event is the task that the store serves.
\<close>

definition execution_admitted ::
    "handler_env \<Rightarrow> i64 \<Rightarrow> yields \<Rightarrow> ExecutorContext \<Rightarrow> Handler \<Rightarrow> StreamResponse \<Rightarrow> Handler \<Rightarrow> bool" where
  "execution_admitted E now ys context h working h' \<longleftrightarrow>
     (\<exists>token adm b t task t0.
        hm_get (ec_service_params context) EXECUTION_ADMISSION_HEADER = Some [token] \<and> hm_get (h_pending h) token = Some adm
        \<and> ec_task_id context = dt_task_id adm \<and> ec_context_id context = dt_context_id adm
        \<and> maintained_world (lh E) now (h_broker (ys 0 (h\<lparr>h_pending := hm_remove token (h_pending h)\<rparr>))) b
        \<and> taskm (b_state b) (dt_task_id adm) = Some t \<and> tr_sender t = dt_sender adm
        \<and> same_identity (durable_of (dt_task_id adm) t) adm
        \<and> working = TaskEvent task
        \<and> serves_task (he_codec E) (tk_id task) t0 (sq_database (b_persistence (h_broker h'))))"

lemma consume_Ok:
  "ExecutionAdmissions_consume params h = (Ok adm, h') \<longleftrightarrow>
     (\<exists>token. hm_get params EXECUTION_ADMISSION_HEADER = Some [token] \<and> hm_get (h_pending h) token = Some adm
        \<and> h' = h\<lparr>h_pending := hm_remove token (h_pending h)\<rparr>)"
  by (cases "hm_get params EXECUTION_ADMISSION_HEADER")
    (auto simp: ExecutionAdmissions_consume_def bindM_lift_res ok_or_def length_Suc_conv simp del: map_of_eq_Some_iff
      split: option.splits)

lemma consume_used:
  assumes "hm_get params EXECUTION_ADMISSION_HEADER = Some [token]" "hm_get (h_pending h) token = None"
  shows "ExecutionAdmissions_consume params h = (Err (InvalidRequest ''durable execution admission is invalid or already used''),
    h\<lparr>h_pending := hm_remove token (h_pending h)\<rparr>)"
  using assms by (simp add: ExecutionAdmissions_consume_def bindM_lift_res)

lemma authorized_served:
  assumes "authorize_sdk_projection cd digest task s = (Ok (), s')"
  shows "\<exists>t0. serves_task cd (tk_id task) t0 (sq_database s')"
proof -
  obtain c where c: "TaskColumns_from_task cd task = Ok c"
    using assms by (auto simp: authorize_sdk_projection_def bindM_lift_res split: res.splits)
  note k = columns_task_id [OF c]
  obtain t0 j s0 where cl: "clean_authoritative_projection cd (tk_id task) s = (Ok (t0, j), s0)"
    using assms c k by (auto simp: authorize_sdk_projection_def bindM_def lift_res_def map_error_def split: prod.splits res.splits)
  then have "content s0 = content s" "serves_task cd (tk_id task) t0 (sq_database s)"
    using wp_result(2) [OF clean_rule cl] by simp_all
  moreover have "sq_database s' = sq_database s0"
    using assms c k cl by (auto simp: authorize_sdk_projection_def bindM_def lift_res_def map_error_def in_admissions_def
        split: if_splits prod.splits)
  ultimately show ?thesis by (auto simp: content_def)
qed

lemma announced_served:
  assumes "announced_task E ys k h = (Ok task, h')"
  shows "\<exists>t0. serves_task (he_codec E) (tk_id task) t0 (sq_database (b_persistence (h_broker h')))"
proof -
  obtain h1 where "get_stored E k h = (Ok task, h1)"
    "in_store (authorize_sdk_projection (he_codec E) (he_digest E) task) (ys 0 h1) = (Ok (), h')"
    using assms by (auto simp: announced_task_def elim!: bindM_cases)
  then obtain p where "authorize_sdk_projection (he_codec E) (he_digest E) task (b_persistence (h_broker (ys 0 h1))) = (Ok (), p)"
    "h' = (ys 0 h1)\<lparr>h_broker := (h_broker (ys 0 h1))\<lparr>b_persistence := p\<rparr>\<rparr>"
    by (auto simp: in_store_def split: prod.splits)
  with authorized_served show ?thesis by fastforce
qed

lemma begin_execution_admitted:
  assumes run: "begin_execution E W now ys ys' context h = (Ok (working, completion), h')"
    and inv: "\<And>token. binv (lh E) now (h_broker (ys 0 (h\<lparr>h_pending := hm_remove token (h_pending h)\<rparr>)))"
  shows "execution_admitted E now ys context h working h'"
proof -
  obtain token adm where tok: "hm_get (ec_service_params context) EXECUTION_ADMISSION_HEADER = Some [token]"
    "hm_get (h_pending h) token = Some adm"
    and ids: "ec_task_id context = dt_task_id adm" "ec_context_id context = dt_context_id adm"
    and "bindM (in_broker domain_error (task_snapshot_for_sender (pers E) (jlen E) now (dt_sender adm) (dt_task_id adm))) (\<lambda>durable.
      if \<not> same_identity durable adm then throw (InvalidRequest ''durable execution identity does not match admission'')
      else bindM (modify (ys 1)) (\<lambda>_. bindM (announced_task E (\<lambda>k. ys (k + 2)) (dt_task_id adm)) (\<lambda>projection.
        if dt_state durable \<in> {Replied, Failed, Rejected, Canceled, Expired}
        then ret (TaskEvent projection, ret (Some (TaskEvent projection)))
        else ret (TaskEvent projection, execution_completion E W ys' (dt_sender adm) (dt_task_id adm)))))
      (ys 0 (h\<lparr>h_pending := hm_remove token (h_pending h)\<rparr>)) = (Ok (working, completion), h')"
    using run unfolding begin_execution_def
    by (elim bindM_cases) (auto simp: consume_Ok Let_def simp del: map_of_eq_Some_iff split: if_splits)
  note run1 = this
  let ?h = "ys 0 (h\<lparr>h_pending := hm_remove token (h_pending h)\<rparr>)"
  obtain durable h1 where snap: "in_broker domain_error (task_snapshot_for_sender (pers E) (jlen E) now (dt_sender adm) (dt_task_id adm)) ?h = (Ok durable, h1)"
    and same: "same_identity durable adm"
    and ann: "\<exists>task. announced_task E (\<lambda>k. ys (k + 2)) (dt_task_id adm) (ys 1 h1) = (Ok task, h') \<and> working = TaskEvent task"
    using run1(5) by (elim bindM_cases) (auto elim!: bindM_cases split: if_splits)
  obtain b where b: "task_snapshot_for_sender (pers E) (jlen E) now (dt_sender adm) (dt_task_id adm) (h_broker ?h) = (Ok durable, b)"
    using snap by (auto simp: in_broker_def split: prod.splits res.splits)
  have "maintained_world (lh E) now (h_broker ?h) b
      \<and> (\<exists>t. taskm (b_state b) (dt_task_id adm) = Some t \<and> tr_sender t = dt_sender adm \<and> durable = durable_of (dt_task_id adm) t)"
    using wp_result(2) [OF persistence_contract.task_snapshot_for_sender_correct [OF ledger.persistence_contract_axioms inv] b] by simp
  moreover obtain task t0 where "working = TaskEvent task"
    "serves_task (he_codec E) (tk_id task) t0 (sq_database (b_persistence (h_broker h')))"
    using ann announced_served by blast
  ultimately show ?thesis
    unfolding execution_admitted_def using tok ids same by blast
qed

text \<open>A response that is there leaves no admission behind, whatever the SDK's handler did.\<close>

lemma admission_dropped:
  assumes "run_admitted_unary I token params request decision h = (r, h')" "r \<noteq> Ok None"
  shows "hm_get (h_pending h') token = None"
  using assms
  by (auto simp: run_admitted_unary_def admit_execution_def ExecutionAdmissions_issue_def drop_lease_def bindM_def op_defs
      split: prod.splits res.splits option.splits)

end
