(* ===== verification/A2A_Examples.thy ===== *)
theory A2A_Examples
  imports A2A_Handler_Correct Ledger_Examples
begin

text \<open>
  A request handler on concrete data: the broker over the sample ledger with two agents registered, and
  messages of the first to the second.  The codec writes the payloads of messages, whose metadata is an
  object.
\<close>

definition mail_task :: Task where
  "mail_task = sample_task\<lparr>tk_history :=
     Some [projected_message sample_durable ''-request'' RoleUser ''hello'' (Some [])]\<rparr>"

definition mail_codec :: codec where
  "mail_codec = sample_codec\<lparr>
     cd_payload_json := (\<lambda>p. if vp_metadata p = JObject [] \<and> vp_file_refs p = [] then Some (vp_text p) else None),
     cd_payload_parse := (\<lambda>j. Some \<lparr>vp_text = j, vp_metadata = JObject [], vp_file_refs = []\<rparr>),
     cd_task_json := (\<lambda>t. if t = mail_task then Some ''submitted t1'' else None),
     cd_task_parse := (\<lambda>j. if j = ''submitted t1'' then Some mail_task else None)\<rparr>"

definition mail_lib :: sdk_lib where
  "mail_lib = \<lparr>sl_message_text = (\<lambda>m. case ms_parts m of [x] \<Rightarrow> (case pt_content x of Text t \<Rightarrow> Some t | _ \<Rightarrow> None) | _ \<Rightarrow> None),
     sl_is_terminal = (\<lambda>st. st \<in> {TsCompleted, TsFailed, TsRejected, TsCanceled}),
     sl_parse_json = (\<lambda>b. if b = ''{}'' then Some (JObject []) else
       Some (JObject [(''method'', JString ''SendMessage''),
         (''params'', JObject [(''message'', JObject [(''taskId'', JString [])])])])),
     sl_send_methods = [''SendMessage'', ''SendStreamingMessage'']\<rparr>"

definition mail_env :: handler_env where
  "mail_env = \<lparr>he_codec = mail_codec, he_page = \<lparr>pg_json = (\<lambda>_. None), pg_parse = (\<lambda>_. None)\<rparr>,
     he_digest = (\<lambda>s. s), he_canonicalize = Some, he_lib = mail_lib\<rparr>"

fun mail_run :: "request list \<Rightarrow> SqliteTaskStore Broker \<Rightarrow> SqliteTaskStore Broker" where
  "mail_run [] w = w"
| "mail_run (req # reqs) w = mail_run reqs (snd (serve (SqlitePersistence mail_codec) sample_len 1000 req w))"

definition mail_start :: "SqliteTaskStore Broker" where
  "mail_start = snd (recover (SqlitePersistence mail_codec) sample_len 1000 (with_clock (sample_store sample_database)))"

definition mail_handler :: Handler where
  "mail_handler = \<lparr>h_broker = mail_run registering mail_start, h_pending = [], h_gates = no_gates\<rparr>"

definition alpha_params :: ServiceParams where
  "alpha_params = [(REGISTRATION_HEADER, [''r1'']), (REGISTRATION_EPOCH_HEADER, [''8''])]"

definition beta_params :: ServiceParams where
  "beta_params = [(REGISTRATION_HEADER, [''r2'']), (REGISTRATION_EPOCH_HEADER, [''9''])]"

definition hello :: SendMessageRequest where
  "hello = \<lparr>sr_message = \<lparr>ms_message_id = ''m1'', ms_context_id = Some ''c1'', ms_task_id = Some ''t1'', ms_role = RoleUser,
       ms_parts = [Part_text ''hello''], ms_metadata = None, ms_extensions = None, ms_reference_task_ids = None\<rparr>,
     sr_configuration = None, sr_metadata = None, sr_tenant = Some ''beta''\<rparr>"

text \<open>Nobody else runs, and the clock stands still.\<close>

definition alone :: surroundings where
  "alone = \<lparr>su_clock = (\<lambda>_. 1000), su_yields = (\<lambda>_ h. h), su_broker_yields = (\<lambda>_ w. w),
     su_ids = (\<lambda>k. ''id-'' @ decimal k)\<rparr>"

definition sent_handler :: Handler where
  "sent_handler = snd (prepared mail_env alone alpha_params hello mail_handler)"

definition sample_inner :: inner where
  "sample_inner = \<lparr>in_send_message = (\<lambda>_ _. ret (Some (TaskResponse mail_task))),
     in_send_streaming_message = (\<lambda>_ _. ret (stream_of (iter (TaskEvent mail_task)))),
     in_get_task = (\<lambda>_ _. ret mail_task), in_cancel_task = (\<lambda>_ _. ret mail_task),
     in_subscribe_to_task = (\<lambda>_ _. throw (InvalidRequest ''no such subscription'')),
     in_create_push_config = (\<lambda>_ c. ret c), in_get_push_config = (\<lambda>_ r. ret \<lparr>pc_task_id = tq_id r, pc_config = JNull\<rparr>),
     in_list_push_configs = (\<lambda>_ _. ret []), in_delete_push_config = (\<lambda>_ _. ret ()),
     in_get_extended_agent_card = (\<lambda>_. ret JNull)\<rparr>"

lemma mail_started: "reachable (SqlitePersistence mail_codec) sample_len 1000 mail_start"
proof -
  have "fst (recover (SqlitePersistence mail_codec) sample_len 1000 (with_clock (sample_store sample_database)))
      = Ok BrokerRecoveryReport_default" by code_simp
  then show ?thesis by (intro reachable.recovered [of _ _ _ _ BrokerRecoveryReport_default]) (simp add: mail_start_def prod_eq_iff)
qed

lemma mail_served:
  "reachable (SqlitePersistence mail_codec) sample_len 1000 w \<Longrightarrow> fresh_ids (SqlitePersistence mail_codec) sample_len 1000 req w \<Longrightarrow>
     reachable (SqlitePersistence mail_codec) sample_len 1000 (snd (serve (SqlitePersistence mail_codec) sample_len 1000 req w))"
  by (rule reachable.served [OF _ order_refl _ prod.collapse [symmetric]])

lemma mail_registered: "reachable (SqlitePersistence mail_codec) sample_len 1000 (h_broker mail_handler)"
proof -
  let ?w = "snd (serve (SqlitePersistence mail_codec) sample_len 1000 (registering ! 0) mail_start)"
  have "fresh_ids (SqlitePersistence mail_codec) sample_len 1000 (registering ! 0) mail_start" by code_simp
  from mail_served [OF mail_started this] have "reachable (SqlitePersistence mail_codec) sample_len 1000 ?w" .
  moreover have "fresh_ids (SqlitePersistence mail_codec) sample_len 1000 (registering ! 1) ?w" by code_simp
  ultimately have "reachable (SqlitePersistence mail_codec) sample_len 1000
      (snd (serve (SqlitePersistence mail_codec) sample_len 1000 (registering ! 1) ?w))" by (rule mail_served)
  then show ?thesis by (simp add: mail_handler_def registering_def)
qed

lemma mail_codec_env [simp]: "he_codec mail_env = mail_codec" "jlen mail_env = sample_len"
  by (simp_all add: mail_env_def mail_codec_def sample_codec_def)

lemma mail_invariant: "binv (lh mail_env) 1000 (h_broker mail_handler)"
  using persistence_contract.reachable_invariant [OF ledger.persistence_contract_axioms mail_registered] by simp

lemma alone_relies:
  "steady mail_env 1000 1000 (\<lambda>h. h)" "interference (lh mail_env) (\<lambda>_. 1000) (\<lambda>_ w. w)" "keeps_broker mail_env (\<lambda>h. h)"
  by (auto simp: steady_def interference_def keeps_broker_def)

lemma started_invariant:
  "started_or_resumed holds (\<lambda>_. now) others k c d w res w' \<Longrightarrow> binv holds now w'"
  by (auto simp: started_or_resumed_def resumed_def begun_def maintained_world_def)

text \<open>The handler after the message was accepted.\<close>

lemma sent_decision: "case fst (prepared mail_env alone alpha_params hello mail_handler) of Ok (_, k, Started _) \<Rightarrow> k = ''t1'' | _ \<Rightarrow> False"
  by code_simp

lemma sent_invariant: "binv (lh mail_env) 1000 (h_broker sent_handler)"
proof -
  obtain r where r: "prepared mail_env alone alpha_params hello mail_handler = (Ok r, sent_handler)"
    using sent_decision by (cases "prepared mail_env alone alpha_params hello mail_handler")
      (auto simp: sent_handler_def split: res.splits)
  have "wp (prepared mail_env alone alpha_params hello) (\<lambda>_ _. True)
      (decided mail_env (\<lambda>_. 1000) (\<lambda>_ w. w) (su_ids alone) alpha_params hello mail_handler) mail_handler"
    unfolding prepared_def using prepare_send_correct [of mail_env "\<lambda>_. 1000" mail_handler "\<lambda>_ h. h" "\<lambda>_ w. w"] mail_invariant alone_relies
    by (simp add: alone_def)
  from wp_result(2) [OF this r] show ?thesis
    by (auto simp: decided_def dest: started_invariant)
qed

end
