(* ===== verification/A2A_Properties.thy ===== *)
theory A2A_Properties
  imports A2A_Examples
begin

text \<open>
  The properties of the request handler of \<^verbatim>\<open>herdr-a2a-broker/src/a2a.rs\<close>, over the broker, its ledger and the
  task store, for any handler of the SDK and whatever the rest of the system does at the points of
  suspension as long as it keeps the invariant of the broker.
\<close>

section \<open>Who is served\<close>

text \<open>
  C35: requests for a task are answered to its sender only.  Getting, cancelling and subscribing to a task,
  and the four operations on its push configurations, either fail in a way that does not depend on the SDK's
  handler, which is not called, or are the call of that handler, after the caller's headers named a live
  registration of the broker and, unless the broker is waiting to reload its tasks, the broker has the task
  with that agent as its sender and, where the request names one, the recipient it names.
\<close>

theorem tasks_are_served_to_their_senders:
  assumes "binv (ledger_holds (he_codec E)) now (h_broker h)" "keeps_broker E (ys 0)"
  shows "served_for_owner E now ys params (tq_id request) (tq_tenant request)
      (\<lambda>I. RequestHandler_get_task E I now ys params request) (\<lambda>I. in_get_task I params request) h
    \<and> served_for_owner E now ys params (tq_id request) (tq_tenant request)
      (\<lambda>I. RequestHandler_cancel_task E I now ys params request) (\<lambda>I. in_cancel_task I params request) h
    \<and> served_for_owner E now ys params (pc_task_id config) None
      (\<lambda>I. RequestHandler_create_push_config E I now ys params config) (\<lambda>I. in_create_push_config I params config) h
    \<and> served_for_owner E now ys params (tq_id request) None
      (\<lambda>I. RequestHandler_get_push_config E I now ys params request) (\<lambda>I. in_get_push_config I params request) h
    \<and> served_for_owner E now ys params (tq_id request) None
      (\<lambda>I. RequestHandler_list_push_configs E I now ys params request) (\<lambda>I. in_list_push_configs I params request) h
    \<and> served_for_owner E now ys params (tq_id request) None
      (\<lambda>I. RequestHandler_delete_push_config E I now ys params request) (\<lambda>I. in_delete_push_config I params request) h
    \<and> ((\<exists>e h'. \<forall>I. RequestHandler_subscribe_to_task E I W now ys ys' params request h = (Ok (stream_of (failed e)), h'))
       \<or> (\<exists>reg h'. granted E now ys params (tq_id request) (tq_tenant request) h reg h'
            \<and> (\<forall>I. RequestHandler_subscribe_to_task E I W now ys ys' params request h =
                 subscribe_owned E I W ys ys' (va_name (rg_agent reg)) params request (ys 1 h'))))"
  unfolding RequestHandler_get_task_def RequestHandler_cancel_task_def RequestHandler_create_push_config_def
    RequestHandler_get_push_config_def RequestHandler_list_push_configs_def RequestHandler_delete_push_config_def
  by (intro conjI) (rule named_requests_served owned_requests_served subscription_served; rule assms)+

definition beta_request :: TaskRequest where
  "beta_request = \<lparr>tq_id = ''t1'', tq_tenant = Some ''beta''\<rparr>"

theorem tasks_are_served_to_their_senders_witness:
  "fst (RequestHandler_get_task mail_env sample_inner 1000 (\<lambda>_ h. h) alpha_params beta_request sent_handler) = Ok mail_task
   \<and> fst (RequestHandler_get_task mail_env sample_inner 1000 (\<lambda>_ h. h) beta_params beta_request sent_handler) =
       Err (InvalidParams ''task is owned by another agent'')
   \<and> served_for_owner mail_env 1000 (\<lambda>_ h. h) alpha_params ''t1'' (Some ''beta'')
      (\<lambda>I. RequestHandler_get_task mail_env I 1000 (\<lambda>_ h. h) alpha_params beta_request)
      (\<lambda>I. in_get_task I alpha_params beta_request) sent_handler"
proof (intro conjI)
  show "fst (RequestHandler_get_task mail_env sample_inner 1000 (\<lambda>_ h. h) alpha_params beta_request sent_handler) = Ok mail_task"
    by code_simp
  show "fst (RequestHandler_get_task mail_env sample_inner 1000 (\<lambda>_ h. h) beta_params beta_request sent_handler) =
      Err (InvalidParams ''task is owned by another agent'')" by code_simp
qed (use tasks_are_served_to_their_senders [where ys = "\<lambda>_ h. h", OF sent_invariant alone_relies(3), of alpha_params beta_request]
    in \<open>simp add: beta_request_def\<close>)

section \<open>Messages\<close>

text \<open>
  C36: what a message starts.  A message is accepted only from an authenticated sender, with valid
  identifiers that are not explicitly empty, a valid tenant that agrees with the recipient its metadata
  claims, exactly one plain text part, and texts and metadata within the limits.  It is then sent as a
  delivery from that sender to the tenant, under the task and context of the message where it names them:
  a task is started, or the task of an earlier request with the same content is found.
\<close>

theorem messages_start_one_task:
  assumes "binv (ledger_holds (he_codec E)) (clk 0) (h_broker h)"
    and "steady E (clk 0) (clk 1) (ys 0)" "steady E (clk 1) (clk 3) (ys 1)"
    and "interference (ledger_holds (he_codec E)) (\<lambda>i. clk (i + 3)) bs"
  shows "wp (prepare_send E clk ys bs ids params request) (\<lambda>_ _. True) (decided E clk bs ids params request h) h"
  by (rule prepare_send_correct [OF assms])

theorem messages_start_one_task_witness:
  "(case fst (prepare_send mail_env (\<lambda>_. 1000) (\<lambda>_ h. h) (\<lambda>_ w. w) (su_ids alone) alpha_params hello mail_handler) of
      Ok (request, k, Started t) \<Rightarrow> k = ''t1'' \<and> dt_recipient t = ''beta'' \<and> dt_sender t = ''alpha'' | _ \<Rightarrow> False)
   \<and> wp (prepare_send mail_env (\<lambda>_. 1000) (\<lambda>_ h. h) (\<lambda>_ w. w) (su_ids alone) alpha_params hello) (\<lambda>_ _. True)
       (decided mail_env (\<lambda>_. 1000) (\<lambda>_ w. w) (su_ids alone) alpha_params hello mail_handler) mail_handler"
proof
  show "case fst (prepare_send mail_env (\<lambda>_. 1000) (\<lambda>_ h. h) (\<lambda>_ w. w) (su_ids alone) alpha_params hello mail_handler) of
      Ok (request, k, Started t) \<Rightarrow> k = ''t1'' \<and> dt_recipient t = ''beta'' \<and> dt_sender t = ''alpha'' | _ \<Rightarrow> False"
    by code_simp
qed (rule messages_start_one_task; use mail_invariant alone_relies in simp)

text \<open>
  C37: executions are admitted.  The executor runs an execution only for a token that is pending, which it
  uses up, whose task and context are those of the execution, and whose task is still the broker's task of
  that sender, recipient, payload and creation time; its first event is the task as the store serves it.  A
  token that is not pending is refused, and a response that is there leaves no token behind.
\<close>

theorem executions_are_admitted:
  assumes "binv (ledger_holds (he_codec E)) now (h_broker h)" "steady E now now (ys 0)"
  shows "(begin_execution E W now ys ys' context h = (Ok (working, completion), h') \<longrightarrow>
      execution_admitted E now ys context h working h')
    \<and> (hm_get (ec_service_params context) EXECUTION_ADMISSION_HEADER = Some [token] \<longrightarrow> hm_get (h_pending h) token = None \<longrightarrow>
      fst (begin_execution E W now ys ys' context h) =
        Err (InvalidRequest ''durable execution admission is invalid or already used''))
    \<and> (run_admitted_unary I token params request decision h = (r, h'') \<longrightarrow> r \<noteq> Ok None \<longrightarrow> hm_get (h_pending h'') token = None)"
proof (intro conjI impI)
  assume "begin_execution E W now ys ys' context h = (Ok (working, completion), h')"
  then show "execution_admitted E now ys context h working h'"
    by (rule begin_execution_admitted) (use assms in \<open>simp add: steady_def\<close>)
next
  assume "hm_get (ec_service_params context) EXECUTION_ADMISSION_HEADER = Some [token]" "hm_get (h_pending h) token = None"
  from consume_used [OF this] show "fst (begin_execution E W now ys ys' context h) =
      Err (InvalidRequest ''durable execution admission is invalid or already used'')"
    by (simp add: begin_execution_def)
next
  assume "run_admitted_unary I token params request decision h = (r, h'')" "r \<noteq> Ok None"
  then show "hm_get (h_pending h'') token = None" by (rule admission_dropped)
qed

definition admitted_handler :: Handler where
  "admitted_handler = sent_handler\<lparr>h_pending := [(''tok'',
     case fst (prepared mail_env alone alpha_params hello mail_handler) of Ok (_, _, d) \<Rightarrow> decision_task d | _ \<Rightarrow> sample_durable)]\<rparr>"

definition admitted_context :: ExecutorContext where
  "admitted_context = \<lparr>ec_task_id = ''t1'', ec_context_id = ''c1'',
     ec_service_params = [(EXECUTION_ADMISSION_HEADER, [''tok''])]\<rparr>"

definition no_wait :: waiting where
  "no_wait = \<lparr>wt_now = 1000, wt_others = (\<lambda>w. w), wt_turns = []\<rparr>"

theorem executions_are_admitted_witness:
  "\<exists>completion h'. begin_execution mail_env no_wait 1000 (\<lambda>_ h. h) (\<lambda>_ h. h) admitted_context admitted_handler =
       (Ok (TaskEvent mail_task, completion), h')
     \<and> execution_admitted mail_env 1000 (\<lambda>_ h. h) admitted_context admitted_handler (TaskEvent mail_task) h'"
proof -
  let ?run = "begin_execution mail_env no_wait 1000 (\<lambda>_ h. h) (\<lambda>_ h. h) admitted_context admitted_handler"
  have "case fst ?run of Ok (TaskEvent t, _) \<Rightarrow> t = mail_task | _ \<Rightarrow> False" by code_simp
  then obtain completion where "fst ?run = Ok (TaskEvent mail_task, completion)"
    by (auto split: res.splits prod.splits StreamResponse.splits)
  then have run: "?run = (Ok (TaskEvent mail_task, completion), snd ?run)" by (metis prod.collapse)
  have "binv (ledger_holds (he_codec mail_env)) 1000 (h_broker admitted_handler)"
    using sent_invariant by (simp add: admitted_handler_def)
  from executions_are_admitted [where ys = "\<lambda>_ h. h", OF this alone_relies(1), of no_wait "\<lambda>_ h. h" admitted_context] run
  show ?thesis by blast
qed

section \<open>Workflows\<close>

text \<open>
  C38: the workflows that send under one identifier run one after the other.  In every state they reach,
  those that have not released their gate share one gate, and at most one of them is sending.
\<close>

theorem one_send_at_a_time:
  assumes "flows_reachable S" "i < length (fs_flows S)" "j < length (fs_flows S)"
    and "fl_task (fs_flows S ! i) = fl_task (fs_flows S ! j)"
    and "fl_phase (fs_flows S ! i) \<in> {Waiting g, Sending g, Unlocked g}"
    and "fl_phase (fs_flows S ! j) \<in> {Waiting h, Sending h, Unlocked h}"
  shows "g = h \<and> (fl_phase (fs_flows S ! i) = Sending g \<and> fl_phase (fs_flows S ! j) = Sending h \<longrightarrow> i = j)"
  using sharing_gate [OF reachable_flows_ok [OF assms(1)] assms(2-6)]
    sending_exclusive [OF reachable_flows_ok [OF assms(1)] assms(2,3) _ _ assms(4)] by blast

text \<open>Two workflows under one identifier, the first of which sends.\<close>

definition queue_of_two :: flows where
  "queue_of_two = \<lparr>fs_gates = \<lparr>gt_map = [(''t1'', 0)], gt_heap = [\<lparr>gate_strong = 2, gate_locked = True\<rparr>]\<rparr>,
     fs_flows = [\<lparr>fl_task = ''t1'', fl_phase = Sending 0\<rparr>, \<lparr>fl_task = ''t1'', fl_phase = Waiting 0\<rparr>]\<rparr>"

lemma queue_of_two_reachable: "flows_reachable queue_of_two"
proof -
  have "send_gate ''t1'' no_gates = (0, snd (send_gate ''t1'' no_gates))" by code_simp
  from flows_reachable.arrive [OF flows_reachable.start, of "''t1''"] this
  have one: "flows_reachable \<lparr>fs_gates = snd (send_gate ''t1'' no_gates), fs_flows = [\<lparr>fl_task = ''t1'', fl_phase = Waiting 0\<rparr>]\<rparr>"
    by simp
  let ?G = "snd (send_gate ''t1'' no_gates)"
  have "send_gate ''t1'' ?G = (0, snd (send_gate ''t1'' ?G))" by code_simp
  with flows_reachable.arrive [OF one, of "''t1''"]
  have two: "flows_reachable \<lparr>fs_gates = snd (send_gate ''t1'' ?G), fs_flows =
      [\<lparr>fl_task = ''t1'', fl_phase = Waiting 0\<rparr>, \<lparr>fl_task = ''t1'', fl_phase = Waiting 0\<rparr>]\<rparr>" by simp
  have "\<not> gate_is_locked 0 (snd (send_gate ''t1'' ?G))"
    "lock_gate 0 (snd (send_gate ''t1'' ?G)) = \<lparr>gt_map = [(''t1'', 0)], gt_heap = [\<lparr>gate_strong = 2, gate_locked = True\<rparr>]\<rparr>"
    by code_simp+
  with flows_reachable.advanced [OF two flow_step.lock [where i = 0 and g = 0]] show ?thesis
    by (simp add: queue_of_two_def)
qed

theorem one_send_at_a_time_witness:
  "(0 :: nat) = 0 \<and> flows_reachable queue_of_two \<and> fl_phase (fs_flows queue_of_two ! 1) \<noteq> Sending 0"
  using one_send_at_a_time [OF queue_of_two_reachable, of 0 1 0 0] queue_of_two_reachable by (simp add: queue_of_two_def)






section \<open>Explicitly empty identifiers\<close>



end
