(* ===== verification/Herdr.thy ===== *)
theory Herdr
  imports Identity_Correct
begin

text \<open>
  The verification of a pane, \<^verbatim>\<open>herdr-a2a-broker/src/herdr.rs\<close>: the broker asks Herdr for the agent of a pane
  and takes nothing of the answer that it has not checked.

  The command runner and \<^verbatim>\<open>serde_json::from_slice\<close> are parameters: \<open>run\<close> gives the output of the program
  on its arguments, or nothing where the command could not be run, and \<open>from_slice\<close> reads the agent's
  record in an envelope.
\<close>

section \<open>Errors of another type\<close>

text \<open>\<^verbatim>\<open>Result::map_err\<close> with a function of the error.\<close>

definition convert_err :: "('e \<Rightarrow> 'f) \<Rightarrow> ('e, 'a) res \<Rightarrow> ('f, 'a) res" where
  "convert_err f r = (case r of Ok a \<Rightarrow> Ok a | Err e \<Rightarrow> Err (f e) | Panic \<Rightarrow> Panic)"

lemma convert_err_simps [simp]:
  "convert_err f r = Ok a \<longleftrightarrow> r = Ok a" "convert_err f r = Panic \<longleftrightarrow> r = Panic"
  "convert_err f r = Err e \<longleftrightarrow> (\<exists>d. r = Err d \<and> f d = e)"
  by (cases r; auto simp: convert_err_def)+

lemma convert_err_eval [simp]:
  "convert_err f (Ok a) = Ok a" "convert_err f (Err d) = Err (f d)" "convert_err f Panic = Panic"
  by (simp_all add: convert_err_def)

section \<open>Commands and errors\<close>

record CommandOutput =
  co_success :: bool
  co_stdout :: string
  co_stderr :: string

datatype HerdrVerificationError =
    Command
  | CommandFailed
  | MalformedResponse
  | InvalidName DomainError
  | PaneMismatch
  | UnsupportedHarness
  | UnsafeWorkspace

record HerdrAgentRecord =
  hr_pane_id :: string
  hr_name :: "string option"
  hr_agent :: string
  hr_workspace_id :: string
  hr_cwd :: string

section \<open>Checks\<close>

text \<open>
  A path equals the root exactly if the root is its only component, and a component of an absolute path
  is never the current directory.
\<close>

definition safe_workspace :: "string \<Rightarrow> bool" where
  "safe_workspace raw_path \<longleftrightarrow>
     (raw_path \<noteq> [] \<and> hd raw_path = CHR ''/'')
     \<and> path_components raw_path \<noteq> path_components ''/''
     \<and> char_of (0 :: nat) \<notin> set raw_path
     \<and> \<not> list_ex (\<lambda>component. component = ''.'' \<or> component = ''..'') (split_path [] raw_path)
     \<and> list_all (\<lambda>component. component \<noteq> ''.'' \<and> component \<noteq> ''..'') (path_components raw_path)"

definition verified_role :: "string option \<Rightarrow> RoleLabel dres" where
  "verified_role name =
     (case name of
        None \<Rightarrow> RoleLabel_parse ''agent''
      | Some n \<Rightarrow>
          if n = [] then RoleLabel_parse ''agent''
          else res_bind (RoleLabel_parse n) (\<lambda>role.
            if canonical_slug (Some role) = ''agent'' then RoleLabel_parse ''agent'' else Ok role))"

definition verify ::
    "(string list \<Rightarrow> CommandOutput option) \<Rightarrow> (string \<Rightarrow> HerdrAgentRecord option) \<Rightarrow> string \<Rightarrow>
     (HerdrVerificationError, VerifiedPane) res" where
  "verify run from_slice pane_id =
     res_bind (ok_or (run [''agent'', ''get'', pane_id]) Command) (\<lambda>out.
     if \<not> co_success out then Err CommandFailed
     else
     res_bind (ok_or (from_slice (co_stdout out)) MalformedResponse) (\<lambda>record.
     if hr_pane_id record \<noteq> pane_id then Err PaneMismatch
     else if hr_agent record \<noteq> ''pi'' then Err UnsupportedHarness
     else
     res_bind (convert_err InvalidName (verified_role (hr_name record))) (\<lambda>role.
     if hr_workspace_id record = [] \<or> length (hr_workspace_id record) > 256
        \<or> list_ex is_control (chars (hr_workspace_id record))
     then Err UnsafeWorkspace
     else if \<not> safe_workspace (hr_cwd record) then Err UnsafeWorkspace
     else Ok \<lparr>vpane_pane_id = hr_pane_id record, vpane_workspace_id = hr_workspace_id record, vpane_role = role,
              vpane_harness = hr_agent record, vpane_workspace_path = hr_cwd record\<rparr>)))"

section \<open>The contract of a verifier\<close>

text \<open>
  What the clients of \<^verbatim>\<open>HerdrVerifier\<close> rely on: the pane is the one they asked about, and its role is a
  role label, which no text can be that does not parse as one.
\<close>

locale verifier_contract =
  fixes check :: "string \<Rightarrow> (HerdrVerificationError, VerifiedPane) res"
  assumes check_pane: "check pane_id = Ok pane \<Longrightarrow> vpane_pane_id pane = pane_id"
    and check_role: "check pane_id = Ok pane \<Longrightarrow> RoleLabel_parse (vpane_role pane) = Ok (vpane_role pane)"
    and check_total: "check pane_id \<noteq> Panic"

lemma role_agent: "RoleLabel_parse ''agent'' = Ok ''agent''"
proof -
  have "chars ''agent'' = map byte ''agent''" by (rule chars_ascii) (simp add: ascii_defs)
  then show ?thesis by (simp add: RoleLabel_parse_def is_control_def MAX_ROLE_LABEL_BYTES_def ascii_defs)
qed

lemma verified_role_Ok:
  assumes "verified_role name = Ok role"
  shows "RoleLabel_parse role = Ok role" "canonical_slug (Some role) = ''agent'' \<longleftrightarrow> role = ''agent''"
proof -
  have agent: "canonical_slug (Some ''agent'') = ''agent''"
    by (rule canonical_slug_stable) (simp add: slug_wf_def slug_like_def slug_char_def ascii_defs)
  show "RoleLabel_parse role = Ok role" "canonical_slug (Some role) = ''agent'' \<longleftrightarrow> role = ''agent''"
    using assms agent RoleLabel_parse_Ok
    by (auto simp: verified_role_def role_agent res_bind_eq_Ok split: option.splits if_splits)
qed

lemma verified_role_total: "verified_role name \<noteq> Panic"
  by (auto simp: verified_role_def role_agent res_bind_eq_Panic RoleLabel_parse_def split: option.splits)

lemma verify_Ok:
  assumes "verify run from_slice pane_id = Ok pane"
  shows "vpane_pane_id pane = pane_id" "vpane_harness pane = ''pi''"
    "RoleLabel_parse (vpane_role pane) = Ok (vpane_role pane)"
    "validate_workspace_id (vpane_workspace_id pane) = Ok ()" "safe_workspace (vpane_workspace_path pane)"
    "\<exists>out. run [''agent'', ''get'', pane_id] = Some out \<and> co_success out"
  using assms verified_role_Ok(1)
  by (auto simp: verify_def res_bind_eq_Ok validate_workspace_id_def validate_field_def MAX_WORKSPACE_ID_BYTES_def
      split: if_splits)

lemma verify_total: "verify run from_slice pane_id \<noteq> Panic"
  by (simp add: verify_def res_bind_eq_Panic verified_role_total)

interpretation command: verifier_contract "verify run from_slice" for run from_slice
  by unfold_locales (fact verify_Ok(1), fact verify_Ok(3), fact verify_total)

text \<open>A workspace that is accepted has a proper absolute path: no component of it leads back up.\<close>

lemma safe_workspace_components:
  assumes "safe_workspace path"
  shows "hd (path_components path) = ''/''" "length (path_components path) > 1" "''..'' \<notin> set (path_components path)"
proof -
  let ?named = "filter (\<lambda>c. c \<noteq> [] \<and> c \<noteq> ''.'') (split_path [] path)"
  have components: "path_components path = ''/'' # ?named"
    using assms by (simp add: safe_workspace_def path_components_def)
  then show "hd (path_components path) = ''/''" by simp
  have "path_components ''/'' = [''/'']" by code_simp
  with assms components have "?named \<noteq> []" by (auto simp: safe_workspace_def)
  with components show "length (path_components path) > 1" by simp
  have "list_all (\<lambda>component. component \<noteq> ''.'' \<and> component \<noteq> ''..'') (path_components path)"
    using assms by (simp add: safe_workspace_def)
  then show "''..'' \<notin> set (path_components path)" by (auto simp: list_all_iff)
qed

end
