(* ===== verification/Api.thy ===== *)
theory Api
  imports A2A_Requests Herdr
begin

text \<open>
  The private HTTP interface of the broker, \<^verbatim>\<open>herdr-a2a-broker/src/api.rs\<close>: agents register with a pane that
  Herdr verifies and an identity that the identity store keeps, find each other, and exchange tasks.

  The state is the broker's and the identity store's.  At every point of suspension the rest of the
  system runs: \<open>ys k\<close> is what it does at the k-th one and \<open>clk k\<close> the k-th reading of the clock.  What is not part of
  the sources is in the record \<open>api_env\<close>: \<^verbatim>\<open>serde_json\<close>, SHA-256 and HMAC, base64, \<^verbatim>\<open>HeaderValue::to_str\<close>, the
  texts of the database's errors, and the verifier the state is made with.

  The constants of the headers and the limit of a body are those of theory \<open>A2A_Requests\<close>.
\<close>

section \<open>Constants\<close>

definition MIN_WAIT_TIMEOUT_MS :: nat where "MIN_WAIT_TIMEOUT_MS = 1000"
definition MAX_WAIT_TIMEOUT_MS :: nat where "MAX_WAIT_TIMEOUT_MS = 24 * 60 * 60 * 1000"
definition AUTHORIZATION :: string where "AUTHORIZATION = ''authorization''"
definition HEALTH_PROOF_HEADER :: string where "HEALTH_PROOF_HEADER = ''x-herdr-a2a-health-proof''"
definition HEALTH_INSTANCE_HEADER :: string where "HEALTH_INSTANCE_HEADER = ''x-herdr-a2a-instance''"
definition HEALTH_PROOF_DOMAIN :: string where "HEALTH_PROOF_DOMAIN = ''herdr-a2a-proof-v2'' @ [char_of (0 :: nat)]"
definition STATUS_PROOF_HEADER :: string where "STATUS_PROOF_HEADER = ''x-herdr-a2a-status-proof''"
definition STATUS_PROOF_DOMAIN :: string where "STATUS_PROOF_DOMAIN = ''herdr-a2a-status-v1'' @ [char_of (0 :: nat)]"

section \<open>Errors\<close>

datatype StatusCode =
    OK | BAD_REQUEST | UNAUTHORIZED | FORBIDDEN | NOT_FOUND | METHOD_NOT_ALLOWED | REQUEST_TIMEOUT | CONFLICT
  | PAYLOAD_TOO_LARGE | INTERNAL_SERVER_ERROR | SERVICE_UNAVAILABLE

record ApiError =
  ae_status :: StatusCode
  ae_code :: string
  ae_message :: string
  ae_candidates :: "AgentName list"

definition ApiError_new :: "StatusCode \<Rightarrow> string \<Rightarrow> string \<Rightarrow> ApiError" where
  "ApiError_new status code message = \<lparr>ae_status = status, ae_code = code, ae_message = message, ae_candidates = []\<rparr>"

definition with_candidates :: "ApiError \<Rightarrow> AgentName list \<Rightarrow> ApiError" where
  "with_candidates e candidates = e\<lparr>ae_candidates := candidates\<rparr>"

fun domain_status :: "DomainError \<Rightarrow> StatusCode \<times> string" where
  "domain_status InvalidAgentName = (BAD_REQUEST, ''invalid_request'')"
| "domain_status InvalidRoleLabel = (BAD_REQUEST, ''invalid_request'')"
| "domain_status InvalidRegistrationId = (BAD_REQUEST, ''invalid_request'')"
| "domain_status InvalidDeliveryId = (BAD_REQUEST, ''invalid_request'')"
| "domain_status InvalidTaskId = (BAD_REQUEST, ''invalid_request'')"
| "domain_status TooManyRetainedTasks = (BAD_REQUEST, ''invalid_request'')"
| "domain_status RegistrationNotFound = (UNAUTHORIZED, ''invalid_registration'')"
| "domain_status RegistrationExpired = (UNAUTHORIZED, ''invalid_registration'')"
| "domain_status AgentNotRegistered = (NOT_FOUND, ''not_found'')"
| "domain_status DeliveryNotFound = (NOT_FOUND, ''not_found'')"
| "domain_status TaskNotFound = (NOT_FOUND, ''not_found'')"
| "domain_status SenderMismatch = (FORBIDDEN, ''forbidden'')"
| "domain_status DeliveryNotOwned = (FORBIDDEN, ''forbidden'')"
| "domain_status TaskNotOwned = (FORBIDDEN, ''forbidden'')"
| "domain_status WaitAlreadyActive = (CONFLICT, ''wait_already_active'')"
| "domain_status WaitTimedOut = (REQUEST_TIMEOUT, ''wait_timed_out'')"
| "domain_status TextTooLarge = (PAYLOAD_TOO_LARGE, ''payload_too_large'')"
| "domain_status MetadataTooLarge = (PAYLOAD_TOO_LARGE, ''payload_too_large'')"
| "domain_status TooManyFileReferences = (PAYLOAD_TOO_LARGE, ''payload_too_large'')"
| "domain_status PathTooLong = (PAYLOAD_TOO_LARGE, ''payload_too_large'')"
| "domain_status FileLabelTooLong = (PAYLOAD_TOO_LARGE, ''payload_too_large'')"
| "domain_status MetadataTooDeep = (BAD_REQUEST, ''invalid_payload'')"
| "domain_status TooManyMetadataEntries = (BAD_REQUEST, ''invalid_payload'')"
| "domain_status (FileNotFound _) = (BAD_REQUEST, ''invalid_payload'')"
| "domain_status (WorkspaceNotFound _) = (BAD_REQUEST, ''invalid_payload'')"
| "domain_status (FileOutsideWorkspace _ _) = (BAD_REQUEST, ''invalid_payload'')"
| "domain_status DuplicateTask = (CONFLICT, ''conflict'')"
| "domain_status ReplyWaitAlreadyActive = (CONFLICT, ''conflict'')"
| "domain_status ReplyAlreadySubmitted = (CONFLICT, ''conflict'')"
| "domain_status TaskCanceled = (CONFLICT, ''conflict'')"
| "domain_status TaskExpired = (CONFLICT, ''conflict'')"
| "domain_status TaskFailed = (CONFLICT, ''conflict'')"
| "domain_status TaskRejected = (CONFLICT, ''conflict'')"
| "domain_status TaskAlreadyCompleted = (CONFLICT, ''conflict'')"
| "domain_status TooManyActiveTasks = (CONFLICT, ''conflict'')"
| "domain_status PersistenceUnavailable = (SERVICE_UNAVAILABLE, ''persistence_unavailable'')"

definition ApiError_from_domain :: "DomainError \<Rightarrow> ApiError" where
  "ApiError_from_domain e = (case domain_status e of (status, code) \<Rightarrow> ApiError_new status code (DomainError_to_string e))"

text \<open>\<^verbatim>\<open>Display for IdentityError\<close>; \<open>sqlite\<close> is the text of the database's own error.\<close>

fun IdentityError_to_string :: "string \<Rightarrow> IdentityError \<Rightarrow> string" where
  "IdentityError_to_string sqlite IdSqlite = ''identity database failed: '' @ sqlite"
| "IdentityError_to_string sqlite (IdInvalidData message) = ''identity data is invalid: '' @ message"
| "IdentityError_to_string sqlite WorkspaceMismatch = ''identity workspace does not match broker workspace''"
| "IdentityError_to_string sqlite AllocationExhausted = ''canonical identity collision retry limit reached''"

definition ApiError_from_identity :: "string \<Rightarrow> IdentityError \<Rightarrow> ApiError" where
  "ApiError_from_identity sqlite e =
     (case e of
        WorkspaceMismatch \<Rightarrow> ApiError_new FORBIDDEN ''workspace_mismatch'' (IdentityError_to_string sqlite e)
      | AllocationExhausted \<Rightarrow>
          ApiError_new SERVICE_UNAVAILABLE ''identity_allocation_unavailable'' (IdentityError_to_string sqlite e)
      | _ \<Rightarrow> ApiError_new SERVICE_UNAVAILABLE ''identity_unavailable'' (IdentityError_to_string sqlite e))"

section \<open>Requests and responses\<close>

type_synonym HeaderMap = "(string, string list) hash_map"

record RegisterRequest =
  rq_pane_id :: string
  rq_harness_session_id :: string
  rq_expected_agent_name :: "AgentName option"

record WaitAgentsRequest =
  wa_pane_ids :: "string list"
  wa_timeout_ms :: nat

record ReplyRequest =
  rq_text :: string
  rq_metadata :: json
  rq_file_refs :: "FileReference list"

record RegistrationResponse =
  re_registration_id :: RegistrationId
  re_registration_epoch :: RegistrationEpoch
  re_canonical_name :: AgentName
  re_role :: RoleLabel
  re_pane_id :: string
  re_harness :: string
  re_workspace :: PathBuf
  re_harness_session_id :: string
  re_expires_unix_ms :: i64

record AgentResponse =
  ar_canonical_name :: AgentName
  ar_role :: RoleLabel
  ar_pane_id :: string
  ar_harness :: string
  ar_status :: string

record StatusAgentResponse =
  sa_role :: RoleLabel
  sa_canonical_name :: AgentName
  sa_status :: string

record WorkspaceStatusResponse =
  ws_workspace_id :: string
  ws_broker :: string
  ws_storage :: string
  ws_registrations :: nat
  ws_agents :: "StatusAgentResponse list"
  ws_tasks :: BrokerTaskCounts
  ws_last_event :: "BrokerStatusEvent option"

definition from_registration :: "Registration \<Rightarrow> RoleLabel \<Rightarrow> RegistrationResponse" where
  "from_registration registration role =
     \<lparr>re_registration_id = rg_id registration, re_registration_epoch = rg_epoch registration,
      re_canonical_name = va_name (rg_agent registration), re_role = role,
      re_pane_id = va_pane_id (rg_agent registration), re_harness = va_harness (rg_agent registration),
      re_workspace = va_workspace (rg_agent registration),
      re_harness_session_id = rg_harness_session_id registration,
      re_expires_unix_ms = rg_expires_unix_ms registration\<rparr>"

datatype body =
    Empty
  | ErrorBody ApiError
  | HealthBody string
  | RegistrationBody RegistrationResponse
  | OkBody bool
  | AgentListBody "AgentResponse list"
  | WaitAgentsBody u64 "AgentResponse list"
  | ResolveBody AgentName
  | DeliveryBody DeliveredMessage
  | Bytes string

record response =
  an_status :: StatusCode
  an_headers :: HeaderMap
  an_body :: body

definition into_response :: "ApiError \<Rightarrow> response" where
  "into_response e = \<lparr>an_status = ae_status e, an_headers = [], an_body = ErrorBody e\<rparr>"

definition Json :: "body \<Rightarrow> response" where
  "Json b = \<lparr>an_status = OK, an_headers = [], an_body = b\<rparr>"

section \<open>State\<close>

record api_env =
  env_json_len :: "json \<Rightarrow> nat"
  env_canonicalize :: "PathBuf \<Rightarrow> PathBuf option"
  env_parse_uuid :: "string \<Rightarrow> (nat \<times> bool \<times> string) option"
  env_to_str :: "string \<Rightarrow> string option"
  env_sha256 :: "string \<Rightarrow> string"
  env_hmac :: "string \<Rightarrow> string \<Rightarrow> string"
  env_encode :: "string \<Rightarrow> string"
  env_decode :: "string \<Rightarrow> string option"
  env_sqlite :: string
  env_verify :: "string \<Rightarrow> (HerdrVerificationError, VerifiedPane) res"
  env_status_json :: "WorkspaceStatusResponse \<Rightarrow> string"
  env_error_json :: "ApiError \<Rightarrow> string"
  env_parse_register :: "string \<Rightarrow> RegisterRequest option"
  env_parse_wait_agents :: "string \<Rightarrow> WaitAgentsRequest option"
  env_parse_wait :: "string \<Rightarrow> nat option option"
  env_parse_ack :: "string \<Rightarrow> DeliveryId option"
  env_parse_reply :: "string \<Rightarrow> ReplyRequest option"

text \<open>What an \<^verbatim>\<open>ApiState\<close> holds besides the broker and the verifier.\<close>

record ApiState =
  st_identities :: "string option"
  st_workspace_id :: string
  st_bearer_token_digest :: string
  st_broker_instance_id :: string

record 'p Api =
  ap_broker :: "'p Broker"
  ap_identities :: identity_db

type_synonym ('p, 'a) aop = "('p Api, ApiError, 'a) op"
type_synonym 'p api_yields = "nat \<Rightarrow> 'p Api \<Rightarrow> 'p Api"

definition ApiState_new :: "api_env \<Rightarrow> string \<Rightarrow> string \<Rightarrow> string \<Rightarrow> ApiState iop" where
  "ApiState_new E workspace_id bearer_token broker_instance_id =
     bindM (for_workspace workspace_id) (\<lambda>identities.
     ret \<lparr>st_identities = identities, st_workspace_id = workspace_id,
          st_bearer_token_digest = env_sha256 E bearer_token,
          st_broker_instance_id = env_encode E broker_instance_id\<rparr>)"

definition on_broker :: "('p, 'a) bop \<Rightarrow> ('p, 'a) aop" where
  "on_broker m s =
     (case m (ap_broker s) of
        (Ok a, b) \<Rightarrow> (Ok a, s\<lparr>ap_broker := b\<rparr>)
      | (Err e, b) \<Rightarrow> (Err (ApiError_from_domain e), s\<lparr>ap_broker := b\<rparr>)
      | (Panic, b) \<Rightarrow> (Panic, s\<lparr>ap_broker := b\<rparr>))"

definition on_identities :: "api_env \<Rightarrow> 'a iop \<Rightarrow> ('p, 'a) aop" where
  "on_identities E m s =
     (case m (ap_identities s) of
        (Ok a, d) \<Rightarrow> (Ok a, s\<lparr>ap_identities := d\<rparr>)
      | (Err e, d) \<Rightarrow> (Err (ApiError_from_identity (env_sqlite E) e), s\<lparr>ap_identities := d\<rparr>)
      | (Panic, d) \<Rightarrow> (Panic, s\<lparr>ap_identities := d\<rparr>))"

section \<open>Headers and bodies\<close>

definition header_text :: "api_env \<Rightarrow> HeaderMap \<Rightarrow> string \<Rightarrow> string option" where
  "header_text E headers name =
     (case hm_get headers name of
        Some (v # _) \<Rightarrow> env_to_str E v
      | _ \<Rightarrow> None)"

text \<open>The condition of \<^verbatim>\<open>require_bearer\<close>; \<^verbatim>\<open>ct_eq\<close> is equality.\<close>

definition bearer_token :: "api_env \<Rightarrow> HeaderMap \<Rightarrow> string option" where
  "bearer_token E headers =
     (case Option.bind (header_text E headers AUTHORIZATION) (strip_prefix ''Bearer '') of
        None \<Rightarrow> None
      | Some token \<Rightarrow> if token = [] then None else Some token)"

definition bearer_ok :: "api_env \<Rightarrow> ApiState \<Rightarrow> HeaderMap \<Rightarrow> bool" where
  "bearer_ok E st headers =
     (case bearer_token E headers of
        None \<Rightarrow> False
      | Some token \<Rightarrow> env_sha256 E token = st_bearer_token_digest st)"

definition require_bearer ::
    "api_env \<Rightarrow> ApiState \<Rightarrow> HeaderMap \<Rightarrow> ('p, response option) aop \<Rightarrow> ('p, response option) aop" where
  "require_bearer E st headers next =
     (if bearer_ok E st headers then next
      else ret (Some (into_response (ApiError_new UNAUTHORIZED ''unauthorized'' ''a valid bearer token is required''))))"

definition BoundedJson :: "(string \<Rightarrow> 'a option) \<Rightarrow> string \<Rightarrow> (ApiError, 'a) res" where
  "BoundedJson from_slice bytes =
     (if length bytes > MAX_JSON_BODY_BYTES
      then Err (ApiError_new PAYLOAD_TOO_LARGE ''body_too_large'' ''request body exceeds the size limit'')
      else ok_or (from_slice bytes)
        (ApiError_new BAD_REQUEST ''invalid_json'' ''request body is not valid for this endpoint''))"

definition registration_credentials :: "api_env \<Rightarrow> HeaderMap \<Rightarrow> (ApiError, RegistrationCredentials) res" where
  "registration_credentials E headers =
     res_bind (ok_or (header_text E headers REGISTRATION_HEADER)
       (ApiError_new UNAUTHORIZED ''missing_registration'' ''an authenticated registration is required'')) (\<lambda>raw.
     res_bind (map_err (ApiError_new UNAUTHORIZED ''invalid_registration'' ''the registration identifier is invalid'')
       (RegistrationId_parse (env_parse_uuid E) raw)) (\<lambda>id.
     res_bind (ok_or (header_text E headers REGISTRATION_EPOCH_HEADER)
       (ApiError_new UNAUTHORIZED ''missing_registration_epoch'' ''an authenticated registration epoch is required'')) (\<lambda>raw.
     res_bind (ok_or (RegistrationEpoch_parse raw)
       (ApiError_new UNAUTHORIZED ''invalid_registration'' ''the registration epoch is invalid'')) (\<lambda>epoch.
     Ok \<lparr>cr_id = id, cr_epoch = epoch\<rparr>))))"

text \<open>The path of a task: the extractor's text, or its rejection.\<close>

definition path_task_id :: "string option \<Rightarrow> (ApiError, string) res" where
  "path_task_id path =
     res_bind (ok_or path (ApiError_new BAD_REQUEST ''invalid_path'' ''task path is invalid'')) (\<lambda>task_id.
     res_bind (convert_err ApiError_from_domain (validate_task_id task_id)) (\<lambda>_.
     Ok task_id))"

section \<open>Registrations\<close>

definition pause :: "'p api_yields \<Rightarrow> nat \<Rightarrow> ('p, unit) aop" where
  "pause ys k = modify (ys k)"

definition identity_changed :: "string \<Rightarrow> ApiError" where
  "identity_changed message = ApiError_new FORBIDDEN ''agent_identity_changed'' message"

definition Api_register ::
    "api_env \<Rightarrow> 'p BrokerPersistence \<Rightarrow> 'p api_yields \<Rightarrow> (nat \<Rightarrow> i64) \<Rightarrow> RegistrationId \<Rightarrow> ApiState \<Rightarrow> string \<Rightarrow>
     ('p, RegistrationResponse) aop" where
  "Api_register E P ys clk fresh_id st bytes =
     bindM (lift_res (BoundedJson (env_parse_register E) bytes)) (\<lambda>request.
     if rq_pane_id request = [] \<or> length (rq_pane_id request) > MAX_IDENTITY_FIELD_BYTES
        \<or> rq_harness_session_id request = [] \<or> length (rq_harness_session_id request) > MAX_IDENTITY_FIELD_BYTES
     then throw (ApiError_new BAD_REQUEST ''invalid_registration_request''
       ''pane and harness session identifiers must be non-empty and bounded'')
     else
     bindM (pause ys 0) (\<lambda>_.
     bindM (lift_res (map_err (ApiError_new FORBIDDEN ''verification_failed'' ''Herdr could not verify this pane'')
       (env_verify E (rq_pane_id request)))) (\<lambda>verified.
     if vpane_workspace_id verified \<noteq> st_workspace_id st
     then throw (ApiError_new FORBIDDEN ''workspace_mismatch'' ''verified pane belongs to another workspace'')
     else
     bindM (on_identities E (resolve_or_create (st_identities st) verified (rq_harness_session_id request))) (\<lambda>identity.
     if (case rq_expected_agent_name request of None \<Rightarrow> False | Some expected \<Rightarrow> expected \<noteq> ai_canonical_name identity)
     then throw (identity_changed ''Herdr verified a different canonical identity for this pane'')
     else
     bindM (pause ys 1) (\<lambda>_.
     let agent = \<lparr>va_name = ai_canonical_name identity, va_pane_id = vpane_pane_id verified,
           va_harness = vpane_harness verified, va_workspace = vpane_workspace_path verified\<rparr> in
     bindM (on_broker (register P (env_json_len E) (clk 2) fresh_id agent (rq_harness_session_id request))) (\<lambda>registration.
     ret (from_registration registration (ai_current_role identity))))))))"

definition pane_changed :: "ApiState \<Rightarrow> Registration \<Rightarrow> VerifiedPane \<Rightarrow> bool" where
  "pane_changed st current verified \<longleftrightarrow>
     vpane_workspace_id verified \<noteq> st_workspace_id st \<or> vpane_pane_id verified \<noteq> va_pane_id (rg_agent current)
     \<or> vpane_harness verified \<noteq> va_harness (rg_agent current)
     \<or> path_components (vpane_workspace_path verified) \<noteq> path_components (va_workspace (rg_agent current))"

definition Api_renew ::
    "api_env \<Rightarrow> 'p BrokerPersistence \<Rightarrow> 'p api_yields \<Rightarrow> (nat \<Rightarrow> i64) \<Rightarrow> ApiState \<Rightarrow> HeaderMap \<Rightarrow>
     ('p, RegistrationResponse) aop" where
  "Api_renew E P ys clk st headers =
     bindM (lift_res (registration_credentials E headers)) (\<lambda>c.
     bindM (on_broker (authenticate P (env_json_len E) (clk 0) c)) (\<lambda>current.
     bindM (pause ys 0) (\<lambda>_.
     bindM (lift_res (map_err (ApiError_new FORBIDDEN ''verification_failed'' ''Herdr could not re-verify this pane'')
       (env_verify E (va_pane_id (rg_agent current))))) (\<lambda>verified.
     if pane_changed st current verified then throw (identity_changed ''verified pane identity changed during refresh'')
     else
     bindM (on_identities E (resolve_or_create (st_identities st) verified (rg_harness_session_id current))) (\<lambda>identity.
     if ai_canonical_name identity \<noteq> va_name (rg_agent current)
     then throw (identity_changed ''canonical identity changed during refresh'')
     else
     bindM (pause ys 1) (\<lambda>_.
     bindM (on_broker (renew P (env_json_len E) (clk 2) c)) (\<lambda>registration.
     ret (from_registration registration (ai_current_role identity)))))))))"

definition forgiving :: "('p, unit) bop \<Rightarrow> ('p, unit) bop" where
  "forgiving m b = (case m b of (Err RegistrationNotFound, b') \<Rightarrow> (Ok (), b') | r \<Rightarrow> r)"

definition Api_unregister ::
    "api_env \<Rightarrow> 'p BrokerPersistence \<Rightarrow> (nat \<Rightarrow> i64) \<Rightarrow> HeaderMap \<Rightarrow> ('p, bool) aop" where
  "Api_unregister E P clk headers =
     bindM (lift_res (registration_credentials E headers)) (\<lambda>c.
     bindM (on_broker (forgiving (remove_registration P (env_json_len E) (clk 0) c))) (\<lambda>_.
     ret True))"

section \<open>The directory\<close>

definition unavailable :: "string \<Rightarrow> string \<Rightarrow> ApiError" where
  "unavailable code message = ApiError_new INTERNAL_SERVER_ERROR code message"

definition directory_agent :: "api_env \<Rightarrow> ApiState \<Rightarrow> Registration \<Rightarrow> ('p, AgentResponse) aop" where
  "directory_agent E st registration =
     bindM (on_identities E (find_by_canonical (va_name (rg_agent registration)))) (\<lambda>found.
     bindM (lift_res (ok_or found
       (unavailable ''identity_unavailable'' ''live registration has no durable identity''))) (\<lambda>identity.
     if ai_workspace_id identity \<noteq> st_workspace_id st \<or> ai_pane_id identity \<noteq> va_pane_id (rg_agent registration)
        \<or> ai_harness identity \<noteq> va_harness (rg_agent registration)
     then throw (unavailable ''identity_mismatch'' ''live registration does not match durable identity'')
     else ret \<lparr>ar_canonical_name = ai_canonical_name identity, ar_role = ai_current_role identity,
               ar_pane_id = ai_pane_id identity, ar_harness = ai_harness identity, ar_status = ''live''\<rparr>))"

text \<open>A loop that awaits a lookup for each element; the others run before each.\<close>

fun lookups :: "('a \<Rightarrow> ('p, 'b) aop) \<Rightarrow> 'p api_yields \<Rightarrow> nat \<Rightarrow> 'a list \<Rightarrow> ('p, 'b list) aop" where
  "lookups f ys k [] = ret []"
| "lookups f ys k (x # xs) =
     bindM (pause ys k) (\<lambda>_. bindM (f x) (\<lambda>y. bindM (lookups f ys (Suc k) xs) (\<lambda>zs. ret (y # zs))))"

definition live_directory_from_registrations ::
    "api_env \<Rightarrow> 'p api_yields \<Rightarrow> ApiState \<Rightarrow> Registration list \<Rightarrow> ('p, AgentResponse list) aop" where
  "live_directory_from_registrations E ys st registrations =
     bindM (lookups (directory_agent E st) ys 0 registrations) (\<lambda>agents.
     ret (sort_key ar_canonical_name agents))"

definition live_directory ::
    "api_env \<Rightarrow> 'p BrokerPersistence \<Rightarrow> 'p api_yields \<Rightarrow> (nat \<Rightarrow> i64) \<Rightarrow> ApiState \<Rightarrow> ('p, AgentResponse list) aop" where
  "live_directory E P ys clk st =
     bindM (on_broker (list_agents P (env_json_len E) (clk 0))) (\<lambda>registrations.
     live_directory_from_registrations E ys st registrations)"

definition wait_agents_valid :: "WaitAgentsRequest \<Rightarrow> bool" where
  "wait_agents_valid request \<longleftrightarrow> \<not> (
     wa_pane_ids request = [] \<or> length (wa_pane_ids request) > 8
     \<or> card (set (wa_pane_ids request)) \<noteq> length (wa_pane_ids request)
     \<or> list_ex (\<lambda>pane_id. pane_id = [] \<or> length pane_id > MAX_IDENTITY_FIELD_BYTES \<or> list_ex is_control (chars pane_id))
         (wa_pane_ids request)
     \<or> \<not> (MIN_WAIT_TIMEOUT_MS \<le> wa_timeout_ms request \<and> wa_timeout_ms request \<le> MAX_WAIT_TIMEOUT_MS))"

definition Api_wait_agents ::
    "api_env \<Rightarrow> 'p BrokerPersistence \<Rightarrow> 'p api_yields \<Rightarrow> 'p turn list \<Rightarrow> ApiState \<Rightarrow> string \<Rightarrow>
     ('p, (u64 \<times> AgentResponse list) option) aop" where
  "Api_wait_agents E P ys turns st bytes =
     bindM (lift_res (BoundedJson (env_parse_wait_agents E) bytes)) (\<lambda>request.
     if \<not> wait_agents_valid request
     then throw (ApiError_new BAD_REQUEST ''invalid_agent_wait''
       ''agent wait requires 1-8 unique bounded pane IDs and a bounded timeout'')
     else
     bindM (on_broker (wait_for_agents P (env_json_len E) (wa_pane_ids request) turns)) (\<lambda>waited_opt.
     case waited_opt of
       None \<Rightarrow> ret None
     | Some waited \<Rightarrow>
         bindM (lookups (directory_agent E st) ys 0 (adw_registrations waited)) (\<lambda>agents.
         ret (Some (adw_generation waited, agents)))))"

text \<open>The choice of \<^verbatim>\<open>resolve_agent\<close> in the directory: a live agent's own name comes before a role.\<close>

definition live_name :: "string \<Rightarrow> AgentResponse list \<Rightarrow> AgentName option" where
  "live_name target directory =
     (case AgentName_parse target of
        Ok canonical \<Rightarrow> if list_ex (\<lambda>agent. ar_canonical_name agent = canonical) directory then Some canonical else None
      | _ \<Rightarrow> None)"

definition resolve_target :: "string \<Rightarrow> AgentResponse list \<Rightarrow> (ApiError, AgentName) res" where
  "resolve_target target directory =
     (case live_name target directory of
        Some canonical \<Rightarrow> Ok canonical
      | None \<Rightarrow>
          let candidates = sort (map ar_canonical_name (filter (\<lambda>agent. ar_role agent = target) directory)) in
          case candidates of
            [] \<Rightarrow> Err (ApiError_new NOT_FOUND ''agent_not_found'' ''no live agent matches this target'')
          | [name] \<Rightarrow> Ok name
          | _ \<Rightarrow> Err (with_candidates (ApiError_new CONFLICT ''ambiguous_agent'' ''multiple live agents have this role'')
                   candidates))"

definition Api_resolve_agent ::
    "api_env \<Rightarrow> 'p BrokerPersistence \<Rightarrow> 'p api_yields \<Rightarrow> (nat \<Rightarrow> i64) \<Rightarrow> ApiState \<Rightarrow> string \<Rightarrow> ('p, AgentName) aop" where
  "Api_resolve_agent E P ys clk st target =
     (if target = [] \<or> length target > MAX_IDENTITY_FIELD_BYTES \<or> list_ex is_control (chars target)
      then throw (ApiError_new BAD_REQUEST ''invalid_agent_target''
        ''agent target must be non-empty, bounded, and control-free'')
      else
      bindM (live_directory E P ys clk st) (\<lambda>directory.
      lift_res (resolve_target target directory)))"

section \<open>Tasks\<close>

definition timeout_ok :: "nat option \<Rightarrow> bool" where
  "timeout_ok timeout_ms =
     (case timeout_ms of None \<Rightarrow> True | Some t \<Rightarrow> MIN_WAIT_TIMEOUT_MS \<le> t \<and> t \<le> MAX_WAIT_TIMEOUT_MS)"

definition Api_wait_inbox ::
    "api_env \<Rightarrow> 'p BrokerPersistence \<Rightarrow> (nat \<Rightarrow> i64) \<Rightarrow> ('p Broker \<Rightarrow> 'p Broker) \<Rightarrow> 'p turn list \<Rightarrow> HeaderMap \<Rightarrow> string \<Rightarrow>
     ('p, DeliveredMessage option) aop" where
  "Api_wait_inbox E P clk others turns headers bytes =
     bindM (lift_res (BoundedJson (env_parse_wait E) bytes)) (\<lambda>timeout_ms.
     if \<not> timeout_ok timeout_ms
     then throw (ApiError_new BAD_REQUEST ''invalid_timeout''
       ''timeout_ms must be omitted or between 1000 and 86400000'')
     else
     bindM (lift_res (registration_credentials E headers)) (\<lambda>c.
     on_broker (wait_next P (env_json_len E) (clk 0) others c (timeout_ms \<noteq> None) turns)))"

definition Api_ack_inbox ::
    "api_env \<Rightarrow> 'p BrokerPersistence \<Rightarrow> (nat \<Rightarrow> i64) \<Rightarrow> HeaderMap \<Rightarrow> string \<Rightarrow> ('p, bool) aop" where
  "Api_ack_inbox E P clk headers bytes =
     bindM (lift_res (BoundedJson (env_parse_ack E) bytes)) (\<lambda>delivery_id.
     bindM (lift_res (registration_credentials E headers)) (\<lambda>c.
     bindM (on_broker (ack_delivery P (env_json_len E) (clk 0) c delivery_id)) (\<lambda>_.
     ret True)))"

definition checked_reply :: "api_env \<Rightarrow> ReplyRequest \<Rightarrow> PathBuf \<Rightarrow> (ApiError, ReplyPayload) res" where
  "checked_reply E request workspace =
     res_bind (convert_err ApiError_from_domain (validate_payload (env_json_len E) (env_canonicalize E)
       \<lparr>mp_text = rq_text request, mp_metadata = rq_metadata request, mp_file_refs = rq_file_refs request\<rparr> workspace)) (\<lambda>validated.
     Ok \<lparr>rp_text = vp_text validated, rp_metadata = vp_metadata validated, rp_file_refs = vp_file_refs validated\<rparr>)"

definition Api_reply_task ::
    "api_env \<Rightarrow> 'p BrokerPersistence \<Rightarrow> 'p api_yields \<Rightarrow> (nat \<Rightarrow> i64) \<Rightarrow> string option \<Rightarrow> HeaderMap \<Rightarrow> string \<Rightarrow> ('p, bool) aop" where
  "Api_reply_task E P ys clk path headers bytes =
     bindM (lift_res (BoundedJson (env_parse_reply E) bytes)) (\<lambda>request.
     bindM (lift_res (path_task_id path)) (\<lambda>task_id.
     bindM (lift_res (registration_credentials E headers)) (\<lambda>c.
     bindM (on_broker (authenticate P (env_json_len E) (clk 0) c)) (\<lambda>registration.
     if rq_file_refs request \<noteq> []
     then throw (ApiError_new BAD_REQUEST ''unsupported_file_references'' UNSUPPORTED_FILE_REFERENCES_MESSAGE)
     else
     bindM (lift_res (checked_reply E request (va_workspace (rg_agent registration)))) (\<lambda>payload.
     bindM (pause ys 0) (\<lambda>_.
     bindM (on_broker (reply P (env_json_len E) (clk 1) c task_id payload)) (\<lambda>_.
     ret True)))))))"

definition Api_cancel_task ::
    "api_env \<Rightarrow> 'p BrokerPersistence \<Rightarrow> (nat \<Rightarrow> i64) \<Rightarrow> string option \<Rightarrow> HeaderMap \<Rightarrow> ('p, bool) aop" where
  "Api_cancel_task E P clk path headers =
     bindM (lift_res (path_task_id path)) (\<lambda>task_id.
     bindM (lift_res (registration_credentials E headers)) (\<lambda>c.
     bindM (on_broker (cancel_task P (env_json_len E) (clk 0) c task_id)) (\<lambda>_.
     ret True)))"

section \<open>Proofs of identity\<close>

text \<open>A nonce is 32 bytes in canonical base64.\<close>

definition decode_nonce :: "api_env \<Rightarrow> string \<Rightarrow> string \<Rightarrow> string \<Rightarrow> (ApiError, string) res" where
  "decode_nonce E code subject nonce =
     res_bind (ok_or (env_decode E nonce)
       (ApiError_new BAD_REQUEST code (subject @ '' nonce must be canonical base64url''))) (\<lambda>nonce_bytes.
     if length nonce_bytes \<noteq> 32 \<or> env_encode E nonce_bytes \<noteq> nonce
     then Err (ApiError_new BAD_REQUEST code (subject @ '' nonce must encode exactly 32 bytes''))
     else Ok nonce_bytes)"

definition proof_of :: "api_env \<Rightarrow> ApiState \<Rightarrow> string \<Rightarrow> string \<Rightarrow> string" where
  "proof_of E st domain rest =
     env_encode E (env_hmac E (st_bearer_token_digest st) (domain @ st_broker_instance_id st @ rest))"

definition health_proof :: "api_env \<Rightarrow> ApiState \<Rightarrow> string \<Rightarrow> (ApiError, response) res" where
  "health_proof E st nonce =
     res_bind (decode_nonce E ''invalid_health_nonce'' ''health'' nonce) (\<lambda>nonce_bytes.
     Ok \<lparr>an_status = OK,
         an_headers = [(HEALTH_PROOF_HEADER, [proof_of E st HEALTH_PROOF_DOMAIN nonce_bytes]),
                       (HEALTH_INSTANCE_HEADER, [st_broker_instance_id st])],
         an_body = Empty\<rparr>)"

definition status_agent :: "api_env \<Rightarrow> ApiState \<Rightarrow> AgentName \<Rightarrow> ('p, StatusAgentResponse) aop" where
  "status_agent E st name =
     bindM (on_identities E (find_by_canonical name)) (\<lambda>found.
     bindM (lift_res (ok_or found
       (unavailable ''identity_unavailable'' ''live status agent has no durable identity''))) (\<lambda>identity.
     if ai_workspace_id identity \<noteq> st_workspace_id st \<or> ai_canonical_name identity \<noteq> name
     then throw (unavailable ''identity_mismatch'' ''live status agent does not match durable identity'')
     else ret \<lparr>sa_role = ai_current_role identity, sa_canonical_name = name, sa_status = ''connected''\<rparr>))"

definition status_directory_from_roster ::
    "api_env \<Rightarrow> 'p api_yields \<Rightarrow> ApiState \<Rightarrow> AgentName list \<Rightarrow> ('p, StatusAgentResponse list) aop" where
  "status_directory_from_roster E ys st roster = lookups (status_agent E st) ys 0 roster"

definition workspace_status_response ::
    "api_env \<Rightarrow> 'p BrokerPersistence \<Rightarrow> 'p api_yields \<Rightarrow> (nat \<Rightarrow> i64) \<Rightarrow> ApiState \<Rightarrow> ('p, WorkspaceStatusResponse) aop" where
  "workspace_status_response E P ys clk st =
     bindM (on_broker (operations_snapshot P (env_json_len E) (clk 0))) (\<lambda>snapshot.
     bindM (status_directory_from_roster E ys st (os_agents snapshot)) (\<lambda>agents.
     ret \<lparr>ws_workspace_id = st_workspace_id st, ws_broker = ''healthy'', ws_storage = ''reconciled'',
          ws_registrations = os_registrations snapshot, ws_agents = agents, ws_tasks = os_tasks snapshot,
          ws_last_event = os_last_event snapshot\<rparr>))"

text \<open>The body of a status answer and the answer that carries it with its proof.\<close>

definition status_body :: "api_env \<Rightarrow> ('p, WorkspaceStatusResponse) aop \<Rightarrow> ('p, StatusCode \<times> string) aop" where
  "status_body E m s =
     (case m s of
        (Ok status, s') \<Rightarrow> (Ok (OK, env_status_json E status), s')
      | (Err e, s') \<Rightarrow> (Ok (ae_status e, env_error_json E e), s')
      | (Panic, s') \<Rightarrow> (Panic, s'))"

definition status_answer :: "api_env \<Rightarrow> ApiState \<Rightarrow> string \<Rightarrow> StatusCode \<Rightarrow> string \<Rightarrow> response" where
  "status_answer E st nonce_bytes status bytes =
     \<lparr>an_status = status,
      an_headers = [(''content-type'', [''application/json'']),
                    (STATUS_PROOF_HEADER, [proof_of E st STATUS_PROOF_DOMAIN (nonce_bytes @ bytes)]),
                    (HEALTH_INSTANCE_HEADER, [st_broker_instance_id st])],
      an_body = Bytes bytes\<rparr>"

definition status_challenge ::
    "api_env \<Rightarrow> 'p BrokerPersistence \<Rightarrow> 'p api_yields \<Rightarrow> (nat \<Rightarrow> i64) \<Rightarrow> ApiState \<Rightarrow> string \<Rightarrow> ('p, response) aop" where
  "status_challenge E P ys clk st nonce =
     bindM (lift_res (decode_nonce E ''invalid_status_nonce'' ''status'' nonce)) (\<lambda>nonce_bytes.
     bindM (status_body E (workspace_status_response E P ys clk st)) (\<lambda>(status, bytes).
     ret (status_answer E st nonce_bytes status bytes)))"

section \<open>The router\<close>

datatype verb = GET | HEAD | POST | OtherVerb

text \<open>
  The segments of a path, each as \<^verbatim>\<open>Path\<close> extracts it, or nothing where it is not a text.  The router takes
  \<^verbatim>\<open>HEAD\<close> for \<^verbatim>\<open>GET\<close> and drops the body of the answer, which is kept here.
\<close>

datatype endpoint =
    HealthProof "string option" | StatusChallenge "string option"
  | Health | RegisterRoute | RenewRoute | UnregisterRoute | AgentsRoute | WaitAgentsRoute
  | ResolveRoute "string option" | WaitInboxRoute | AckRoute | ReplyRoute "string option" | CancelRoute "string option"

fun route :: "string option list \<Rightarrow> endpoint option" where
  "route [a] = (if a = Some ''health'' then Some Health else None)"
| "route [a, b] =
     (if a \<noteq> Some ''v1'' then None
      else if b = Some ''register'' then Some RegisterRoute
      else if b = Some ''renew'' then Some RenewRoute
      else if b = Some ''unregister'' then Some UnregisterRoute
      else if b = Some ''agents'' then Some AgentsRoute else None)"
| "route [a, b, c] =
     (if a = Some ''health'' \<and> b = Some ''proof'' \<and> c \<noteq> Some [] then Some (HealthProof c)
      else if a = Some ''health'' \<and> b = Some ''status'' \<and> c \<noteq> Some [] then Some (StatusChallenge c)
      else if a \<noteq> Some ''v1'' then None
      else if b = Some ''agents'' \<and> c = Some ''wait'' then Some WaitAgentsRoute
      else if b = Some ''inbox'' \<and> c = Some ''wait'' then Some WaitInboxRoute
      else if b = Some ''inbox'' \<and> c = Some ''ack'' then Some AckRoute else None)"
| "route [a, b, c, d] =
     (if a \<noteq> Some ''v1'' then None
      else if b = Some ''agents'' \<and> c = Some ''resolve'' \<and> d \<noteq> Some [] then Some (ResolveRoute d)
      else if b = Some ''tasks'' \<and> c \<noteq> Some [] \<and> d = Some ''reply'' then Some (ReplyRoute c)
      else if b = Some ''tasks'' \<and> c \<noteq> Some [] \<and> d = Some ''cancel'' then Some (CancelRoute c) else None)"
| "route _ = None"

fun allows :: "endpoint \<Rightarrow> verb \<Rightarrow> bool" where
  "allows (HealthProof _) m \<longleftrightarrow> m = GET \<or> m = HEAD"
| "allows (StatusChallenge _) m \<longleftrightarrow> m = GET \<or> m = HEAD"
| "allows Health m \<longleftrightarrow> m = GET \<or> m = HEAD"
| "allows (ResolveRoute _) m \<longleftrightarrow> m = GET \<or> m = HEAD"
| "allows AgentsRoute m \<longleftrightarrow> m = GET \<or> m = HEAD \<or> m = POST"
| "allows _ m \<longleftrightarrow> m = POST"

fun open_endpoint :: "endpoint \<Rightarrow> bool" where
  "open_endpoint (HealthProof _) = True"
| "open_endpoint (StatusChallenge _) = True"
| "open_endpoint _ = False"

record http_request =
  hq_verb :: verb
  hq_path :: "string option list"
  hq_headers :: HeaderMap
  hq_body :: string

text \<open>
  What the rest of the system does during one request, and the identifier it draws: at its points of
  suspension, after \<^verbatim>\<open>begin_wait\<close> and during a wait for a delivery, and during a wait for agents.
\<close>

record 'p ambience =
  am_yields :: "'p api_yields"
  am_clock :: "nat \<Rightarrow> i64"
  am_fresh :: RegistrationId
  am_others :: "'p Broker \<Rightarrow> 'p Broker"
  am_turns :: "'p turn list"
  am_agent_turns :: "'p turn list"

definition answered :: "('a \<Rightarrow> body) \<Rightarrow> ('p, 'a) aop \<Rightarrow> ('p, response option) aop" where
  "answered f m = bindM m (\<lambda>a. ret (Some (Json (f a))))"

definition answered_opt :: "('a \<Rightarrow> body) \<Rightarrow> ('p, 'a option) aop \<Rightarrow> ('p, response option) aop" where
  "answered_opt f m = bindM m (\<lambda>a. ret (map_option (Json \<circ> f) a))"

text \<open>The rejection of a path that is no text is the framework's: a status without a body of ours.\<close>

definition extracted :: "string option \<Rightarrow> (string \<Rightarrow> ('p, response option) aop) \<Rightarrow> ('p, response option) aop" where
  "extracted path f =
     (case path of
        None \<Rightarrow> ret (Some \<lparr>an_status = BAD_REQUEST, an_headers = [], an_body = Empty\<rparr>)
      | Some text \<Rightarrow> f text)"

fun handle ::
    "api_env \<Rightarrow> 'p BrokerPersistence \<Rightarrow> ApiState \<Rightarrow> 'p ambience \<Rightarrow> http_request \<Rightarrow> endpoint \<Rightarrow> ('p, response option) aop" where
  "handle E P st a q (HealthProof n) =
     extracted n (\<lambda>nonce. bindM (lift_res (health_proof E st nonce)) (\<lambda>r. ret (Some r)))"
| "handle E P st a q (StatusChallenge n) =
     extracted n (\<lambda>nonce. bindM (status_challenge E P (am_yields a) (am_clock a) st nonce) (\<lambda>r. ret (Some r)))"
| "handle E P st a q Health = ret (Some (Json (HealthBody ''ok'')))"
| "handle E P st a q RegisterRoute =
     answered RegistrationBody (Api_register E P (am_yields a) (am_clock a) (am_fresh a) st (hq_body q))"
| "handle E P st a q RenewRoute =
     answered RegistrationBody (Api_renew E P (am_yields a) (am_clock a) st (hq_headers q))"
| "handle E P st a q UnregisterRoute = answered OkBody (Api_unregister E P (am_clock a) (hq_headers q))"
| "handle E P st a q AgentsRoute = answered AgentListBody (live_directory E P (am_yields a) (am_clock a) st)"
| "handle E P st a q WaitAgentsRoute =
     answered_opt (\<lambda>(g, agents). WaitAgentsBody g agents)
       (Api_wait_agents E P (am_yields a) (am_agent_turns a) st (hq_body q))"
| "handle E P st a q (ResolveRoute t) =
     extracted t (\<lambda>target. answered ResolveBody (Api_resolve_agent E P (am_yields a) (am_clock a) st target))"
| "handle E P st a q WaitInboxRoute =
     answered_opt DeliveryBody (Api_wait_inbox E P (am_clock a) (am_others a) (am_turns a) (hq_headers q) (hq_body q))"
| "handle E P st a q AckRoute = answered OkBody (Api_ack_inbox E P (am_clock a) (hq_headers q) (hq_body q))"
| "handle E P st a q (ReplyRoute t) =
     answered OkBody (Api_reply_task E P (am_yields a) (am_clock a) t (hq_headers q) (hq_body q))"
| "handle E P st a q (CancelRoute t) = answered OkBody (Api_cancel_task E P (am_clock a) t (hq_headers q))"

text \<open>An error of a handler is its answer.\<close>

definition into_answer :: "('p, response option) aop \<Rightarrow> ('p, response option) aop" where
  "into_answer m s =
     (case m s of
        (Ok r, s') \<Rightarrow> (Ok r, s')
      | (Err e, s') \<Rightarrow> (Ok (Some (into_response e)), s')
      | (Panic, s') \<Rightarrow> (Panic, s'))"

definition not_found :: ApiError where
  "not_found = ApiError_new NOT_FOUND ''not_found'' ''endpoint not found''"

definition method_not_allowed :: ApiError where
  "method_not_allowed = ApiError_new METHOD_NOT_ALLOWED ''method_not_allowed'' ''method not allowed for this endpoint''"

definition private_router ::
    "api_env \<Rightarrow> 'p BrokerPersistence \<Rightarrow> ApiState \<Rightarrow> 'p ambience \<Rightarrow> http_request \<Rightarrow> ('p, response option) aop" where
  "private_router E P st a q =
     (case route (hq_path q) of
        None \<Rightarrow> require_bearer E st (hq_headers q) (ret (Some (into_response not_found)))
      | Some e \<Rightarrow>
          if open_endpoint e
          then (if allows e (hq_verb q) then into_answer (handle E P st a q e)
                else ret (Some \<lparr>an_status = METHOD_NOT_ALLOWED, an_headers = [], an_body = Empty\<rparr>))
          else require_bearer E st (hq_headers q)
            (if allows e (hq_verb q) then into_answer (handle E P st a q e)
             else ret (Some (into_response method_not_allowed))))"

end
