(* ===== verification/Broker_Agents.thy ===== *)
theory Broker_Agents
  imports Broker_Epochs
begin

text \<open>
  Which agents the broker of \<^verbatim>\<open>herdr-a2a-core/src/broker.rs\<close> has registrations of: \<^verbatim>\<open>register\<close> adds the one
  it is given, and no other operation adds any or changes an agent or a session of one.
\<close>

section \<open>The agents of the registrations\<close>

definition enrolment :: "RegistrationState \<Rightarrow> VerifiedAgent \<times> string" where
  "enrolment r = (rg_agent (rs_registration r), rg_harness_session_id (rs_registration r))"

definition roster :: "(RegistrationId, RegistrationState) hash_map \<Rightarrow> (VerifiedAgent \<times> string) set" where
  "roster m = enrolment ` snd ` set m"

abbreviation enrolled :: "State \<Rightarrow> (VerifiedAgent \<times> string) set" where
  "enrolled s \<equiv> roster (s_registrations s)"

definition joins :: "(VerifiedAgent \<times> string) set \<Rightarrow> State \<Rightarrow> State \<Rightarrow> bool" where
  "joins X s s' \<longleftrightarrow> enrolled s' \<subseteq> enrolled s \<union> X"

definition enrols :: "(VerifiedAgent \<times> string) set \<Rightarrow> 'p Broker \<Rightarrow> 'p Broker \<Rightarrow> bool" where
  "enrols X w w' \<longleftrightarrow> joins X (b_state w) (b_state w')"

lemma joins_order [simp]: "reflp (joins X)" "transp (joins X)" "reflp (enrols X)" "transp (enrols X)"
  by (auto simp: joins_def enrols_def reflp_def transp_def)

text \<open>Changes of inboxes, waits and expiries, and of the table itself.\<close>

lemma roster_modify:
  assumes "\<And>r. enrolment (f r) = enrolment r"
  shows "roster (hm_modify i f m) = roster m" "roster (hm_map_values f m) = roster m"
proof -
  have map: "roster (map g m) = roster m" if "\<And>x. enrolment (snd (g x)) = enrolment (snd x)" for g
    using that by (simp add: roster_def image_image)
  show "roster (hm_modify i f m) = roster m" "roster (hm_map_values f m) = roster m"
    unfolding hm_modify_def hm_map_values_def by (rule map; simp add: assms split: prod.split)+
qed

lemma enrolment_updates [simp]:
  "enrolment (r\<lparr>rs_inbox := q\<rparr>) = enrolment r" "enrolment (r\<lparr>rs_wait_active := b\<rparr>) = enrolment r"
  "enrolment (push_inbox k r) = enrolment r"
  "enrolment (r\<lparr>rs_registration := (rs_registration r)\<lparr>rg_expires_unix_ms := e\<rparr>\<rparr>) = enrolment r"
  by (simp_all add: enrolment_def push_inbox_def)

lemmas roster_kept [simp] =
  roster_modify [of "\<lambda>r. r\<lparr>rs_inbox := q r\<rparr>" for q, OF enrolment_updates(1)]
  roster_modify [of "\<lambda>r. r\<lparr>rs_wait_active := b\<rparr>" for b, OF enrolment_updates(2)]
  roster_modify [of "push_inbox k" for k, OF enrolment_updates(3)]
  roster_modify [of "\<lambda>r. r\<lparr>rs_registration := (rs_registration r)\<lparr>rg_expires_unix_ms := e\<rparr>\<rparr>" for e, OF enrolment_updates(4)]

lemma roster_insert: "roster (hm_insert i r m) \<subseteq> insert (enrolment r) (roster m)"
  by (induction m) (auto simp: roster_def)

lemma roster_remove: "roster (hm_remove i m) \<subseteq> roster m"
  by (auto simp: roster_def AList.delete_eq)

lemma roster_get: "hm_get m i = Some r \<Longrightarrow> enrolment r \<in> roster m"
  by (force simp: roster_def dest: map_of_SomeD)

section \<open>Changes of the state\<close>

lemma enrolled_updates [simp]:
  "enrolled (remove_from_inbox a k s) = enrolled s"
  "enrolled (index_task a a' k s) = enrolled s"
  "enrolled (record_status_event kind a now s) = enrolled s"
  "enrolled (retire_registration_id i s) = enrolled s"
  "enrolled (insert_enqueued n dl a q now s) = enrolled s"
  "enrolled (prune_delivery_deadlines now s) = enrolled s"
  "enrolled (rebind_leases now s) = enrolled s"
  "enrolled (clear_for_reconciliation e s) = enrolled s"
  by (auto simp: remove_from_inbox_def index_task_def record_status_event_def retire_registration_id_def
      insert_enqueued_def prune_delivery_deadlines_def rebind_leases_def clear_for_reconciliation_def
      Let_def split: option.split prod.split)

lemma enrolled_detach: "enrolled (snd (detach_registration i b s)) \<subseteq> enrolled s"
  using roster_remove by (auto simp: detach_registration_def Let_def split: option.split)

lemma enrolled_lists [simp]:
  "enrolled (snd (reattach_waiters ws s)) = enrolled s"
  "enrolled (snd (push_inbox_entries es s)) = enrolled s"
proof -
  show "enrolled (snd (reattach_waiters ws s)) = enrolled s"
    by (induction ws s rule: reattach_waiters.induct) (auto split: option.split prod.split)
  show "enrolled (snd (push_inbox_entries es s)) = enrolled s"
    by (induction es s rule: push_inbox_entries.induct) (auto split: option.split prod.split)
qed

lemma enrolled_detach_expired: "enrolled (snd (detach_expired is s)) \<subseteq> enrolled s"
proof (induction "is" arbitrary: s)
  case (Cons i "is")
  obtain r s1 where d: "detach_registration i True s = (r, s1)" by fastforce
  with enrolled_detach [of i True s] Cons [of s1] show ?case by (auto split: prod.split)
qed simp

lemma joins_ops [moves_intros]:
  "moves (joins X) (terminalize_task k now ts)"
  "moves (joins X) (bump_requeued_versions_for_credentials c)"
  "moves (joins X) (restore_next d)"
  "moves (joins X) (apply_lease k l old)"
  "moves (joins X) (apply_ack k now i)"
  by (auto simp: moves_def joins_def terminalize_task_def bump_requeued_versions_for_credentials_def
      restore_next_def restore_task_def apply_lease_def apply_ack_def Let_def split: option.split res.split)

lemma joins_pairs [moves_intros]:
  "moves (joins X) (\<lambda>s. case detach_registration i b s of (r, s') \<Rightarrow> (Ok r, s'))"
  "moves (joins X) (\<lambda>s. case detach_expired is s of (ns, s') \<Rightarrow> (Ok ns, s'))"
  "moves (joins X) (\<lambda>s. case reattach_waiters ws s of (rs, s') \<Rightarrow> (Ok rs, s'))"
  "moves (joins X) (\<lambda>s. case push_inbox_entries (f s) s of (ns, s') \<Rightarrow> (Ok ns, s'))"
  using enrolled_detach enrolled_detach_expired by (auto simp: moves_def joins_def case_prod_beta) blast+

lemma joins_expire [moves_intros]: "moves (joins X) (expire_tasks now ks)"
  by (induction ks) (auto intro!: moves_intros)

lemma joins_replace [moves_intros]: "moves (joins X) (replace_registration old)"
  unfolding replace_registration_def by (intro moves_intros) simp_all

section \<open>Operations\<close>

lemma enrols_in_state [moves_intros]: "moves (joins X) f \<Longrightarrow> moves (enrols X) (in_state f)"
  unfolding moves_def enrols_def in_state_def by (auto split: prod.split) (metis snd_conv)

lemma enrols_modify_state [moves_intros]:
  "(\<And>s. enrolled (f s) \<subseteq> enrolled s \<union> X) \<Longrightarrow> moves (enrols X) (modify_state f)"
  by (auto simp: moves_def enrols_def joins_def modify_state_def modify_def)

lemma enrols_modify [moves_intros]:
  "(\<And>w. enrolled (b_state (f w)) \<subseteq> enrolled (b_state w) \<union> X) \<Longrightarrow> moves (enrols X) (modify f)"
  by (auto simp: moves_def enrols_def joins_def modify_def)

lemma enrols_emit [moves_intros]:
  "moves (enrols X) (emit fx)" "moves (enrols X) DirectoryChanges_record" "moves (enrols X) (resolve_reply_waiters rs)"
  by (auto simp: moves_def enrols_def joins_def emit_def DirectoryChanges_record_def resolve_reply_waiters_def modify_def)

lemma enrols_persistence [moves_intros]:
  "moves (enrols X) (persistence_commit P b)" "moves (enrols X) (persistence_load P now)"
  by (auto simp: moves_def enrols_def joins_def persistence_commit_def persistence_load_def split: prod.split)

lemma enrols_commits [moves_intros]: "moves (enrols X) (commit_transition P b)" "moves (enrols X) (commit_recovery P b)"
  unfolding commit_transition_def commit_recovery_def by (intro moves_intros; simp)+

lemma enrols_reconcile [moves_intros]: "moves (enrols X) (reconcile_state_if_required P json_len now)"
  unfolding reconcile_state_if_required_def rebuild_state_def by (intro moves_intros; simp)

lemma enrols_maintain [moves_intros]: "moves (enrols X) (maintain_state P json_len now)"
  unfolding maintain_state_def apply_maintenance_def by (intro moves_intros; simp)

lemma enrols_validated [moves_intros]:
  "moves (enrols X) (validate_registration_and_maintain P json_len c now)" "moves (enrols X) (own_registration c)"
  unfolding validate_registration_and_maintain_def own_registration_def by (intro moves_intros; simp)+

lemma enrols_list_agents [moves_intros]: "moves (enrols X) (list_agents P json_len now)"
  using enrols_maintain [of X P json_len now] unfolding moves_def list_agents_def
  by (auto split: prod.split res.split) (metis snd_conv)+

lemma enrols_settle [moves_intros]: "moves (enrols X) (commit_terminal P now k t st rep ts result)"
  unfolding commit_terminal_def by (intro moves_intros; simp)

lemma enrols_removal [moves_intros]: "moves (enrols X) (apply_removal c)"
  unfolding apply_removal_def by (intro moves_intros; simp)

lemma enrols_reading [moves_intros]:
  "moves (enrols X) (authenticate P json_len now c)" "moves (enrols X) (operations_snapshot P json_len now)"
  "moves (enrols X) (directory_snapshot P json_len now panes)"
  unfolding authenticate_def operations_snapshot_def directory_snapshot_def by (intro moves_intros; simp)+

lemma enrols_changing [moves_intros]:
  "moves (enrols X) (renew P json_len now c)" "moves (enrols X) (remove_registration P json_len now c)"
  "moves (enrols X) (begin_wait P json_len now c)" "moves (enrols X) (poll_delivery P json_len now d c)"
  "moves (enrols X) (ack_delivery P json_len now c d)" "moves (enrols X) (reply P json_len now c k payload)"
  "moves (enrols X) (cancel_task P json_len now c k)"
  unfolding renew_def remove_registration_def begin_wait_def poll_delivery_def ack_delivery_def reply_def cancel_task_def
  by (intro moves_intros; simp)+

text \<open>A registration is one of the agent and the session it was asked for.\<close>

lemma enrols_register: "moves (enrols {(agent, session)}) (register P json_len now i agent session)"
proof -
  have applied: "moves (enrols {(agent, session)}) (apply_registration now g old)"
    if "rg_agent g = agent" "rg_harness_session_id g = session" for g old
  proof -
    have "enrolled (s\<lparr>s_registrations_by_agent := m, s_registrations := hm_insert j
        \<lparr>rs_registration = g, rs_inbox = q, rs_wait_active = False\<rparr> (s_registrations s)\<rparr>) \<subseteq> enrolled s \<union> {(agent, session)}"
      for s :: State and m j q
      using roster_insert [of j "\<lparr>rs_registration = g, rs_inbox = q, rs_wait_active = False\<rparr>" "s_registrations s"] that
      by (auto simp: enrolment_def)
    then show ?thesis unfolding apply_registration_def Let_def by (intro moves_intros) auto
  qed
  show ?thesis unfolding register_def Let_def by (intro moves_intros applied; simp)
qed

end
