(* ===== verification/Api_Correct.thy ===== *)
theory Api_Correct
  imports Api Broker_Agents
begin

text \<open>
  The private interface over the broker and the identity store: every registration has a durable identity,
  whatever the requests and their interleaving, so that the directory is complete.
\<close>

section \<open>Operations on a part of the state\<close>

lemma wp_on_broker [simp]:
  "wp (on_broker m) X Q s =
     wp m (\<lambda>e b. X (ApiError_from_domain e) (s\<lparr>ap_broker := b\<rparr>)) (\<lambda>a b. Q a (s\<lparr>ap_broker := b\<rparr>)) (ap_broker s)"
  by (simp add: wp_def on_broker_def split: prod.split res.split)

lemma wp_on_identities [simp]:
  "wp (on_identities E m) X Q s =
     wp m (\<lambda>e d. X (ApiError_from_identity (env_sqlite E) e) (s\<lparr>ap_identities := d\<rparr>))
       (\<lambda>a d. Q a (s\<lparr>ap_identities := d\<rparr>)) (ap_identities s)"
  by (simp add: wp_def on_identities_def split: prod.split res.split)

lemma wp_pause [simp]: "wp (pause ys k) X Q s = Q () (ys k s)"
  by (simp add: pause_def)

lemma api_res_total [simp]:
  "BoundedJson parse bytes \<noteq> Panic" "registration_credentials E headers \<noteq> Panic" "path_task_id path \<noteq> Panic"
  "resolve_target target directory \<noteq> Panic" "decode_nonce E code subject nonce \<noteq> Panic"
  by (auto simp: BoundedJson_def registration_credentials_def path_task_id_def resolve_target_def decode_nonce_def
      res_bind_eq_Panic RegistrationId_parse_def parse_uuid_v7_def validate_task_id_def Let_def
      split: option.splits list.splits)

section \<open>The invariant\<close>

text \<open>The agents and sessions that have a row of the workspace, and the invariant of the interface.\<close>

definition identified :: "string \<Rightarrow> IdentityRow list \<Rightarrow> (VerifiedAgent \<times> string) set" where
  "identified W rows = {(a, sid). \<exists>row \<in> set rows. ir_workspace_id row = W \<and> ir_pane_id row = va_pane_id a
     \<and> ir_harness row = va_harness a \<and> ir_harness_session_id row = sid \<and> ir_canonical_name row = va_name a}"

abbreviation known :: "string \<Rightarrow> 'p Api \<Rightarrow> (VerifiedAgent \<times> string) set" where
  "known W s \<equiv> identified W (id_rows (ap_identities s))"

definition api_ok :: "('p \<Rightarrow> task_table \<Rightarrow> bool) \<Rightarrow> string \<Rightarrow> i64 \<Rightarrow> 'p Api \<Rightarrow> bool" where
  "api_ok holds W now s \<longleftrightarrow> binv holds now (ap_broker s) \<and> identities_ok (id_rows (ap_identities s))
     \<and> enrolled (b_state (ap_broker s)) \<subseteq> known W s"

text \<open>What a step leaves: the invariant, and no identity forgotten.\<close>

definition leaves :: "('p \<Rightarrow> task_table \<Rightarrow> bool) \<Rightarrow> string \<Rightarrow> i64 \<Rightarrow> 'p Api \<Rightarrow> 'p Api \<Rightarrow> bool" where
  "leaves holds W now s s' \<longleftrightarrow> api_ok holds W now s' \<and> known W s \<subseteq> known W s'"

lemma api_ok_mono: "api_ok holds W now s \<Longrightarrow> now \<le> later \<Longrightarrow> api_ok holds W later s"
  using binv_mono by (auto simp: api_ok_def)

lemma leaves_mono: "leaves holds W now s s' \<Longrightarrow> now \<le> later \<Longrightarrow> leaves holds W later s s'"
  using api_ok_mono by (auto simp: leaves_def)

lemma leaves_refl: "api_ok holds W now s \<Longrightarrow> leaves holds W now s s"
  by (simp add: leaves_def)

lemma leaves_trans: "leaves holds W now s s1 \<Longrightarrow> leaves holds W later s1 s2 \<Longrightarrow> leaves holds W later s s2"
  by (auto simp: leaves_def)

text \<open>
  What a request relies on at its points of suspension; \<open>fin\<close> is a reading of the clock at or after all of
  its own.
\<close>

definition considerate :: "('p \<Rightarrow> task_table \<Rightarrow> bool) \<Rightarrow> string \<Rightarrow> (nat \<Rightarrow> i64) \<Rightarrow> i64 \<Rightarrow> 'p api_yields \<Rightarrow> bool" where
  "considerate holds W clk fin ys \<longleftrightarrow> (\<forall>k. clk k \<le> fin)
     \<and> (\<forall>k s. api_ok holds W (clk k) s \<longrightarrow> leaves holds W (clk (Suc k)) s (ys k s))"

lemma considerate_step:
  "considerate holds W clk fin ys \<Longrightarrow> leaves holds W (clk k) s s1 \<Longrightarrow> leaves holds W (clk (Suc k)) s (ys k s1)"
  unfolding considerate_def using leaves_trans by (metis leaves_def)

definition timely :: "(nat \<Rightarrow> i64) \<Rightarrow> i64 \<Rightarrow> bool" where
  "timely clk fin \<longleftrightarrow> (\<forall>k. clk k \<le> fin)"

lemma considerate_timely: "considerate holds W clk fin ys \<Longrightarrow> timely clk fin"
  by (simp add: considerate_def timely_def)

lemma timely_fin: "timely clk fin \<Longrightarrow> leaves holds W (clk k) s s1 \<Longrightarrow> leaves holds W fin s s1"
  unfolding timely_def using leaves_mono by metis

lemmas considerate_fin = timely_fin [OF considerate_timely]

section \<open>Sections of the broker\<close>

lemma wp_moves: "wp m X Q s \<Longrightarrow> moves R m \<Longrightarrow> wp m (\<lambda>e s'. X e s' \<and> R s s') (\<lambda>a s'. Q a s' \<and> R s s') s"
  by (auto simp: wp_def moves_def split: prod.splits res.splits) (metis snd_conv)+

lemma enrols_leaves:
  assumes "leaves holds W now s s1" "binv holds later b" "enrols X (ap_broker s1) b" "X \<subseteq> known W s1"
  shows "leaves holds W later s (s1\<lparr>ap_broker := b\<rparr>)"
  using assms by (auto simp: leaves_def api_ok_def enrols_def joins_def)

text \<open>A section that keeps the broker's invariant and enrols nobody without an identity.\<close>

lemma broker_rule:
  assumes lv: "leaves holds W now s s1" and later: "now \<le> later"
    and wp: "binv holds later (ap_broker s1) \<Longrightarrow> wp m (\<lambda>e b. binv holds later b \<and> S e) (\<lambda>a b. binv holds later b \<and> R a b) (ap_broker s1)"
    and moves: "moves (enrols X) m" "X \<subseteq> known W s1"
    and post: "\<And>a b. leaves holds W later s (s1\<lparr>ap_broker := b\<rparr>) \<Longrightarrow> enrols X (ap_broker s1) b \<Longrightarrow> R a b \<Longrightarrow> Q a (s1\<lparr>ap_broker := b\<rparr>)"
    and err: "\<And>e s'. leaves holds W later s s' \<Longrightarrow> S e \<Longrightarrow> F (ApiError_from_domain e) s'"
  shows "wp (on_broker m) F Q s1"
proof -
  have "binv holds later (ap_broker s1)" using lv later by (auto simp: leaves_def api_ok_def intro: binv_mono)
  from wp_moves [OF wp [OF this] moves(1)] show ?thesis
    unfolding wp_on_broker
    by (rule wp_conseq) (use enrols_leaves [OF lv] moves(2) post err in blast)+
qed

lemma sound_binv:
  assumes "sound_op holds now w m"
  shows "wp m (\<lambda>e b. binv holds now b \<and> True) (\<lambda>a b. binv holds now b \<and> True) w"
  using assms unfolding sound_op_def by (rule wp_conseq) (simp_all add: sound_world_def)

section \<open>Sections of the identity store\<close>

lemma identified_mono:
  assumes "resolved pane sid rows identity rows'"
  shows "identified W rows \<subseteq> identified W rows'"
proof -
  let ?f = "\<lambda>row. if row_of_pane pane sid row then row\<lparr>ir_current_role := vpane_role pane\<rparr> else row"
  obtain row where "rows' = map ?f rows \<or> rows' = rows @ [row]"
    using assms by (auto simp: resolved_def set_current_role_def split: if_splits)
  moreover have "identified W (map g rows) = identified W rows"
    if "\<And>r. ir_workspace_id (g r) = ir_workspace_id r" "\<And>r. ir_pane_id (g r) = ir_pane_id r"
      "\<And>r. ir_harness (g r) = ir_harness r" "\<And>r. ir_harness_session_id (g r) = ir_harness_session_id r"
      "\<And>r. ir_canonical_name (g r) = ir_canonical_name r" for g
    using that by (simp add: identified_def)
  from this [of ?f] have "identified W (map ?f rows) = identified W rows" by simp
  moreover have "identified W rows \<subseteq> identified W (rows @ [row])" by (auto simp: identified_def)
  ultimately show ?thesis by auto
qed

lemma resolved_identified:
  assumes "resolved pane sid rows identity rows'" "vpane_workspace_id pane = W"
    "va_name agent = ai_canonical_name identity" "va_pane_id agent = vpane_pane_id pane" "va_harness agent = vpane_harness pane"
  shows "(agent, sid) \<in> identified W rows'"
  using assms by (auto simp: resolved_def row_of_pane_def identified_def)

lemma resolve_section:
  assumes lv: "leaves holds W now s s1" and role: "RoleLabel_parse (vpane_role pane) = Ok (vpane_role pane)"
    and post: "\<And>identity s2. leaves holds W now s s2 \<Longrightarrow>
      resolved pane sid (id_rows (ap_identities s1)) identity (id_rows (ap_identities s2)) \<Longrightarrow>
      ap_broker s2 = ap_broker s1 \<Longrightarrow> Q identity s2"
    and err: "\<And>e s'. leaves holds W now s s' \<Longrightarrow> F e s'"
  shows "wp (on_identities E (resolve_or_create expected pane sid)) F Q s1"
proof -
  have ok: "identities_ok (id_rows (ap_identities s1))" using lv by (simp add: leaves_def api_ok_def)
  show ?thesis
    unfolding wp_on_identities
  proof (rule wp_conseq [OF resolve_rule [OF ok role]], goal_cases)
    case (1 identity d)
    then show ?case using lv identified_mono [of pane sid "id_rows (ap_identities s1)" identity "id_rows d" W]
      by (intro post) (auto simp: leaves_def api_ok_def)
  next
    case (2 e d)
    then show ?case using lv by (intro err) (simp add: leaves_def api_ok_def)
  qed
qed

text \<open>A row that is in the table is found by its name, unless the database fails.\<close>

lemma found_identity:
  assumes ok: "identities_ok (id_rows d)" and row: "row \<in> set (id_rows d)"
  shows "\<exists>identity. (\<forall>F Q. wp (find_by_canonical (ir_canonical_name row)) F Q d =
      (if next_fault d then F IdSqlite (id_tick d) else Q (Some identity) (id_tick d)))
    \<and> ai_canonical_name identity = ir_canonical_name row \<and> ai_workspace_id identity = ir_workspace_id row
    \<and> ai_pane_id identity = ir_pane_id row \<and> ai_harness identity = ir_harness row
    \<and> ai_current_role identity = ir_current_role row"
proof -
  let ?name = "ir_canonical_name row"
  obtain found where found: "find (\<lambda>r. ir_canonical_name r = ?name) (id_rows d) = Some found"
    using row by (cases "find (\<lambda>r. ir_canonical_name r = ?name) (id_rows d)") (auto simp: find_None_iff)
  then have "found \<in> set (id_rows d)" "ir_canonical_name found = ?name" by (auto simp: find_Some_iff)
  then have [simp]: "found = row" using ok row unfolding identities_ok_def distinct_map inj_on_def by metis
  obtain role where role: "RoleLabel_parse (ir_current_role row) = Ok role"
    using ok row by (auto simp: identities_ok_def validate_row_def res_bind_eq_Ok)
  then have "role = ir_current_role row" by (rule RoleLabel_parse_Ok)
  with role found show ?thesis
    by (intro exI conjI) (auto simp: find_by_canonical_def identity_of_row_def)
qed

section \<open>The directory\<close>

text \<open>What the directory says of a registration, and the status of its agent.\<close>

definition listed :: "Registration \<Rightarrow> AgentResponse \<Rightarrow> bool" where
  "listed reg r \<longleftrightarrow> ar_canonical_name r = va_name (rg_agent reg) \<and> ar_pane_id r = va_pane_id (rg_agent reg)
     \<and> ar_harness r = va_harness (rg_agent reg) \<and> ar_status r = ''live''"

definition identity_failure :: "api_env \<Rightarrow> ApiError" where
  "identity_failure E = ApiError_from_identity (env_sqlite E) IdSqlite"

lemma tick_leaves: "leaves holds W now s s1 \<Longrightarrow> leaves holds W now s (s1\<lparr>ap_identities := id_tick (ap_identities s1)\<rparr>)"
  by (simp add: leaves_def api_ok_def)

lemma known_row:
  assumes "leaves holds W now s s1" "(a, sid) \<in> known W s"
  obtains row where "row \<in> set (id_rows (ap_identities s1))" "ir_workspace_id row = W" "ir_pane_id row = va_pane_id a"
    "ir_harness row = va_harness a" "ir_canonical_name row = va_name a"
proof -
  have "(a, sid) \<in> known W s1" using assms by (auto simp: leaves_def)
  with that show thesis unfolding identified_def by blast
qed

lemma directory_agent_rule:
  assumes lv: "leaves holds (st_workspace_id st) now s s1"
    and known: "(rg_agent reg, rg_harness_session_id reg) \<in> known (st_workspace_id st) s"
  shows "wp (directory_agent E st reg) (\<lambda>e s2. e = identity_failure E \<and> leaves holds (st_workspace_id st) now s s2)
    (\<lambda>r s2. leaves holds (st_workspace_id st) now s s2 \<and> listed reg r) s1"
proof -
  have ok: "identities_ok (id_rows (ap_identities s1))" using lv by (simp add: leaves_def api_ok_def)
  obtain row where row: "row \<in> set (id_rows (ap_identities s1))" "ir_workspace_id row = st_workspace_id st"
    "ir_pane_id row = va_pane_id (rg_agent reg)" "ir_harness row = va_harness (rg_agent reg)"
    "ir_canonical_name row = va_name (rg_agent reg)"
    by (rule known_row [OF lv known])
  obtain identity where identity: "\<And>F Q. wp (find_by_canonical (va_name (rg_agent reg))) F Q (ap_identities s1) =
      (if next_fault (ap_identities s1) then F IdSqlite (id_tick (ap_identities s1)) else Q (Some identity) (id_tick (ap_identities s1)))"
    "ai_canonical_name identity = va_name (rg_agent reg)" "ai_workspace_id identity = st_workspace_id st"
    "ai_pane_id identity = va_pane_id (rg_agent reg)" "ai_harness identity = va_harness (rg_agent reg)"
    using found_identity [OF ok row(1)] row(2-5) by auto
  show ?thesis
    using tick_leaves [OF lv] identity(2-5)
    by (simp add: directory_agent_def identity(1) identity_failure_def listed_def)
qed

lemma status_agent_rule:
  assumes lv: "leaves holds (st_workspace_id st) now s s1" and known: "(a, sid) \<in> known (st_workspace_id st) s"
  shows "wp (status_agent E st (va_name a)) (\<lambda>e s2. e = identity_failure E \<and> leaves holds (st_workspace_id st) now s s2)
    (\<lambda>r s2. leaves holds (st_workspace_id st) now s s2 \<and> sa_canonical_name r = va_name a) s1"
proof -
  have ok: "identities_ok (id_rows (ap_identities s1))" using lv by (simp add: leaves_def api_ok_def)
  obtain row where row: "row \<in> set (id_rows (ap_identities s1))" "ir_workspace_id row = st_workspace_id st"
    "ir_canonical_name row = va_name a"
    by (rule known_row [OF lv known])
  obtain identity where identity: "\<And>F Q. wp (find_by_canonical (va_name a)) F Q (ap_identities s1) =
      (if next_fault (ap_identities s1) then F IdSqlite (id_tick (ap_identities s1)) else Q (Some identity) (id_tick (ap_identities s1)))"
    "ai_canonical_name identity = va_name a" "ai_workspace_id identity = st_workspace_id st"
    using found_identity [OF ok row(1)] row(2-3) by auto
  show ?thesis
    using tick_leaves [OF lv] identity(2-3)
    by (simp add: status_agent_def identity(1) identity_failure_def)
qed

text \<open>A loop of lookups, of things that were known when it started.\<close>

lemma lookups_rule:
  assumes rely: "considerate holds W clk fin ys"
    and step: "\<And>now s1 x. x \<in> set xs \<Longrightarrow> leaves holds W now s s1 \<Longrightarrow>
      wp (f x) (\<lambda>e s2. e = e0 \<and> leaves holds W now s s2) (\<lambda>y s2. leaves holds W now s s2 \<and> L x y) s1"
  shows "leaves holds W (clk k) s s1 \<Longrightarrow> wp (lookups f ys k xs) (\<lambda>e s2. e = e0 \<and> leaves holds W fin s s2)
    (\<lambda>zs s2. leaves holds W fin s s2 \<and> list_all2 L xs zs) s1"
  using step
proof (induction xs arbitrary: k s1)
  case Nil
  then show ?case using considerate_fin [OF rely] by simp
next
  case (Cons x xs)
  note after_pause = considerate_step [OF rely Cons.prems(1)]
  have "wp (f x) (\<lambda>e s2. e = e0 \<and> leaves holds W (clk (Suc k)) s s2)
      (\<lambda>y s2. leaves holds W (clk (Suc k)) s s2 \<and> L x y) (ys k s1)"
    by (rule Cons.prems(2)) (simp, rule after_pause)
  then show ?case
    unfolding lookups.simps wp_bindM wp_pause
  proof (rule wp_conseq, goal_cases)
    case (1 y s2)
    have "wp (lookups f ys (Suc k) xs) (\<lambda>e s2. e = e0 \<and> leaves holds W fin s s2)
      (\<lambda>zs s2. leaves holds W fin s s2 \<and> list_all2 L xs zs) s2"
      by (rule Cons.IH) (use 1 Cons.prems(2) in auto)
    then show ?case by (rule wp_conseq) (use 1 in auto)
  qed (use considerate_fin [OF rely] in blast)
qed

lemma live_registrations_enrolled:
  "reg \<in> set (live_registrations now s) \<Longrightarrow> (rg_agent reg, rg_harness_session_id reg) \<in> enrolled s"
  by (auto simp: live_registrations_def roster_def enrolment_def image_image)

lemma live_registrations_sorted: "sorted (map (\<lambda>r. va_name (rg_agent r)) (live_registrations now s))"
proof -
  let ?key = "\<lambda>r. (va_name (rg_agent r), rg_id r)"
  have "sorted (map ?key (live_registrations now s))" by (simp add: live_registrations_def)
  then show ?thesis by (auto simp: sorted_map elim!: sorted_wrt_mono_rel [rotated])
qed

lemma listed_names: "list_all2 listed regs agents \<Longrightarrow> map ar_canonical_name agents = map (\<lambda>r. va_name (rg_agent r)) regs"
  by (induction rule: list_all2_induct) (simp_all add: listed_def)

text \<open>The registrations that the broker lists: the live ones, or none where maintenance fails.\<close>

definition broker_lists :: "('p \<Rightarrow> task_table \<Rightarrow> bool) \<Rightarrow> i64 \<Rightarrow> 'p Broker \<Rightarrow> Registration list \<Rightarrow> bool" where
  "broker_lists holds now w regs \<longleftrightarrow>
     (\<exists>b. (regs = live_registrations now (b_state b) \<and> maintained_world holds now w b) \<or> (regs = [] \<and> halted_world holds now w b))"

lemma broker_lists_sorted: "broker_lists holds now w regs \<Longrightarrow> sorted (map (\<lambda>r. va_name (rg_agent r)) regs)"
  by (auto simp: broker_lists_def live_registrations_sorted)

context persistence_contract
begin

lemma list_agents_rule:
  assumes "binv holds now w"
  shows "wp (list_agents P json_len now) (\<lambda>_ _. False) (\<lambda>regs b. binv holds now b \<and> broker_lists holds now w regs
    \<and> (\<forall>reg \<in> set regs. (rg_agent reg, rg_harness_session_id reg) \<in> enrolled (b_state b))) w"
  by (rule wp_conseq [OF list_agents_correct [OF assms]])
    (auto simp: broker_lists_def maintained_world_def halted_world_def live_registrations_enrolled)

lemma live_directory_rule:
  assumes ok: "api_ok holds (st_workspace_id st) (clk 0) s" and rely: "considerate holds (st_workspace_id st) clk fin ys"
  shows "wp (live_directory E P ys clk st) (\<lambda>e s'. e = identity_failure E \<and> leaves holds (st_workspace_id st) fin s s')
    (\<lambda>agents s'. leaves holds (st_workspace_id st) fin s s'
       \<and> (\<exists>regs. broker_lists holds (clk 0) (ap_broker s) regs \<and> list_all2 listed regs agents)) s"
  unfolding live_directory_def wp_bindM
proof (rule broker_rule [OF leaves_refl [OF ok] order_refl, where X = "{}" and S = "\<lambda>_. False" and R = "\<lambda>regs b.
      broker_lists holds (clk 0) (ap_broker s) regs \<and> (\<forall>reg \<in> set regs. (rg_agent reg, rg_harness_session_id reg) \<in> enrolled (b_state b))"],
    goal_cases)
  case 1
  then show ?case by (rule wp_conseq [OF list_agents_rule]) simp_all
next
  case (4 regs b)
  let ?s1 = "s\<lparr>ap_broker := b\<rparr>"
  have "leaves holds (st_workspace_id st) (clk 0) ?s1 ?s1" using 4(1) by (simp add: leaves_def)
  moreover have "(rg_agent reg, rg_harness_session_id reg) \<in> known (st_workspace_id st) ?s1" if "reg \<in> set regs" for reg
    using 4(1,3) that by (auto simp: leaves_def api_ok_def)
  ultimately have "wp (lookups (directory_agent E st) ys 0 regs)
      (\<lambda>e s2. e = identity_failure E \<and> leaves holds (st_workspace_id st) fin ?s1 s2)
      (\<lambda>zs s2. leaves holds (st_workspace_id st) fin ?s1 s2 \<and> list_all2 listed regs zs) ?s1"
    by (intro lookups_rule [OF rely] directory_agent_rule)
  then show ?case
    unfolding live_directory_from_registrations_def wp_bindM
  proof (rule wp_conseq, goal_cases)
    case (1 zs s2)
    then have "sorted (map ar_canonical_name zs)"
      using 4(3) listed_names [of regs zs] broker_lists_sorted [of holds "clk 0" "ap_broker s" regs] by simp
    then have "sort_key ar_canonical_name zs = zs" by (rule sort_key_id_if_sorted)
    with 1 4 leaves_trans [OF 4(1)] show ?case by auto
  qed (use leaves_trans [OF 4(1)] in blast)
qed (auto simp: enrols_list_agents)

end

end
