(* ===== verification/Api_Serving.thy ===== *)
theory Api_Serving
  imports Api_Correct
begin

text \<open>
  Every request to the private interface, alone and between any others: it does not panic, and it leaves the
  invariant.  The waits come first, then the handlers and the router, then the states that serving reaches.
\<close>

section \<open>Waits\<close>

text \<open>
  What a wait relies on of the others: they keep the broker's invariant, and enrol only agents of \<open>X\<close>.
  A row that is added to the identities during a wait counts as added before it, since the wait does not look
  at them.
\<close>

fun polite_turns ::
    "('p \<Rightarrow> task_table \<Rightarrow> bool) \<Rightarrow> (VerifiedAgent \<times> string) set \<Rightarrow> i64 \<Rightarrow> 'p turn list \<Rightarrow> i64 \<Rightarrow> bool" where
  "polite_turns holds X now [] fin \<longleftrightarrow> now \<le> fin"
| "polite_turns holds X now (t # ts) fin \<longleftrightarrow> now \<le> tn_now t \<and> tn_now t \<le> tn_after t
     \<and> (\<forall>w. binv holds (tn_now t) w \<longrightarrow> binv holds (tn_after t) (tn_others t w) \<and> enrols X w (tn_others t w))
     \<and> polite_turns holds X (tn_after t) ts fin"

text \<open>The delivery identifiers that a wait draws are not in use.\<close>

fun fresh_deliveries ::
    "'p BrokerPersistence \<Rightarrow> (json \<Rightarrow> nat) \<Rightarrow> RegistrationCredentials \<Rightarrow> 'p Broker \<Rightarrow> 'p turn list \<Rightarrow> bool" where
  "fresh_deliveries P json_len c w [] \<longleftrightarrow> True"
| "fresh_deliveries P json_len c w (t # ts) \<longleftrightarrow>
     hm_get (s_tasks_by_delivery (b_state (snd (maintain_state P json_len (tn_now t) w)))) (tn_fresh t) = None
     \<and> fresh_deliveries P json_len c (tn_others t (snd (poll_delivery P json_len (tn_now t) (tn_fresh t) c w))) ts"

lemma polite_turns_bound: "polite_turns holds X now ts fin \<Longrightarrow> now \<le> fin"
  by (induction ts arbitrary: now) fastforce+

lemma polite_turns_head:
  assumes "polite_turns holds X now (t # ts) fin"
  shows "now \<le> tn_now t" "tn_now t \<le> tn_after t" "tn_after t \<le> fin" "polite_turns holds X (tn_after t) ts fin"
    "binv holds (tn_now t) w \<Longrightarrow> binv holds (tn_after t) (tn_others t w) \<and> enrols X w (tn_others t w)"
  using assms polite_turns_bound [of holds X "tn_after t" ts fin] by simp_all

lemma enrols_trans: "enrols X w w1 \<Longrightarrow> enrols X w1 w2 \<Longrightarrow> enrols X w w2"
  using transpD [OF joins_order(4)] .

lemma enrols_mono: "enrols {} w w1 \<Longrightarrow> enrols X w w1"
  by (auto simp: enrols_def joins_def)

text \<open>The state that a wait leaves.\<close>

definition waited :: "('p \<Rightarrow> task_table \<Rightarrow> bool) \<Rightarrow> (VerifiedAgent \<times> string) set \<Rightarrow> i64 \<Rightarrow> 'p Broker \<Rightarrow> 'p Broker \<Rightarrow> bool" where
  "waited holds X fin w w' \<longleftrightarrow> binv holds fin w' \<and> enrols X w w'"

lemma waited_trans: "enrols X w w1 \<Longrightarrow> waited holds X fin w1 w2 \<Longrightarrow> waited holds X fin w w2"
  using enrols_trans by (auto simp: waited_def)

lemma waitedI: "binv holds now w' \<Longrightarrow> now \<le> fin \<Longrightarrow> enrols X w w' \<Longrightarrow> waited holds X fin w w'"
  using binv_mono by (auto simp: waited_def)

lemma waited_drop: "waited holds X fin w w' \<Longrightarrow> waited holds X fin w (WaitGuard_drop i w')"
  by (simp add: waited_def WaitGuard_drop_binv) (simp add: enrols_def joins_def WaitGuard_drop_def)

lemma wp_drop_guard:
  assumes "wp m (\<lambda>_. waited holds X fin w0) (\<lambda>_. waited holds X fin w0) w"
  shows "wp (drop_guard g m) (\<lambda>_. waited holds X fin w0) (\<lambda>_. waited holds X fin w0) w"
  using assms waited_drop by (auto simp: wp_def drop_guard_def split: prod.splits res.splits option.splits)

text \<open>The registrations in an answer about the directory are the broker's.\<close>

definition directory_of :: "'p Broker \<Rightarrow> AgentDirectoryWait option \<Rightarrow> bool" where
  "directory_of w res \<longleftrightarrow> (\<forall>d. res = Some d \<longrightarrow>
     (\<forall>reg \<in> set (adw_registrations d). (rg_agent reg, rg_harness_session_id reg) \<in> enrolled (b_state w)))"

lemma by_pane_values:
  "hm_get (fold (\<lambda>r m. hm_insert (va_pane_id (rg_agent r)) r m) agents m0) pane = Some reg \<Longrightarrow>
     reg \<in> set agents \<or> hm_get m0 pane = Some reg"
proof (induction agents arbitrary: m0)
  case (Cons r agents)
  from Cons.IH [of "hm_insert (va_pane_id (rg_agent r)) r m0"] Cons.prems show ?case
    by (auto simp: hm_get_insert split: if_splits)
qed simp

lemma by_pane_registrations:
  "reg \<in> set (List.map_filter (hm_get (fold (\<lambda>r m. hm_insert (va_pane_id (rg_agent r)) r m) agents [])) panes) \<Longrightarrow>
     reg \<in> set agents"
  using by_pane_values [of agents "[]"] by (auto simp: map_filter_def)

context persistence_contract
begin

lemma directory_snapshot_rule:
  assumes inv: "binv holds now w"
  shows "wp (directory_snapshot P json_len now panes) (\<lambda>_ _. False)
    (\<lambda>d w'. binv holds now w' \<and> directory_of w' (Some d)) w"
  unfolding directory_snapshot_def wp_bindM
  by (rule wp_conseq [OF list_agents_rule [OF inv]])
    (auto simp: Let_def directory_of_def dest!: by_pane_registrations)

lemma wait_for_agents_rule:
  "polite_turns holds X now ts fin \<Longrightarrow> binv holds now w \<Longrightarrow>
     wp (wait_for_agents P json_len panes ts) (\<lambda>_ _. False) (\<lambda>res w'. waited holds X fin w w' \<and> directory_of w' res) w"
proof (induction ts arbitrary: now w)
  case Nil
  then show ?case by (simp add: waited_def directory_of_def enrols_def joins_def) (blast intro: binv_mono)
next
  case (Cons t ts)
  note turn = polite_turns_head [OF Cons.prems(1)]
  have snap: "wp (directory_snapshot P json_len at panes) (\<lambda>_ _. False)
      (\<lambda>d w'. (binv holds at w' \<and> directory_of w' (Some d)) \<and> enrols {} w w') w" if "binv holds at w" for at w
    using wp_moves [OF directory_snapshot_rule [OF that] enrols_reading(3)] by (rule wp_conseq) simp_all
  have "binv holds (tn_now t) w" using Cons.prems(2) turn(1) by (rule binv_mono)
  from snap [OF this] show ?case
    unfolding wait_for_agents.simps wp_bindM
  proof (rule wp_conseq, goal_cases)
    case (1 d w1)
    have others: "binv holds (tn_after t) (tn_others t w1)" "enrols X w (tn_others t w1)"
      using turn(5) [of w1] 1 enrols_mono [of w w1 X] enrols_trans by blast+
    have "wp (bindM (directory_snapshot P json_len (tn_after t) panes) (\<lambda>final. ret (Some final))) (\<lambda>_ _. False)
        (\<lambda>res w'. waited holds X fin w w' \<and> directory_of w' res) (tn_others t w1)"
      unfolding wp_bindM by (rule wp_conseq [OF snap [OF others(1)]])
        (auto intro: waitedI [OF _ turn(3) enrols_trans [OF others(2) enrols_mono]])
    moreover have "wp (wait_for_agents P json_len panes ts) (\<lambda>_ _. False)
        (\<lambda>res w'. waited holds X fin w w' \<and> directory_of w' res) (tn_others t w1)"
      by (rule wp_conseq [OF Cons.IH [OF turn(4) others(1)]]) (use waited_trans [OF others(2)] in blast)+
    moreover have "waited holds X fin w w1"
      using 1 turn(2,3) enrols_mono by (blast intro: waitedI order_trans)
    ultimately show ?case using 1 by simp
  qed simp
qed

lemma wait_next_loop_rule:
  "polite_turns holds X now ts fin \<Longrightarrow> fresh_deliveries P json_len c w ts \<Longrightarrow> binv holds now w \<Longrightarrow>
     wp (wait_next_loop P json_len c timeout ts) (\<lambda>_. waited holds X fin w) (\<lambda>_. waited holds X fin w) w"
proof (induction ts arbitrary: now w)
  case Nil
  then show ?case by (simp add: waited_def enrols_def joins_def) (blast intro: binv_mono)
next
  case (Cons t ts)
  note turn = polite_turns_head [OF Cons.prems(1)]
  let ?m = "poll_delivery P json_len (tn_now t) (tn_fresh t) c"
  have "binv holds (tn_now t) w" using Cons.prems(3) turn(1) by (rule binv_mono)
  then have "sound_op holds (tn_now t) w ?m" by (rule delivering_sound(2)) (use Cons.prems(2) in simp)
  then have poll: "wp ?m (\<lambda>_ w'. binv holds (tn_now t) w' \<and> enrols {} w w') (\<lambda>_ w'. binv holds (tn_now t) w' \<and> enrols {} w w') w"
    unfolding sound_op_def by (rule wp_conseq [OF wp_moves [OF _ enrols_changing(4) [where X = "{}"]]]) (simp_all add: sound_world_def)
  have here: "waited holds X fin w w1" if "binv holds (tn_now t) w1" "enrols {} w w1" for w1
    using that turn(2,3) enrols_mono by (blast intro: waitedI order_trans)
  show ?case
    unfolding wait_next_loop.simps wp_bindM
  proof (rule wp_run, rule wp_conseq [OF poll], goal_cases)
    case (1 res w1)
    have others: "binv holds (tn_after t) (tn_others t w1)" "enrols X w (tn_others t w1)"
      using turn(5) [of w1] 1 enrols_mono [of w w1 X] enrols_trans by blast+
    have "wp (wait_next_loop P json_len c timeout ts) (\<lambda>_. waited holds X fin w) (\<lambda>_. waited holds X fin w) (tn_others t w1)"
      if "w1 = snd (?m w)"
      by (rule wp_conseq [OF Cons.IH [OF turn(4) _ others(1)]])
        (use waited_trans [OF others(2)] Cons.prems(2) that in auto)
    moreover have "waited holds X fin w (tn_others t w1)" using others turn(3) by (blast intro: waitedI)
    ultimately show ?case using here [of w1] 1 by (cases res) auto
  qed (use here in blast)
qed

lemma wait_next_rule:
  assumes inv: "binv holds now w" and others: "\<And>w. binv holds now w \<Longrightarrow> binv holds now' (others w) \<and> enrols X w (others w)"
    and turns: "polite_turns holds X now' turns fin" and le: "now \<le> now'"
    and fresh: "fresh_deliveries P json_len c (others (snd (begin_wait P json_len now c w))) turns"
  shows "wp (wait_next P json_len now others c timeout turns) (\<lambda>_. waited holds X fin w) (\<lambda>_. waited holds X fin w) w"
proof -
  have le': "now \<le> fin" using le polite_turns_bound [OF turns] by simp
  have opened: "wp (begin_wait P json_len now c) (\<lambda>_ w'. binv holds now w' \<and> enrols {} w w') (\<lambda>_ w'. binv holds now w' \<and> enrols {} w w') w"
    using registering_sound(4) [OF inv] unfolding sound_op_def
    by (rule wp_conseq [OF wp_moves [OF _ enrols_changing(3) [where X = "{}"]]]) (simp_all add: sound_world_def)
  show ?thesis
    unfolding wait_next_def wp_bindM [of "begin_wait P json_len now c"]
  proof (rule wp_run, rule wp_conseq [OF opened], goal_cases)
    case (1 guard w1)
    have ow: "binv holds now' (others w1)" "enrols X w (others w1)"
      using others [of w1] 1 enrols_mono [of w w1 X] enrols_trans by blast+
    have "wp (wait_next_loop P json_len c timeout turns) (\<lambda>_. waited holds X fin w) (\<lambda>_. waited holds X fin w) (others w1)"
      if "w1 = snd (begin_wait P json_len now c w)"
      by (rule wp_conseq [OF wait_next_loop_rule [OF turns _ ow(1)]])
        (use waited_trans [OF ow(2)] fresh that in auto)
    moreover have "waited holds X fin w (others w1)" using ow polite_turns_bound [OF turns] by (blast intro: waitedI)
    ultimately show ?case
      by (auto intro!: wp_drop_guard simp: wp_lift_res)
  qed (use le' enrols_mono in \<open>blast intro: waitedI\<close>)
qed

end

section \<open>Handlers\<close>

text \<open>
  What a registration promises to its caller: Herdr has verified its pane, in the workspace, and its
  agent and session have an identity.
\<close>

definition vouched :: "api_env \<Rightarrow> ApiState \<Rightarrow> string \<Rightarrow> string \<Rightarrow> 'p Api \<Rightarrow> RegistrationResponse \<Rightarrow> bool" where
  "vouched E st pane_id session s r \<longleftrightarrow>
     re_pane_id r = pane_id \<and> re_harness_session_id r = session
     \<and> (\<exists>pane. env_verify E pane_id = Ok pane \<and> vpane_workspace_id pane = st_workspace_id st \<and> re_harness r = vpane_harness pane)
     \<and> (\<lparr>va_name = re_canonical_name r, va_pane_id = re_pane_id r, va_harness = re_harness r, va_workspace = re_workspace r\<rparr>,
        session) \<in> known (st_workspace_id st) s"

abbreviation keeps_api ::
    "('p \<Rightarrow> task_table \<Rightarrow> bool) \<Rightarrow> ApiState \<Rightarrow> i64 \<Rightarrow> 'p Api \<Rightarrow> ('p, 'a) aop \<Rightarrow> bool" where
  "keeps_api holds st fin s m \<equiv>
     wp m (\<lambda>_. leaves holds (st_workspace_id st) fin s) (\<lambda>_. leaves holds (st_workspace_id st) fin s) s"

context persistence_contract
begin

text \<open>A section that is sound for the broker and enrols nobody.\<close>

lemma section_rule:
  assumes lv: "leaves holds W now s s1" "now \<le> later" and sound: "\<And>w. binv holds later w \<Longrightarrow> sound_op holds later w m"
    and moves: "moves (enrols {}) m"
    and post: "\<And>a s2. leaves holds W later s s2 \<Longrightarrow> Q a s2" and err: "\<And>e s2. leaves holds W later s s2 \<Longrightarrow> F e s2"
  shows "wp (on_broker m) F Q s1"
  by (rule broker_rule [OF lv sound_binv [OF sound] moves]) (use post err in auto)

lemma register_section:
  assumes lv: "leaves holds W now s s1" and fresh: "regm (b_state (ap_broker s1)) i = None" and known: "(agent, session) \<in> known W s1"
    and post: "\<And>g b. leaves holds W now s (s1\<lparr>ap_broker := b\<rparr>) \<Longrightarrow> rg_agent g = agent \<Longrightarrow> rg_harness_session_id g = session \<Longrightarrow>
      Q g (s1\<lparr>ap_broker := b\<rparr>)"
    and err: "\<And>e s2. leaves holds W now s s2 \<Longrightarrow> F e s2"
  shows "wp (on_broker (register P json_len now i agent session)) F Q s1"
proof (rule broker_rule [OF lv order_refl, where X = "{(agent, session)}" and S = "\<lambda>_. True"
      and R = "\<lambda>g _. rg_agent g = agent \<and> rg_harness_session_id g = session"], goal_cases)
  case 1
  from register_correct [OF this fresh] show ?case
    by (rule wp_conseq) (auto simp: registered_def Let_def rejected_binv)
qed (use known enrols_register post err in auto)

lemma register_rule:
  assumes ok: "api_ok holds (st_workspace_id st) (clk 0) s" and rely: "considerate holds (st_workspace_id st) clk fin ys"
    and verifier: "verifier_contract (env_verify E)"
    and fresh: "\<And>d. hm_get (s_registrations (b_state (ap_broker (ys 1 ((ys 0 s)\<lparr>ap_identities := d\<rparr>))))) i = None"
  shows "wp (Api_register E P ys clk i st bytes) (\<lambda>_. leaves holds (st_workspace_id st) fin s)
    (\<lambda>r s'. leaves holds (st_workspace_id st) fin s s'
       \<and> (\<exists>request. BoundedJson (env_parse_register E) bytes = Ok request
            \<and> vouched E st (rq_pane_id request) (rq_harness_session_id request) s' r
            \<and> (\<forall>name. rq_expected_agent_name request = Some name \<longrightarrow> re_canonical_name r = name))) s"
    (is "wp _ ?F ?Q _")
proof -
  have s0: "leaves holds (st_workspace_id st) (clk 0) s s" using ok by (rule leaves_refl)
  note s1 = considerate_step [OF rely s0]
  note fin = considerate_fin [OF rely]
  have body: "wp (bindM (on_identities E (resolve_or_create (st_identities st) pane (rq_harness_session_id request))) (\<lambda>identity.
      if (case rq_expected_agent_name request of None \<Rightarrow> False | Some expected \<Rightarrow> expected \<noteq> ai_canonical_name identity)
      then throw (identity_changed msg)
      else bindM (pause ys 1) (\<lambda>_.
        let agent = \<lparr>va_name = ai_canonical_name identity, va_pane_id = vpane_pane_id pane,
           va_harness = vpane_harness pane, va_workspace = vpane_workspace_path pane\<rparr> in
        bindM (on_broker (register P (env_json_len E) (clk 2) i agent (rq_harness_session_id request))) (\<lambda>registration.
        ret (from_registration registration (ai_current_role identity)))))) ?F ?Q (ys 0 s)"
    if request: "BoundedJson (env_parse_register E) bytes = Ok request"
      and pane: "env_verify E (rq_pane_id request) = Ok pane" "vpane_workspace_id pane = st_workspace_id st" for request pane msg
    unfolding wp_bindM [of "on_identities E (resolve_or_create (st_identities st) pane (rq_harness_session_id request))"]
  proof (rule resolve_section [OF s1 verifier_contract.check_role [OF verifier pane(1)]], goal_cases)
    case (1 identity s2)
    let ?sid = "rq_harness_session_id request"
    let ?agent = "\<lparr>va_name = ai_canonical_name identity, va_pane_id = vpane_pane_id pane,
      va_harness = vpane_harness pane, va_workspace = vpane_workspace_path pane\<rparr>"
    have s3: "leaves holds (st_workspace_id st) (clk 2) s (ys 1 s2)"
      using considerate_step [OF rely, of 1 s s2] 1(1) by (simp add: numeral_2_eq_2)
    have "leaves holds (st_workspace_id st) (clk 2) s2 (ys 1 s2)"
      using considerate_step [OF rely, of 1 s2 s2] leaves_refl [of holds "st_workspace_id st" "clk 1" s2] 1(1)
      by (simp add: numeral_2_eq_2 leaves_def)
    then have id3: "(?agent, ?sid) \<in> known (st_workspace_id st) (ys 1 s2)"
      using resolved_identified [OF 1(2) pane(2), of ?agent] by (auto simp: leaves_def)
    have s2: "s2 = (ys 0 s)\<lparr>ap_identities := ap_identities s2\<rparr>" using 1(3) by simp
    have free: "regm (b_state (ap_broker (ys 1 s2))) i = None" by (subst s2) (rule fresh)
    have "wp (on_broker (register P (env_json_len E) (clk 2) i ?agent ?sid)) ?F
        (\<lambda>g. wp (ret (from_registration g (ai_current_role identity))) ?F ?Q) (ys 1 s2)"
      if expected: "\<forall>name. rq_expected_agent_name request = Some name \<longrightarrow> name = ai_canonical_name identity"
    proof (rule register_section [OF s3 free id3], goal_cases)
      case (1 g b)
      with id3 pane request expected fin [OF 1(1)] verifier_contract.check_pane [OF verifier pane(1)] show ?case
        by (auto simp: vouched_def from_registration_def)
    qed (use fin in blast)
    then show ?case by (auto simp: Let_def fin [OF 1(1)] split: option.splits)
  qed (use fin in blast)
  show ?thesis
    using body fin [OF s0] fin [OF s1] verifier_contract.check_total [OF verifier]
    by (auto simp: Api_register_def wp_lift_res)
qed

end

subsection \<open>Handlers that only have to keep the invariant\<close>

text \<open>Run at the k-th reading of the clock in the course of a request, the rest of a handler keeps it.\<close>

definition steady ::
    "('p \<Rightarrow> task_table \<Rightarrow> bool) \<Rightarrow> string \<Rightarrow> (nat \<Rightarrow> i64) \<Rightarrow> i64 \<Rightarrow> 'p Api \<Rightarrow> nat \<Rightarrow> ('p, 'a) aop \<Rightarrow> bool" where
  "steady holds W clk fin s k m \<longleftrightarrow> (\<forall>s1. leaves holds W (clk k) s s1 \<longrightarrow>
     wp m (\<lambda>_. leaves holds W fin s) (\<lambda>_. leaves holds W fin s) s1)"

named_theorems steady_intros

lemma steady_pure [steady_intros]:
  assumes "timely clk fin"
  shows "steady holds W clk fin s k (ret a)" "steady holds W clk fin s k (throw e)"
  using timely_fin [OF assms] by (auto simp: steady_def)

lemma steady_if [steady_intros]:
  "(b \<Longrightarrow> steady holds W clk fin s k m) \<Longrightarrow> (\<not> b \<Longrightarrow> steady holds W clk fin s k n) \<Longrightarrow> steady holds W clk fin s k (if b then m else n)"
  by simp

lemma steady_bind_lift [steady_intros]:
  assumes "timely clk fin" "r \<noteq> Panic" "\<And>a. r = Ok a \<Longrightarrow> steady holds W clk fin s k (f a)"
  shows "steady holds W clk fin s k (bindM (lift_res r) f)"
  using assms timely_fin [OF assms(1)] by (cases r) (auto simp: steady_def)

lemma steady_bind_pause [steady_intros]:
  assumes "considerate holds W clk fin ys" "steady holds W clk fin s (Suc k) (f ())"
  shows "steady holds W clk fin s k (bindM (pause ys k) f)"
  using assms considerate_step [OF assms(1)] by (simp add: steady_def)

lemma steady_bind_resolve [steady_intros]:
  assumes "timely clk fin" "RoleLabel_parse (vpane_role pane) = Ok (vpane_role pane)"
    and "\<And>identity. steady holds W clk fin s k (f identity)"
  shows "steady holds W clk fin s k (bindM (on_identities E (resolve_or_create expected pane sid)) f)"
  unfolding steady_def wp_bindM
proof (intro allI impI)
  fix s1 assume "leaves holds W (clk k) s s1"
  then show "wp (on_identities E (resolve_or_create expected pane sid)) (\<lambda>_. leaves holds W fin s)
      (\<lambda>a. wp (f a) (\<lambda>_. leaves holds W fin s) (\<lambda>_. leaves holds W fin s)) s1"
    by (rule resolve_section) (use assms timely_fin [OF assms(1)] in \<open>auto simp: steady_def\<close>)
qed

lemma forgiving_sound: "sound_op holds now w m \<Longrightarrow> sound_op holds now w (forgiving m)"
  by (auto simp: sound_op_def wp_def forgiving_def split: prod.splits res.splits DomainError.splits)

lemma forgiving_moves: "moves R m \<Longrightarrow> moves R (forgiving m)"
  by (auto simp: moves_def forgiving_def split: prod.splits res.splits DomainError.splits) (metis snd_conv)+

context persistence_contract
begin

lemma steady_bind_broker [steady_intros]:
  assumes "timely clk fin" "\<And>w. binv holds (clk k) w \<Longrightarrow> sound_op holds (clk k) w m" "moves (enrols {}) m"
    and "\<And>a. steady holds W clk fin s k (f a)"
  shows "steady holds W clk fin s k (bindM (on_broker m) f)"
  unfolding steady_def wp_bindM
proof (intro allI impI)
  fix s1 assume "leaves holds W (clk k) s s1"
  then show "wp (on_broker m) (\<lambda>_. leaves holds W fin s) (\<lambda>a. wp (f a) (\<lambda>_. leaves holds W fin s) (\<lambda>_. leaves holds W fin s)) s1"
    by (rule section_rule [OF _ order_refl assms(2,3)]) (use assms(4) timely_fin [OF assms(1)] in \<open>auto simp: steady_def\<close>)
qed

lemmas handler_sound = reading_sound snapshot_sound registering_sound delivering_sound settling_sound
lemmas handler_moves = enrols_reading enrols_changing

lemma renew_steady:
  assumes rely: "considerate holds W clk fin ys" and verifier: "verifier_contract (env_verify E)"
  shows "steady holds W clk fin s 0 (Api_renew E P ys clk st headers)"
  unfolding Api_renew_def One_nat_def numeral_2_eq_2
  by (intro steady_intros rely considerate_timely [OF rely] handler_sound handler_moves)
    (auto simp: verifier_contract.check_total [OF verifier] verifier_contract.check_role [OF verifier])

lemma steady_handlers:
  assumes timely: "timely clk fin"
  shows "steady holds W clk fin s 0 (Api_unregister E P clk headers)"
    "steady holds W clk fin s 0 (Api_ack_inbox E P clk headers bytes)"
    "steady holds W clk fin s 0 (Api_cancel_task E P clk path headers)"
  unfolding Api_unregister_def Api_ack_inbox_def Api_cancel_task_def
  by (intro steady_intros timely forgiving_sound forgiving_moves handler_sound handler_moves; simp)+

lemma checked_reply_total: "rq_file_refs request = [] \<Longrightarrow> checked_reply E request workspace \<noteq> Panic"
  by (auto simp: checked_reply_def res_bind_eq_Panic validate_payload_def)

lemma reply_steady:
  assumes rely: "considerate holds W clk fin ys"
  shows "steady holds W clk fin s 0 (Api_reply_task E P ys clk path headers bytes)"
  unfolding Api_reply_task_def One_nat_def
  by (intro steady_intros rely considerate_timely [OF rely] handler_sound handler_moves)
    (simp_all add: checked_reply_total)

lemma steady_start:
  assumes "steady holds W clk fin s 0 m" "api_ok holds W (clk 0) s"
  shows "wp m (\<lambda>_. leaves holds W fin s) (\<lambda>_. leaves holds W fin s) s"
  using assms(1) leaves_refl [OF assms(2)] by (simp add: steady_def)

lemma resolve_agent_rule:
  assumes ok: "api_ok holds (st_workspace_id st) (clk 0) s" and rely: "considerate holds (st_workspace_id st) clk fin ys"
  shows "keeps_api holds st fin s (Api_resolve_agent E P ys clk st target)"
proof -
  have s0: "leaves holds (st_workspace_id st) fin s s" by (rule considerate_fin [OF rely leaves_refl [OF ok]])
  have "wp (live_directory E P ys clk st) (\<lambda>_. leaves holds (st_workspace_id st) fin s)
      (\<lambda>directory. wp (lift_res (resolve_target target directory)) (\<lambda>_. leaves holds (st_workspace_id st) fin s)
        (\<lambda>_. leaves holds (st_workspace_id st) fin s)) s"
    by (rule wp_conseq [OF live_directory_rule [OF ok rely]]) (simp_all add: wp_lift_res)
  with s0 show ?thesis by (simp add: Api_resolve_agent_def)
qed

lemma operations_snapshot_roster:
  assumes inv: "binv holds now w"
  shows "wp (operations_snapshot P json_len now) (\<lambda>e b. binv holds now b \<and> True) (\<lambda>snap b. binv holds now b
    \<and> set (os_agents snap) \<subseteq> va_name ` fst ` enrolled (b_state b)) w"
proof -
  have names: "va_name (rg_agent (rs_registration r)) \<in> va_name ` fst ` roster m" if "(i, r) \<in> set m" for i r m
    using that by (force simp: roster_def enrolment_def image_image)
  show ?thesis
    unfolding operations_snapshot_def wp_bindM
    by (rule maintain_rule [OF inv]) (auto simp: Let_def maintained_world_def halted_world_def simp del: image_iff intro: names)
qed

lemma status_rule:
  assumes ok: "api_ok holds (st_workspace_id st) (clk 0) s" and rely: "considerate holds (st_workspace_id st) clk fin ys"
  shows "keeps_api holds st fin s (workspace_status_response E P ys clk st)"
  unfolding workspace_status_response_def wp_bindM
proof (rule broker_rule [OF leaves_refl [OF ok] order_refl, where X = "{}" and S = "\<lambda>_. True"
      and R = "\<lambda>snap b. set (os_agents snap) \<subseteq> va_name ` fst ` enrolled (b_state b)"], goal_cases)
  case 1
  then show ?case by (rule operations_snapshot_roster)
next
  case (4 snap b)
  let ?s1 = "s\<lparr>ap_broker := b\<rparr>"
  have s1: "leaves holds (st_workspace_id st) (clk 0) ?s1 ?s1" using 4(1) by (simp add: leaves_def)
  have "wp (lookups (status_agent E st) ys 0 (os_agents snap))
      (\<lambda>e s2. e = identity_failure E \<and> leaves holds (st_workspace_id st) fin ?s1 s2)
      (\<lambda>zs s2. leaves holds (st_workspace_id st) fin ?s1 s2 \<and> list_all2 (\<lambda>name r. sa_canonical_name r = name) (os_agents snap) zs) ?s1"
  proof (rule lookups_rule [OF rely _ s1])
    fix now s1' name assume name: "name \<in> set (os_agents snap)" and lv: "leaves holds (st_workspace_id st) now ?s1 s1'"
    obtain a sid where "name = va_name a" "(a, sid) \<in> known (st_workspace_id st) ?s1"
      using 4(1,3) name by (force simp: leaves_def api_ok_def)
    with status_agent_rule [OF lv this(2)] show "wp (status_agent E st name)
        (\<lambda>e s2. e = identity_failure E \<and> leaves holds (st_workspace_id st) now ?s1 s2)
        (\<lambda>r s2. leaves holds (st_workspace_id st) now ?s1 s2 \<and> sa_canonical_name r = name) s1'" by simp
  qed
  then show ?case
    unfolding status_directory_from_roster_def
    by (rule wp_conseq) (use leaves_trans [OF 4(1)] in auto)
qed (use considerate_fin [OF rely] enrols_reading in auto)

lemma wp_status_body:
  "wp m (\<lambda>_. I) (\<lambda>_. I) s \<Longrightarrow> wp (status_body E m) (\<lambda>_. I) (\<lambda>_. I) s"
  by (auto simp: wp_def status_body_def split: prod.splits res.splits)

lemma status_challenge_rule:
  assumes ok: "api_ok holds (st_workspace_id st) (clk 0) s" and rely: "considerate holds (st_workspace_id st) clk fin ys"
  shows "keeps_api holds st fin s (status_challenge E P ys clk st nonce)"
proof -
  have "leaves holds (st_workspace_id st) fin s s" by (rule considerate_fin [OF rely leaves_refl [OF ok]])
  moreover have "wp (bindM (status_body E (workspace_status_response E P ys clk st)) (\<lambda>(status, bytes). ret (f status bytes)))
      (\<lambda>_. leaves holds (st_workspace_id st) fin s) (\<lambda>_. leaves holds (st_workspace_id st) fin s) s" for f :: "StatusCode \<Rightarrow> string \<Rightarrow> response"
    unfolding wp_bindM by (rule wp_conseq [OF wp_status_body [OF status_rule [OF ok rely]]]) (auto split: prod.split)
  ultimately show ?thesis unfolding status_challenge_def by (auto simp: wp_lift_res simp del: wp_bindM intro: wp_bindM [THEN iffD2])
qed

lemma waited_leaves:
  assumes "api_ok holds W now s" "waited holds (known W s) fin (ap_broker s) b"
  shows "leaves holds W fin s (s\<lparr>ap_broker := b\<rparr>)"
  by (rule enrols_leaves [OF leaves_refl [OF assms(1)]]) (use assms(2) in \<open>auto simp: waited_def\<close>)

lemma wait_agents_rule:
  assumes ok: "api_ok holds (st_workspace_id st) now s" and rely: "considerate holds (st_workspace_id st) clk fin ys"
    and turns: "polite_turns holds (known (st_workspace_id st) s) now turns (clk 0)"
  shows "keeps_api holds st fin s (Api_wait_agents E P ys turns st bytes)"
proof -
  let ?I = "leaves holds (st_workspace_id st) fin s"
  have "wp (on_broker (wait_for_agents P (env_json_len E) panes turns)) (\<lambda>_. ?I) (\<lambda>waited_opt. wp (case waited_opt of None \<Rightarrow> ret None
      | Some d \<Rightarrow> bindM (lookups (directory_agent E st) ys 0 (adw_registrations d)) (\<lambda>agents. ret (Some (f d agents)))) (\<lambda>_. ?I) (\<lambda>_. ?I)) s"
    for panes and f :: "AgentDirectoryWait \<Rightarrow> AgentResponse list \<Rightarrow> u64 \<times> AgentResponse list"
    unfolding wp_on_broker
  proof (rule wp_conseq [OF wait_for_agents_rule [OF turns]], goal_cases)
    case (2 res b)
    let ?s1 = "s\<lparr>ap_broker := b\<rparr>"
    have s1: "leaves holds (st_workspace_id st) (clk 0) s ?s1" using waited_leaves [OF ok] 2 by blast
    then have s1': "leaves holds (st_workspace_id st) (clk 0) ?s1 ?s1" by (simp add: leaves_def)
    have known: "(rg_agent reg, rg_harness_session_id reg) \<in> known (st_workspace_id st) ?s1"
      if "res = Some d" "reg \<in> set (adw_registrations d)" for d reg
      using 2 s1 that by (auto simp: directory_of_def leaves_def api_ok_def)
    have "wp (lookups (directory_agent E st) ys 0 (adw_registrations d)) (\<lambda>_. ?I) (\<lambda>zs. wp (ret (Some (f d zs))) (\<lambda>_. ?I) (\<lambda>_. ?I)) ?s1"
      if "res = Some d" for d
      by (rule wp_conseq [OF lookups_rule [OF rely directory_agent_rule s1']])
        (use known that leaves_trans [OF s1] in auto)
    then show ?case using considerate_fin [OF rely s1] by (auto split: option.split)
  qed (use ok in \<open>simp_all add: api_ok_def\<close>)
  then show ?thesis
    using leaves_mono [OF leaves_refl [OF ok], of fin] polite_turns_bound [OF turns] rely
    by (auto simp: Api_wait_agents_def wp_lift_res considerate_def intro: order_trans)
qed

lemma wait_inbox_rule:
  assumes ok: "api_ok holds (st_workspace_id st) (clk 0) s" and le: "clk 0 \<le> now'"
    and others: "\<And>w. binv holds (clk 0) w \<Longrightarrow> binv holds now' (others w) \<and> enrols (known (st_workspace_id st) s) w (others w)"
    and turns: "polite_turns holds (known (st_workspace_id st) s) now' turns fin"
    and fresh: "\<And>c. registration_credentials E headers = Ok c \<Longrightarrow>
      fresh_deliveries P (env_json_len E) c (others (snd (begin_wait P (env_json_len E) (clk 0) c (ap_broker s)))) turns"
  shows "keeps_api holds st fin s (Api_wait_inbox E P clk others turns headers bytes)"
proof -
  have inv: "binv holds (clk 0) (ap_broker s)" using ok by (simp add: api_ok_def)
  have "wp (wait_next P (env_json_len E) (clk 0) others c timeout turns)
      (\<lambda>_ b. leaves holds (st_workspace_id st) fin s (s\<lparr>ap_broker := b\<rparr>))
      (\<lambda>_ b. leaves holds (st_workspace_id st) fin s (s\<lparr>ap_broker := b\<rparr>)) (ap_broker s)"
    if "registration_credentials E headers = Ok c" for c timeout
    by (rule wp_conseq [OF wait_next_rule [OF inv others turns le fresh [OF that]]]) (use waited_leaves [OF ok] in auto)
  then show ?thesis
    using leaves_mono [OF leaves_refl [OF ok], of fin] le polite_turns_bound [OF turns]
    by (auto simp: Api_wait_inbox_def wp_lift_res)
qed

end

end
