(* ===== verification/Api_System.thy ===== *)
theory Api_System
  imports Api_Serving
begin

text \<open>
  The private interface as a transition system.  It starts with a recovered broker and a table of identities of
  its workspace, and answers requests one after the other; what happens during a request at its points of
  suspension is arbitrary, as long as it keeps what the requests themselves keep.
\<close>

section \<open>The router\<close>

text \<open>The rest of the system around a request that arrives in the state \<open>s\<close> at the time \<open>now\<close> and is over by \<open>fin\<close>.\<close>

definition ambience_ok ::
    "('p \<Rightarrow> task_table \<Rightarrow> bool) \<Rightarrow> string \<Rightarrow> i64 \<Rightarrow> 'p Api \<Rightarrow> 'p ambience \<Rightarrow> i64 \<Rightarrow> bool" where
  "ambience_ok holds W now s a fin \<longleftrightarrow>
     now \<le> am_clock a 0 \<and> am_clock a 0 \<le> am_clock a 1
     \<and> considerate holds W (am_clock a) fin (am_yields a)
     \<and> polite_turns holds (known W s) now (am_agent_turns a) (am_clock a 0)
     \<and> (\<forall>w. binv holds (am_clock a 0) w \<longrightarrow>
          binv holds (am_clock a 1) (am_others a w) \<and> enrols (known W s) w (am_others a w))
     \<and> polite_turns holds (known W s) (am_clock a 1) (am_turns a) fin"

text \<open>The identifiers that the request draws are not in use where it draws them.\<close>

definition fresh_request :: "api_env \<Rightarrow> 'p BrokerPersistence \<Rightarrow> 'p Api \<Rightarrow> 'p ambience \<Rightarrow> http_request \<Rightarrow> bool" where
  "fresh_request E P s a q \<longleftrightarrow>
     (\<forall>d. hm_get (s_registrations (b_state (ap_broker (am_yields a 1 ((am_yields a 0 s)\<lparr>ap_identities := d\<rparr>))))) (am_fresh a) = None)
     \<and> (\<forall>c. registration_credentials E (hq_headers q) = Ok c \<longrightarrow>
          fresh_deliveries P (env_json_len E) c
            (am_others a (snd (begin_wait P (env_json_len E) (am_clock a 0) c (ap_broker s)))) (am_turns a))"

lemma keeps_api_answered:
  "keeps_api holds st fin s m \<Longrightarrow> keeps_api holds st fin s (answered f m)"
  "keeps_api holds st fin s n \<Longrightarrow> keeps_api holds st fin s (answered_opt g n)"
  "keeps_api holds st fin s r \<Longrightarrow> keeps_api holds st fin s (bindM r (\<lambda>x. ret (Some x)))"
  by (simp_all add: answered_def answered_opt_def wp_def bindM_def ret_def split: prod.splits res.splits)

lemma keeps_api_extracted:
  "leaves holds (st_workspace_id st) fin s s \<Longrightarrow> (\<And>t. keeps_api holds st fin s (f t)) \<Longrightarrow> keeps_api holds st fin s (extracted path f)"
  by (simp add: extracted_def split: option.split)

lemma keeps_api_into_answer:
  "keeps_api holds st fin s m \<Longrightarrow> wp (into_answer m) (\<lambda>_ _. False) (\<lambda>_. leaves holds (st_workspace_id st) fin s) s"
  by (auto simp: wp_def into_answer_def split: prod.splits res.splits)

context persistence_contract
begin

lemma handle_rule:
  assumes ok: "api_ok holds (st_workspace_id st) now s" and verifier: "verifier_contract (env_verify E)"
    and amb: "ambience_ok holds (st_workspace_id st) now s a fin" and fresh: "fresh_request E P s a q"
  shows "keeps_api holds st fin s (handle E P st a q e)"
proof -
  have ok0: "api_ok holds (st_workspace_id st) (am_clock a 0) s"
    using ok amb api_ok_mono by (auto simp: ambience_ok_def)
  have rely: "considerate holds (st_workspace_id st) (am_clock a) fin (am_yields a)" using amb by (simp add: ambience_ok_def)
  note s0 = considerate_fin [OF rely leaves_refl [OF ok0]]
  note timely = considerate_timely [OF rely]
  have steady: "keeps_api holds st fin s (answered f m)" if "steady holds (st_workspace_id st) (am_clock a) fin s 0 m"
    for f and m :: "('p, 'b) aop"
    by (rule keeps_api_answered(1) [OF steady_start [OF that ok0]])
  show ?thesis
  proof (cases e)
    case RegisterRoute
    have "keeps_api holds st fin s (Api_register E P (am_yields a) (am_clock a) (am_fresh a) st (hq_body q))"
      by (rule wp_conseq [OF register_rule [OF ok0 rely verifier]]) (use fresh in \<open>auto simp: fresh_request_def\<close>)
    then show ?thesis using RegisterRoute keeps_api_answered(1) by simp
  next
    case WaitInboxRoute
    have "keeps_api holds st fin s (Api_wait_inbox E P (am_clock a) (am_others a) (am_turns a) (hq_headers q) (hq_body q))"
      using amb fresh by (intro wait_inbox_rule [where clk = "am_clock a", OF ok0]) (auto simp: ambience_ok_def fresh_request_def)
    then show ?thesis using WaitInboxRoute keeps_api_answered(2) by simp
  next
    case WaitAgentsRoute
    have "keeps_api holds st fin s (Api_wait_agents E P (am_yields a) (am_agent_turns a) st (hq_body q))"
      using amb by (intro wait_agents_rule [OF ok rely]) (simp add: ambience_ok_def)
    then show ?thesis using WaitAgentsRoute keeps_api_answered(2) by simp
  next
    case AgentsRoute
    have "keeps_api holds st fin s (live_directory E P (am_yields a) (am_clock a) st)"
      by (rule wp_conseq [OF live_directory_rule [OF ok0 rely]]) simp_all
    then show ?thesis using AgentsRoute keeps_api_answered(1) by simp
  next
    case (HealthProof n)
    have "keeps_api holds st fin s (lift_res (health_proof E st nonce))" for nonce
      using s0 by (auto simp: wp_lift_res health_proof_def res_bind_eq_Panic)
    then show ?thesis using HealthProof by (auto intro!: keeps_api_extracted [OF s0] keeps_api_answered(3) simp del: wp_bindM)
  next
    case (StatusChallenge n)
    then show ?thesis
      using status_challenge_rule [OF ok0 rely] by (auto intro!: keeps_api_extracted [OF s0] keeps_api_answered(3) simp del: wp_bindM)
  next
    case (ResolveRoute t)
    then show ?thesis
      using resolve_agent_rule [OF ok0 rely] by (auto intro!: keeps_api_extracted [OF s0] keeps_api_answered(1))
  qed (use s0 in \<open>auto intro!: steady steady_handlers [OF timely] reply_steady [OF rely] renew_steady [OF rely verifier]\<close>)
qed

lemma router_rule:
  assumes ok: "api_ok holds (st_workspace_id st) now s" and verifier: "verifier_contract (env_verify E)"
    and amb: "ambience_ok holds (st_workspace_id st) now s a fin" and fresh: "fresh_request E P s a q"
  shows "wp (private_router E P st a q) (\<lambda>_ _. False) (\<lambda>_. leaves holds (st_workspace_id st) fin s) s"
proof -
  have "api_ok holds (st_workspace_id st) (am_clock a 0) s" "am_clock a 0 \<le> fin"
    using ok amb api_ok_mono by (auto simp: ambience_ok_def considerate_def)
  then have s0: "leaves holds (st_workspace_id st) fin s s" by (blast intro: leaves_mono leaves_refl)
  show ?thesis
    using s0 by (auto simp: private_router_def require_bearer_def split: option.split
        intro: keeps_api_into_answer [OF handle_rule [OF ok verifier amb fresh]])
qed

end

section \<open>Runs\<close>

text \<open>What the schema makes the database enforce: the names and the panes with their sessions are unique.\<close>

definition rows_unique :: "IdentityRow list \<Rightarrow> bool" where
  "rows_unique rows \<longleftrightarrow> distinct (map ir_canonical_name rows) \<and> sorted_wrt (\<lambda>a b. \<not> same_pane a b) rows"

inductive api_reachable ::
    "api_env \<Rightarrow> 'p BrokerPersistence \<Rightarrow> ('p \<Rightarrow> task_table \<Rightarrow> bool) \<Rightarrow> ApiState \<Rightarrow> i64 \<Rightarrow> 'p Api \<Rightarrow> bool"
  for E :: api_env and P :: "'p BrokerPersistence" and holds :: "'p \<Rightarrow> task_table \<Rightarrow> bool" and st :: ApiState where
  started: "recover P (env_json_len E) now (with_clock p) = (Ok report, w) \<Longrightarrow> rows_unique (id_rows d) \<Longrightarrow>
    ApiState_new E workspace token broker_instance d = (Ok st, d') \<Longrightarrow>
    api_reachable E P holds st now \<lparr>ap_broker = w, ap_identities = d'\<rparr>"
| answered: "api_reachable E P holds st now s \<Longrightarrow> ambience_ok holds (st_workspace_id st) now s a fin \<Longrightarrow>
    fresh_request E P s a q \<Longrightarrow> private_router E P st a q s = (r, s') \<Longrightarrow> api_reachable E P holds st fin s'"

text \<open>The check of the table at the start, with the schema, is the invariant of the table.\<close>

lemma started_identities:
  assumes new: "ApiState_new E workspace token inst d = (Ok st, d')" and unique: "rows_unique (id_rows d)"
  shows "identities_ok (id_rows d')" "id_rows d' = id_rows d" "st_workspace_id st = workspace"
proof -
  have rows: "check_rows (Some workspace) (id_rows d) = Ok ()" "id_rows d' = id_rows d" "st_workspace_id st = workspace"
    using new by (auto simp: ApiState_new_def for_workspace_def bindM_def id_query_def id_statement_def lift_res_def ret_def Let_def
        split: prod.splits res.splits if_splits)
  then show "id_rows d' = id_rows d" "st_workspace_id st = workspace" by simp_all
  obtain ws where "collect_res (validate_row (Some workspace)) (id_rows d) = Ok ws"
    using rows(1) by (auto simp: check_rows_def res_bind_eq_Ok)
  then have "validate_row (Some workspace) row = Ok (ir_workspace_id row)" "ir_workspace_id row = workspace" if "row \<in> set (id_rows d)" for row
    using that by (auto simp: collect_res_Ok list_all2_conv_all_nth in_set_conv_nth validate_row_def res_bind_eq_Ok split: if_splits)
  then have "validate_row None row = Ok (ir_workspace_id row)" "ir_workspace_id row = workspace" if "row \<in> set (id_rows d)" for row
    using that by (auto simp: validate_row_def res_bind_eq_Ok)
  then show "identities_ok (id_rows d')"
    using unique rows(2) unfolding identities_ok_def rows_unique_def by auto
qed

context persistence_contract
begin

theorem api_reachable_ok:
  assumes "verifier_contract (env_verify E)" "api_reachable E P holds st now s"
  shows "api_ok holds (st_workspace_id st) now s"
  using assms(2)
proof (induction rule: api_reachable.induct)
  case (started now p report w d workspace token inst d')
  have "binv holds now w" "regm (b_state w) = Map.empty"
    using wp_result(2) [OF recover_correct started(1) refl] by (simp_all add: recovered_def)
  then show ?case
    using started_identities(1) [OF started(3,2)] by (simp add: api_ok_def roster_def)
next
  case (answered now s a fin q r s')
  from wp_result [OF router_rule [OF answered.IH assms(1) answered(2,3)] answered(4)]
  show ?case by (cases r) (auto simp: leaves_def)
qed

end

end
