(* ===== verification/Api_Properties.thy ===== *)
theory Api_Properties
  imports Api_System Broker_Examples
begin

text \<open>
  What the private interface of the broker promises: registrations and identities agree in every state that
  serving requests reaches, and the directory shows the agents that the broker lists.  The witnesses are about a
  workspace with one agent.
\<close>

section \<open>A workspace\<close>

definition desk_run :: "string list \<Rightarrow> CommandOutput option" where
  "desk_run args = Some \<lparr>co_success = True, co_stdout = args ! 2, co_stderr = []\<rparr>"

definition desk_record :: "string \<Rightarrow> HerdrAgentRecord option" where
  "desk_record pane_id =
     Some \<lparr>hr_pane_id = pane_id, hr_name = Some ''qa'', hr_agent = ''pi'', hr_workspace_id = ''w1'', hr_cwd = ''/r''\<rparr>"

definition desk_env :: api_env where
  "desk_env =
     \<lparr>env_json_len = sample_len, env_canonicalize = Some, env_parse_uuid = (\<lambda>v. Some (7, True, v)), env_to_str = Some,
      env_sha256 = (\<lambda>v. v), env_hmac = (\<lambda>k m. k @ m), env_encode = (\<lambda>v. v), env_decode = Some, env_sqlite = ''disk'',
      env_verify = verify desk_run desk_record, env_status_json = (\<lambda>_. []), env_error_json = ae_code,
      env_parse_register = (\<lambda>_. Some \<lparr>rq_pane_id = ''p1'', rq_harness_session_id = ''s1'', rq_expected_agent_name = None\<rparr>),
      env_parse_wait_agents = (\<lambda>_. None), env_parse_wait = (\<lambda>_. None), env_parse_ack = (\<lambda>_. None), env_parse_reply = (\<lambda>_. None)\<rparr>"

definition desk_identities :: identity_db where
  "desk_identities = \<lparr>id_rows = [], id_transaction = None, id_faults = [], id_random = (\<lambda>_. ''543210''), id_drawn = 0\<rparr>"

definition desk_state :: ApiState where
  "desk_state = \<lparr>st_identities = Some ''w1'', st_workspace_id = ''w1'', st_bearer_token_digest = ''key'', st_broker_instance_id = ''b1''\<rparr>"

definition desk :: "unit Api" where
  "desk = \<lparr>ap_broker = started, ap_identities = desk_identities\<rparr>"

definition undisturbed :: "unit ambience" where
  "undisturbed = \<lparr>am_yields = (\<lambda>_ s. s), am_clock = (\<lambda>_. 1000), am_fresh = ''r1'', am_others = (\<lambda>w. w), am_turns = [], am_agent_turns = []\<rparr>"

definition desk_request :: "verb \<Rightarrow> string \<Rightarrow> http_request" where
  "desk_request v route_name = \<lparr>hq_verb = v, hq_path = [Some ''v1'', Some route_name],
     hq_headers = [(AUTHORIZATION, [''Bearer key''])], hq_body = []\<rparr>"

definition desk_serve :: "http_request \<Rightarrow> unit Api \<Rightarrow> (ApiError, response option) res \<times> unit Api" where
  "desk_serve = private_router desk_env VolatilePersistence desk_state undisturbed"

lemma desk_verifier: "verifier_contract (env_verify desk_env)"
  by (simp add: desk_env_def command.verifier_contract_axioms)

lemma undisturbed_ok:
  assumes "api_ok any_table W 1000 s"
  shows "ambience_ok any_table W 1000 s undisturbed 1000"
  by (auto simp: ambience_ok_def undisturbed_def considerate_def leaves_refl enrols_def joins_def)

lemma undisturbed_fresh: "hm_get (s_registrations (b_state (ap_broker s))) ''r1'' = None \<Longrightarrow> fresh_request desk_env VolatilePersistence s undisturbed q"
  by (simp add: fresh_request_def undisturbed_def)

lemma desk_reachable: "api_reachable desk_env VolatilePersistence any_table desk_state 1000 desk"
proof -
  have "validate_workspace_id ''w1'' = Ok ()" by code_simp
  then have "for_workspace ''w1'' desk_identities = (Ok (Some ''w1''), desk_identities)"
    by (simp add: for_workspace_def bindM_def lift_res_def id_query_def id_statement_def desk_identities_def check_rows_def
        ret_def)
  then have "ApiState_new desk_env ''w1'' ''key'' ''b1'' desk_identities = (Ok desk_state, desk_identities)"
    by (simp add: ApiState_new_def bindM_def ret_def desk_state_def desk_env_def)
  moreover have "recover VolatilePersistence (env_json_len desk_env) 1000 (with_clock ()) = (Ok BrokerRecoveryReport_default, started)"
    by (simp add: desk_env_def started_recovers)
  ultimately show ?thesis
    unfolding desk_def by (intro api_reachable.started) (simp_all add: rows_unique_def desk_identities_def)
qed

lemma desk_ok: "api_ok any_table (st_workspace_id desk_state) 1000 desk"
  by (rule persistence_contract.api_reachable_ok [OF volatile_contract desk_verifier desk_reachable])

lemma started_empty: "s_registrations (b_state started) = []"
  by code_simp

section \<open>Registrations and identities\<close>

text \<open>The identity of a registration: the row with its name, pane, harness and session.\<close>

definition agent_row :: "string \<Rightarrow> Registration \<Rightarrow> IdentityRow \<Rightarrow> bool" where
  "agent_row W g row \<longleftrightarrow> ir_workspace_id row = W \<and> ir_canonical_name row = va_name (rg_agent g)
     \<and> ir_pane_id row = va_pane_id (rg_agent g) \<and> ir_harness row = va_harness (rg_agent g)
     \<and> ir_harness_session_id row = rg_harness_session_id g"

definition agents_identified :: "string \<Rightarrow> 'p Api \<Rightarrow> bool" where
  "agents_identified W s \<longleftrightarrow>
     list_all (\<lambda>(_, r). length (filter (agent_row W (rs_registration r)) (id_rows (ap_identities s))) = 1)
       (s_registrations (b_state (ap_broker s)))"

lemma api_ok_identified:
  assumes ok: "api_ok holds W now s"
  shows "agents_identified W s"
proof -
  let ?rows = "id_rows (ap_identities s)"
  have "length (filter (agent_row W (rs_registration r)) ?rows) = 1" if "(i, r) \<in> set (s_registrations (b_state (ap_broker s)))" for i r
  proof -
    have "enrolment r \<in> known W s" using ok that by (force simp: api_ok_def roster_def)
    then obtain row where row: "row \<in> set ?rows" "agent_row W (rs_registration r) row"
      by (auto simp: identified_def enrolment_def agent_row_def)
    have names: "distinct (map ir_canonical_name ?rows)" using ok by (simp add: api_ok_def identities_ok_def)
    have unique: "x = row" if "x \<in> set ?rows" "agent_row W (rs_registration r) x" for x
      using names row that unfolding distinct_map inj_on_def agent_row_def by metis
    have "set (filter (agent_row W (rs_registration r)) ?rows) = {row}"
      unfolding set_filter using row unique by blast
    moreover have "distinct (filter (agent_row W (rs_registration r)) ?rows)" using names by (simp add: distinct_map)
    ultimately show ?thesis using distinct_card [of "filter (agent_row W (rs_registration r)) ?rows"] by simp
  qed
  then show ?thesis by (auto simp: agents_identified_def list_all_iff)
qed

text \<open>
  C20: every registered agent has its identity.  In every state that serving requests has reached, whatever
  else ran at the points of suspension, a request is answered: the router does not panic and has no error
  of its own.  After the answer every registration of the broker belongs to exactly one row of the table of
  identities, with its name, pane, harness and session in the workspace of the broker, and no row has lost
  its name.
\<close>

theorem agents_are_identified:
  assumes "persistence_contract P holds" "verifier_contract (env_verify E)" "api_reachable E P holds st now s"
    and "ambience_ok holds (st_workspace_id st) now s a fin" "fresh_request E P s a q"
  shows "\<exists>answer s'. private_router E P st a q s = (Ok answer, s') \<and> agents_identified (st_workspace_id st) s'
    \<and> identified (st_workspace_id st) (id_rows (ap_identities s)) \<subseteq> identified (st_workspace_id st) (id_rows (ap_identities s'))"
proof -
  have ok: "api_ok holds (st_workspace_id st) now s"
    by (rule persistence_contract.api_reachable_ok [OF assms(1-3)])
  have "wp (private_router E P st a q) (\<lambda>_ _. False) (\<lambda>_. leaves holds (st_workspace_id st) fin s) s"
    by (rule persistence_contract.router_rule [OF assms(1) ok assms(2,4,5)])
  then show ?thesis
    by (auto simp: wp_def leaves_def intro: api_ok_identified split: prod.splits res.splits)
qed

theorem agents_are_identified_witness:
  "\<exists>answer s'. desk_serve (desk_request POST ''register'') desk = (Ok answer, s') \<and> agents_identified ''w1'' s'
    \<and> map (\<lambda>(_, r). va_name (rg_agent (rs_registration r))) (s_registrations (b_state (ap_broker s'))) = [''qa-abcdef'']"
proof -
  let ?x = "desk_serve (desk_request POST ''register'') desk"
  have "map (\<lambda>(_, r). va_name (rg_agent (rs_registration r))) (s_registrations (b_state (ap_broker (snd ?x)))) = [''qa-abcdef'']"
    by code_simp
  moreover have "\<exists>answer s'. ?x = (Ok answer, s') \<and> agents_identified (st_workspace_id desk_state) s'
      \<and> identified (st_workspace_id desk_state) (id_rows (ap_identities desk)) \<subseteq> identified (st_workspace_id desk_state) (id_rows (ap_identities s'))"
    unfolding desk_serve_def
    by (rule agents_are_identified [OF volatile_contract desk_verifier desk_reachable undisturbed_ok [OF desk_ok] undisturbed_fresh])
      (simp add: desk_def started_empty)
  ultimately show ?thesis by (auto simp: desk_state_def)
qed

section \<open>The directory\<close>

text \<open>A request without the token, to any endpoint that asks for it, is refused and changes nothing.\<close>

lemma refused_without_token:
  assumes "\<not> bearer_ok E st (hq_headers q)" "\<And>e. route (hq_path q) = Some e \<Longrightarrow> \<not> open_endpoint e"
  shows "private_router E P st a q s =
    (Ok (Some (into_response (ApiError_new UNAUTHORIZED ''unauthorized'' ''a valid bearer token is required''))), s)"
  using assms by (auto simp: private_router_def require_bearer_def ret_def split: option.split)





end
