(* ===== verification/Server.thy ===== *)
theory Server
  imports Ledger_Startup Broker_System
begin

text \<open>
  The start of the broker, \<^verbatim>\<open>herdr-a2a-broker/src/server.rs\<close>: the store is prepared, the broker recovers from it,
  and the projections that the recovery has left pending are applied.  The routers that \<^verbatim>\<open>server_router\<close> merges
  are those of theories \<open>Api\<close> and \<open>A2A_Handler\<close>.
\<close>

record BrokerStartupReport =
  su_store :: StoreRecoveryReport
  su_broker :: BrokerRecoveryReport
  su_repaired_after_recovery :: nat

datatype BrokerStartupError = StorePrepare StoreError | CoreReconcile DomainError | ProjectionDrain StoreError

fun startup_stage :: "BrokerStartupError \<Rightarrow> string" where
  "startup_stage (StorePrepare _) = ''store_prepare''"
| "startup_stage (CoreReconcile _) = ''core_reconcile''"
| "startup_stage (ProjectionDrain _) = ''projection_drain''"

text \<open>\<open>clk\<close> gives the two readings of the clock.\<close>

definition recover_broker_state ::
    "codec \<Rightarrow> (nat \<Rightarrow> i64) \<Rightarrow> (SqliteTaskStore, BrokerStartupError, SqliteTaskStore Broker \<times> BrokerStartupReport) op" where
  "recover_broker_state cd clk =
     bindM (map_error StorePrepare (prepare_startup cd (clk 0))) (\<lambda>store_report.
     bindM (\<lambda>s. case recover (SqlitePersistence cd) (cd_json_len cd) (clk 1) (with_clock s) of
                  (Ok report, w) \<Rightarrow> (Ok (w, report), b_persistence w)
                | (Err e, w) \<Rightarrow> (Err (CoreReconcile e), b_persistence w)
                | (Panic, w) \<Rightarrow> (Panic, b_persistence w)) (\<lambda>(broker, broker_report).
     bindM (map_error ProjectionDrain (apply_pending_projections cd)) (\<lambda>repaired_after_recovery.
     bindM (gets (\<lambda>s. s)) (\<lambda>store.
     ret (broker\<lparr>b_persistence := store\<rparr>,
          \<lparr>su_store = store_report, su_broker = broker_report, su_repaired_after_recovery = repaired_after_recovery\<rparr>)))))"

lemma drained_binv:
  assumes "\<forall>later. binv (ledger_holds cd) later w"
  shows "wp (apply_pending_projections cd) (\<lambda>_ _. True)
    (\<lambda>_ s. (\<forall>later. binv (ledger_holds cd) later (w\<lparr>b_persistence := s\<rparr>)) \<and> db_projection_outbox (sq_database s) = [])
    (b_persistence w)"
proof -
  have "wp (apply_pending_projections cd) (\<lambda>_ _. True)
      (\<lambda>_ s. ledger_part (sq_database s) = ledger_part (sq_database (b_persistence w)) \<and> db_projection_outbox (sq_database s) = [])
      (b_persistence w)"
    by (rule wp_conseq [OF wp_conj [OF apply_pending_keeps [unfolded keeps_def, rule_format, of cd] apply_pending_rule]]) auto
  then show ?thesis
    by (rule wp_conseq) (use assms in \<open>auto simp: binv_def ledger_holds_def ledger_part_def\<close>)
qed

text \<open>
  A broker that has started holds the invariant, has no registrations, and is where its run begins; no
  projection of its ledger is pending.
\<close>

lemma started_broker:
  assumes start: "recover_broker_state cd clk s = (Ok (w, report), s')"
  shows "\<forall>later. binv (ledger_holds cd) later w" "regm (b_state w) = Map.empty" "b_persistence w = s'"
    "db_projection_outbox (sq_database s') = []"
proof -
  obtain s1 w1 rep s2 n where run: "recover (SqlitePersistence cd) (cd_json_len cd) (clk 1) (with_clock s1) = (Ok rep, w1)"
    "apply_pending_projections cd (b_persistence w1) = (Ok n, s2)" "w = w1\<lparr>b_persistence := s2\<rparr>" "s' = s2"
    using start by (auto simp: recover_broker_state_def bindM_def map_error_def gets_def ret_def split: prod.splits res.splits)
  have recovered: "\<forall>later. binv (ledger_holds cd) later w1" "regm (b_state w1) = Map.empty"
    using wp_result(2) [OF persistence_contract.recover_correct [OF ledger.persistence_contract_axioms] run(1) refl]
    by (simp_all add: recovered_def)
  show "\<forall>later. binv (ledger_holds cd) later w" "db_projection_outbox (sq_database s') = []"
    using wp_result(2) [OF drained_binv [OF recovered(1)] run(2) refl] run(3,4) by simp_all
  show "regm (b_state w) = Map.empty" "b_persistence w = s'" using recovered(2) run(3,4) by simp_all
qed

text \<open>An error of the first stage is the error of the preparation, after which nothing else has run.\<close>

lemma failed_preparation:
  assumes "recover_broker_state cd clk s = (Err (StorePrepare e), s')"
  shows "prepare_startup cd (clk 0) s = (Err e, s')"
  using assms by (auto simp: recover_broker_state_def bindM_def map_error_def gets_def ret_def split: prod.splits res.splits)

end
