(* ===== verification/Spec2Isabelle.thy ===== *)
theory Spec2Isabelle
  imports Broker_Properties Ledger_Properties Store_Properties Identity_Properties A2A_Properties
    Api_Properties Server
begin

text \<open>
  A verification of the message broker of \<^verbatim>\<open>herdr-a2a\<close>: the state machine of the core crate
  (\<^verbatim>\<open>src/crates/herdr-a2a-core/src\<close>), the SQLite ledger and task store under it, the store of agent
  identities, the A2A request handler and the private HTTP interface of the broker crate (\<^verbatim>\<open>src/crates/herdr-a2a-broker/src\<close>).

  \<^bold>\<open>The program.\<close>  Agents register with a broker, send tasks to one another, poll an inbox, acknowledge a
  delivery under a lease, and reply.  \<^verbatim>\<open>broker.rs\<close> keeps registrations, tasks, inboxes, leases, deadlines and
  waiters in memory, and commits every durable transition through the trait \<^verbatim>\<open>BrokerPersistence\<close> before it
  shows the transition to anyone.  \<^verbatim>\<open>ledger.rs\<close> implements that trait over SQLite and keeps, next to its own
  rows, the projection of each task that the A2A SDK reads.  \<^verbatim>\<open>store.rs\<close> is the SDK's task store over those
  projections, \<^verbatim>\<open>identity.rs\<close> names the agents, and \<^verbatim>\<open>a2a.rs\<close> authenticates the requests of the SDK and turns
  them into operations of the broker.  \<^verbatim>\<open>api.rs\<close> is the private interface of the harnesses: it lets the Herdr command
  verify a pane (\<^verbatim>\<open>herdr.rs\<close>), gives it an identity and registers it, serves the directory of agents and the
  inbox, and proves the broker's health.  \<^verbatim>\<open>server.rs\<close> starts the store and the broker together.

  \<^bold>\<open>How it is modelled.\<close>  An operation is a function of the state to a result and the next state, theory
  \<open>A2A_Prelude\<close>: \<open>Ok\<close>, \<open>Err\<close> with the source's error, or \<open>Panic\<close> for a failed \<^verbatim>\<open>expect\<close>.  Errors keep the
  changes made before them, as in the source.  Strings are byte lists, 64-bit integers are numbers with
  their checked operations written out, hash maps are association lists.  A weakest-precondition calculus
  (\<open>wp\<close>) carries the proofs.

  \<^item> \<open>A2A_Model\<close>, \<open>A2A_Validation\<close>, \<open>A2A_Durability\<close>: \<^verbatim>\<open>model.rs\<close>, \<^verbatim>\<open>validation.rs\<close>, \<^verbatim>\<open>durability.rs\<close>.  The locale
    \<open>persistence_contract\<close> states what the broker relies on of a persistence provider and
    \<open>durable_contract\<close> adds the registration epoch.
  \<^item> \<open>Broker_State\<close>, \<open>Broker_Snapshot\<close>, \<open>Broker_Core\<close>, \<open>Broker_Ops\<close>: the state and every operation of
    \<^verbatim>\<open>broker.rs\<close>.  The clock, fresh identifiers and the steps of other tasks between two critical sections
    are arguments.
  \<^item> \<open>Broker_Invariant\<close> to \<open>Broker_Waits\<close>: the invariant of the state and the effect of each operation,
    proved once for any provider.  \<open>Broker_System\<close>: requests, reachable states, and what a request can do
    to a task.  \<open>Broker_Epochs\<close>: histories with crashes and restarts.  \<open>Broker_Progress\<close>: \<^verbatim>\<open>start_or_resume\<close>
    and the end of the waits for a reply.
  \<^item> \<open>Store_Db\<close>, \<open>Ledger\<close>: the tables, the connection and every operation of \<^verbatim>\<open>ledger.rs\<close>.  A SQL statement
    acts on a table as a map; a list of faults makes any of them fail; a transaction that is left without
    its commit restores the database.  \<open>Ledger_Correct\<close> interprets both contracts on the ledger;
    \<open>Ledger_Facts\<close>, \<open>Ledger_Commit\<close>, \<open>Ledger_Startup\<close> show its codecs, its projections and its start.
  \<^item> \<open>Store_Admissions\<close>, \<open>Store_Tasks\<close>, \<open>Store_Listing\<close>: the registry of announced projections, the
    SDK's reads and writes, the owners and the listings of \<^verbatim>\<open>store.rs\<close>; \<open>Store_Writes\<close>, \<open>Store_Pages\<close> their
    lemmas.
  \<^item> \<open>Identity\<close>, \<open>Identity_Correct\<close>: \<^verbatim>\<open>identity.rs\<close>.
  \<^item> \<open>A2A_Requests\<close>, \<open>A2A_Gates\<close>, \<open>A2A_Handler\<close>: \<^verbatim>\<open>a2a.rs\<close>, that is the checks of a request and the middleware,
    the gates of the send workflows as a step relation, and the executor and request handler over the broker,
    the ledger and the store together; \<open>A2A_Handler_Correct\<close> their lemmas.
  \<^item> \<open>Herdr\<close>: the verification of a pane, \<^verbatim>\<open>herdr.rs\<close>; the locale \<open>verifier_contract\<close> states what its callers
    rely on and is interpreted on \<open>verify\<close>.  \<open>Api\<close>: every handler, the bearer check and the router of
    \<^verbatim>\<open>api.rs\<close>, over the broker and the identity store together; an argument changes the state at every
    \<^verbatim>\<open>.await\<close>.  \<open>Broker_Agents\<close> shows which operations register agents; \<open>Api_Correct\<close>, \<open>Api_Serving\<close> and
    \<open>Api_System\<close> show by rely and guarantee that the handlers keep registrations and identities in step.
  \<^item> \<open>Server\<close>: \<^verbatim>\<open>recover_broker_state\<close> of \<^verbatim>\<open>server.rs\<close>, the order of the start and its failures.
  \<^item> \<open>Broker_Properties\<close>, \<open>Ledger_Properties\<close>, \<open>Store_Properties\<close>, \<open>Identity_Properties\<close>, \<open>A2A_Properties\<close>,
    \<open>Api_Properties\<close> and this theory: the properties, each with an instance on the data of \<open>Broker_Examples\<close>,
    \<open>Ledger_Examples\<close>, \<open>Store_Examples\<close> or \<open>A2A_Examples\<close>.

  \<^bold>\<open>What is shown.\<close>  For the broker: the invariant in every reachable state, that no request panics, that
  tasks only move forward, who may do what, the effect of every operation including that it commits
  before it shows, that a repeated request starts no second task, and that a wait ends by its deadline.  For the ledger: that it refines the table of durable tasks under any failing
  statements, that what is committed is loaded back, that rows never go back, and that starting up and
  migrating lose nothing.  For the task store: that the SDK's writes follow the ledger, that the pages of a
  listing are the listing, that an agent lists its own tasks only, and that the registry is bounded.  For
  identities: that every role gets a valid name and that names are stable and unique.  For the request
  handler: that tasks are served to their senders only, what a message must be to be sent, that executions
  are admitted once, and that the workflows of one task run one at a time and end.  For the
  private interface: that every registered agent has its identity in every state that serving requests
  reaches, that no request panics, and that the directory has one entry for each
  registration that the broker lists.  Across the components: that a crash loses no task and that no registration epoch is ever used twice.

  \<^bold>\<open>Bounds and fuel.\<close>  \<^verbatim>\<open>start_or_resume\<close> makes two attempts and the allocation of a name eight, as in the
  source.  A client following page tokens is given one page more than there are tasks, which is shown to
  be enough.  Every other loop is structural or a \<open>function\<close> with its termination proof.

  \<^bold>\<open>Parameters.\<close>  Code outside the repository is an argument: \<^verbatim>\<open>serde_json\<close>, \<^verbatim>\<open>chrono\<close> and \<^verbatim>\<open>uuid\<close> as the record
  \<open>codec\<close>, the cursor serializer as \<open>page_codec\<close>, \<^verbatim>\<open>Sha256::digest\<close>, \<^verbatim>\<open>fs::canonicalize\<close>, the functions of the A2A
  SDK as \<open>sdk_lib\<close> and its \<^verbatim>\<open>DefaultRequestHandler\<close> as the record \<open>inner\<close> of arbitrary operations;
  the JSON, HMAC, base64 and pane verification used by \<^verbatim>\<open>api.rs\<close> are the record \<open>api_env\<close>, and the
  process that runs the Herdr command is an argument of \<open>verify\<close>.  What is relied on of
  them are named hypotheses: \<open>serde_round_trip\<close> and \<open>cursor_round_trip\<close> (what was written is parsed back).

  \<^bold>\<open>Not modelled.\<close>  Poisoned locks and lost worker threads; opening the database file and validating a
  read-only copy of it (\<^verbatim>\<open>open\<close>, \<^verbatim>\<open>validate_read_only\<close> of \<^verbatim>\<open>store.rs\<close>: file descriptors, inodes and permissions);
  of \<^verbatim>\<open>api.rs\<close> and \<^verbatim>\<open>server.rs\<close> the sockets of \<^verbatim>\<open>axum\<close> and the merging of the two routers; the timeout of the Herdr
  command in \<^verbatim>\<open>herdr.rs\<close>; \<^verbatim>\<open>runtime.rs\<close> (the runtime directory and its lock files); the command line \<^verbatim>\<open>herdr-a2a-cli\<close> (processes,
  terminals, files).  These consist of calls into the operating system and into frameworks that are not
  part of the sources.
\<close>

section \<open>The broker over the ledger\<close>

lemmas ledger_history = durable_contract.history_epochs [OF ledger.durable_contract_axioms]





text \<open>
  C2: registration epochs are never handed out twice.  Over any history of one ledger, with any
  number of crashes, failed and successful recoveries, requests and registrations, the epochs of the
  registrations that were handed out are strictly increasing.
\<close>

theorem epochs_never_reused:
  assumes "history (SqlitePersistence cd) json_len running w epochs"
  shows "sorted_wrt (>) epochs"
  using ledger_history [OF assms] by simp

lemma history_restart:
  assumes "history P json_len running w es"
    and "case fst (recover P json_len now (with_clock (b_persistence w))) of Ok _ \<Rightarrow> True | _ \<Rightarrow> False"
  shows "history P json_len True (snd (recover P json_len now (with_clock (b_persistence w)))) es"
  using history.restarted [OF assms(1) prod.collapse [symmetric], of now] assms(2) by (auto split: res.splits)

lemma history_register:
  assumes "history P json_len True w es"
    and "case fst (register P json_len now i agent session w) of Ok g \<Rightarrow> rg_epoch g = e | _ \<Rightarrow> False"
  shows "history P json_len True (snd (register P json_len now i agent session w)) (e # es)"
  using history.registered [OF assms(1), of now i agent session] assms(2)
  by (cases "register P json_len now i agent session w") (auto split: res.splits)

theorem epochs_never_reused_witness:
  "\<exists>w. history (SqlitePersistence sample_codec) sample_len True w [9, 8] \<and> sorted_wrt (>) [9, 8 :: nat]"
proof -
  let ?P = "SqlitePersistence sample_codec"
  let ?recover = "\<lambda>w. snd (recover ?P sample_len 1000 (with_clock (b_persistence w)))"
  let ?register = "\<lambda>w. snd (register ?P sample_len 1000 ''r1'' (sample_agent ''alpha'') ''s1'' w)"
  let ?w = "with_clock (sample_store sample_database)"
  have "history ?P sample_len True (?recover ?w) []"
    by (rule history_restart [OF history.created]) code_simp
  then have "history ?P sample_len True (?register (?recover ?w)) [8]"
    by (rule history_register) code_simp
  then have "history ?P sample_len True (?recover (?register (?recover ?w))) [8]"
    by (rule history_restart) code_simp
  then have "history ?P sample_len True (?register (?recover (?register (?recover ?w)))) [9, 8]"
    by (rule history_register) code_simp
  with epochs_never_reused [OF this] show ?thesis by blast
qed

end
